(* ===== verification/Prelude.thy ===== *)
theory Prelude
  imports Main "HOL-Library.Word" "HOL-Library.List_Lexorder" "HOL-Library.Char_ord"
begin

text \<open>
  Shared vocabulary of the development: the names of the machine integer types, Rust's
  \<open>Result\<close>, byte strings with the \<open>str\<close> methods the sources call, and \<open>BTreeMap\<close> as a
  key-ordered association list.  A Rust \<open>String\<close> is the list of its UTF-8 bytes, an
  Isabelle \<open>char\<close> being one byte; lengths and offsets count bytes, as in Rust.
\<close>

named_theorems map_laws \<open>laws of the ordered association lists\<close>
named_theorems str_laws \<open>laws of the byte-string operations\<close>

type_synonym u32 = "32 word"
type_synonym u64 = "64 word"
type_synonym 'a result = "string + 'a"

section \<open>Results\<close>

definition is_ok :: "'e + 'a \<Rightarrow> bool" where
  "is_ok r = (case r of Inl _ \<Rightarrow> False | Inr _ \<Rightarrow> True)"

lemma is_ok_simps [simp]: "is_ok (Inr x)" "\<not> is_ok (Inl e)"
  by (simp_all add: is_ok_def)

lemma is_ok_iff: "is_ok r \<longleftrightarrow> (\<exists>x. r = Inr x)"
  by (cases r) simp_all

definition rbind :: "'e + 'a \<Rightarrow> ('a \<Rightarrow> 'e + 'b) \<Rightarrow> 'e + 'b" where
  "rbind r f = (case r of Inl e \<Rightarrow> Inl e | Inr x \<Rightarrow> f x)"

lemma rbind_simps [simp]: "rbind (Inl e) f = Inl e" "rbind (Inr x) f = f x"
  by (simp_all add: rbind_def)

lemma rbind_Inr_iff: "rbind r f = Inr y \<longleftrightarrow> (\<exists>x. r = Inr x \<and> f x = Inr y)"
  by (cases r) simp_all

lemma rbind_cong [fundef_cong]:
  assumes "r = s" and "\<And>x. s = Inr x \<Longrightarrow> f x = g x"
  shows "rbind r f = rbind s g"
  using assms by (cases s) simp_all

definition rmap :: "('a \<Rightarrow> 'b) \<Rightarrow> 'e + 'a \<Rightarrow> 'e + 'b" where
  "rmap f r = rbind r (\<lambda>x. Inr (f x))"

lemma rmap_simps [simp]: "rmap f (Inl e) = Inl e" "rmap f (Inr x) = Inr (f x)"
  by (simp_all add: rmap_def)

lemma rmap_Inr_iff: "rmap f r = Inr y \<longleftrightarrow> (\<exists>x. r = Inr x \<and> y = f x)"
  by (cases r) auto

text \<open>\<open>iter().map(f).collect::<Result<Vec<_>, _>>()\<close>: the first error wins.\<close>

fun rmap_list :: "('a \<Rightarrow> 'e + 'b) \<Rightarrow> 'a list \<Rightarrow> 'e + 'b list" where
  "rmap_list f [] = Inr []"
| "rmap_list f (x # xs) = rbind (f x) (\<lambda>y. rbind (rmap_list f xs) (\<lambda>ys. Inr (y # ys)))"

lemma rmap_list_cong [fundef_cong]:
  assumes "xs = ys" and "\<And>x. x \<in> set ys \<Longrightarrow> f x = g x"
  shows "rmap_list f xs = rmap_list g ys"
  unfolding \<open>xs = ys\<close> using assms(2) by (induction ys) simp_all

lemma rmap_list_Inr_length: "rmap_list f xs = Inr ys \<Longrightarrow> length ys = length xs"
  by (induction xs arbitrary: ys) (auto simp: rbind_Inr_iff)

lemma rmap_list_Inr_nth:
  "rmap_list f xs = Inr ys \<Longrightarrow> i < length xs \<Longrightarrow> f (xs ! i) = Inr (ys ! i)"
proof (induction xs arbitrary: ys i)
  case (Cons x xs)
  then show ?case by (cases i) (auto simp: rbind_Inr_iff)
qed simp

text \<open>\<open>iter().find_map(f)\<close>: the first \<open>Some\<close>.\<close>

fun find_map :: "('a \<Rightarrow> 'b option) \<Rightarrow> 'a list \<Rightarrow> 'b option" where
  "find_map f [] = None"
| "find_map f (x # xs) = (case f x of Some y \<Rightarrow> Some y | None \<Rightarrow> find_map f xs)"

lemma find_map_cong [fundef_cong]:
  assumes "xs = ys" and "\<And>x. x \<in> set ys \<Longrightarrow> f x = g x"
  shows "find_map f xs = find_map g ys"
  unfolding \<open>xs = ys\<close> using assms(2) by (induction ys) (auto split: option.splits)

lemma find_map_None_iff: "find_map f xs = None \<longleftrightarrow> (\<forall>x \<in> set xs. f x = None)"
  by (induction xs) (auto split: option.splits)

lemma find_map_SomeD: "find_map f xs = Some y \<Longrightarrow> \<exists>x \<in> set xs. f x = Some y"
  by (induction xs) (auto split: option.splits)

lemma find_map_append:
  "find_map f (xs @ ys) = (case find_map f xs of Some y \<Rightarrow> Some y | None \<Rightarrow> find_map f ys)"
  by (induction xs) (auto split: option.splits)

lemma find_in_append: "List.find P (xs @ ys) = (case List.find P xs of Some x \<Rightarrow> Some x | None \<Rightarrow> List.find P ys)"
  by (induction xs) auto

section \<open>Byte strings\<close>

abbreviation ellipsis :: string where
  "ellipsis \<equiv> [CHR 0xE2, CHR 0x80, CHR 0xA6]"

text \<open>
  The UTF-8 encodings of Unicode's \<open>White_Space\<close> characters, which \<open>str::trim\<close> and
  \<open>str::split_whitespace\<close> recognise.
\<close>

definition ws_chars :: "string list" where
  "ws_chars = [[CHR 0x09], [CHR 0x0A], [CHR 0x0B], [CHR 0x0C], [CHR 0x0D], [CHR 0x20],
     [CHR 0xC2, CHR 0x85], [CHR 0xC2, CHR 0xA0], [CHR 0xE1, CHR 0x9A, CHR 0x80],
     [CHR 0xE2, CHR 0x80, CHR 0x80], [CHR 0xE2, CHR 0x80, CHR 0x81],
     [CHR 0xE2, CHR 0x80, CHR 0x82], [CHR 0xE2, CHR 0x80, CHR 0x83],
     [CHR 0xE2, CHR 0x80, CHR 0x84], [CHR 0xE2, CHR 0x80, CHR 0x85],
     [CHR 0xE2, CHR 0x80, CHR 0x86], [CHR 0xE2, CHR 0x80, CHR 0x87],
     [CHR 0xE2, CHR 0x80, CHR 0x88], [CHR 0xE2, CHR 0x80, CHR 0x89],
     [CHR 0xE2, CHR 0x80, CHR 0x8A], [CHR 0xE2, CHR 0x80, CHR 0xA8],
     [CHR 0xE2, CHR 0x80, CHR 0xA9], [CHR 0xE2, CHR 0x80, CHR 0xAF],
     [CHR 0xE2, CHR 0x81, CHR 0x9F], [CHR 0xE3, CHR 0x80, CHR 0x80]]"

fun starts_with :: "string \<Rightarrow> string \<Rightarrow> bool" where
  "starts_with s [] = True"
| "starts_with [] (p # ps) = False"
| "starts_with (c # s) (p # ps) = (c = p \<and> starts_with s ps)"

lemma starts_with_iff [str_laws]: "starts_with s p \<longleftrightarrow> (\<exists>t. s = p @ t)"
  by (induction s p rule: starts_with.induct) auto

lemma starts_with_append [simp]: "starts_with (p @ t) p"
  by (auto simp: starts_with_iff)

definition ends_with :: "string \<Rightarrow> string \<Rightarrow> bool" where
  "ends_with s p = starts_with (rev s) (rev p)"

lemma ends_with_iff [str_laws]: "ends_with s p \<longleftrightarrow> (\<exists>t. s = t @ p)"
  unfolding ends_with_def starts_with_iff by (metis rev_append rev_rev_ident)

definition strip_prefix :: "string \<Rightarrow> string \<Rightarrow> string option" where
  "strip_prefix p s = (if starts_with s p then Some (drop (length p) s) else None)"

lemma strip_prefix_append [simp]: "strip_prefix p (p @ t) = Some t"
  by (simp add: strip_prefix_def)

lemma strip_prefix_Some_iff: "strip_prefix p s = Some t \<longleftrightarrow> s = p @ t"
  by (auto simp: strip_prefix_def starts_with_iff)

text \<open>Bytes taken by the white space character a string starts with (0: none).\<close>

definition ws_len :: "string \<Rightarrow> nat" where
  "ws_len s = (case filter (starts_with s) ws_chars of [] \<Rightarrow> 0 | w # _ \<Rightarrow> length w)"

function trim_start :: "string \<Rightarrow> string" where
  "trim_start s = (if ws_len s = 0 then s else trim_start (drop (ws_len s) s))"
  by pat_completeness auto
termination
proof (relation "measure length", simp)
  fix s :: string assume "ws_len s \<noteq> 0"
  then have "s \<noteq> []" by (auto simp: ws_len_def ws_chars_def)
  with \<open>ws_len s \<noteq> 0\<close> show "(drop (ws_len s) s, s) \<in> measure length" by auto
qed

declare trim_start.simps [simp del]

definition ws_len_end :: "string \<Rightarrow> nat" where
  "ws_len_end s = (case filter (\<lambda>w. ends_with s w) ws_chars of [] \<Rightarrow> 0 | w # _ \<Rightarrow> length w)"

function trim_end :: "string \<Rightarrow> string" where
  "trim_end s = (if ws_len_end s = 0 then s else trim_end (take (length s - ws_len_end s) s))"
  by pat_completeness auto
termination
proof (relation "measure length", simp)
  fix s :: string assume "ws_len_end s \<noteq> 0"
  then have "s \<noteq> []" by (auto simp: ws_len_end_def ends_with_def ws_chars_def)
  with \<open>ws_len_end s \<noteq> 0\<close> show "(take (length s - ws_len_end s) s, s) \<in> measure length" by auto
qed

declare trim_end.simps [simp del]

definition trim :: "string \<Rightarrow> string" where
  "trim s = trim_end (trim_start s)"

definition is_graph :: "char \<Rightarrow> bool" where
  "is_graph c = (let n = of_char c :: nat in 33 \<le> n \<and> n \<le> 126)"

lemma ws_chars_not_graph: "w \<in> set ws_chars \<Longrightarrow> w \<noteq> [] \<and> (\<forall>c \<in> set w. \<not> is_graph c)"
proof -
  have "\<forall>w \<in> set ws_chars. w \<noteq> [] \<and> (\<forall>c \<in> set w. \<not> is_graph c)" by code_simp
  then show "w \<in> set ws_chars \<Longrightarrow> w \<noteq> [] \<and> (\<forall>c \<in> set w. \<not> is_graph c)" by blast
qed

lemma no_ws_graph: "\<forall>c \<in> set s. is_graph c \<Longrightarrow> w \<in> set ws_chars \<Longrightarrow> \<not> starts_with s w"
  using ws_chars_not_graph [of w] by (cases w) (auto simp: starts_with_iff)

lemma trim_graph:
  assumes "\<forall>c \<in> set s. is_graph c"
  shows "trim s = s"
proof -
  have "ws_len s = 0" using no_ws_graph [OF assms] by (simp add: ws_len_def cong: filter_cong)
  then have start: "trim_start s = s" by (subst trim_start.simps) simp
  have "\<not> ends_with s w" if "w \<in> set ws_chars" for w
    using ws_chars_not_graph [OF that] assms by (cases w) (auto simp: ends_with_iff)
  then have "ws_len_end s = 0" by (simp add: ws_len_end_def cong: filter_cong)
  then have "trim_end s = s" by (subst trim_end.simps) simp
  then show ?thesis by (simp add: trim_def start)
qed

definition lower_byte :: "char \<Rightarrow> char" where
  "lower_byte c = (let n = of_char c :: nat in if 65 \<le> n \<and> n \<le> 90 then char_of (n + 32) else c)"

definition to_ascii_lowercase :: "string \<Rightarrow> string" where
  "to_ascii_lowercase s = map lower_byte s"

definition is_ascii_digit :: "char \<Rightarrow> bool" where
  "is_ascii_digit c = (let n = of_char c :: nat in 48 \<le> n \<and> n \<le> 57)"

definition is_ascii_alpha :: "char \<Rightarrow> bool" where
  "is_ascii_alpha c = (let n = of_char c :: nat in (65 \<le> n \<and> n \<le> 90) \<or> (97 \<le> n \<and> n \<le> 122))"

definition is_ascii_alnum :: "char \<Rightarrow> bool" where
  "is_ascii_alnum c = (is_ascii_digit c \<or> is_ascii_alpha c)"

text \<open>A UTF-8 continuation byte, \<open>10xxxxxx\<close>: it starts no character.\<close>

definition is_cont :: "char \<Rightarrow> bool" where
  "is_cont c = (let n = of_char c :: nat in 128 \<le> n \<and> n < 192)"

text \<open>\<open>String::pop\<close>: drops the last character, which may be several bytes.\<close>

definition str_pop :: "string \<Rightarrow> string" where
  "str_pop s = butlast (rev (dropWhile is_cont (rev s)))"

text \<open>\<open>chars()\<close>, every character as the bytes that encode it.\<close>

function chars_of :: "string \<Rightarrow> string list" where
  "chars_of [] = []"
| "chars_of (c # s) = (c # takeWhile is_cont s) # chars_of (dropWhile is_cont s)"
  by pat_completeness auto
termination
  by (relation "measure length") (auto simp: length_dropWhile_le le_imp_less_Suc)

lemma concat_chars_of [simp]: "concat (chars_of s) = s"
  by (induction s rule: chars_of.induct) simp_all

lemma chars_of_app:
  "s = [] \<or> \<not> is_cont (hd s) \<Longrightarrow> chars_of (t @ s) = chars_of t @ chars_of s"
proof (induction t rule: chars_of.induct)
  case (2 c t)
  show ?case
  proof (cases "dropWhile is_cont t = []")
    case True
    then have all: "\<forall>x \<in> set t. is_cont x" by (simp add: dropWhile_eq_Nil_conv)
    then have "takeWhile is_cont (t @ s) = t @ takeWhile is_cont s" "dropWhile is_cont (t @ s) = dropWhile is_cont s"
      by (simp_all add: takeWhile_append2 dropWhile_append2)
    moreover have "takeWhile is_cont s = []" "dropWhile is_cont s = s" using 2(2) by (cases s; simp)+
    moreover have "chars_of (dropWhile is_cont t) = []" unfolding True by simp
    ultimately show ?thesis using all by (simp add: takeWhile_eq_all_conv [THEN iffD2])
  next
    case False
    then obtain x where x: "x \<in> set t" "\<not> is_cont x" by (auto simp: dropWhile_eq_Nil_conv)
    then have "takeWhile is_cont (t @ s) = takeWhile is_cont t" "dropWhile is_cont (t @ s) = dropWhile is_cont t @ s"
      by (simp_all add: takeWhile_append1 dropWhile_append1)
    then show ?thesis using 2 by simp
  qed
qed simp

lemma chars_of_ne: "ch \<in> set (chars_of s) \<Longrightarrow> ch \<noteq> []"
  by (induction s rule: chars_of.induct) auto

lemma chars_of_char: "ch \<in> set (chars_of s) \<Longrightarrow> s = [] \<or> \<not> is_cont (hd s) \<Longrightarrow> chars_of ch = [ch] \<and> \<not> is_cont (hd ch)"
proof (induction s rule: chars_of.induct)
  case (2 c s)
  show ?case
  proof (cases "ch = c # takeWhile is_cont s")
    case True
    have "takeWhile is_cont (takeWhile is_cont s) = takeWhile is_cont s" and d: "dropWhile is_cont (takeWhile is_cont s) = []"
      by (induction s) auto
    moreover have "chars_of (dropWhile is_cont (takeWhile is_cont s)) = []" unfolding d by simp
    ultimately show ?thesis using True 2(3) by simp
  next
    case False
    then have "ch \<in> set (chars_of (dropWhile is_cont s))" using 2(2) by simp
    moreover have "dropWhile is_cont s = [] \<or> \<not> is_cont (hd (dropWhile is_cont s))"
      using hd_dropWhile by blast
    ultimately show ?thesis using 2(1) by blast
  qed
qed simp

text \<open>\<open>contains\<close>, \<open>find\<close> and \<open>replace\<close> with a string pattern.\<close>

fun str_find :: "string \<Rightarrow> string \<Rightarrow> nat option" where
  "str_find [] p = (if p = [] then Some 0 else None)"
| "str_find (c # s) p = (if starts_with (c # s) p then Some 0 else map_option Suc (str_find s p))"

definition str_contains :: "string \<Rightarrow> string \<Rightarrow> bool" where
  "str_contains s p = (str_find s p \<noteq> None)"

text \<open>\<open>replace\<close> for a non-empty pattern: left to right, no overlap.\<close>

function str_replace :: "string \<Rightarrow> string \<Rightarrow> string \<Rightarrow> string" where
  "str_replace p r s =
     (if p = [] then s
      else case s of [] \<Rightarrow> []
           | c # cs \<Rightarrow> if starts_with s p then r @ str_replace p r (drop (length p) s)
                       else c # str_replace p r cs)"
  by pat_completeness auto
termination
  by (relation "measure (\<lambda>(p, r, s). length s)") auto

declare str_replace.simps [simp del]

text \<open>\<open>split_whitespace\<close>: the maximal non-white-space pieces.\<close>

function split_ws_acc :: "string \<Rightarrow> string \<Rightarrow> string list" where
  "split_ws_acc acc s =
     (if s = [] then (if acc = [] then [] else [acc])
      else if ws_len s = 0 then split_ws_acc (acc @ [hd s]) (tl s)
      else (if acc = [] then [] else [acc]) @ split_ws_acc [] (drop (ws_len s) s))"
  by pat_completeness auto
termination
  by (relation "measure (\<lambda>(acc, s). length s)") auto

declare split_ws_acc.simps [simp del]

definition split_whitespace :: "string \<Rightarrow> string list" where
  "split_whitespace s = split_ws_acc [] s"

fun join :: "string \<Rightarrow> string list \<Rightarrow> string" where
  "join sep [] = []"
| "join sep [x] = x"
| "join sep (x # y # ys) = x @ sep @ join sep (y # ys)"

text \<open>Decimal output, and \<open>str::parse\<close> for the unsigned integer types.\<close>

fun dec :: "nat \<Rightarrow> string" where
  "dec n = (if n < 10 then [char_of (48 + n)] else dec (n div 10) @ [char_of (48 + n mod 10)])"

declare dec.simps [simp del]

fun digits_val :: "nat \<Rightarrow> string \<Rightarrow> nat option" where
  "digits_val acc [] = Some acc"
| "digits_val acc (c # s) =
     (if is_ascii_digit c then digits_val (10 * acc + (of_char c - 48)) s else None)"

definition parse_unsigned :: "nat \<Rightarrow> string \<Rightarrow> nat option" where
  \<comment> \<open>an optional \<open>+\<close>, at least one digit, and a value below the bound\<close>
  "parse_unsigned bound s =
     (let body = (case s of [] \<Rightarrow> [] | c # t \<Rightarrow> if c = CHR ''+'' then t else s)
      in if body = [] then None
         else case digits_val 0 body of
                None \<Rightarrow> None
              | Some n \<Rightarrow> if n < bound then Some n else None)"

lemma dec_nonempty [simp]: "dec n \<noteq> []"
  by (subst dec.simps) simp

lemma digits_val_append:
  "digits_val acc (s @ t) = (case digits_val acc s of None \<Rightarrow> None | Some a \<Rightarrow> digits_val a t)"
  by (induction s arbitrary: acc) auto

lemma of_char_digit: "n < 10 \<Longrightarrow> (of_char (char_of (48 + n :: nat)) :: nat) = 48 + n"
  by (simp add: of_char_of)

lemma is_ascii_digit_char_of [simp]: "n < 10 \<Longrightarrow> is_ascii_digit (char_of (48 + n :: nat))"
  by (simp add: is_ascii_digit_def of_char_digit Let_def)

lemma digits_val_dec: "digits_val 0 (dec n) = Some n"
proof (induction n rule: dec.induct)
  case (1 n)
  show ?case
  proof (cases "n < 10")
    case True
    then show ?thesis by (subst dec.simps) (simp add: of_char_digit)
  next
    case False
    have "n mod 10 < 10" by simp
    then show ?thesis using False "1.IH"
      by (subst dec.simps) (simp add: digits_val_append of_char_digit)
  qed
qed

lemma dec_digits: "\<forall>c \<in> set (dec n). is_ascii_digit c"
proof (induction n rule: dec.induct)
  case (1 n)
  then show ?case by (subst dec.simps) auto
qed

lemma parse_unsigned_dec: "n < b \<Longrightarrow> parse_unsigned b (dec n) = Some n"
proof -
  assume "n < b"
  obtain c t where ct: "dec n = c # t" by (cases "dec n") auto
  then have "is_ascii_digit c" using dec_digits [of n] by simp
  then have "c \<noteq> CHR ''+''" by (auto simp: is_ascii_digit_def)
  then show ?thesis using ct \<open>n < b\<close> digits_val_dec [of n] by (simp add: parse_unsigned_def)
qed

lemma dec_inj: "dec m = dec n \<longleftrightarrow> m = n"
proof
  assume "dec m = dec n"
  then have "digits_val 0 (dec m) = digits_val 0 (dec n)" by (rule arg_cong)
  then show "m = n" unfolding digits_val_dec by simp
qed simp

text \<open>
  \<open>{:?}\<close> of a string: quotes, backslash and the control bytes are escaped; characters
  beyond ASCII are written as they are, as \<open>Debug\<close> does for the printable ones.
\<close>

definition hex_digit :: "nat \<Rightarrow> char" where
  "hex_digit n = (if n < 10 then char_of (48 + n) else char_of (87 + n))"

definition debug_byte :: "char \<Rightarrow> string" where
  "debug_byte c =
     (let n = of_char c :: nat in
      if n = 34 then [CHR 0x5C, CHR 0x22] else if n = 92 then [CHR 0x5C, CHR 0x5C]
      else if n = 0 then [CHR 0x5C, CHR ''0''] else if n = 9 then [CHR 0x5C, CHR ''t'']
      else if n = 10 then [CHR 0x5C, CHR ''n''] else if n = 13 then [CHR 0x5C, CHR ''r'']
      else if n < 16 then [CHR 0x5C] @ ''u{'' @ [hex_digit n] @ ''}''
      else if n < 32 \<or> n = 127 then [CHR 0x5C] @ ''u{'' @ [hex_digit (n div 16), hex_digit (n mod 16)] @ ''}''
      else [c])"

definition debug_str :: "string \<Rightarrow> string" where
  "debug_str s = [CHR 0x22] @ concat (map debug_byte s) @ [CHR 0x22]"

definition debug_opt :: "('a \<Rightarrow> string) \<Rightarrow> 'a option \<Rightarrow> string" where
  "debug_opt f v = (case v of None \<Rightarrow> ''None'' | Some x \<Rightarrow> ''Some('' @ f x @ '')'')"

definition show_bool :: "bool \<Rightarrow> string" where
  "show_bool b = (if b then ''true'' else ''false'')"

section \<open>Ordered maps\<close>

text \<open>\<open>BTreeMap\<close>: an association list in strictly increasing key order.\<close>

type_synonym ('k, 'v) btmap = "('k \<times> 'v) list"

fun bt_insert :: "'k::linorder \<Rightarrow> 'v \<Rightarrow> ('k, 'v) btmap \<Rightarrow> ('k, 'v) btmap" where
  "bt_insert k v [] = [(k, v)]"
| "bt_insert k v ((k', v') # m) =
     (if k < k' then (k, v) # (k', v') # m
      else if k = k' then (k, v) # m
      else (k', v') # bt_insert k v m)"

definition bt_ok :: "('k::linorder, 'v) btmap \<Rightarrow> bool" where
  "bt_ok m = (sorted (map fst m) \<and> distinct (map fst m))"

lemma bt_ok_Nil [simp, map_laws]: "bt_ok []"
  by (simp add: bt_ok_def)

lemma bt_keys_insert [simp, map_laws]: "set (map fst (bt_insert k v m)) = insert k (set (map fst m))"
  by (induction k v m rule: bt_insert.induct) auto

lemma bt_insert_set: "set (bt_insert k v m) \<subseteq> insert (k, v) (set m)"
  by (induction k v m rule: bt_insert.induct) auto

lemma bt_ok_insert [map_laws]: "bt_ok m \<Longrightarrow> bt_ok (bt_insert k v m)"
proof (induction k v m rule: bt_insert.induct)
  case (2 k v k' v' m)
  have keys: "fst ` set (bt_insert k v m) = insert k (fst ` set m)"
    using bt_keys_insert [of k v m] by simp
  from 2 show ?case unfolding bt_ok_def by (auto simp: keys)
qed (simp add: bt_ok_def)

lemma bt_lookup_insert [map_laws]: "bt_ok m \<Longrightarrow> map_of (bt_insert k v m) = (map_of m)(k \<mapsto> v)"
proof (induction k v m rule: bt_insert.induct)
  case (2 k v k' v' m)
  then show ?case unfolding bt_ok_def by (auto simp: fun_eq_iff)
qed simp

lemma bt_ok_ConsD: "bt_ok ((k, v) # m) \<Longrightarrow> bt_ok m"
  by (simp add: bt_ok_def)

text \<open>Two ordered maps with the same lookups are the same list.\<close>

lemma bt_ext:
  assumes "bt_ok m" "bt_ok n" "map_of m = map_of n"
  shows "m = n"
proof -
  have keys: "set (map fst m) = set (map fst n)"
    using assms(3) by (metis dom_map_of_conv_image_fst list.set_map)
  then have k: "map fst m = map fst n"
    using assms(1,2) unfolding bt_ok_def by (metis sorted_distinct_set_unique)
  then have len: "length m = length n" by (metis length_map)
  show ?thesis
  proof (rule nth_equalityI [OF len])
    fix i assume i: "i < length m"
    then have "fst (m ! i) = fst (n ! i)" using k len by (metis nth_map)
    moreover have "map_of m (fst (m ! i)) = Some (snd (m ! i))"
      using assms(1) i unfolding bt_ok_def by (simp add: map_of_eq_Some_iff)
    moreover have "map_of n (fst (n ! i)) = Some (snd (n ! i))"
      using assms(2) i len unfolding bt_ok_def by (simp add: map_of_eq_Some_iff)
    ultimately show "m ! i = n ! i" using assms(3) by (metis option.inject prod_eqI)
  qed
qed

end
