(* ===== verification/Json.thy ===== *)
theory Json
  imports Prelude Complex_Main
begin

text \<open>
  \<open>serde_json::Value\<close>, the wire's data.  An object is a \<open>BTreeMap\<close> (the sources do not
  enable \<open>preserve_order\<close>); a number is an integer or a binary fraction, and the two are
  never equal, as in \<open>serde_json\<close>.
\<close>

datatype json =
    JNull
  | JBool bool
  | JInt int
  | JFloat rat
  | JStr string
  | JArr "json list"
  | JObj "(string \<times> json) list"

section \<open>Accessors\<close>

fun json_get :: "json \<Rightarrow> string \<Rightarrow> json option" where
  "json_get (JObj m) k = map_of m k"
| "json_get _ k = None"

fun as_str :: "json \<Rightarrow> string option" where
  "as_str (JStr s) = Some s"
| "as_str _ = None"

fun as_bool :: "json \<Rightarrow> bool option" where
  "as_bool (JBool b) = Some b"
| "as_bool _ = None"

fun as_u64 :: "json \<Rightarrow> u64 option" where
  "as_u64 (JInt n) = (if 0 \<le> n \<and> n < 2 ^ 64 then Some (word_of_int n) else None)"
| "as_u64 _ = None"

fun as_array :: "json \<Rightarrow> json list option" where
  "as_array (JArr xs) = Some xs"
| "as_array _ = None"

text \<open>\<open>json!({ k: v, ... })\<close>: the entries are inserted one after the other.\<close>

definition json_obj :: "(string \<times> json) list \<Rightarrow> json" where
  "json_obj kvs = JObj (fold (\<lambda>(k, v) m. bt_insert k v m) kvs [])"

text \<open>\<open>serde_json::from_value::<Vec<String>>\<close>.\<close>

fun strings_of_json :: "json \<Rightarrow> string list option" where
  "strings_of_json (JArr xs) = those (map as_str xs)"
| "strings_of_json _ = None"

definition json_of_u64 :: "u64 \<Rightarrow> json" where
  "json_of_u64 n = JInt (uint n)"

lemma as_u64_json_of_u64 [simp]: "as_u64 (json_of_u64 n) = Some n"
  using uint_lt2p [of n] by (simp add: json_of_u64_def)

lemma strings_of_json_strs [simp]: "strings_of_json (JArr (map JStr xs)) = Some xs"
  by (induction xs) simp_all

end
