(* ===== verification/Float32.thy ===== *)
theory Float32
  imports Json
begin

text \<open>
  Rust's \<open>f32\<close> (IEEE 754 binary32, round to nearest even): not-a-number, the two
  infinities, and the finite values as exact rationals.  The sign of zero is not kept; the
  sources never divide by a negative zero, and \<open>-0.0\<close> and \<open>0.0\<close> compare equal.
\<close>

datatype f32 = F32_NaN | F32_Inf bool | F32 rat  \<comment> \<open>\<open>F32_Inf True\<close> is minus infinity\<close>

section \<open>Rounding\<close>

definition round_even :: "rat \<Rightarrow> int" where
  "round_even q =
     (let f = \<lfloor>q\<rfloor>; r = q - of_int f in
      if r < 1 / 2 then f else if 1 / 2 < r then f + 1 else if even f then f else f + 1)"

text \<open>The number of halvings that bring \<open>k\<close> below \<open>2 ^ 24\<close>: the exponent of the last place.\<close>

fun ulp_shift :: "nat \<Rightarrow> rat \<Rightarrow> nat" where
  "ulp_shift 0 k = 0"
| "ulp_shift (Suc n) k = (if k < 2 ^ 24 then 0 else Suc (ulp_shift n (k / 2)))"

definition f32_round :: "rat \<Rightarrow> f32" where
  "f32_round q =
     (let k = q * 2 ^ 149;
          s = ulp_shift 300 \<bar>k\<bar>;
          v = of_int (round_even (k / 2 ^ s)) * 2 ^ s / 2 ^ 149
      in if s = 300 \<or> 2 ^ 128 \<le> \<bar>v\<bar> then F32_Inf (q < 0) else F32 v)"

lemma round_even_of_int [simp]: "round_even (of_int i) = i"
  by (simp add: round_even_def Let_def)

lemma ulp_shift_le: "k < 2 ^ 24 * 2 ^ j \<Longrightarrow> ulp_shift n k \<le> j"
proof (induction n k arbitrary: j rule: ulp_shift.induct)
  case (2 n k)
  then show ?case
  proof (cases j)
    case (Suc j')
    then have "k / 2 < 2 ^ 24 * 2 ^ j'" using "2.prems" by simp
    then show ?thesis using Suc "2.IH" by auto
  qed simp
qed simp

text \<open>Dyadic numbers with a numerator of magnitude below \<open>2 ^ 24\<close> are represented exactly.\<close>

lemma f32_round_dyadic:
  assumes "\<bar>i\<bar> < 2 ^ 24" "j \<le> 149"
  shows "f32_round (of_int i / 2 ^ j) = F32 (of_int i / 2 ^ j)"
proof -
  define k :: rat where "k = of_int i * 2 ^ (149 - j)"
  define s where "s = ulp_shift 300 \<bar>k\<bar>"
  have i: "\<bar>of_int i :: rat\<bar> < 2 ^ 24"
    using assms(1) by (metis of_int_abs of_int_less_iff of_int_numeral of_int_power)
  have "(2::rat) ^ 149 = 2 ^ (149 - j) * 2 ^ j"
    using assms(2) by (metis le_add_diff_inverse2 power_add)
  note split = this
  have kq: "of_int i / 2 ^ j * 2 ^ 149 = k"
    unfolding k_def split by (simp del: power_numeral)
  have "\<bar>k\<bar> < 2 ^ 24 * 2 ^ (149 - j)" using i by (simp add: k_def abs_mult)
  then have s: "s \<le> 149 - j" unfolding s_def by (rule ulp_shift_le)
  then have P: "(2::rat) ^ (149 - j) = 2 ^ (149 - j - s) * 2 ^ s"
    by (metis le_add_diff_inverse2 power_add)
  have ks: "k / 2 ^ s = of_int (i * 2 ^ (149 - j - s))"
    unfolding k_def P by simp
  have "of_int (round_even (k / 2 ^ s)) * 2 ^ s / 2 ^ 149 = k / (2 ^ 149 :: rat)"
    unfolding ks round_even_of_int unfolding k_def P by simp
  also have "k / 2 ^ 149 = of_int i / 2 ^ j" unfolding kq [symmetric] by simp
  finally have v: "of_int (round_even (k / 2 ^ s)) * 2 ^ s / 2 ^ 149 = (of_int i / 2 ^ j :: rat)" .
  have "\<bar>of_int i / 2 ^ j :: rat\<bar> \<le> \<bar>of_int i\<bar>"
    using one_le_power [of "2 :: rat" j] by (simp add: abs_divide divide_le_eq mult_le_cancel_left1)
  then have "\<bar>of_int i / 2 ^ j :: rat\<bar> < 2 ^ 128" using i by simp
  then show ?thesis
    using s v assms(2) unfolding f32_round_def Let_def kq s_def [symmetric] by simp
qed

lemma f32_round_of_int:
  assumes "\<bar>i\<bar> < 2 ^ 24"
  shows "f32_round (of_int i) = F32 (of_int i)"
  using f32_round_dyadic [OF assms, of 0] by simp

lemma f32_round_0 [simp]: "f32_round 0 = F32 0"
  using f32_round_of_int [of 0] by simp

section \<open>Operations\<close>

fun f32_lt :: "f32 \<Rightarrow> f32 \<Rightarrow> bool" where
  "f32_lt (F32 a) (F32 b) = (a < b)"
| "f32_lt (F32_Inf n) (F32 b) = n"
| "f32_lt (F32 a) (F32_Inf n) = (\<not> n)"
| "f32_lt (F32_Inf m) (F32_Inf n) = (m \<and> \<not> n)"
| "f32_lt _ _ = False"

abbreviation f32_gt :: "f32 \<Rightarrow> f32 \<Rightarrow> bool" where
  "f32_gt a b \<equiv> f32_lt b a"

fun f32_eq :: "f32 \<Rightarrow> f32 \<Rightarrow> bool" where
  "f32_eq F32_NaN _ = False"
| "f32_eq _ F32_NaN = False"
| "f32_eq a b = (a = b)"

fun f32_neg :: "f32 \<Rightarrow> f32" where
  "f32_neg (F32 a) = F32 (- a)"
| "f32_neg (F32_Inf n) = F32_Inf (\<not> n)"
| "f32_neg F32_NaN = F32_NaN"

fun f32_add :: "f32 \<Rightarrow> f32 \<Rightarrow> f32" where
  "f32_add (F32 a) (F32 b) = f32_round (a + b)"
| "f32_add (F32_Inf m) (F32_Inf n) = (if m = n then F32_Inf m else F32_NaN)"
| "f32_add (F32_Inf m) (F32 b) = F32_Inf m"
| "f32_add (F32 a) (F32_Inf n) = F32_Inf n"
| "f32_add _ _ = F32_NaN"

definition f32_sub :: "f32 \<Rightarrow> f32 \<Rightarrow> f32" where
  "f32_sub a b = f32_add a (f32_neg b)"

fun f32_mul :: "f32 \<Rightarrow> f32 \<Rightarrow> f32" where
  "f32_mul (F32 a) (F32 b) = f32_round (a * b)"
| "f32_mul (F32_Inf m) (F32_Inf n) = F32_Inf (m \<noteq> n)"
| "f32_mul (F32_Inf m) (F32 b) = (if b = 0 then F32_NaN else F32_Inf (m \<noteq> (b < 0)))"
| "f32_mul (F32 a) (F32_Inf n) = (if a = 0 then F32_NaN else F32_Inf (n \<noteq> (a < 0)))"
| "f32_mul _ _ = F32_NaN"

fun f32_div :: "f32 \<Rightarrow> f32 \<Rightarrow> f32" where
  "f32_div (F32 a) (F32 b) =
     (if b = 0 then (if a = 0 then F32_NaN else F32_Inf (a < 0)) else f32_round (a / b))"
| "f32_div (F32_Inf m) (F32 b) = F32_Inf (m \<noteq> (b < 0))"
| "f32_div (F32 a) (F32_Inf n) = F32 0"
| "f32_div _ _ = F32_NaN"

text \<open>\<open>f32::min\<close> and \<open>f32::max\<close>: a not-a-number operand is ignored.\<close>

fun f32_min :: "f32 \<Rightarrow> f32 \<Rightarrow> f32" where
  "f32_min F32_NaN b = b"
| "f32_min a F32_NaN = a"
| "f32_min a b = (if f32_lt b a then b else a)"

fun f32_max :: "f32 \<Rightarrow> f32 \<Rightarrow> f32" where
  "f32_max F32_NaN b = b"
| "f32_max a F32_NaN = a"
| "f32_max a b = (if f32_lt a b then b else a)"

definition f32_of_int :: "int \<Rightarrow> f32" where
  "f32_of_int i = f32_round (of_int i)"

text \<open>\<open>round()\<close> is half away from zero; \<open>as i64\<close> and \<open>as u32\<close> saturate, NaN gives 0.\<close>

definition round_half_away :: "rat \<Rightarrow> int" where
  "round_half_away q = (if q < 0 then - \<lfloor>- q + 1 / 2\<rfloor> else \<lfloor>q + 1 / 2\<rfloor>)"

fun f32_round_to_int :: "int \<Rightarrow> int \<Rightarrow> f32 \<Rightarrow> int" where
  "f32_round_to_int lo hi (F32 q) = max lo (min hi (round_half_away q))"
| "f32_round_to_int lo hi (F32_Inf n) = (if n then lo else hi)"
| "f32_round_to_int lo hi F32_NaN = 0"

lemma f32_of_int_exact [simp]: "\<bar>i\<bar> < 2 ^ 24 \<Longrightarrow> f32_of_int i = F32 (of_int i)"
  by (simp only: f32_of_int_def f32_round_of_int)

lemma f32_add_int:
  assumes "\<bar>i + j\<bar> < 2 ^ 24"
  shows "f32_add (F32 (of_int i)) (F32 (of_int j)) = F32 (of_int (i + j))"
  using f32_round_of_int [OF assms] by simp

lemma f32_sub_int:
  assumes "\<bar>i - j\<bar> < 2 ^ 24"
  shows "f32_sub (F32 (of_int i)) (F32 (of_int j)) = F32 (of_int (i - j))"
  using f32_round_of_int [OF assms] by (simp add: f32_sub_def)

lemma f32_min_int: "f32_min (F32 (of_int i)) (F32 (of_int j)) = F32 (of_int (min i j))"
  by (auto simp: min_def)

lemma f32_max_int: "f32_max (F32 (of_int i)) (F32 (of_int j)) = F32 (of_int (max i j))"
  by (auto simp: max_def)

lemmas f32_int_arith = f32_add_int f32_sub_int f32_min_int f32_max_int

lemma f32_lt_irrefl [simp]: "\<not> f32_lt a a"
  by (cases a) simp_all

lemma f32_lt_trans: "f32_lt a b \<Longrightarrow> f32_lt b c \<Longrightarrow> f32_lt a c"
  by (cases a; cases b; cases c) auto

section \<open>On the wire\<close>

text \<open>A number that is not finite serializes as \<open>null\<close>, and \<open>null\<close> is no \<open>f32\<close>.\<close>

fun json_of_f32 :: "f32 \<Rightarrow> json" where
  "json_of_f32 (F32 q) = JFloat q"
| "json_of_f32 _ = JNull"

fun f32_of_json :: "json \<Rightarrow> f32 option" where
  "f32_of_json (JFloat q) = Some (f32_round q)"
| "f32_of_json (JInt n) = Some (f32_round (of_int n))"
| "f32_of_json _ = None"

text \<open>The rationals that are \<open>f32\<close> values.\<close>

definition is_f32 :: "rat \<Rightarrow> bool" where
  "is_f32 q = (f32_round q = F32 q)"

lemma f32_of_json_of_f32: "is_f32 q \<Longrightarrow> f32_of_json (json_of_f32 (F32 q)) = Some (F32 q)"
  by (simp add: is_f32_def)

lemma is_f32_of_int: "\<bar>i\<bar> < 2 ^ 24 \<Longrightarrow> is_f32 (of_int i)"
  by (simp only: is_f32_def f32_round_of_int)

end
