(* ===== verification/Protocol.thy ===== *)
theory Protocol
  imports Float32
begin

text \<open>
  \<open>crates/gpui-agent/src/protocol.rs\<close>: the enumerations of the protocol, the operations,
  the assert specification and the request envelope, with the constructors and queries
  of \<open>impl Op\<close> and \<open>impl Request\<close>.
\<close>

definition PROTOCOL_VERSION :: u32 where
  "PROTOCOL_VERSION = 2"

section \<open>Enumerations\<close>

datatype platform_kind = Desktop | Headless | Web | Mobile

fun platform_as_str :: "platform_kind \<Rightarrow> string" where
  "platform_as_str Desktop = ''desktop''"
| "platform_as_str Headless = ''headless''"
| "platform_as_str Web = ''web''"
| "platform_as_str Mobile = ''mobile''"

datatype delivery_mode = Semantic | Virtual

fun delivery_as_str :: "delivery_mode \<Rightarrow> string" where
  "delivery_as_str Semantic = ''semantic''"
| "delivery_as_str Virtual = ''virtual''"

definition is_semantic :: "delivery_mode \<Rightarrow> bool" where
  "is_semantic d = (d = Semantic)"

definition is_virtual :: "delivery_mode \<Rightarrow> bool" where
  "is_virtual d = (d = Virtual)"

definition delivery_from_str :: "string \<Rightarrow> delivery_mode result" where
  "delivery_from_str s =
     (let l = to_ascii_lowercase (trim s) in
      if l = ''semantic'' \<or> l = '''' then Inr Semantic
      else if l = ''virtual'' then Inr Virtual
      else Inl (''unknown delivery `'' @ l @ ''` (want semantic or virtual)''))"

datatype keybinding_scope = Focused | Global

fun scope_as_str :: "keybinding_scope \<Rightarrow> string" where
  "scope_as_str Focused = ''focused''"
| "scope_as_str Global = ''global''"

definition scope_from_str :: "string \<Rightarrow> keybinding_scope result" where
  "scope_from_str s =
     (let l = to_ascii_lowercase (trim s) in
      if l = ''focused'' then Inr Focused
      else if l = ''global'' then Inr Global
      else Inl (''unknown keybinding scope `'' @ l @ ''` (want focused or global)''))"

datatype screenshot_mode = Viewport | Scrolled

fun mode_as_str :: "screenshot_mode \<Rightarrow> string" where
  "mode_as_str Viewport = ''viewport''"
| "mode_as_str Scrolled = ''scrolled''"

definition is_viewport :: "screenshot_mode \<Rightarrow> bool" where
  "is_viewport m = (m = Viewport)"

definition is_scrolled :: "screenshot_mode \<Rightarrow> bool" where
  "is_scrolled m = (m = Scrolled)"

definition mode_from_str :: "string \<Rightarrow> screenshot_mode result" where
  "mode_from_str s =
     (let l = to_ascii_lowercase (trim s) in
      if l = ''viewport'' \<or> l = '''' then Inr Viewport
      else if l = ''scrolled'' then Inr Scrolled
      else Inl (''unknown screenshot mode `'' @ l @ ''` (want viewport or scrolled)''))"

datatype snapshot_format = FmtJson | FmtCompact

section \<open>Operations\<close>

record assert_spec =
  spec_target :: string
  spec_name :: "string option"
  spec_value :: "string option"
  spec_role :: "string option"
  spec_checked :: "bool option"
  spec_exists :: "bool option"
  spec_visible :: "bool option"
  spec_in_viewport :: "bool option"

definition default_spec :: assert_spec where
  "default_spec = \<lparr>spec_target = '''', spec_name = None, spec_value = None, spec_role = None,
     spec_checked = None, spec_exists = None, spec_visible = None, spec_in_viewport = None\<rparr>"

datatype op =
    OpHello
  | OpSnapshot "u64 option" "snapshot_format option" "bool option"
      \<comment> \<open>\<open>since\<close>, \<open>format\<close>, \<open>fingerprints\<close>\<close>
  | OpRevision
  | OpEvents "u64 option" "u32 option" \<comment> \<open>\<open>since\<close>, \<open>limit\<close>\<close>
  | OpClick (op_target: string) delivery_mode "u64 option"
      \<comment> \<open>\<open>target\<close>, \<open>delivery\<close>, \<open>expect_fingerprint\<close>\<close>
  | OpType (op_target: string) string delivery_mode "u64 option" \<comment> \<open>\<open>text\<close> second\<close>
  | OpSetValue (op_target: string) string "u64 option" \<comment> \<open>\<open>value\<close> second\<close>
  | OpKey (op_target: string) string delivery_mode "u64 option" \<comment> \<open>\<open>key\<close> second\<close>
  | OpKeybinding string "string option" keybinding_scope bool bool
      \<comment> \<open>\<open>binding\<close>, \<open>chord\<close>, \<open>scope\<close>, \<open>confirm\<close>, \<open>activate\<close>\<close>
  | OpKeybindings
  | OpAssert assert_spec
  | OpInvoke string json \<comment> \<open>\<open>name\<close>, \<open>args\<close>\<close>
  | OpWait "u64 option" \<comment> \<open>\<open>timeout_ms\<close>\<close>
  | OpWaitUntil u64 assert_spec
  | OpShutdown
  | OpScreenshot "string option" screenshot_mode "string option" "u32 option"
      \<comment> \<open>\<open>path\<close>, \<open>mode\<close>, \<open>target\<close>, \<open>max_height_px\<close>\<close>

definition op_snapshot :: op where
  "op_snapshot = OpSnapshot None None None"

definition op_snapshot_since :: "u64 \<Rightarrow> snapshot_format option \<Rightarrow> op" where
  "op_snapshot_since r fmt = OpSnapshot (Some r) fmt None"

definition op_click :: "string \<Rightarrow> op" where
  "op_click t = OpClick t Semantic None"

definition op_click_virtual :: "string \<Rightarrow> op" where
  "op_click_virtual t = OpClick t Virtual None"

definition op_type_text :: "string \<Rightarrow> string \<Rightarrow> op" where
  "op_type_text t s = OpType t s Semantic None"

definition op_type_text_virtual :: "string \<Rightarrow> string \<Rightarrow> op" where
  "op_type_text_virtual t s = OpType t s Virtual None"

definition op_key_press :: "string \<Rightarrow> string \<Rightarrow> op" where
  "op_key_press t k = OpKey t k Semantic None"

definition op_key_virtual :: "string \<Rightarrow> string \<Rightarrow> op" where
  "op_key_virtual t k = OpKey t k Virtual None"

definition op_keybinding :: "string \<Rightarrow> keybinding_scope \<Rightarrow> op" where
  "op_keybinding b sc = OpKeybinding b None sc False False"

definition op_screenshot :: "string \<Rightarrow> op" where
  "op_screenshot p = OpScreenshot (Some p) Viewport None None"

definition op_screenshot_scrolled :: "string \<Rightarrow> string \<Rightarrow> u32 option \<Rightarrow> op" where
  "op_screenshot_scrolled p t h = OpScreenshot (Some p) Scrolled (Some t) h"

definition op_wait_until :: "assert_spec \<Rightarrow> u64 \<Rightarrow> op" where
  "op_wait_until s ms = OpWaitUntil ms s"

fun with_fingerprint :: "op \<Rightarrow> u64 \<Rightarrow> op" where
  "with_fingerprint (OpClick t d _) fp = OpClick t d (Some fp)"
| "with_fingerprint (OpType t s d _) fp = OpType t s d (Some fp)"
| "with_fingerprint (OpSetValue t v _) fp = OpSetValue t v (Some fp)"
| "with_fingerprint (OpKey t k d _) fp = OpKey t k d (Some fp)"
| "with_fingerprint other fp = other"

fun fingerprint_gate :: "op \<Rightarrow> (string \<times> u64) option" where
  "fingerprint_gate (OpClick t _ (Some fp)) = Some (t, fp)"
| "fingerprint_gate (OpType t _ _ (Some fp)) = Some (t, fp)"
| "fingerprint_gate (OpSetValue t _ (Some fp)) = Some (t, fp)"
| "fingerprint_gate (OpKey t _ _ (Some fp)) = Some (t, fp)"
| "fingerprint_gate _ = None"

fun is_keybinding :: "op \<Rightarrow> bool" where
  "is_keybinding (OpKeybinding _ _ _ _ _) = True"
| "is_keybinding OpKeybindings = True"
| "is_keybinding _ = False"

fun delivery :: "op \<Rightarrow> delivery_mode" where
  "delivery (OpClick _ d _) = d"
| "delivery (OpType _ _ d _) = d"
| "delivery (OpKey _ _ d _) = d"
| "delivery _ = Semantic"

fun is_pointer_or_key :: "op \<Rightarrow> bool" where
  "is_pointer_or_key (OpClick _ _ _) = True"
| "is_pointer_or_key (OpType _ _ _ _) = True"
| "is_pointer_or_key (OpKey _ _ _ _) = True"
| "is_pointer_or_key _ = False"

definition is_virtual_input :: "op \<Rightarrow> bool" where
  "is_virtual_input op = (is_pointer_or_key op \<and> is_virtual (delivery op))"

text \<open>The operations that \<open>expect_fingerprint\<close> can guard.\<close>

fun is_gateable :: "op \<Rightarrow> bool" where
  "is_gateable (OpClick _ _ _) = True"
| "is_gateable (OpType _ _ _ _) = True"
| "is_gateable (OpSetValue _ _ _) = True"
| "is_gateable (OpKey _ _ _ _) = True"
| "is_gateable _ = False"

lemma fingerprint_gate_with:
  "fingerprint_gate (with_fingerprint op fp) = (if is_gateable op then Some (op_target op, fp) else None)"
  by (cases op) auto

lemma with_fingerprint_other: "\<not> is_gateable op \<Longrightarrow> with_fingerprint op fp = op"
  by (cases op) auto

lemma fingerprint_gate_gateable: "fingerprint_gate op = Some g \<Longrightarrow> is_gateable op"
  by (cases op) auto

lemma delivery_with_fingerprint [simp]: "delivery (with_fingerprint op fp) = delivery op"
  by (cases op) auto

section \<open>Requests\<close>

record request =
  req_v :: u32
  req_id :: string
  req_token :: "string option"
  req_auth :: "string option"
  req_op :: op

definition new_request :: "string \<Rightarrow> op \<Rightarrow> request" where
  "new_request ident op = \<lparr>req_v = PROTOCOL_VERSION, req_id = ident, req_token = None,
     req_auth = None, req_op = op\<rparr>"

definition with_token :: "request \<Rightarrow> string \<Rightarrow> request" where
  "with_token r t = r\<lparr>req_token := Some t\<rparr>"

definition with_auth :: "request \<Rightarrow> string \<Rightarrow> request" where
  "with_auth r a = r\<lparr>req_auth := Some a\<rparr>"

text \<open>\<open>impl Debug for Request\<close>: the secret fields are replaced before they are shown.\<close>

definition redact :: "request \<Rightarrow> request" where
  "redact r = r\<lparr>req_token := map_option (\<lambda>_. ''<redacted>'') (req_token r),
                req_auth := map_option (\<lambda>_. ''<redacted>'') (req_auth r)\<rparr>"

end
