(* ===== verification/Ui_Tree.thy ===== *)
theory Ui_Tree
  imports Protocol
begin

unbundle bit_operations_syntax

text \<open>
  \<open>crates/gpui-agent/src/tree.rs\<close>: the semantic UI tree, its searches, and the FNV-1a
  fingerprint of a node.  A \<open>UiNode\<close> is the record of its scalar fields with the list of
  its children; \<open>visit\<close>, \<open>flatten\<close> and \<open>collect_id\<close> return the list of the nodes they
  reach, in the order they reach them.
\<close>

section \<open>Bounds\<close>

record bounds =
  bx :: f32
  bY :: f32
  bw :: f32
  bh :: f32

definition default_bounds :: bounds where
  "default_bounds = \<lparr>bx = F32 0, bY = F32 0, bw = F32 0, bh = F32 0\<rparr>"

definition IN_VIEWPORT_UNAVAILABLE :: string where
  "IN_VIEWPORT_UNAVAILABLE = ''in_viewport_unavailable''"

definition in_viewport_unavailable :: "string \<Rightarrow> string" where
  "in_viewport_unavailable detail = IN_VIEWPORT_UNAVAILABLE @ '': '' @ detail"

text \<open>
  The test that \<open>is_in_viewport_unavailable\<close>, \<open>is_screenshot_unavailable\<close>,
  \<open>is_scroll_unavailable\<close> and \<open>is_keybinding_unavailable\<close> all make: the prefix, alone or
  followed by a colon.
\<close>

definition has_error_prefix :: "string \<Rightarrow> string \<Rightarrow> bool" where
  "has_error_prefix p e =
     (e = p \<or> starts_with e p \<and> length p < length e \<and> e ! length p = CHR '':'')"

definition is_in_viewport_unavailable :: "string \<Rightarrow> bool" where
  "is_in_viewport_unavailable e = has_error_prefix IN_VIEWPORT_UNAVAILABLE e"

lemma has_error_prefix_colon [simp]: "has_error_prefix p (p @ CHR '':'' # d)"
  by (simp add: has_error_prefix_def)

lemma is_in_viewport_unavailable_self [simp]:
  "is_in_viewport_unavailable (in_viewport_unavailable d)"
  by (simp add: is_in_viewport_unavailable_def in_viewport_unavailable_def)

definition has_area :: "bounds \<Rightarrow> bool" where
  "has_area b = (f32_gt (bw b) (F32 0) \<and> f32_gt (bh b) (F32 0))"

definition center :: "bounds \<Rightarrow> f32 \<times> f32" where
  "center b = (f32_add (bx b) (f32_div (bw b) (F32 2)), f32_add (bY b) (f32_div (bh b) (F32 2)))"

definition intersects :: "bounds \<Rightarrow> bounds \<Rightarrow> bool" where
  "intersects a b =
     (if \<not> has_area a \<or> \<not> has_area b then False
      else f32_lt (bx a) (f32_add (bx b) (bw b)) \<and> f32_lt (bx b) (f32_add (bx a) (bw a)) \<and>
           f32_lt (bY a) (f32_add (bY b) (bh b)) \<and> f32_lt (bY b) (f32_add (bY a) (bh a)))"

lemma intersects_commute: "intersects a b = intersects b a"
  by (auto simp: intersects_def)

section \<open>Nodes\<close>

record node_data =
  nd_id :: string
  nd_role :: string
  nd_name :: string
  nd_value :: "string option"
  nd_checked :: "bool option"
  nd_enabled :: bool
  nd_focused :: bool
  nd_visible :: bool
  nd_bounds :: bounds
  nd_states :: "string list"

datatype ui_node = UiNode (data: node_data) (children: "ui_node list")

abbreviation nid :: "ui_node \<Rightarrow> string" where
  "nid n \<equiv> nd_id (data n)"

abbreviation nrole :: "ui_node \<Rightarrow> string" where
  "nrole n \<equiv> nd_role (data n)"

fun map_data :: "(node_data \<Rightarrow> node_data) \<Rightarrow> ui_node \<Rightarrow> ui_node" where
  "map_data f (UiNode d cs) = UiNode (f d) cs"

lemma data_map_data [simp]: "data (map_data f n) = f (data n)"
  by (cases n) simp

lemma children_map_data [simp]: "children (map_data f n) = children n"
  by (cases n) simp

definition new_node :: "string \<Rightarrow> string \<Rightarrow> string \<Rightarrow> ui_node" where
  "new_node ident role name =
     UiNode \<lparr>nd_id = ident, nd_role = role, nd_name = name, nd_value = None, nd_checked = None,
       nd_enabled = True, nd_focused = False, nd_visible = True, nd_bounds = default_bounds,
       nd_states = []\<rparr> []"

definition role_window :: string where "role_window = ''window''"
definition role_page :: string where "role_page = ''page''"
definition role_navigation :: string where "role_navigation = ''navigation''"
definition role_button :: string where "role_button = ''button''"
definition role_textbox :: string where "role_textbox = ''textbox''"
definition role_list :: string where "role_list = ''list''"
definition role_listitem :: string where "role_listitem = ''listitem''"
definition role_scroll :: string where "role_scroll = ''scroll''"
definition role_checkbox :: string where "role_checkbox = ''checkbox''"
definition role_note :: string where "role_note = ''note''"
definition role_status :: string where "role_status = ''status''"
definition role_dialog :: string where "role_dialog = ''dialog''"

lemmas role_defs = role_window_def role_page_def role_navigation_def role_button_def
  role_textbox_def role_list_def role_listitem_def role_scroll_def role_checkbox_def
  role_note_def role_status_def role_dialog_def

definition with_value :: "string \<Rightarrow> ui_node \<Rightarrow> ui_node" where
  "with_value v = map_data (\<lambda>d. d\<lparr>nd_value := Some v\<rparr>)"

definition with_focused :: "bool \<Rightarrow> ui_node \<Rightarrow> ui_node" where
  "with_focused b = map_data (\<lambda>d. d\<lparr>nd_focused := b\<rparr>)"

definition with_enabled :: "bool \<Rightarrow> ui_node \<Rightarrow> ui_node" where
  "with_enabled b = map_data (\<lambda>d. d\<lparr>nd_enabled := b\<rparr>)"

definition with_visible :: "bool \<Rightarrow> ui_node \<Rightarrow> ui_node" where
  "with_visible b = map_data (\<lambda>d. d\<lparr>nd_visible := b\<rparr>)"

fun with_visible_deep :: "bool \<Rightarrow> ui_node \<Rightarrow> ui_node" where
  "with_visible_deep v (UiNode d cs) =
     UiNode (d\<lparr>nd_visible := v\<rparr>) (if \<not> v then map (with_visible_deep False) cs else cs)"

definition with_bounds :: "bounds \<Rightarrow> ui_node \<Rightarrow> ui_node" where
  "with_bounds b = map_data (\<lambda>d. d\<lparr>nd_bounds := b\<rparr>)"

definition with_checked :: "bool \<Rightarrow> ui_node \<Rightarrow> ui_node" where
  "with_checked c = map_data (\<lambda>d. d\<lparr>nd_checked := Some c,
     nd_states := nd_states d @ [if c then ''checked'' else ''unchecked'']\<rparr>)"

fun with_child :: "ui_node \<Rightarrow> ui_node \<Rightarrow> ui_node" where
  "with_child c (UiNode d cs) = UiNode d (cs @ [c])"

fun with_children :: "ui_node list \<Rightarrow> ui_node \<Rightarrow> ui_node" where
  "with_children cs' (UiNode d cs) = UiNode d cs'"

section \<open>Searches\<close>

fun node_find :: "string \<Rightarrow> ui_node \<Rightarrow> ui_node option" where
  "node_find ident (UiNode d cs) =
     (if nd_id d = ident then Some (UiNode d cs) else find_map (node_find ident) cs)"

fun find_with_parent :: "string \<Rightarrow> string option \<Rightarrow> ui_node \<Rightarrow> (ui_node \<times> string option) option" where
  "find_with_parent ident parent (UiNode d cs) =
     (if nd_id d = ident then Some (UiNode d cs, parent)
      else find_map (find_with_parent ident (Some (nd_id d))) cs)"

text \<open>\<open>visit\<close>: the node, then its children, left to right.\<close>

fun node_flatten :: "ui_node \<Rightarrow> ui_node list" where
  "node_flatten (UiNode d cs) = UiNode d cs # concat (map node_flatten cs)"

fun collect_id :: "string \<Rightarrow> ui_node \<Rightarrow> ui_node list" where
  "collect_id ident (UiNode d cs) =
     (if nd_id d = ident then [UiNode d cs] else []) @ concat (map (collect_id ident) cs)"

fun node_count :: "ui_node \<Rightarrow> nat" where
  "node_count (UiNode d cs) = 1 + sum_list (map node_count cs)"

fun apply_bounds_map :: "(string \<rightharpoonup> bounds) \<Rightarrow> ui_node \<Rightarrow> ui_node" where
  "apply_bounds_map m (UiNode d cs) =
     UiNode (case m (nd_id d) of Some b \<Rightarrow> d\<lparr>nd_bounds := b\<rparr> | None \<Rightarrow> d)
       (map (apply_bounds_map m) cs)"

section \<open>Fingerprints\<close>

definition FNV_OFF :: u64 where
  "FNV_OFF = 0xcbf29ce484222325"

definition FNV_PRIME :: u64 where
  "FNV_PRIME = 0x100000001b3"

type_synonym byte = "8 word"

definition fnv_step :: "u64 \<Rightarrow> byte \<Rightarrow> u64" where
  "fnv_step h b = (h XOR ucast b) * FNV_PRIME"

definition feed :: "u64 \<Rightarrow> byte list \<Rightarrow> u64" where
  "feed h bytes = fold (\<lambda>b h. fnv_step h b) bytes h"

definition byte_of_bool :: "bool \<Rightarrow> byte" where
  "byte_of_bool b = (if b then 1 else 0)"

definition str_bytes :: "string \<Rightarrow> byte list" where
  "str_bytes s = map (\<lambda>c. word_of_nat (of_char c)) s"

definition checked_byte :: "bool option \<Rightarrow> byte" where
  "checked_byte c = (case c of None \<Rightarrow> 0 | Some False \<Rightarrow> 1 | Some True \<Rightarrow> 2)"

definition le_bytes :: "u64 \<Rightarrow> byte list" where
  "le_bytes w = map (\<lambda>i. ucast (drop_bit (8 * i) w)) [0..<8]"

definition value_hash :: "string option \<Rightarrow> u64" where
  "value_hash v = (case v of None \<Rightarrow> 0 | Some s \<Rightarrow> feed FNV_OFF (str_bytes s))"

definition data_fingerprint :: "node_data \<Rightarrow> string option \<Rightarrow> u64" where
  "data_fingerprint d parent =
     (let h = fold (\<lambda>f h. feed (feed h (str_bytes f)) [0xff]) [nd_id d, nd_role d, nd_name d] FNV_OFF;
          h = feed h [byte_of_bool (nd_enabled d), byte_of_bool (nd_visible d)];
          h = feed h [checked_byte (nd_checked d)];
          h = feed h (le_bytes (value_hash (nd_value d)));
          h = fold (\<lambda>s h. feed (feed h (str_bytes s)) [0xff]) (nd_states d) h;
          h = (case parent of Some p \<Rightarrow> feed h (str_bytes p) | None \<Rightarrow> h)
      in feed h [byte_of_bool (parent \<noteq> None)])"

definition fingerprint :: "ui_node \<Rightarrow> string option \<Rightarrow> u64" where
  "fingerprint n parent = data_fingerprint (data n) parent"

section \<open>Trees\<close>

record ui_tree =
  tree_app :: string
  tree_platform :: platform_kind
  tree_ready :: bool
  tree_nodes :: "ui_node list"
  tree_rev :: "u64 option"

definition tree_find :: "ui_tree \<Rightarrow> string \<Rightarrow> ui_node option" where
  "tree_find t ident = find_map (node_find ident) (tree_nodes t)"

definition find_all :: "ui_tree \<Rightarrow> string \<Rightarrow> ui_node list" where
  "find_all t ident = concat (map (collect_id ident) (tree_nodes t))"

definition tree_flatten :: "ui_tree \<Rightarrow> ui_node list" where
  "tree_flatten t = concat (map node_flatten (tree_nodes t))"

definition count_ids :: "ui_tree \<Rightarrow> (string, nat) btmap" where
  "count_ids t = fold (\<lambda>n m. bt_insert (nid n) (Suc (case map_of m (nid n) of None \<Rightarrow> 0 | Some k \<Rightarrow> k)) m)
     (tree_flatten t) []"

definition duplicate_ids :: "ui_tree \<Rightarrow> string list" where
  "duplicate_ids t = map fst (filter (\<lambda>(_, n). 1 < n) (count_ids t))"

definition ids_are_unique :: "ui_tree \<Rightarrow> bool" where
  "ids_are_unique t = (duplicate_ids t = [])"

definition require_id :: "ui_tree \<Rightarrow> string \<Rightarrow> ui_node result" where
  "require_id t ident =
     (case find_all t ident of
        [] \<Rightarrow> Inl (''node `'' @ ident @ ''` not found'')
      | [n] \<Rightarrow> Inr n
      | ns \<Rightarrow> Inl (''duplicate id `'' @ ident @ ''` ('' @ dec (length ns) @ '' nodes)''))"

definition tree_node_count :: "ui_tree \<Rightarrow> nat" where
  "tree_node_count t = sum_list (map node_count (tree_nodes t))"

definition tree_apply_bounds_map :: "(string \<rightharpoonup> bounds) \<Rightarrow> ui_tree \<Rightarrow> ui_tree" where
  "tree_apply_bounds_map m t = t\<lparr>tree_nodes := map (apply_bounds_map m) (tree_nodes t)\<rparr>"

definition fingerprint_of :: "ui_tree \<Rightarrow> string \<Rightarrow> u64 option" where
  "fingerprint_of t ident =
     map_option (\<lambda>(n, parent). fingerprint n parent)
       (find_map (find_with_parent ident None) (tree_nodes t))"

fun fp_walk :: "string option \<Rightarrow> ui_node \<Rightarrow> (string, u64) btmap \<Rightarrow> (string, u64) btmap" where
  "fp_walk parent (UiNode d cs) out =
     fold (fp_walk (Some (nd_id d))) cs
       (bt_insert (nd_id d) (fingerprint (UiNode d cs) parent) out)"

definition fingerprint_map :: "ui_tree \<Rightarrow> (string, u64) btmap" where
  "fingerprint_map t = fold (fp_walk None) (tree_nodes t) []"

section \<open>Laws of the searches\<close>

named_theorems tree_laws \<open>the searches in terms of the list of all nodes\<close>

lemma node_flatten_not_Nil [simp]: "node_flatten n \<noteq> []"
  by (cases n) simp

lemma collect_id_filter: "collect_id i n = filter (\<lambda>m. nid m = i) (node_flatten n)"
proof (induction n)
  case (UiNode d cs)
  then show ?case by (simp add: filter_concat comp_def cong: map_cong)
qed

lemma find_all_filter [tree_laws]: "find_all t i = filter (\<lambda>m. nid m = i) (tree_flatten t)"
  by (simp add: find_all_def tree_flatten_def filter_concat comp_def collect_id_filter cong: map_cong)

lemma find_map_first:
  assumes "\<And>x. x \<in> set xs \<Longrightarrow> f x = List.find P (g x)"
  shows "find_map f xs = List.find P (concat (map g xs))"
  using assms
proof (induction xs)
  case (Cons x xs)
  have app: "List.find P (as @ bs) = (case List.find P as of Some y \<Rightarrow> Some y | None \<Rightarrow> List.find P bs)"
    for as bs :: "'b list" by (induction as) auto
  from Cons show ?case by (auto simp: app split: option.splits)
qed simp

lemma node_find_first: "node_find i n = List.find (\<lambda>m. nid m = i) (node_flatten n)"
proof (induction n)
  case (UiNode d cs)
  then have "find_map (node_find i) cs = List.find (\<lambda>m. nid m = i) (concat (map node_flatten cs))"
    by (intro find_map_first) auto
  then show ?case by simp
qed

lemma tree_find_first [tree_laws]: "tree_find t i = List.find (\<lambda>m. nid m = i) (tree_flatten t)"
  by (simp add: tree_find_def tree_flatten_def find_map_first node_find_first)

lemma find_hd_filter: "List.find P xs = (case filter P xs of [] \<Rightarrow> None | x # _ \<Rightarrow> Some x)"
  by (induction xs) auto

lemma tree_find_find_all: "tree_find t i = (case find_all t i of [] \<Rightarrow> None | n # _ \<Rightarrow> Some n)"
  by (simp add: tree_laws find_hd_filter)

lemma node_count_length: "node_count n = length (node_flatten n)"
proof (induction n)
  case (UiNode d cs)
  then show ?case by (simp add: length_concat comp_def cong: map_cong)
qed

lemma tree_node_count_length: "tree_node_count t = length (tree_flatten t)"
  by (simp add: tree_node_count_def tree_flatten_def length_concat node_count_length comp_def
      cong: map_cong)

definition node_ids :: "ui_node \<Rightarrow> string list" where
  "node_ids n = map nid (node_flatten n)"

definition forest_ids :: "ui_node list \<Rightarrow> string list" where
  "forest_ids ns = concat (map node_ids ns)"

definition tree_ids :: "ui_tree \<Rightarrow> string list" where
  "tree_ids t = forest_ids (tree_nodes t)"

lemma node_ids_simps [simp]: "node_ids (UiNode d cs) = nd_id d # forest_ids cs"
  by (simp add: node_ids_def [abs_def] forest_ids_def map_concat comp_def)

lemma forest_ids_simps [simp]:
  "forest_ids [] = []" "forest_ids (n # ns) = node_ids n @ forest_ids ns"
  "forest_ids (ms @ ns) = forest_ids ms @ forest_ids ns"
  by (simp_all add: forest_ids_def)

lemma set_forest_ids: "set (forest_ids ns) = (\<Union>n \<in> set ns. set (node_ids n))"
  by (simp add: forest_ids_def)

lemma nid_in_node_ids [simp]: "nid n \<in> set (node_ids n)"
  by (cases n) simp

lemma tree_ids_flatten: "tree_ids t = map nid (tree_flatten t)"
  by (simp add: tree_ids_def forest_ids_def tree_flatten_def map_concat comp_def flip: node_ids_def)

lemma distinct_iff_count_list: "distinct xs \<longleftrightarrow> (\<forall>i. count_list xs i \<le> 1)"
proof (induction xs)
  case (Cons x xs)
  have "(\<forall>i. count_list (x # xs) i \<le> 1) \<longleftrightarrow> count_list xs x = 0 \<and> (\<forall>i. count_list xs i \<le> 1)"
  proof
    assume L: "\<forall>i. count_list (x # xs) i \<le> 1"
    have le: "count_list xs i \<le> count_list (x # xs) i" for i by simp
    have "count_list xs i \<le> 1" for i by (rule le_trans [OF le]) (rule L [rule_format])
    moreover have "count_list (x # xs) x \<le> 1" using L ..
    ultimately show "count_list xs x = 0 \<and> (\<forall>i. count_list xs i \<le> 1)" by simp
  qed auto
  then show ?case using Cons.IH by (simp add: count_list_0_iff)
qed simp

lemma length_find_all: "length (find_all t i) = count_list (tree_ids t) i"
proof -
  have "count_list (map nid ns) i = length (filter (\<lambda>m. nid m = i) ns)" for ns
    by (induction ns) auto
  then show ?thesis by (simp add: tree_laws tree_ids_flatten)
qed

lemma find_all_empty_iff: "find_all t i = [] \<longleftrightarrow> i \<notin> set (tree_ids t)"
  using length_find_all [of t i] by (simp add: count_list_0_iff flip: length_0_conv)

lemma require_id_Inr_iff: "require_id t i = Inr n \<longleftrightarrow> find_all t i = [n]"
  by (auto simp: require_id_def split: list.splits)

lemma require_id_ok_iff: "is_ok (require_id t i) \<longleftrightarrow> count_list (tree_ids t) i = 1"
proof -
  have "is_ok (require_id t i) \<longleftrightarrow> length (find_all t i) = 1"
    by (auto simp: require_id_def length_Suc_conv split: list.splits)
  then show ?thesis by (simp add: length_find_all)
qed

lemma require_id_unique:
  assumes "distinct (tree_ids t)"
  shows "require_id t i =
    (case tree_find t i of None \<Rightarrow> Inl (''node `'' @ i @ ''` not found'') | Some n \<Rightarrow> Inr n)"
proof -
  have "length (find_all t i) \<le> 1"
    using assms by (simp add: length_find_all distinct_iff_count_list)
  then show ?thesis
    by (auto simp: require_id_def tree_find_find_all split: list.splits)
qed

text \<open>\<open>duplicate_ids\<close> counts with a \<open>BTreeMap\<close>.\<close>

lemma count_fold:
  assumes "bt_ok m"
  defines "inc \<equiv> \<lambda>n m. bt_insert (nid n) (Suc (case map_of m (nid n) of None \<Rightarrow> 0 | Some k \<Rightarrow> k)) m"
  shows "bt_ok (fold inc ns m) \<and>
    (\<forall>i. map_of (fold inc ns m) i =
      (let c = count_list (map nid ns) i in
       if c = 0 then map_of m i else Some (c + (case map_of m i of None \<Rightarrow> 0 | Some k \<Rightarrow> k))))"
  using assms(1)
proof (induction ns arbitrary: m)
  case (Cons n ns)
  have ok: "bt_ok (inc n m)" unfolding inc_def by (rule bt_ok_insert [OF Cons.prems])
  have look: "map_of (inc n m) = (map_of m)(nid n \<mapsto> Suc (case map_of m (nid n) of None \<Rightarrow> 0 | Some k \<Rightarrow> k))"
    unfolding inc_def by (rule bt_lookup_insert [OF Cons.prems])
  show ?case using Cons.IH [OF ok] by (auto simp: look Let_def split: option.splits)
qed (simp add: Let_def)

lemma count_ids_lookup:
  "bt_ok (count_ids t)"
  "map_of (count_ids t) i = (let c = count_list (tree_ids t) i in if c = 0 then None else Some c)"
  using count_fold [of "[]" "tree_flatten t"]
  by (simp_all add: count_ids_def tree_ids_flatten Let_def)

lemma ids_are_unique_iff: "ids_are_unique t \<longleftrightarrow> distinct (tree_ids t)"
proof -
  have dist: "distinct (map fst (count_ids t))"
    using count_ids_lookup(1) [of t] by (simp add: bt_ok_def)
  have mem: "(i, n) \<in> set (count_ids t) \<longleftrightarrow> n = count_list (tree_ids t) i \<and> 0 < n" for i n
    using map_of_eq_Some_iff [OF dist, of i n] count_ids_lookup(2) [of t i]
    by (auto simp: Let_def split: if_splits)
  have "ids_are_unique t \<longleftrightarrow> (\<forall>(i, n) \<in> set (count_ids t). n \<le> 1)"
    by (auto simp: ids_are_unique_def duplicate_ids_def filter_empty_conv not_less)
  also have "\<dots> \<longleftrightarrow> (\<forall>i. count_list (tree_ids t) i \<le> 1)" (is "?L \<longleftrightarrow> ?R")
  proof
    assume L: ?L
    show ?R
    proof
      fix i
      show "count_list (tree_ids t) i \<le> 1"
        using L mem [of i "count_list (tree_ids t) i"]
        by (cases "count_list (tree_ids t) i = 0") auto
    qed
  qed (auto simp: mem)
  finally show ?thesis by (simp only: distinct_iff_count_list)
qed

section \<open>Laws of the fingerprint\<close>

text \<open>
  The FNV prime is odd, so a step is a bijection of the hash for a fixed byte and an
  injection of the byte for a fixed hash.
\<close>

definition FNV_PRIME_INV :: u64 where
  "FNV_PRIME_INV = 0xce965057aff6957b"

lemma fnv_prime_inv: "x * FNV_PRIME * FNV_PRIME_INV = (x :: u64)"
proof -
  have "FNV_PRIME * FNV_PRIME_INV = 1" by code_simp
  then show ?thesis by (simp add: mult.assoc)
qed

lemma fnv_prime_cancel: "x * FNV_PRIME = y * FNV_PRIME \<longleftrightarrow> x = (y :: u64)"
  by (metis fnv_prime_inv)

lemma fnv_step_inj_hash: "fnv_step h b = fnv_step h' b \<longleftrightarrow> h = h'"
proof -
  have "(h XOR c) XOR c = h" for h c :: u64
    by (simp add: xor.assoc)
  then show ?thesis unfolding fnv_step_def fnv_prime_cancel by metis
qed

lemma fnv_step_inj_byte: "fnv_step h b = fnv_step h b' \<longleftrightarrow> b = b'"
proof -
  have "h XOR (h XOR c) = c" for c :: u64
    by (simp flip: xor.assoc)
  then have "h XOR ucast b = h XOR ucast b' \<longleftrightarrow> (ucast b :: u64) = ucast b'" by metis
  moreover have "(ucast b :: u64) = ucast b' \<longleftrightarrow> b = b'"
  proof
    have up: "uint (ucast c :: u64) = uint c" for c :: byte
      by (rule uint_up_ucast) (simp add: is_up)
    assume "(ucast b :: u64) = ucast b'"
    then show "b = b'" using up [of b] up [of b'] by (simp add: word_uint_eq_iff)
  qed simp
  ultimately show ?thesis unfolding fnv_step_def fnv_prime_cancel by simp
qed

lemma feed_simps [simp]: "feed h [] = h" "feed h (b # bs) = feed (fnv_step h b) bs"
  by (simp_all add: feed_def)

lemma feed_append [simp]: "feed h (xs @ ys) = feed (feed h xs) ys"
  by (simp add: feed_def)

lemma feed_inj: "feed h bs = feed h' bs \<longleftrightarrow> h = h'"
  by (induction bs arbitrary: h h') (simp_all add: fnv_step_inj_hash)

lemma feed_one_byte: "a \<noteq> b \<Longrightarrow> feed h (xs @ a # ys) \<noteq> feed h (xs @ b # ys)"
  by (simp add: feed_inj fnv_step_inj_byte)

definition feed_field :: "string \<Rightarrow> u64 \<Rightarrow> u64" where
  "feed_field f h = feed (feed h (str_bytes f)) [0xff]"

lemma feed_field_inj: "feed_field f h = feed_field f h' \<longleftrightarrow> h = h'"
  by (simp add: feed_field_def feed_inj fnv_step_inj_hash)

lemma feed_fields_inj: "fold feed_field fs h = fold feed_field fs h' \<longleftrightarrow> h = h'"
  by (induction fs arbitrary: h h') (simp_all add: feed_field_inj)

text \<open>What is fed after the name, the flags and the checked byte is injective in the hash.\<close>

definition fp_tail :: "string option \<Rightarrow> string list \<Rightarrow> string option \<Rightarrow> u64 \<Rightarrow> u64" where
  "fp_tail v sts parent h =
     (let h = feed h (le_bytes (value_hash v));
          h = fold feed_field sts h;
          h = (case parent of Some p \<Rightarrow> feed h (str_bytes p) | None \<Rightarrow> h)
      in feed h [byte_of_bool (parent \<noteq> None)])"

lemma fp_tail_inj: "fp_tail v sts p h = fp_tail v sts p h' \<longleftrightarrow> h = h'"
  by (cases p) (simp_all add: fp_tail_def Let_def feed_inj feed_fields_inj fnv_step_inj_hash)

lemma data_fingerprint_tail:
  "data_fingerprint d p =
     fp_tail (nd_value d) (nd_states d) p (feed (fold feed_field [nd_id d, nd_role d, nd_name d] FNV_OFF)
       [byte_of_bool (nd_enabled d), byte_of_bool (nd_visible d), checked_byte (nd_checked d)])"
  by (simp add: data_fingerprint_def fp_tail_def Let_def feed_field_def [abs_def])

lemmas fp_inj = fp_tail_inj feed_inj feed_field_inj feed_fields_inj fnv_step_inj_hash
  fnv_step_inj_byte

lemma byte_of_bool_inj [simp]: "byte_of_bool a = byte_of_bool b \<longleftrightarrow> a = b"
  by (simp add: byte_of_bool_def)

lemma checked_byte_inj [simp]: "checked_byte a = checked_byte b \<longleftrightarrow> a = b"
  by (auto simp: checked_byte_def split: option.splits bool.splits)

lemma fingerprint_flags:
  "data_fingerprint (d\<lparr>nd_enabled := e\<rparr>) p = data_fingerprint d p \<longleftrightarrow> e = nd_enabled d"
  "data_fingerprint (d\<lparr>nd_visible := e\<rparr>) p = data_fingerprint d p \<longleftrightarrow> e = nd_visible d"
  "data_fingerprint (d\<lparr>nd_checked := c\<rparr>) p = data_fingerprint d p \<longleftrightarrow> c = nd_checked d"
  by (simp_all add: data_fingerprint_tail fp_inj)

lemma str_bytes_append [simp]: "str_bytes (s @ t) = str_bytes s @ str_bytes t"
  by (simp add: str_bytes_def)

lemma str_byte_inj: "(word_of_nat (of_char a) :: byte) = word_of_nat (of_char b) \<longleftrightarrow> a = b"
proof
  assume eq: "(word_of_nat (of_char a) :: byte) = word_of_nat (of_char b)"
  have lt: "(of_char c :: nat) < 256" for c :: char by simp
  have "(of_char a :: nat) = of_char b"
    using arg_cong [OF eq, of unat] lt [of a] lt [of b] by (simp add: unat_of_nat)
  then show "a = b" by simp
qed simp

lemma fingerprint_name_byte:
  assumes "nd_name d = u @ a # v" and "a \<noteq> b"
  shows "data_fingerprint (d\<lparr>nd_name := u @ b # v\<rparr>) p \<noteq> data_fingerprint d p"
  using assms
  by (simp add: data_fingerprint_tail fp_inj feed_field_def str_byte_inj str_bytes_def)

lemma fingerprint_ignores:
  "data_fingerprint (d\<lparr>nd_bounds := b, nd_focused := f\<rparr>) p = data_fingerprint d p"
  by (simp add: data_fingerprint_def)

section \<open>Nodes with their parents\<close>

text \<open>Every node with the id of its parent, in the order \<open>visit\<close> reaches them.\<close>

fun node_pairs :: "string option \<Rightarrow> ui_node \<Rightarrow> (ui_node \<times> string option) list" where
  "node_pairs p (UiNode d cs) =
     (UiNode d cs, p) # concat (map (node_pairs (Some (nd_id d))) cs)"

definition forest_pairs :: "string option \<Rightarrow> ui_node list \<Rightarrow> (ui_node \<times> string option) list" where
  "forest_pairs p ns = concat (map (node_pairs p) ns)"

lemma forest_pairs_simps [simp]:
  "forest_pairs p [] = []"
  "forest_pairs p (n # ns) = node_pairs p n @ forest_pairs p ns"
  "forest_pairs p (ms @ ns) = forest_pairs p ms @ forest_pairs p ns"
  by (simp_all add: forest_pairs_def)

lemma node_pairs_simp [simp]:
  "node_pairs p (UiNode d cs) = (UiNode d cs, p) # forest_pairs (Some (nd_id d)) cs"
  by (simp add: forest_pairs_def)

declare node_pairs.simps [simp del]

lemma node_pairs_Cons: "node_pairs p n = (n, p) # forest_pairs (Some (nid n)) (children n)"
  by (cases n) simp

lemma node_pairs_flatten: "map fst (node_pairs p n) = node_flatten n"
proof (induction n arbitrary: p)
  case (UiNode d cs)
  then show ?case by (simp add: forest_pairs_def map_concat comp_def cong: map_cong)
qed

lemma forest_pairs_ids: "map (nid \<circ> fst) (forest_pairs p ns) = forest_ids ns"
proof -
  have "map (nid \<circ> fst) (node_pairs p n) = node_ids n" for n
    unfolding node_ids_def node_pairs_flatten [of p n, symmetric] by simp
  then show ?thesis by (simp add: forest_pairs_def forest_ids_def map_concat comp_def)
qed

lemma forest_pairs_id_in: "(n, p) \<in> set (forest_pairs q ns) \<Longrightarrow> nid n \<in> set (forest_ids ns)"
  unfolding forest_pairs_ids [of q ns, symmetric] by (force simp: image_iff)

lemma find_with_parent_pairs:
  "find_with_parent i p n = List.find (\<lambda>(m, _). nid m = i) (node_pairs p n)"
proof (induction n arbitrary: p)
  case (UiNode d cs)
  have "find_map (find_with_parent i (Some (nd_id d))) cs
      = List.find (\<lambda>(m, _). nid m = i) (forest_pairs (Some (nd_id d)) cs)"
    unfolding forest_pairs_def by (rule find_map_first) (rule UiNode)
  then show ?case by simp
qed

definition tree_pairs :: "ui_tree \<Rightarrow> (ui_node \<times> string option) list" where
  "tree_pairs t = forest_pairs None (tree_nodes t)"

lemma tree_pairs_ids: "map (nid \<circ> fst) (tree_pairs t) = tree_ids t"
  by (simp only: tree_pairs_def tree_ids_def forest_pairs_ids)

lemma fingerprint_of_pairs:
  "fingerprint_of t i =
     map_option (\<lambda>(n, p). fingerprint n p) (List.find (\<lambda>(m, _). nid m = i) (tree_pairs t))"
  by (simp add: fingerprint_of_def tree_pairs_def forest_pairs_def find_map_first
      find_with_parent_pairs)

lemma fp_walk_pairs:
  "fp_walk p n out = fold (\<lambda>(m, q). bt_insert (nid m) (fingerprint m q)) (node_pairs p n) out"
proof (induction n arbitrary: p out)
  case (UiNode d cs)
  have "fold (fp_walk (Some (nd_id d))) cs out
      = fold (\<lambda>(m, q). bt_insert (nid m) (fingerprint m q)) (forest_pairs (Some (nd_id d)) cs) out"
    for out using UiNode by (induction cs arbitrary: out) auto
  then show ?case by simp
qed

lemma fingerprint_map_pairs:
  "fingerprint_map t = fold (\<lambda>(m, q). bt_insert (nid m) (fingerprint m q)) (tree_pairs t) []"
proof -
  have "fold (fp_walk None) ns out
      = fold (\<lambda>(m, q). bt_insert (nid m) (fingerprint m q)) (forest_pairs None ns) out" for ns out
    by (induction ns arbitrary: out) (simp_all add: fp_walk_pairs)
  then show ?thesis by (simp add: fingerprint_map_def tree_pairs_def)
qed

text \<open>Inserting a list of entries with distinct keys makes the map of that list.\<close>

lemma bt_fold_insert:
  assumes "bt_ok m"
  shows "bt_ok (fold (\<lambda>x. bt_insert (k x) (v x)) xs m)"
    and "distinct (map k xs) \<Longrightarrow>
      map_of (fold (\<lambda>x. bt_insert (k x) (v x)) xs m) = map_of m ++ map_of (map (\<lambda>x. (k x, v x)) xs)"
proof -
  show "bt_ok (fold (\<lambda>x. bt_insert (k x) (v x)) xs m)"
    using assms by (induction xs arbitrary: m) (simp_all add: bt_ok_insert)
  show "map_of (fold (\<lambda>x. bt_insert (k x) (v x)) xs m) = map_of m ++ map_of (map (\<lambda>x. (k x, v x)) xs)"
    if "distinct (map k xs)"
    using assms that
  proof (induction xs arbitrary: m)
    case (Cons x xs)
    have "map_of (map (\<lambda>x. (k x, v x)) xs) (k x) = None"
      using Cons.prems(2) by (auto simp: map_of_eq_None_iff)
    then show ?case using Cons
      by (auto simp: bt_ok_insert bt_lookup_insert fun_eq_iff map_add_def split: option.splits)
  qed simp
qed

lemma map_of_keyed:
  "map_of (map (\<lambda>x. (k x, v x)) xs) i = map_option v (List.find (\<lambda>x. k x = i) xs)"
  by (induction xs) auto

lemma fingerprint_map_ok: "bt_ok (fingerprint_map t)"
  using bt_fold_insert(1) [of "[]" "\<lambda>(m, _). nid m" "\<lambda>(m, q). fingerprint m q" "tree_pairs t"]
  by (simp add: fingerprint_map_pairs case_prod_unfold)

lemma fingerprint_map_lookup:
  assumes "distinct (tree_ids t)"
  shows "map_of (fingerprint_map t) i = fingerprint_of t i"
proof -
  have "distinct (map (\<lambda>x. nid (fst x)) (tree_pairs t))"
    using assms by (simp add: comp_def flip: tree_pairs_ids)
  from bt_fold_insert(2) [OF bt_ok_Nil this, of "\<lambda>x. fingerprint (fst x) (snd x)"]
  show ?thesis
    by (simp add: fingerprint_map_pairs fingerprint_of_pairs map_of_keyed case_prod_unfold)
qed

lemma fingerprint_of_None_iff: "fingerprint_of t i = None \<longleftrightarrow> i \<notin> set (tree_ids t)"
  unfolding fingerprint_of_pairs tree_pairs_ids [symmetric]
  by (force simp: find_None_iff case_prod_unfold)

section \<open>Properties\<close>

text \<open>
  \<open>require_id\<close> answers with a node exactly when one node of the whole tree has the id, and
  then with a node of the tree that has it; \<open>ids_are_unique\<close>, which counts in a \<open>BTreeMap\<close>,
  holds exactly when no id occurs twice in the preorder list of the ids.
\<close>

theorem require_id_decides:
  "((\<exists>n \<in> set (tree_flatten t). require_id t i = Inr n \<and> nid n = i) \<longleftrightarrow> count_list (tree_ids t) i = 1) \<and>
   (is_ok (require_id t i) \<longleftrightarrow> count_list (tree_ids t) i = 1) \<and>
   (ids_are_unique t \<longleftrightarrow> distinct (tree_ids t))"
proof -
  have "n \<in> set (tree_flatten t) \<and> nid n = i" if "require_id t i = Inr n" for n
  proof -
    have "n \<in> set (find_all t i)" using that by (simp add: require_id_Inr_iff)
    then show ?thesis by (simp add: find_all_filter)
  qed
  then have "(\<exists>n \<in> set (tree_flatten t). require_id t i = Inr n \<and> nid n = i) \<longleftrightarrow> is_ok (require_id t i)"
    by (auto simp: is_ok_iff)
  then show ?thesis by (simp add: require_id_ok_iff ids_are_unique_iff)
qed

text \<open>
  A single change of \<open>enabled\<close>, \<open>visible\<close>, \<open>checked\<close> or of one byte of the name always
  changes the 64-bit fingerprint: there is no collision among such variants.  Bounds and
  focus never change it.
\<close>

theorem fingerprint_detects:
  "(data_fingerprint (d\<lparr>nd_enabled := e\<rparr>) p = data_fingerprint d p \<longleftrightarrow> e = nd_enabled d) \<and>
   (data_fingerprint (d\<lparr>nd_visible := v\<rparr>) p = data_fingerprint d p \<longleftrightarrow> v = nd_visible d) \<and>
   (data_fingerprint (d\<lparr>nd_checked := c\<rparr>) p = data_fingerprint d p \<longleftrightarrow> c = nd_checked d) \<and>
   (data_fingerprint (d\<lparr>nd_name := x @ a # y\<rparr>) p = data_fingerprint (d\<lparr>nd_name := x @ b # y\<rparr>) p \<longleftrightarrow> a = b) \<and>
   data_fingerprint (d\<lparr>nd_bounds := bs, nd_focused := f\<rparr>) p = data_fingerprint d p"
  using fingerprint_name_byte [of "d\<lparr>nd_name := x @ a # y\<rparr>" x a y b p]
  by (cases "a = b") (auto simp: fingerprint_flags fingerprint_ignores)

text \<open>A tree the witnesses use: a window with a button and a text box.\<close>

definition sample_tree :: ui_tree where
  "sample_tree = \<lparr>tree_app = ''todo'', tree_platform = Desktop, tree_ready = True,
     tree_nodes = [UiNode (data (new_node ''win'' role_window ''W''))
       [new_node ''add'' role_button ''Add'', new_node ''in'' role_textbox ''Draft'']],
     tree_rev = Some 1\<rparr>"

lemma sample_tree_ids: "tree_ids sample_tree = [''win'', ''add'', ''in'']" "ids_are_unique sample_tree"
  by (simp_all add: ids_are_unique_iff sample_tree_def tree_ids_def new_node_def)

text \<open>
  When no id is repeated, the fingerprints that \<open>snapshot\<close> reports are the ones the stale
  gate computes: the map of the whole tree and the lookup of one id agree.
\<close>

theorem fingerprint_map_agrees:
  assumes "ids_are_unique t"
  shows "map_of (fingerprint_map t) i = fingerprint_of t i \<and>
    (fingerprint_of t i = None \<longleftrightarrow> i \<notin> set (tree_ids t))"
  using fingerprint_map_lookup assms by (simp add: ids_are_unique_iff fingerprint_of_None_iff)

theorem fingerprint_map_agrees_witness:
  "map_of (fingerprint_map sample_tree) ''add'' = fingerprint_of sample_tree ''add'' \<and>
   fingerprint_of sample_tree ''add'' \<noteq> None"
  using fingerprint_map_agrees [OF sample_tree_ids(2), of "''add''"] by (simp add: sample_tree_ids)

end
