(* ===== verification/Tree_Diff.thy ===== *)
theory Tree_Diff
  imports Ui_Tree
begin

text \<open>
  \<open>crates/gpui-agent/src/diff.rs\<close>: the diff of two revisions of a tree, its application to
  the old revision, and the compact text form.  \<open>find_mut\<close> returns a mutable reference in
  the code; here an update of the first node it reaches is \<open>forest_modify\<close>.
\<close>

section \<open>Definitions\<close>

definition NODE_FIELDS :: "string list" where
  "NODE_FIELDS = [''role'', ''name'', ''value'', ''checked'', ''enabled'', ''focused'',
     ''visible'', ''bounds'', ''states'']"

record added_node =
  add_node :: ui_node
  add_parent :: "string option"

record changed_node =
  ch_id :: string
  ch_fields :: "(string, json) btmap"

record tree_diff =
  df_added :: "added_node list"
  df_removed :: "string list"
  df_changed :: "changed_node list"

definition empty_diff :: tree_diff where
  "empty_diff = \<lparr>df_added = [], df_removed = [], df_changed = []\<rparr>"

type_synonym node_index = "(string, ui_node \<times> string option) btmap"

text \<open>\<open>index\<close>: an explicit stack, popped from its end; here the top is the head.\<close>

function index_loop :: "(ui_node \<times> string option) list \<Rightarrow> node_index \<Rightarrow> node_index" where
  "index_loop [] out = out"
| "index_loop ((UiNode d cs, parent) # stack) out =
     index_loop (map (\<lambda>c. (c, Some (nd_id d))) cs @ stack)
       (bt_insert (nd_id d) (UiNode d cs, parent) out)"
  by pat_completeness auto
termination
proof (relation "measure (\<lambda>(stack, out). sum_list (map (\<lambda>(n, p). node_count n) stack))", simp)
  fix d cs parent stack and out :: node_index
  show "((map (\<lambda>c. (c, Some (nd_id d))) cs @ stack, bt_insert (nd_id d) (UiNode d cs, parent) out),
         ((UiNode d cs, parent) # stack, out))
        \<in> measure (\<lambda>(stack, out). sum_list (map (\<lambda>(n, p). node_count n) stack))"
    by (simp add: comp_def)
qed

definition index :: "ui_tree \<Rightarrow> node_index" where
  "index t = index_loop (map (\<lambda>n. (n, None)) (tree_nodes t)) []"

text \<open>
  \<open>serde_json::to_value\<close> of a node: absent options, \<open>visible = true\<close>, and empty \<open>states\<close>
  and \<open>children\<close> are skipped.
\<close>

definition json_of_bounds :: "bounds \<Rightarrow> json" where
  "json_of_bounds b = json_obj [(''x'', json_of_f32 (bx b)), (''y'', json_of_f32 (bY b)),
     (''w'', json_of_f32 (bw b)), (''h'', json_of_f32 (bh b))]"

definition bounds_of_json :: "json \<Rightarrow> bounds option" where
  "bounds_of_json v =
     (let get = (\<lambda>k. Option.bind (json_get v k) f32_of_json);
          mk = (\<lambda>x y w h. case (x, y, w, h) of
                 (Some x, Some y, Some w, Some h) \<Rightarrow> Some \<lparr>bx = x, bY = y, bw = w, bh = h\<rparr>
               | _ \<Rightarrow> None)
      in case v of
           JArr [x, y, w, h] \<Rightarrow> mk (f32_of_json x) (f32_of_json y) (f32_of_json w) (f32_of_json h)
         | _ \<Rightarrow> mk (get ''x'') (get ''y'') (get ''w'') (get ''h''))"

definition opt_field :: "string \<Rightarrow> json option \<Rightarrow> (string \<times> json) list" where
  "opt_field k v = (case v of None \<Rightarrow> [] | Some j \<Rightarrow> [(k, j)])"

definition data_fields :: "node_data \<Rightarrow> (string \<times> json) list" where
  "data_fields d =
     [(''id'', JStr (nd_id d)), (''role'', JStr (nd_role d)), (''name'', JStr (nd_name d))]
     @ opt_field ''value'' (map_option JStr (nd_value d))
     @ opt_field ''checked'' (map_option JBool (nd_checked d))
     @ [(''enabled'', JBool (nd_enabled d)), (''focused'', JBool (nd_focused d))]
     @ opt_field ''visible'' (if nd_visible d then None else Some (JBool False))
     @ [(''bounds'', json_of_bounds (nd_bounds d))]
     @ opt_field ''states'' (if nd_states d = [] then None else Some (JArr (map JStr (nd_states d))))"

fun json_of_node :: "ui_node \<Rightarrow> json" where
  "json_of_node (UiNode d cs) =
     json_obj (data_fields d @ opt_field ''children''
       (if cs = [] then None else Some (JArr (map json_of_node cs))))"

fun json_entries :: "json \<Rightarrow> (string \<times> json) list" where
  "json_entries (JObj m) = m"
| "json_entries _ = []"

definition scalar_fields :: "ui_node \<Rightarrow> (string, json) btmap" where
  "scalar_fields n = filter (\<lambda>(k, _). k \<in> set NODE_FIELDS) (json_entries (json_of_node n))"

definition changed_fields :: "ui_node \<Rightarrow> ui_node \<Rightarrow> (string, json) btmap" where
  "changed_fields old new =
     (let old_fields = scalar_fields old
      in filter (\<lambda>(k, v). map_of old_fields k \<noteq> Some v) (scalar_fields new))"

definition embedded_in_parent :: "node_index \<Rightarrow> node_index \<Rightarrow> string option \<Rightarrow> bool" where
  "embedded_in_parent before after parent =
     (case parent of None \<Rightarrow> False
      | Some p \<Rightarrow> (case map_of before p of
           None \<Rightarrow> True
         | Some (_, old_pp) \<Rightarrow> (case map_of after p of None \<Rightarrow> False | Some (_, pp) \<Rightarrow> pp \<noteq> old_pp)))"

definition diff_step :: "node_index \<Rightarrow> node_index \<Rightarrow> string \<times> (ui_node \<times> string option)
    \<Rightarrow> tree_diff \<Rightarrow> tree_diff" where
  "diff_step before after e diff =
     (case e of (ident, node, parent) \<Rightarrow>
      (case map_of before ident of
         None \<Rightarrow>
           if embedded_in_parent before after parent then diff
           else diff\<lparr>df_added := df_added diff @ [\<lparr>add_node = node, add_parent = parent\<rparr>]\<rparr>
       | Some (old_node, old_parent) \<Rightarrow>
           if old_parent \<noteq> parent then
             diff\<lparr>df_removed := df_removed diff @ [ident],
                  df_added := df_added diff @ [\<lparr>add_node = node, add_parent = parent\<rparr>]\<rparr>
           else
             let fs = changed_fields old_node node in
             if fs \<noteq> [] then
               diff\<lparr>df_changed := df_changed diff @ [\<lparr>ch_id = ident, ch_fields = fs\<rparr>]\<rparr>
             else diff))"

definition diff_trees :: "ui_tree \<Rightarrow> ui_tree \<Rightarrow> tree_diff" where
  "diff_trees old new =
     (let before = index old;
          after = index new;
          diff = fold (diff_step before after) after empty_diff;
          gone = filter (\<lambda>i. map_of after i = None) (map fst before);
          diff = diff\<lparr>df_removed := df_removed diff @ gone\<rparr>
      in \<lparr>df_added = sort_key (\<lambda>a. nid (add_node a)) (df_added diff),
          df_removed = sort (df_removed diff),
          df_changed = sort_key ch_id (df_changed diff)\<rparr>)"

subsection \<open>Application\<close>

text \<open>\<open>iter_mut().any(f)\<close>: the first element \<open>g\<close> changes is replaced.\<close>

fun update_first :: "('a \<Rightarrow> 'a option) \<Rightarrow> 'a list \<Rightarrow> 'a list option" where
  "update_first g [] = None"
| "update_first g (x # xs) =
     (case g x of Some y \<Rightarrow> Some (y # xs) | None \<Rightarrow> map_option (Cons x) (update_first g xs))"

lemma update_first_cong [fundef_cong]:
  assumes "xs = ys" and "\<And>x. x \<in> set ys \<Longrightarrow> f x = g x"
  shows "update_first f xs = update_first g ys"
  unfolding \<open>xs = ys\<close> using assms(2) by (induction ys) (auto split: option.splits)

fun remove_first :: "string \<Rightarrow> ui_node list \<Rightarrow> ui_node list" where
  "remove_first i [] = []"
| "remove_first i (n # ns) = (if nid n = i then ns else n # remove_first i ns)"

fun remove_below :: "string \<Rightarrow> ui_node \<Rightarrow> ui_node option" where
  "remove_below i (UiNode d cs) = map_option (UiNode d)
     (if list_ex (\<lambda>n. nid n = i) cs then Some (remove_first i cs)
      else update_first (remove_below i) cs)"

definition remove_id :: "string \<Rightarrow> ui_node list \<Rightarrow> ui_node list option" where
  "remove_id i ns =
     (if list_ex (\<lambda>n. nid n = i) ns then Some (remove_first i ns)
      else update_first (remove_below i) ns)"

definition forest_find :: "ui_node list \<Rightarrow> string \<Rightarrow> ui_node option" where
  "forest_find ns i = find_map (node_find i) ns"

fun node_modify :: "string \<Rightarrow> (ui_node \<Rightarrow> ui_node) \<Rightarrow> ui_node \<Rightarrow> ui_node option" where
  "node_modify i f (UiNode d cs) =
     (if nd_id d = i then Some (f (UiNode d cs))
      else map_option (UiNode d) (update_first (node_modify i f) cs))"

definition forest_modify :: "string \<Rightarrow> (ui_node \<Rightarrow> ui_node) \<Rightarrow> ui_node list \<Rightarrow> ui_node list" where
  "forest_modify i f ns = (case update_first (node_modify i f) ns of Some ns' \<Rightarrow> ns' | None \<Rightarrow> ns)"

definition apply_field :: "string \<Rightarrow> json \<Rightarrow> node_data \<Rightarrow> node_data" where
  "apply_field k v d =
     (if k = ''role'' then d\<lparr>nd_role := case_option '''' (\<lambda>s. s) (as_str v)\<rparr>
      else if k = ''name'' then d\<lparr>nd_name := case_option '''' (\<lambda>s. s) (as_str v)\<rparr>
      else if k = ''value'' then d\<lparr>nd_value := as_str v\<rparr>
      else if k = ''checked'' then d\<lparr>nd_checked := as_bool v\<rparr>
      else if k = ''enabled'' then d\<lparr>nd_enabled := case_option True (\<lambda>b. b) (as_bool v)\<rparr>
      else if k = ''focused'' then d\<lparr>nd_focused := case_option False (\<lambda>b. b) (as_bool v)\<rparr>
      else if k = ''visible'' then d\<lparr>nd_visible := case_option True (\<lambda>b. b) (as_bool v)\<rparr>
      else if k = ''bounds'' then
        (case bounds_of_json v of Some b \<Rightarrow> d\<lparr>nd_bounds := b\<rparr> | None \<Rightarrow> d)
      else if k = ''states'' then
        (case strings_of_json v of Some s \<Rightarrow> d\<lparr>nd_states := s\<rparr> | None \<Rightarrow> d)
      else d)"

definition apply_fields :: "(string, json) btmap \<Rightarrow> node_data \<Rightarrow> node_data" where
  "apply_fields fs d = fold (\<lambda>(k, v). apply_field k v) fs d"

text \<open>One \<open>pending.retain\<close> pass: the grafted forest, whether it progressed, what is kept.\<close>

fun graft_pass :: "added_node list \<Rightarrow> ui_node list \<Rightarrow> ui_node list \<times> bool \<times> added_node list" where
  "graft_pass [] out = (out, False, [])"
| "graft_pass (a # pending) out =
     (if forest_find out (nid (add_node a)) \<noteq> None then graft_pass pending out
      else
        let can_place = (case add_parent a of None \<Rightarrow> True
                         | Some p \<Rightarrow> forest_find out p \<noteq> None \<or> p = '''')
        in if can_place then
             let out' = (case add_parent a of
                   Some p \<Rightarrow> if p \<noteq> '''' then forest_modify p (with_child (add_node a)) out
                             else out @ [add_node a]
                 | None \<Rightarrow> out @ [add_node a]);
                 (out'', _, kept) = graft_pass pending out'
             in (out'', True, kept)
           else
             let (out'', progress, kept) = graft_pass pending out in (out'', progress, a # kept))"

lemma graft_pass_shrinks:
  "graft_pass pending out = (out', progress, kept) \<Longrightarrow>
     length kept \<le> length pending \<and> (progress \<longrightarrow> length kept < length pending)"
  by (induction pending out arbitrary: out' progress kept rule: graft_pass.induct)
    (fastforce simp: Let_def split: if_splits option.splits prod.splits)+

function graft_loop :: "added_node list \<Rightarrow> ui_node list \<Rightarrow> ui_node list" where
  "graft_loop pending out =
     (case graft_pass pending out of (out', progress, kept) \<Rightarrow>
        if progress \<and> kept \<noteq> [] then graft_loop kept out' else out')"
  by pat_completeness auto
termination
  by (relation "measure (\<lambda>(pending, out). length pending)") (auto dest: graft_pass_shrinks [OF sym])

declare graft_loop.simps [simp del]

definition apply_diff :: "ui_tree \<Rightarrow> tree_diff \<Rightarrow> ui_tree" where
  "apply_diff old diff =
     (let ns = fold (\<lambda>i ns. case remove_id i ns of Some ns' \<Rightarrow> ns' | None \<Rightarrow> ns)
                 (df_removed diff) (tree_nodes old);
          ns = fold (\<lambda>c. forest_modify (ch_id c) (map_data (apply_fields (ch_fields c))))
                 (df_changed diff) ns
      in old\<lparr>tree_nodes := graft_loop (df_added diff) ns\<rparr>)"

subsection \<open>The compact form\<close>

definition MAX_VALUE_CHARS :: nat where
  "MAX_VALUE_CHARS = 200"

definition is_password :: "ui_node \<Rightarrow> bool" where
  "is_password n = (nrole n = ''password'' \<or> ''password'' \<in> set (nd_states (data n)))"

definition compact_value :: "string \<Rightarrow> string" where
  "compact_value v =
     (let cs = chars_of v;
          w = concat (take MAX_VALUE_CHARS cs) @ (if MAX_VALUE_CHARS < length cs then ellipsis else [])
      in ''value='' @ [CHR 0x22] @ str_replace [CHR 0x22] [CHR 0x27] w @ [CHR 0x22])"

definition compact_flags :: "ui_node \<Rightarrow> string list" where
  "compact_flags n =
     (if nd_checked (data n) = Some True then [''checked''] else [])
     @ (if \<not> nd_enabled (data n) then [''disabled''] else [])
     @ (if nd_focused (data n) then [''focused''] else [])
     @ (if is_password n then []
        else case nd_value (data n) of None \<Rightarrow> [] | Some v \<Rightarrow> [compact_value v])"

definition compact_line :: "ui_node \<Rightarrow> nat \<Rightarrow> string" where
  "compact_line n depth =
     concat (replicate depth ''  '') @ nid n @ '' '' @ nrole n @ '' '' @ [CHR 0x22]
     @ str_replace [CHR 0x22] [CHR 0x27] (nd_name (data n)) @ [CHR 0x22]
     @ (if compact_flags n = [] then []
        else ''  ['' @ join ''|'' (compact_flags n) @ '']'')
     @ [CHR 0x0A]"

fun compact_node :: "nat \<Rightarrow> ui_node \<Rightarrow> string" where
  "compact_node depth (UiNode d cs) =
     (if \<not> nd_visible d then []
      else compact_line (UiNode d cs) depth @ concat (map (compact_node (depth + 1)) cs))"

definition compact_lines :: "ui_tree \<Rightarrow> string" where
  "compact_lines t = concat (map (compact_node 0) (tree_nodes t))"

end
