(* ===== verification/Interfaces.thy ===== *)
theory Interfaces
  imports Prelude
begin

text \<open>
  The interfaces that several components share, each a locale whose laws the components
  discharge by interpretation: a state with a preserved invariant, a buffer of bounded
  length, and a partial decoder that inverts an encoder.  A fourth interface, the
  contract between a host and the cache of its trees, stands in \<open>Host\<close>.
\<close>

section \<open>Operations that keep an invariant\<close>

locale invariant_ops =
  fixes inv :: "'s \<Rightarrow> bool"
    and run :: "'a \<Rightarrow> 's \<Rightarrow> 's"
  assumes keeps: "inv s \<Longrightarrow> inv (run a s)"
begin

lemma keeps_fold: "inv s \<Longrightarrow> inv (fold run as s)"
  by (induction as arbitrary: s) (auto intro: keeps)

end

text \<open>A buffer that an operation may fill up to a bound that it does not move.\<close>

locale bounded_buffer =
  fixes contents :: "'s \<Rightarrow> 'x list"
    and bound :: "'s \<Rightarrow> nat"
    and put :: "'a \<Rightarrow> 's \<Rightarrow> 's"
  assumes bound_put: "bound (put a s) = bound s"
    and put_bound: "length (contents s) \<le> bound s \<Longrightarrow> length (contents (put a s)) \<le> bound s"
begin

sublocale invariant_ops "\<lambda>s. length (contents s) \<le> bound s" put
  by unfold_locales (simp add: bound_put put_bound)

lemma bound_fold: "bound (fold put as s) = bound s"
  by (induction as arbitrary: s) (simp_all add: bound_put)

lemma length_fold:
  assumes "length (contents s) \<le> bound s"
  shows "length (contents (fold put as s)) \<le> bound s"
  using keeps_fold [OF assms] by (simp add: bound_fold)

end

section \<open>Encoders and their decoders\<close>

locale codec =
  fixes encode :: "'a \<Rightarrow> 'b"
    and decode :: "'b \<Rightarrow> 'e + 'a"
    and valid :: "'a \<Rightarrow> bool"
  assumes decode_encode: "valid x \<Longrightarrow> decode (encode x) = Inr x"
begin

lemma encode_inj: "valid x \<Longrightarrow> valid y \<Longrightarrow> encode x = encode y \<longleftrightarrow> x = y"
  using decode_encode by (metis sum.inject(2))

lemma decode_is_ok: "valid x \<Longrightarrow> is_ok (decode (encode x))"
  by (simp add: decode_encode)

end

section \<open>Checked machine arithmetic\<close>

text \<open>
  \<open>a + b\<close> and \<open>a - b\<close> on \<open>u64\<close>: a build with overflow checks panics (\<open>None\<close>) where a
  release build wraps.
\<close>

definition add_u64 :: "bool \<Rightarrow> u64 \<Rightarrow> u64 \<Rightarrow> u64 option" where
  "add_u64 checks a b = (if checks \<and> 2 ^ 64 \<le> uint a + uint b then None else Some (a + b))"

definition sub_u64 :: "bool \<Rightarrow> u64 \<Rightarrow> u64 \<Rightarrow> u64 option" where
  "sub_u64 checks a b = (if checks \<and> uint a < uint b then None else Some (a - b))"

definition sat_sub_u64 :: "u64 \<Rightarrow> u64 \<Rightarrow> u64" where
  "sat_sub_u64 a b = (if a < b then 0 else a - b)"

lemma unat_add_small: "unat a + unat b < 2 ^ 64 \<Longrightarrow> unat (a + b :: u64) = unat a + unat b"
  using unat_add_lem [of a b] by simp

lemma uint_less_iff:
  fixes a b :: u64
  shows "uint a < uint b \<longleftrightarrow> unat a < unat b"
  using word_less_alt [of a b] word_less_nat_alt [of a b] by simp

lemma add_u64_small:
  fixes a b :: u64
  assumes "unat a + unat b < 2 ^ 64"
  shows "add_u64 checks a b = Some (a + b)" "unat (a + b) = unat a + unat b"
proof -
  have "int (unat a + unat b) < 2 ^ 64" using assms by (metis of_nat_less_iff of_nat_numeral of_nat_power)
  then have "uint a + uint b < 2 ^ 64" by (simp only: of_nat_add uint_nat)
  then show "add_u64 checks a b = Some (a + b)" by (simp add: add_u64_def)
qed (rule unat_add_small [OF assms])

lemma sub_u64_small:
  fixes a b :: u64
  assumes "unat b \<le> unat a"
  shows "sub_u64 checks a b = Some (a - b)" "unat (a - b) = unat a - unat b"
  using assms by (simp_all add: sub_u64_def uint_less_iff unat_sub word_le_nat_alt)

text \<open>What a call comes to: a value, a panic, or no return within the observed time.\<close>

datatype 'a outcome = Returns 'a | Panics | Waiting

definition or_panic :: "'a option \<Rightarrow> 'a outcome" where
  "or_panic v = (case v of None \<Rightarrow> Panics | Some x \<Rightarrow> Returns x)"

lemma or_panic_simps [simp]: "or_panic None = Panics" "or_panic (Some x) = Returns x"
  by (simp_all add: or_panic_def)

end
