(* ===== verification/Event_Ring.thy ===== *)
theory Event_Ring
  imports Interfaces Json
begin

text \<open>
  \<open>crates/gpui-agent/src/event.rs\<close>: the bounded event stream.  The \<open>Mutex\<close> makes every
  operation atomic, so it is a function of the ring; arithmetic on \<open>u64\<close> takes the build's
  overflow-check setting.
\<close>

section \<open>Definitions\<close>

definition EVENT_RING_CAPACITY :: nat where "EVENT_RING_CAPACITY = 1024"

definition EVENTS_DEFAULT_LIMIT :: nat where "EVENTS_DEFAULT_LIMIT = 256"

datatype event_level = Trace | Debug | Info | Warn | Error

primrec level_as_str :: "event_level \<Rightarrow> string" where
  "level_as_str Trace = ''trace''"
| "level_as_str Debug = ''debug''"
| "level_as_str Info = ''info''"
| "level_as_str Warn = ''warn''"
| "level_as_str Error = ''error''"

record agent_event =
  ev_seq :: u64
  ev_level :: event_level
  ev_target :: string
  ev_message :: string

record event_poll =
  poll_events :: "agent_event list"
  poll_latest :: u64
  poll_lagged :: bool

record event_ring =
  ring_capacity :: nat
  ring_next :: u64
  ring_buf :: "agent_event list"

definition ring_new :: "nat \<Rightarrow> event_ring" where
  "ring_new c = \<lparr>ring_capacity = c, ring_next = 1, ring_buf = []\<rparr>"

definition ring_default :: event_ring where
  "ring_default = ring_new EVENT_RING_CAPACITY"

definition ring_push ::
    "bool \<Rightarrow> event_level \<Rightarrow> string \<Rightarrow> string \<Rightarrow> event_ring \<Rightarrow> (u64 \<times> event_ring) option" where
  "ring_push checks level target message r =
     (let sq = ring_next r in
      case add_u64 checks (ring_next r) 1 of
        None \<Rightarrow> None
      | Some nx \<Rightarrow>
          let buf = (if 0 < ring_capacity r \<and> length (ring_buf r) = ring_capacity r
                     then tl (ring_buf r) else ring_buf r);
              buf = (if 0 < ring_capacity r
                     then buf @ [\<lparr>ev_seq = sq, ev_level = level, ev_target = target, ev_message = message\<rparr>]
                     else buf)
          in Some (sq, r\<lparr>ring_next := nx, ring_buf := buf\<rparr>))"

definition ring_since :: "bool \<Rightarrow> u64 option \<Rightarrow> nat \<Rightarrow> event_ring \<Rightarrow> event_poll option" where
  "ring_since checks since limit r =
     (let limit = min limit (max (ring_capacity r) 1) in
      case sub_u64 checks (ring_next r) (of_nat (length (ring_buf r))) of
        None \<Rightarrow> None
      | Some base_seq \<Rightarrow>
          let events = take limit (filter (\<lambda>e. case since of None \<Rightarrow> True | Some s \<Rightarrow> s < ev_seq e) (ring_buf r));
              latest = sat_sub_u64 (ring_next r) 1
          in case since of
               None \<Rightarrow> Some \<lparr>poll_events = events, poll_latest = latest, poll_lagged = False\<rparr>
             | Some s \<Rightarrow> map_option (\<lambda>s1. \<lparr>poll_events = events, poll_latest = latest,
                                            poll_lagged = s1 < base_seq\<rparr>) (add_u64 checks s 1))"

definition ring_latest :: "bool \<Rightarrow> event_ring \<Rightarrow> u64 option" where
  "ring_latest checks r = sub_u64 checks (ring_next r) 1"

definition ring_is_empty :: "event_ring \<Rightarrow> bool" where
  "ring_is_empty r = (ring_buf r = [])"

text \<open>\<open>serde_json::to_value\<close> of a poll.\<close>

definition json_of_event :: "agent_event \<Rightarrow> json" where
  "json_of_event e = json_obj [(''seq'', json_of_u64 (ev_seq e)),
     (''level'', JStr (level_as_str (ev_level e))), (''target'', JStr (ev_target e)),
     (''message'', JStr (ev_message e))]"

definition json_of_poll :: "event_poll \<Rightarrow> json" where
  "json_of_poll p = json_obj [(''events'', JArr (map json_of_event (poll_events p))),
     (''latest'', json_of_u64 (poll_latest p)), (''lagged'', JBool (poll_lagged p))]"

section \<open>The invariant\<close>

text \<open>
  The buffer holds the last allocated sequence numbers, in order and without gaps, and no
  more of them than the capacity.
\<close>

definition ring_seqs :: "event_ring \<Rightarrow> nat list" where
  "ring_seqs r = map (\<lambda>e. unat (ev_seq e)) (ring_buf r)"

definition ring_ok :: "event_ring \<Rightarrow> bool" where
  "ring_ok r = (length (ring_buf r) \<le> ring_capacity r \<and> length (ring_buf r) < unat (ring_next r) \<and>
     ring_seqs r = [unat (ring_next r) - length (ring_buf r) ..< unat (ring_next r)])"

lemma ring_ok_new: "ring_ok (ring_new c)"
  by (simp add: ring_ok_def ring_new_def ring_seqs_def)

text \<open>A push can overflow only after \<open>2 ^ 64 - 1\<close> of them.\<close>

definition ring_can_push :: "event_ring \<Rightarrow> bool" where
  "ring_can_push r = (unat (ring_next r) + 1 < 2 ^ 64)"

lemma ring_push_next:
  assumes "ring_can_push r"
  shows "add_u64 checks (ring_next r) 1 = Some (ring_next r + 1)"
    "unat (ring_next r + 1) = unat (ring_next r) + 1"
  using add_u64_small [of "ring_next r" 1] assms by (simp_all add: ring_can_push_def)

lemma ring_push_some:
  assumes "ring_can_push r"
  obtains r' where "ring_push checks l t m r = Some (ring_next r, r')"
  using ring_push_next(1) [OF assms, of checks] by (simp add: ring_push_def Let_def)

lemma tl_upt: "tl [i ..< j] = [Suc i ..< j]"
  by (cases "i < j") (simp_all add: upt_conv_Cons)

lemma ring_push_seqs:
  assumes "ring_push checks l t m r = Some (sq, r')" "ring_can_push r"
  shows "ring_capacity r' = ring_capacity r" "sq = ring_next r" "ring_next r' = ring_next r + 1"
    "ring_seqs r' = (if ring_capacity r = 0 then ring_seqs r
       else (if length (ring_buf r) = ring_capacity r then tl (ring_seqs r) else ring_seqs r)
            @ [unat (ring_next r)])"
  using assms ring_push_next(1) [OF assms(2), of checks]
  by (auto simp: ring_push_def Let_def ring_seqs_def map_tl split: if_splits)

lemma ring_ok_push:
  assumes ok: "ring_ok r" and push: "ring_push checks l t m r = Some (sq, r')"
    and room: "ring_can_push r"
  shows "ring_ok r'"
proof -
  let ?n = "unat (ring_next r)" and ?k = "length (ring_buf r)"
  note s = ring_push_seqs [OF push room]
  have nx: "unat (ring_next r') = ?n + 1" using ring_push_next [OF room] by (simp add: s)
  have seqs: "ring_seqs r = [?n - ?k ..< ?n]" and k: "?k \<le> ring_capacity r" "?k < ?n"
    using ok by (auto simp: ring_ok_def)
  have len: "length (ring_buf r') = length (ring_seqs r')" by (simp add: ring_seqs_def)
  show ?thesis
  proof (cases "ring_capacity r = 0")
    case True
    then show ?thesis using k by (simp add: ring_ok_def s(1,4) nx len seqs)
  next
    case False
    have "ring_seqs r' = [?n + 1 - length (ring_seqs r') ..< ?n + 1]
        \<and> length (ring_seqs r') \<le> ring_capacity r \<and> length (ring_seqs r') < ?n + 1"
      using False k by (cases "?k = ring_capacity r") (auto simp: s(4) seqs tl_upt Suc_diff_le)
    then show ?thesis by (simp add: ring_ok_def s(1) nx len)
  qed
qed

section \<open>Polling\<close>

lemma ring_base:
  assumes "ring_ok r"
  shows "sub_u64 checks (ring_next r) (of_nat (length (ring_buf r)))
      = Some (ring_next r - of_nat (length (ring_buf r)))"
    "unat (ring_next r - of_nat (length (ring_buf r))) = unat (ring_next r) - length (ring_buf r)"
proof -
  have "length (ring_buf r) < 2 ^ 64"
    using assms unsigned_less [of "ring_next r", where ?'a = nat] by (simp add: ring_ok_def)
  then have "unat (of_nat (length (ring_buf r)) :: u64) = length (ring_buf r)"
    by (simp add: unat_of_nat take_bit_nat_eq_self)
  then show "sub_u64 checks (ring_next r) (of_nat (length (ring_buf r)))
      = Some (ring_next r - of_nat (length (ring_buf r)))"
    "unat (ring_next r - of_nat (length (ring_buf r))) = unat (ring_next r) - length (ring_buf r)"
    using assms sub_u64_small [of "of_nat (length (ring_buf r))" "ring_next r"]
    by (simp_all add: ring_ok_def)
qed

lemma ring_latest_unat:
  "ring_ok r \<Longrightarrow> unat (sat_sub_u64 (ring_next r) 1) = unat (ring_next r) - 1"
  by (simp add: ring_ok_def sat_sub_u64_def word_less_nat_alt unat_sub word_le_nat_alt)

lemma filter_upt_gt: "filter ((<) s) [i ..< j] = [max (Suc s) i ..< j]"
  by (induction j) (auto simp: max_def)

lemma newer_seqs:
  assumes "ring_ok r"
  shows "map (\<lambda>e. unat (ev_seq e)) (filter (\<lambda>e. s < ev_seq e) (ring_buf r))
     = [max (Suc (unat s)) (unat (ring_next r) - length (ring_buf r)) ..< unat (ring_next r)]"
proof -
  have "map (\<lambda>e. unat (ev_seq e)) (filter (\<lambda>e. s < ev_seq e) (ring_buf r))
      = filter ((<) (unat s)) (ring_seqs r)"
    by (simp add: ring_seqs_def filter_map comp_def word_less_nat_alt)
  then show ?thesis using assms by (simp add: ring_ok_def filter_upt_gt)
qed

text \<open>A poll with a cursor: the page, the newest number, and what \<open>lagged\<close> says.\<close>

lemma ring_since_Some:
  assumes ok: "ring_ok r" and s: "unat s + 1 < 2 ^ 64"
  shows "\<exists>p. ring_since checks (Some s) limit r = Some p \<and>
      map (\<lambda>e. unat (ev_seq e)) (poll_events p)
        = take (min limit (max (ring_capacity r) 1))
            [max (Suc (unat s)) (unat (ring_next r) - length (ring_buf r)) ..< unat (ring_next r)] \<and>
      unat (poll_latest p) = unat (ring_next r) - 1 \<and>
      (poll_lagged p \<longleftrightarrow> unat s + 1 < unat (ring_next r) - length (ring_buf r))"
proof -
  have one: "unat s + unat (1 :: u64) < 2 ^ 64" using s by simp
  have "(s + 1 < ring_next r - of_nat (length (ring_buf r))) \<longleftrightarrow>
      unat s + 1 < unat (ring_next r) - length (ring_buf r)"
    using add_u64_small(2) [OF one] by (simp add: word_less_nat_alt ring_base(2) [OF ok])
  then show ?thesis
    by (simp add: ring_since_def Let_def ring_base(1) [OF ok] add_u64_small(1) [OF one]
        ring_latest_unat [OF ok] newer_seqs [OF ok] flip: take_map)
qed

lemma ring_since_None:
  assumes ok: "ring_ok r"
  shows "ring_since checks None limit r = Some \<lparr>
      poll_events = take (min limit (max (ring_capacity r) 1)) (ring_buf r),
      poll_latest = sat_sub_u64 (ring_next r) 1, poll_lagged = False\<rparr>"
  by (simp add: ring_since_def Let_def ring_base(1) [OF ok])

text \<open>The largest cursor: a checked build panics, a release build calls it lagged.\<close>

lemma ring_since_max:
  assumes ok: "ring_ok r"
  shows "ring_since True (Some (- 1)) limit r = None"
    "\<exists>p. ring_since False (Some (- 1)) limit r = Some p \<and> poll_events p = [] \<and> poll_lagged p"
proof -
  have "uint (- 1 :: u64) = 2 ^ 64 - 1" by (simp add: uint_word_ariths)
  then have ovf: "add_u64 True (- 1) 1 = None" "add_u64 False (- 1) 1 = Some 0"
    by (simp_all add: add_u64_def)
  show "ring_since True (Some (- 1)) limit r = None"
    by (simp add: ring_since_def Let_def ring_base(1) [OF ok] ovf)
  have "unat (ring_next r - of_nat (length (ring_buf r))) > 0"
    using ok unfolding ring_base(2) [OF ok] by (simp add: ring_ok_def)
  then have "0 < ring_next r - of_nat (length (ring_buf r))" by (simp add: word_less_nat_alt)
  moreover have "\<not> (- 1 :: u64) < e" for e by (simp add: not_less)
  ultimately show "\<exists>p. ring_since False (Some (- 1)) limit r = Some p \<and> poll_events p = [] \<and> poll_lagged p"
    by (simp add: ring_since_def Let_def ring_base(1) [OF ok] ovf)
qed

subsection \<open>The ring as a bounded buffer\<close>

definition ring_put :: "event_level \<times> string \<times> string \<Rightarrow> event_ring \<Rightarrow> event_ring" where
  "ring_put e r = (case e of (l, t, m) \<Rightarrow>
     (case ring_push False l t m r of None \<Rightarrow> r | Some (_, r') \<Rightarrow> r'))"

interpretation ring_buffer: bounded_buffer ring_buf ring_capacity ring_put
proof
  show "ring_capacity (ring_put a s) = ring_capacity s" for a s
    by (auto simp: ring_put_def ring_push_def add_u64_def Let_def split: prod.splits)
  show "length (ring_buf (ring_put a s)) \<le> ring_capacity s"
    if "length (ring_buf s) \<le> ring_capacity s" for a s
    using that by (auto simp: ring_put_def ring_push_def add_u64_def Let_def split: prod.splits)
qed

text \<open>A ring after \<open>n\<close> pushes holds the last \<open>min n capacity\<close> of the numbers \<open>1 .. n\<close>.\<close>

lemma ring_put_step:
  assumes "ring_ok r" "ring_can_push r"
  shows "ring_ok (ring_put e r)" "ring_next (ring_put e r) = ring_next r + 1"
    "length (ring_buf (ring_put e r)) = min (Suc (length (ring_buf r))) (ring_capacity r)"
proof -
  obtain l t m where e: "e = (l, t, m)" by (cases e)
  obtain r' where push: "ring_push False l t m r = Some (ring_next r, r')"
    using ring_push_some [OF assms(2)] .
  then have put: "ring_put e r = r'" by (simp add: ring_put_def e)
  note s = ring_push_seqs [OF push assms(2)]
  have len: "length (ring_seqs x) = length (ring_buf x)" for x by (simp add: ring_seqs_def)
  have "length (ring_seqs r') = min (Suc (length (ring_buf r))) (ring_capacity r)"
    unfolding s(4) using assms(1) by (auto simp: len ring_ok_def)
  then show "length (ring_buf (ring_put e r)) = min (Suc (length (ring_buf r))) (ring_capacity r)"
    by (simp add: put len)
  show "ring_ok (ring_put e r)" using ring_ok_push [OF assms(1) push assms(2)] by (simp add: put)
  show "ring_next (ring_put e r) = ring_next r + 1" by (simp add: put s(3))
qed

lemma ring_after:
  assumes "length es + 1 < 2 ^ 64"
  shows "ring_ok (fold ring_put es (ring_new c)) \<and>
    unat (ring_next (fold ring_put es (ring_new c))) = length es + 1 \<and>
    length (ring_buf (fold ring_put es (ring_new c))) = min (length es) c \<and>
    ring_capacity (fold ring_put es (ring_new c)) = c"
  using assms
proof (induction es rule: rev_induct)
  case (snoc e es)
  let ?r = "fold ring_put es (ring_new c)"
  have ih: "ring_ok ?r" "unat (ring_next ?r) = length es + 1" "length (ring_buf ?r) = min (length es) c"
    "ring_capacity ?r = c" using snoc by auto
  have room: "ring_can_push ?r" using snoc.prems by (simp add: ring_can_push_def ih)
  note step = ring_put_step [OF ih(1) room, of e]
  have "unat (ring_next ?r + 1) = length es + 2" using ring_push_next(2) [OF room] by (simp add: ih)
  then show ?case using step ih ring_buffer.bound_put [of e ?r] by auto
qed (simp add: ring_ok_new, simp add: ring_new_def)

section \<open>Properties\<close>

text \<open>
  What a poll with a cursor \<open>s\<close> returns from a ring of capacity \<open>c\<close> after \<open>n\<close> pushes: of
  the retained numbers (the last \<open>min n c\<close> of \<open>1 .. n\<close>) those beyond \<open>s\<close>, in order, cut to
  the page limit; \<open>latest = n\<close>; and \<open>lagged\<close> says exactly that a number beyond \<open>s\<close> was
  already dropped.  It holds with and without overflow checks, short of the last cursor.
\<close>

theorem poll_after_pushes:
  assumes "length es + 1 < 2 ^ 64" "unat s + 1 < 2 ^ 64"
  shows "\<exists>p. ring_since checks (Some s) limit (fold ring_put es (ring_new c)) = Some p \<and>
     map (\<lambda>e. unat (ev_seq e)) (poll_events p) = take (min limit (max c 1))
       [max (unat s + 1) (length es + 1 - min (length es) c) ..< length es + 1] \<and>
     unat (poll_latest p) = length es \<and>
     (poll_lagged p \<longleftrightarrow> unat s + 1 < length es + 1 - min (length es) c)"
proof -
  let ?r = "fold ring_put es (ring_new c)"
  have r: "ring_ok ?r" "unat (ring_next ?r) = length es + 1" "length (ring_buf ?r) = min (length es) c"
    "ring_capacity ?r = c" using ring_after [OF assms(1), of c] by blast+
  show ?thesis using ring_since_Some [OF r(1) assms(2), of checks limit] by (simp only: r) simp
qed

definition sample_pushes :: "(event_level \<times> string \<times> string) list" where
  "sample_pushes = [(Info, ''todo'', ''a''), (Warn, ''todo'', ''b''), (Info, ''todo'', ''c''),
     (Error, ''todo'', ''d'')]"

theorem poll_after_pushes_witness:
  "\<exists>p. ring_since True (Some 2) 10 (fold ring_put sample_pushes (ring_new 2)) = Some p \<and>
     map (\<lambda>e. unat (ev_seq e)) (poll_events p) = [3, 4] \<and> \<not> poll_lagged p"
proof -
  have len: "length sample_pushes = 4" by (simp add: sample_pushes_def)
  have pre: "length sample_pushes + 1 < 2 ^ 64" "unat (2 :: u64) + 1 < 2 ^ 64" by (simp_all add: len)
  have page: "take (min 10 (max 2 1)) [max (unat (2 :: u64) + 1)
      (length sample_pushes + 1 - min (length sample_pushes) 2) ..< length sample_pushes + 1] = [3, 4]"
    by (simp add: len)
  have lag: "\<not> unat (2 :: u64) + 1 < length sample_pushes + 1 - min (length sample_pushes) 2"
    by (simp add: len)
  from poll_after_pushes [OF pre, of True 10 2] show ?thesis
    unfolding page by (elim exE conjE) (intro exI conjI, assumption+, simp only: lag simp_thms)
qed

text \<open>
  A poller that follows the documented rule, advance the cursor to \<open>latest\<close>, loses events
  silently: when a page is cut by its limit, the events after the page are retained, yet the
  next poll from \<open>latest\<close> returns none of them and does not report a lag.
\<close>

theorem cut_page_is_lost:
  assumes "length es + 1 < 2 ^ 64" "length es \<le> c" "limit < length es"
  shows "\<exists>p q. ring_since checks (Some 0) limit (fold ring_put es (ring_new c)) = Some p \<and>
     map (\<lambda>e. unat (ev_seq e)) (poll_events p) = [1 ..< limit + 1] \<and>
     ring_since checks (Some (poll_latest p)) limit (fold ring_put es (ring_new c)) = Some q \<and>
     poll_events q = [] \<and> \<not> poll_lagged q"
proof -
  let ?r = "fold ring_put es (ring_new c)"
  have r: "ring_ok ?r" "unat (ring_next ?r) = length es + 1" "length (ring_buf ?r) = length es"
    "ring_capacity ?r = c" using ring_after [OF assms(1), of c] assms(2) by auto
  have lim: "min limit (max c (Suc 0)) = limit" using assms(2,3) by simp
  obtain p where p: "ring_since checks (Some 0) limit ?r = Some p"
    "map (\<lambda>e. unat (ev_seq e)) (poll_events p) = take limit [1 ..< length es + 1]"
    "unat (poll_latest p) = length es"
    using ring_since_Some [OF r(1), of 0 checks limit] by (auto simp: r lim simp del: upt_Suc)
  have "take limit [1 ..< length es + 1] = [1 ..< limit + 1]"
    using assms(3) by (metis add.commute less_imp_le_nat add_le_cancel_left take_upt)
  moreover obtain q where "ring_since checks (Some (poll_latest p)) limit ?r = Some q"
    "poll_events q = []" "\<not> poll_lagged q"
    using ring_since_Some [OF r(1), of "poll_latest p" checks limit] assms(1) by (auto simp: r p(3))
  ultimately show ?thesis using p by auto
qed

theorem cut_page_is_lost_witness:
  "\<exists>p q. ring_since False (Some 0) 1
       (fold ring_put [(Info, ''todo'', ''a''), (Error, ''todo'', ''b'')] ring_default) = Some p \<and>
     map (\<lambda>e. unat (ev_seq e)) (poll_events p) = [1] \<and>
     ring_since False (Some (poll_latest p)) 1
       (fold ring_put [(Info, ''todo'', ''a''), (Error, ''todo'', ''b'')] ring_default) = Some q \<and>
     poll_events q = [] \<and> \<not> poll_lagged q"
  using cut_page_is_lost [of "[(Info, ''todo'', ''a''), (Error, ''todo'', ''b'')]" EVENT_RING_CAPACITY 1 False]
  by (simp add: ring_default_def EVENT_RING_CAPACITY_def)

end
