(* ===== verification/Wire.thy ===== *)
theory Wire
  imports Tree_Diff Event_Ring
begin

text \<open>
  The answers of the protocol (\<open>crates/gpui-agent/src/protocol.rs\<close>): \<open>HelloAuth\<close>,
  \<open>HelloInfo\<close> and \<open>Response\<close>, and the \<open>DispatchResult\<close> of \<open>dispatch.rs\<close>.  The identity that
  \<open>fill_hello_identity\<close> reads from the process is an argument.
\<close>

datatype hello_auth = AuthNone | AuthRequired

definition auth_from_token_configured :: "string option \<Rightarrow> hello_auth" where
  "auth_from_token_configured token = (if token \<noteq> None then AuthRequired else AuthNone)"

fun auth_as_str :: "hello_auth \<Rightarrow> string" where
  "auth_as_str AuthNone = ''none''"
| "auth_as_str AuthRequired = ''required''"

record hello_info =
  he_protocol :: u32
  he_app :: string
  he_platform :: platform_kind
  he_os :: string
  he_ready :: bool
  he_deliveries :: "delivery_mode list"
  he_auth :: hello_auth
  he_bundle_id :: "string option"
  he_executable :: "string option"
  he_features :: "string list"

record response =
  rs_v :: u32
  rs_id :: string
  rs_ok :: bool
  rs_error :: "string option"
  rs_hello :: "hello_info option"
  rs_tree :: "ui_tree option"
  rs_result :: "json option"
  rs_fingerprints :: "(string, u64) btmap option"
  rs_rev :: "u64 option"

definition response_ok :: "string \<Rightarrow> response" where
  "response_ok ident = \<lparr>rs_v = PROTOCOL_VERSION, rs_id = ident, rs_ok = True, rs_error = None,
     rs_hello = None, rs_tree = None, rs_result = None, rs_fingerprints = None, rs_rev = None\<rparr>"

definition response_err :: "string \<Rightarrow> string \<Rightarrow> response" where
  "response_err ident error = \<lparr>rs_v = PROTOCOL_VERSION, rs_id = ident, rs_ok = False,
     rs_error = Some error, rs_hello = None, rs_tree = None, rs_result = None,
     rs_fingerprints = None, rs_rev = None\<rparr>"

record dispatch_result =
  dr_value :: "json option"

definition dispatch_empty :: dispatch_result where
  "dispatch_empty = \<lparr>dr_value = None\<rparr>"

definition dispatch_json :: "json \<Rightarrow> dispatch_result" where
  "dispatch_json v = \<lparr>dr_value = Some v\<rparr>"

lemma response_simps [simp]:
  "rs_ok (response_ok i)" "\<not> rs_ok (response_err i e)"
  "rs_error (response_ok i) = None" "rs_error (response_err i e) = Some e"
  "rs_id (response_ok i) = i" "rs_id (response_err i e) = i"
  "rs_tree (response_ok i) = None" "rs_tree (response_err i e) = None"
  "rs_result (response_ok i) = None" "rs_result (response_err i e) = None"
  by (simp_all add: response_ok_def response_err_def)

section \<open>Identity of the process\<close>

record host_identity =
  hi_executable :: string
  hi_bundle_id :: "string option"
  hi_connect_id :: "string option"

definition opt_empty :: "string option \<Rightarrow> bool" where
  "opt_empty s = (case s of None \<Rightarrow> True | Some t \<Rightarrow> t = [])"

definition fill_hello_identity :: "host_identity \<Rightarrow> hello_info \<Rightarrow> hello_info" where
  "fill_hello_identity ident hello =
     (let hello = (if opt_empty (he_executable hello)
                   then hello\<lparr>he_executable := Some (hi_executable ident)\<rparr> else hello)
      in if opt_empty (he_bundle_id hello)
         then hello\<lparr>he_bundle_id := (case hi_bundle_id ident of Some b \<Rightarrow> Some b
                                      | None \<Rightarrow> hi_connect_id ident)\<rparr>
         else hello)"

section \<open>The diff on the wire\<close>

lemma json_get_obj:
  "distinct (map fst kvs) \<Longrightarrow> json_get (json_obj kvs) k = map_of kvs k"
  using bt_fold_insert(2) [OF bt_ok_Nil, of fst kvs snd]
  by (auto simp: json_obj_def case_prod_unfold)

text \<open>\<open>json!({ "diff": diff })\<close>: the serialized \<open>TreeDiff\<close> of \<open>diff.rs\<close>.\<close>

definition json_of_added :: "added_node \<Rightarrow> json" where
  "json_of_added a = json_obj (json_entries (json_of_node (add_node a))
     @ opt_field ''parent'' (map_option JStr (add_parent a)))"

definition json_of_changed :: "changed_node \<Rightarrow> json" where
  "json_of_changed c = json_obj [(''id'', JStr (ch_id c)), (''fields'', JObj (ch_fields c))]"

definition json_of_diff :: "tree_diff \<Rightarrow> json" where
  "json_of_diff d = json_obj [(''added'', JArr (map json_of_added (df_added d))),
     (''removed'', JArr (map JStr (df_removed d))),
     (''changed'', JArr (map json_of_changed (df_changed d)))]"

end
