(* ===== verification/Keybinding.thy ===== *)
theory Keybinding
  imports Wire
begin

text \<open>
  \<open>crates/gpui-agent/src/keybinding.rs\<close>: the catalog of Action ids, the classification of
  process-ending bindings, and the gate every host applies before it fires an Action.
\<close>

section \<open>Definitions\<close>

definition KEYBINDING_UNAVAILABLE :: string where
  "KEYBINDING_UNAVAILABLE = ''keybinding_unavailable''"

definition keybinding_unavailable :: "string \<Rightarrow> string" where
  "keybinding_unavailable detail = KEYBINDING_UNAVAILABLE @ '': '' @ detail"

definition is_keybinding_unavailable :: "string \<Rightarrow> bool" where
  "is_keybinding_unavailable error = has_error_prefix KEYBINDING_UNAVAILABLE error"

record keybinding_info =
  kb_id :: string
  kb_chord :: string
  kb_scope :: keybinding_scope
  kb_dangerous :: bool

definition keybinding_info_new ::
    "string \<Rightarrow> string \<Rightarrow> keybinding_scope \<Rightarrow> bool \<Rightarrow> keybinding_info" where
  "keybinding_info_new ident chord scope dangerous =
     \<lparr>kb_id = ident, kb_chord = chord, kb_scope = scope, kb_dangerous = dangerous\<rparr>"

record keybinding_request =
  kr_binding :: string
  kr_chord :: "string option"
  kr_scope :: keybinding_scope
  kr_confirm :: bool
  kr_activate :: bool

fun request_from_op :: "op \<Rightarrow> keybinding_request result" where
  "request_from_op (OpKeybinding binding chord scope confirm activate) =
     Inr \<lparr>kr_binding = binding, kr_chord = chord, kr_scope = scope, kr_confirm = confirm,
          kr_activate = activate\<rparr>"
| "request_from_op _ = Inl ''not a keybinding fire op''"

definition normalize_chord :: "string \<Rightarrow> string" where
  "normalize_chord chord =
     str_replace ''control'' ''ctrl'' (str_replace ''command'' ''cmd''
       (join ''-'' (split_whitespace (to_ascii_lowercase (trim chord)))))"

definition chords_eq :: "string \<Rightarrow> string \<Rightarrow> bool" where
  "chords_eq registered given = (normalize_chord registered = normalize_chord given)"

definition is_quit_binding :: "string \<Rightarrow> bool" where
  "is_quit_binding binding =
     (let n = to_ascii_lowercase (trim binding)
      in n = ''quit'' \<or> n = ''app.quit'' \<or> ends_with n ''.quit'')"

definition is_quit_chord :: "string \<Rightarrow> bool" where
  "is_quit_chord chord = (normalize_chord chord \<in> {''cmd-q'', ''super-q'', ''meta-q'', ''win-q''})"

definition binding_is_dangerous :: "keybinding_info \<Rightarrow> bool" where
  "binding_is_dangerous e = (kb_dangerous e \<or> is_quit_binding (kb_id e) \<or> is_quit_chord (kb_chord e))"

fun op_is_confirmed_quit :: "op \<Rightarrow> bool" where
  "op_is_confirmed_quit (OpKeybinding binding _ _ True _) = is_quit_binding binding"
| "op_is_confirmed_quit _ = False"

definition json_of_keybinding :: "keybinding_info \<Rightarrow> json" where
  "json_of_keybinding k = json_obj [(''id'', JStr (kb_id k)), (''chord'', JStr (kb_chord k)),
     (''scope'', JStr (scope_as_str (kb_scope k))), (''dangerous'', JBool (kb_dangerous k))]"

definition mark_dangerous :: "keybinding_info \<Rightarrow> keybinding_info" where
  "mark_dangerous row = row\<lparr>kb_dangerous := binding_is_dangerous row\<rparr>"

definition keybinding_list_json :: "keybinding_info list \<Rightarrow> json" where
  "keybinding_list_json catalog =
     json_obj [(''keybindings'', JArr (map json_of_keybinding (map mark_dangerous catalog)))]"

text \<open>\<open>serde_json::from_value::<Vec<KeybindingInfo>>\<close>; a struct may also be a sequence.\<close>

definition scope_of_json :: "json \<Rightarrow> keybinding_scope option" where
  "scope_of_json v = (if v = JStr ''focused'' then Some Focused
     else if v = JStr ''global'' then Some Global else None)"

definition mk_keybinding ::
    "json option \<Rightarrow> json option \<Rightarrow> json option \<Rightarrow> json option \<Rightarrow> keybinding_info option" where
  "mk_keybinding i c s d =
     (case (Option.bind i as_str, Option.bind c as_str, Option.bind s scope_of_json,
            Option.bind d as_bool) of
        (Some i, Some c, Some s, Some d) \<Rightarrow> Some (keybinding_info_new i c s d)
      | _ \<Rightarrow> None)"

definition keybinding_of_json :: "json \<Rightarrow> keybinding_info option" where
  "keybinding_of_json v =
     (case v of
        JArr [i, c, s, d] \<Rightarrow> mk_keybinding (Some i) (Some c) (Some s) (Some d)
      | _ \<Rightarrow> mk_keybinding (json_get v ''id'') (json_get v ''chord'') (json_get v ''scope'')
               (json_get v ''dangerous''))"

text \<open>\<open>catalog_from\<close>; the text of a serde error is an argument.\<close>

definition catalog_from :: "(json \<Rightarrow> string) \<Rightarrow> json option \<Rightarrow> keybinding_info list result" where
  "catalog_from serde_error result =
     (case Option.bind result (\<lambda>r. json_get r ''keybindings'') of
        None \<Rightarrow> Inr []
      | Some JNull \<Rightarrow> Inr []
      | Some v \<Rightarrow>
          (case Option.bind (as_array v) (\<lambda>rows. those (map keybinding_of_json rows)) of
             Some rows \<Rightarrow> Inr rows
           | None \<Rightarrow> Inl (''bad keybindings response: '' @ serde_error v)))"

definition complete_keybinding_action ::
    "dispatch_result result option \<Rightarrow> dispatch_result result" where
  "complete_keybinding_action listener_result =
     (case listener_result of
        Some r \<Rightarrow> r
      | None \<Rightarrow> Inl (keybinding_unavailable ''Action handler did not run''))"

text \<open>The closure is the update it makes to the result slot.\<close>

definition intercept_keybinding_action ::
    "(dispatch_result result option \<Rightarrow> dispatch_result result option) \<Rightarrow> dispatch_result result" where
  "intercept_keybinding_action dispatch_action = complete_keybinding_action (dispatch_action None)"

definition NOT_FOCUSED :: string where
  "NOT_FOCUSED = ''app not focused (a focused-scope binding needs the OS-focused window; ''
     @ ''pass activate=true / `--activate` to bring it to front first)''"

definition authorize_keybinding ::
    "keybinding_info list \<Rightarrow> keybinding_request \<Rightarrow> bool \<Rightarrow> keybinding_info result" where
  "authorize_keybinding catalog request app_focused =
     (let binding = trim (kr_binding request);
          by_id = filter (\<lambda>row. kb_id row = binding) catalog;
          chord = (case map_option trim (kr_chord request) of
                     Some c \<Rightarrow> if c = [] then None else Some c | None \<Rightarrow> None)
      in
      if binding = [] then Inl ''keybinding requires binding (Action id)''
      else if by_id = [] then Inl (''unknown binding `'' @ binding @ ''`'')
      else case List.find (\<lambda>row. kb_scope row = kr_scope request) by_id of
        None \<Rightarrow> Inl (''binding `'' @ binding @ ''` is registered as ''
          @ join ''/'' (map (\<lambda>row. scope_as_str (kb_scope row)) by_id)
          @ '', not '' @ scope_as_str (kr_scope request))
      | Some entry \<Rightarrow>
          if (case chord of Some c \<Rightarrow> \<not> chords_eq (kb_chord entry) c | None \<Rightarrow> False) then
            Inl (''chord `'' @ the chord @ ''` does not match binding `'' @ binding @ ''` (''
              @ kb_chord entry @ '')'')
          else if kr_scope request = Global \<and> kr_activate request then
            Inl ''activate=true is only valid for scope=focused''
          else if kr_scope request = Focused \<and> \<not> app_focused \<and> \<not> kr_activate request then
            Inl (keybinding_unavailable NOT_FOCUSED)
          else if binding_is_dangerous entry \<and> \<not> kr_confirm request then
            Inl (''confirm=true is required for dangerous keybinding `'' @ binding @ ''`'')
          else Inr entry)"

definition authorize_keybinding_op ::
    "op \<Rightarrow> keybinding_info list \<Rightarrow> bool \<Rightarrow> keybinding_info result" where
  "authorize_keybinding_op op catalog app_focused =
     rbind (request_from_op op) (\<lambda>r. authorize_keybinding catalog r app_focused)"

section \<open>The gate\<close>

lemma find_filter: "List.find P (filter Q xs) = List.find (\<lambda>x. Q x \<and> P x) xs"
  by (induction xs) auto

definition chord_accepted :: "keybinding_info \<Rightarrow> string option \<Rightarrow> bool" where
  "chord_accepted e chord = (case chord of None \<Rightarrow> True
     | Some c \<Rightarrow> trim c = [] \<or> chords_eq (kb_chord e) (trim c))"

lemma authorize_keybinding_iff:
  "authorize_keybinding catalog r focused = Inr e \<longleftrightarrow>
     trim (kr_binding r) \<noteq> [] \<and>
     List.find (\<lambda>row. kb_id row = trim (kr_binding r) \<and> kb_scope row = kr_scope r) catalog = Some e \<and>
     chord_accepted e (kr_chord r) \<and>
     (kr_scope r = Global \<longrightarrow> \<not> kr_activate r) \<and>
     (kr_scope r = Focused \<longrightarrow> focused \<or> kr_activate r) \<and>
     (binding_is_dangerous e \<longrightarrow> kr_confirm r)"
proof -
  have none: "filter (\<lambda>row. kb_id row = i) catalog = [] \<Longrightarrow>
      List.find (\<lambda>row. kb_id row = i \<and> kb_scope row = s) catalog = None" for i s
    by (auto simp: filter_empty_conv find_None_iff)
  show ?thesis
    by (auto simp: authorize_keybinding_def Let_def find_filter none chord_accepted_def
        split: option.splits if_splits)
qed

lemma authorized_row:
  "authorize_keybinding catalog r focused = Inr e \<Longrightarrow>
     e \<in> set catalog \<and> kb_id e = trim (kr_binding r) \<and> kb_scope e = kr_scope r"
  by (auto simp: authorize_keybinding_iff find_Some_iff)

lemma request_from_op_Inr:
  "request_from_op op = Inr r \<longleftrightarrow>
     op = OpKeybinding (kr_binding r) (kr_chord r) (kr_scope r) (kr_confirm r) (kr_activate r)"
  by (cases op; cases r) auto

text \<open>What makes a row dangerous, spelled out.\<close>

lemma binding_dangerous_iff:
  "binding_is_dangerous e \<longleftrightarrow> kb_dangerous e \<or>
     to_ascii_lowercase (trim (kb_id e)) = ''quit'' \<or> ends_with (to_ascii_lowercase (trim (kb_id e))) ''.quit'' \<or>
     normalize_chord (kb_chord e) \<in> {''cmd-q'', ''super-q'', ''meta-q'', ''win-q''}"
proof -
  have "ends_with ''app.quit'' ''.quit''" by code_simp
  then show ?thesis
    by (auto simp: binding_is_dangerous_def is_quit_binding_def is_quit_chord_def Let_def)
qed

lemma authorize_keybinding_spelled:
  "authorize_keybinding catalog \<lparr>kr_binding = binding, kr_chord = chord, kr_scope = scope, kr_confirm = confirm,
       kr_activate = activate\<rparr> focused = Inr e \<longleftrightarrow>
     trim binding \<noteq> [] \<and>
        List.find (\<lambda>row. kb_id row = trim binding \<and> kb_scope row = scope) catalog = Some e \<and>
        (case chord of None \<Rightarrow> True
         | Some given \<Rightarrow> trim given = [] \<or> normalize_chord (kb_chord e) = normalize_chord (trim given)) \<and>
        (case scope of Global \<Rightarrow> \<not> activate | Focused \<Rightarrow> focused \<or> activate) \<and>
        (if kb_dangerous e \<or>
            to_ascii_lowercase (trim (kb_id e)) = ''quit'' \<or> ends_with (to_ascii_lowercase (trim (kb_id e))) ''.quit'' \<or>
            normalize_chord (kb_chord e) \<in> {''cmd-q'', ''super-q'', ''meta-q'', ''win-q''}
         then confirm else True)"
  unfolding authorize_keybinding_iff binding_dangerous_iff [symmetric] chord_accepted_def chords_eq_def
  by (cases scope; cases "binding_is_dangerous e") simp_all

section \<open>The catalog on the wire\<close>

lemma scope_of_json_str [simp]: "scope_of_json (JStr (scope_as_str s)) = Some s"
  by (cases s) (simp_all add: scope_of_json_def)

lemma keybinding_of_json_obj [simp]: "keybinding_of_json (json_of_keybinding k) = Some k"
proof -
  have "keybinding_of_json (json_of_keybinding k) =
      mk_keybinding (json_get (json_of_keybinding k) ''id'') (json_get (json_of_keybinding k) ''chord'')
        (json_get (json_of_keybinding k) ''scope'') (json_get (json_of_keybinding k) ''dangerous'')"
    by (simp add: keybinding_of_json_def json_of_keybinding_def json_obj_def)
  then show ?thesis
    by (simp add: json_of_keybinding_def json_get_obj mk_keybinding_def keybinding_info_new_def)
qed

lemma catalog_roundtrip:
  "catalog_from err (Some (keybinding_list_json catalog)) = Inr (map mark_dangerous catalog)"
proof -
  have "those (map keybinding_of_json (map json_of_keybinding ks)) = Some ks" for ks
    by (induction ks) simp_all
  from this [of "map mark_dangerous catalog"] show ?thesis
    by (simp add: catalog_from_def keybinding_list_json_def json_get_obj)
qed

section \<open>Properties\<close>

text \<open>
  The catalog survives the wire: a client that reads the \<open>keybindings\<close> answer has every
  row of the host in its order, with the quit bindings marked dangerous.
\<close>

theorem catalog_on_the_wire:
  "catalog_from err (Some (keybinding_list_json catalog)) = Inr (map mark_dangerous catalog) \<and>
   map kb_id (map mark_dangerous catalog) = map kb_id catalog \<and>
   (\<forall>e. binding_is_dangerous (mark_dangerous e) = binding_is_dangerous e \<and>
        kb_dangerous (mark_dangerous e) = binding_is_dangerous e)"
  by (auto simp: catalog_roundtrip mark_dangerous_def binding_is_dangerous_def)

end
