(* ===== verification/Scroll_Capture.thy ===== *)
theory Scroll_Capture
  imports Wire
begin

text \<open>
  \<open>crates/gpui-agent/src/scroll_capture.rs\<close>: the checks of a screenshot request, the plan of
  the tiles of a scrolled capture, cropping and stitching, and the driver that restores the
  scroll offset.  The png crate is the arguments \<open>png_decode\<close> and \<open>png_encode\<close>; error texts
  that hold a float are constructors.
\<close>

section \<open>Requests\<close>

definition DEFAULT_MAX_HEIGHT_PX :: u32 where "DEFAULT_MAX_HEIGHT_PX = 16384"
definition MAX_SCROLL_TILES :: nat where "MAX_SCROLL_TILES = 32"
definition MAX_SCROLLED_PNG_BYTES :: nat where "MAX_SCROLLED_PNG_BYTES = 32 * 1024 * 1024"
definition SCROLL_UNAVAILABLE :: string where "SCROLL_UNAVAILABLE = ''scroll_unavailable''"
definition SCREENSHOT_UNAVAILABLE :: string where "SCREENSHOT_UNAVAILABLE = ''screenshot_unavailable''"

definition scroll_unavailable :: "string \<Rightarrow> string" where
  "scroll_unavailable detail = SCROLL_UNAVAILABLE @ '': '' @ detail"

definition is_scroll_unavailable :: "string \<Rightarrow> bool" where
  "is_scroll_unavailable error = has_error_prefix SCROLL_UNAVAILABLE error"

definition screenshot_unavailable :: "string \<Rightarrow> string" where
  "screenshot_unavailable detail = SCREENSHOT_UNAVAILABLE @ '': '' @ detail"

definition is_screenshot_unavailable :: "string \<Rightarrow> bool" where
  "is_screenshot_unavailable error = has_error_prefix SCREENSHOT_UNAVAILABLE error"

record screenshot_spec =
  ss_path :: "string option"
  ss_mode :: screenshot_mode
  ss_target :: "string option"
  ss_max_height_px :: "u32 option"

definition screenshot_spec_from_op ::
    "string option \<Rightarrow> screenshot_mode \<Rightarrow> string option \<Rightarrow> u32 option \<Rightarrow> screenshot_spec" where
  "screenshot_spec_from_op path mode target max_height_px =
     \<lparr>ss_path = path, ss_mode = mode, ss_target = target, ss_max_height_px = max_height_px\<rparr>"

definition scrolled_target :: "screenshot_spec \<Rightarrow> string result" where
  "scrolled_target s =
     (case map_option trim (ss_target s) of
        Some t \<Rightarrow> if t = [] then Inl ''screenshot mode=scrolled requires target'' else Inr t
      | None \<Rightarrow> Inl ''screenshot mode=scrolled requires target'')"

definition validate_request :: "screenshot_spec \<Rightarrow> unit result" where
  "validate_request s =
     rbind (if is_scrolled (ss_mode s) then
              (case map_option trim (ss_target s) of
                 Some t \<Rightarrow> if t = [] then Inl ''screenshot mode=scrolled requires target'' else Inr ()
               | None \<Rightarrow> Inl ''screenshot mode=scrolled requires target'')
            else Inr ()) (\<lambda>_.
     case ss_max_height_px s of
       None \<Rightarrow> Inr ()
     | Some h \<Rightarrow>
         if h = 0 then Inl ''max_height_px must be > 0''
         else if DEFAULT_MAX_HEIGHT_PX < h then
           Inl (''max_height_px exceeds '' @ dec (unat DEFAULT_MAX_HEIGHT_PX) @ '' (got ''
                @ dec (unat h) @ '')'')
         else Inr ())"

definition height_cap :: "screenshot_spec \<Rightarrow> u32" where
  "height_cap s = (case ss_max_height_px s of None \<Rightarrow> DEFAULT_MAX_HEIGHT_PX | Some h \<Rightarrow> h)"

lemma validate_request_cap:
  assumes "validate_request s = Inr ()"
  shows "0 < height_cap s \<and> height_cap s \<le> 16384"
  using assms
  by (auto simp: validate_request_def height_cap_def rbind_def DEFAULT_MAX_HEIGHT_PX_def
      word_gt_0 split: sum.splits option.splits if_splits)

lemma validate_request_target:
  "validate_request s = Inr () \<Longrightarrow> is_scrolled (ss_mode s) \<Longrightarrow> is_ok (scrolled_target s)"
  by (auto simp: validate_request_def scrolled_target_def rbind_def
      split: sum.splits option.splits if_splits)

section \<open>The plan\<close>

datatype scroll_error =
    Msg string
  | ExceedsMaxHeight f32 u32  \<comment> \<open>content height and cap\<close>
  | ClipOutside bounds u32 u32
  | RestoreFailed scroll_error
  | SlicePanic  \<comment> \<open>a slice of the pixel buffer out of range\<close>

record scroll_metrics =
  sm_viewport :: bounds
  sm_content_height :: f32
  sm_offset_y :: f32

definition max_offset_y :: "scroll_metrics \<Rightarrow> f32" where
  "max_offset_y m = f32_max (f32_sub (sm_content_height m) (bh (sm_viewport m))) (F32 0)"

record tile_spec =
  tl_offset_y :: f32
  tl_skip_top_px :: f32
  tl_take_height_px :: f32

function plan_loop ::
    "f32 \<Rightarrow> f32 \<Rightarrow> f32 \<Rightarrow> f32 \<Rightarrow> tile_spec list \<Rightarrow> scroll_error + tile_spec list" where
  "plan_loop content vh max_offset covered tiles =
     (if f32_lt covered (f32_sub content (F32 (1 / 2))) then
        if MAX_SCROLL_TILES \<le> length tiles then
          Inl (Msg (''screenshot scrolled exceeds '' @ dec MAX_SCROLL_TILES @ '' tiles''))
        else
          let offset = f32_min covered max_offset;
              skip_top = f32_max (f32_sub covered offset) (F32 0);
              remaining = f32_sub content covered;
              tak = f32_min (f32_min remaining (f32_sub vh skip_top)) vh
          in if f32_lt tak (F32 (1 / 2)) then Inr tiles
             else plan_loop content vh max_offset (f32_add covered tak)
                    (tiles @ [\<lparr>tl_offset_y = offset, tl_skip_top_px = skip_top, tl_take_height_px = tak\<rparr>])
      else Inr tiles)"
  by pat_completeness auto
termination
  by (relation "measure (\<lambda>(content, vh, max_offset, covered, tiles). MAX_SCROLL_TILES - length tiles)")
     (auto simp: MAX_SCROLL_TILES_def)

declare plan_loop.simps [simp del]

definition plan_scroll_tiles :: "scroll_metrics \<Rightarrow> u32 \<Rightarrow> scroll_error + tile_spec list" where
  "plan_scroll_tiles metrics max_height_px =
     (let vh = bh (sm_viewport metrics) in
      if max_height_px = 0 then Inl (Msg ''max_height_px must be > 0'')
      else if f32_lt vh (F32 1) then
        Inl (Msg (scroll_unavailable ''scroll target viewport height must be >= 1px''))
      else if f32_lt (sm_content_height metrics) (F32 0) then
        Inl (Msg (scroll_unavailable ''scroll target content_height must be >= 0''))
      else
        let content = f32_max (sm_content_height metrics) vh in
        if f32_gt content (f32_of_int (uint max_height_px)) then
          Inl (ExceedsMaxHeight content max_height_px)
        else
          let max_offset = f32_max (f32_sub content vh) (F32 0) in
          rmap (\<lambda>tiles. if tiles = [] then
              [\<lparr>tl_offset_y = F32 0, tl_skip_top_px = F32 0,
                tl_take_height_px = f32_max (f32_min vh content) (F32 1)\<rparr>]
            else tiles) (plan_loop content vh max_offset (F32 0) []))"

lemma plan_loop_length:
  "plan_loop c vh mo covered tiles = Inr ts \<Longrightarrow> length tiles \<le> MAX_SCROLL_TILES \<Longrightarrow>
     length ts \<le> MAX_SCROLL_TILES"
proof (induction c vh mo covered tiles rule: plan_loop.induct)
  case (1 c vh mo covered tiles)
  show ?case using 1 by (subst (asm) plan_loop.simps) (auto simp: Let_def split: if_splits)
qed

lemma plan_scroll_tiles_count:
  "plan_scroll_tiles metrics h = Inr ts \<Longrightarrow> 1 \<le> length ts \<and> length ts \<le> MAX_SCROLL_TILES"
  by (auto simp: plan_scroll_tiles_def Let_def rmap_Inr_iff MAX_SCROLL_TILES_def Suc_le_eq
      split: if_splits dest: plan_loop_length)

subsection \<open>Metrics in whole pixels\<close>

text \<open>The tile that shows the content from pixel \<open>i * v\<close> on, in a viewport of \<open>v\<close> pixels.\<close>

definition int_tile :: "int \<Rightarrow> int \<Rightarrow> int \<Rightarrow> tile_spec" where
  "int_tile c v i = \<lparr>tl_offset_y = F32 (of_int (min (i * v) (c - v))),
     tl_skip_top_px = F32 (of_int (i * v - min (i * v) (c - v))),
     tl_take_height_px = F32 (of_int (min v (c - i * v)))\<rparr>"

definition tiles_needed :: "int \<Rightarrow> int \<Rightarrow> nat" where
  "tiles_needed c v = nat ((c + v - 1) div v)"

lemma f32_half:
  assumes "\<bar>c\<bar> \<le> 2 ^ 20"
  shows "f32_sub (F32 (of_int c)) (F32 (1 / 2)) = F32 (of_int c - 1 / 2)"
proof -
  have "f32_round (of_int (2 * c - 1) / 2 ^ 1) = F32 (of_int (2 * c - 1) / 2 ^ 1)"
    using assms by (intro f32_round_dyadic) auto
  moreover have "of_int (2 * c - 1) / 2 ^ 1 = (of_int c - 1 / 2 :: rat)" by simp
  ultimately have "f32_round (of_int c - 1 / 2) = F32 (of_int c - 1 / 2)" by (simp only:)
  then show ?thesis by (simp add: f32_sub_def)
qed

lemma of_int_less_half: "(of_int a :: rat) < of_int c - 1 / 2 \<longleftrightarrow> a < c"
proof
  assume "(of_int a :: rat) < of_int c - 1 / 2"
  then have "(of_int a :: rat) < of_int c" by simp
  then show "a < c" by simp
next
  assume "a < c"
  then have "(of_int (a + 1) :: rat) \<le> of_int c" by (simp only: of_int_le_iff)
  then show "(of_int a :: rat) < of_int c - 1 / 2" by simp
qed

lemma f32_lt_half_int: "f32_lt (F32 (of_int a)) (F32 (1 / 2)) \<longleftrightarrow> a \<le> 0"
proof -
  have "(of_int a :: rat) < of_int 1 - 1 / 2 \<longleftrightarrow> a < 1" by (rule of_int_less_half)
  then show ?thesis by auto
qed

lemma plan_step:
  assumes v: "1 \<le> v" "v \<le> c" and c: "c \<le> 2 ^ 20" and i: "0 \<le> i" "i * v < c"
    and len: "length tiles < MAX_SCROLL_TILES"
  shows "plan_loop (F32 (of_int c)) (F32 (of_int v)) (F32 (of_int (c - v))) (F32 (of_int (i * v))) tiles
     = plan_loop (F32 (of_int c)) (F32 (of_int v)) (F32 (of_int (c - v)))
         (F32 (of_int (min ((i + 1) * v) c))) (tiles @ [int_tile c v i])"
proof -
  let ?p = "i * v" and ?o = "min (i * v) (c - v)"
  have room: "(MAX_SCROLL_TILES \<le> length tiles) = False" using len by simp
  have p: "0 \<le> ?p" using v i by simp
  have lt: "f32_lt (F32 (of_int ?p)) (f32_sub (F32 (of_int c)) (F32 (1 / 2)))"
    using i v c by (simp add: f32_half of_int_less_half del: of_int_mult)
  have small: "0 \<le> q \<Longrightarrow> q < c \<Longrightarrow> \<bar>q - min q (c - v)\<bar> < 2 ^ 24 \<and> \<bar>c - q\<bar> < 2 ^ 24 \<and>
      \<bar>v - (q - min q (c - v))\<bar> < 2 ^ 24 \<and> \<bar>q + min v (c - q)\<bar> < 2 ^ 24" for q
    using v c by (auto simp: min_def)
  have b: "\<bar>?p - ?o\<bar> < 2 ^ 24" "\<bar>c - ?p\<bar> < 2 ^ 24" "\<bar>v - (?p - ?o)\<bar> < 2 ^ 24"
    "\<bar>?p + min v (c - ?p)\<bar> < 2 ^ 24"
    using small [OF p i(2)] by blast+
  have skip: "f32_max (f32_sub (F32 (of_int ?p)) (F32 (of_int ?o))) (F32 0) = F32 (of_int (?p - ?o))"
    using f32_max_int [of "?p - ?o" 0] b(1) by (simp only: f32_int_arith of_int_0) simp
  have tk: "f32_min (f32_min (f32_sub (F32 (of_int c)) (F32 (of_int ?p)))
        (f32_sub (F32 (of_int v)) (F32 (of_int (?p - ?o))))) (F32 (of_int v))
      = F32 (of_int (min v (c - ?p)))"
    using b by (simp only: f32_int_arith) (auto simp: min_def)
  have nz: "\<not> f32_lt (F32 (of_int (min v (c - ?p)))) (F32 (1 / 2))"
    unfolding f32_lt_half_int using v i by auto
  have nxt: "f32_add (F32 (of_int ?p)) (F32 (of_int (min v (c - ?p)))) = F32 (of_int (min ((i + 1) * v) c))"
    using b(4) by (simp only: f32_int_arith) (auto simp: min_def algebra_simps)
  show ?thesis
    by (subst plan_loop.simps)
       (simp only: lt room Let_def skip tk nz nxt if_True if_False int_tile_def f32_min_int)
qed

lemma less_tiles_needed:
  assumes "1 \<le> v" "0 \<le> c"
  shows "i < tiles_needed c v \<longleftrightarrow> int i * v < c"
proof -
  let ?q = "(c + v - 1) div v" and ?r = "(c + v - 1) mod v"
  have a: "c + v - 1 = v * ?q + ?r" by simp
  have r: "0 \<le> ?r" "?r < v" using assms(1) by simp_all
  have "int i < ?q \<longleftrightarrow> (int i + 1) * v \<le> c + v - 1"
  proof
    assume "int i < ?q"
    then have "(int i + 1) * v \<le> ?q * v" using assms(1) by (intro mult_right_mono) auto
    also have "\<dots> \<le> c + v - 1" using a r(1) unfolding mult.commute [of ?q v] by linarith
    finally show "(int i + 1) * v \<le> c + v - 1" .
  next
    assume le: "(int i + 1) * v \<le> c + v - 1"
    show "int i < ?q"
    proof (rule ccontr)
      assume "\<not> int i < ?q"
      then have "(?q + 1) * v \<le> (int i + 1) * v" using assms(1) by (intro mult_right_mono) auto
      then have "v * ?q + v \<le> c + v - 1" using le by (simp add: algebra_simps)
      then show False using a r(2) by linarith
    qed
  qed
  moreover have "0 \<le> ?q" using assms by (simp add: pos_imp_zdiv_nonneg_iff)
  ultimately show ?thesis by (auto simp: tiles_needed_def zless_nat_eq_int_zless algebra_simps)
qed

lemma plan_rest:
  assumes v: "1 \<le> v" "v \<le> c" and c: "c \<le> 2 ^ 20"
    and len: "length tiles = i" "i \<le> tiles_needed c v" "i \<le> MAX_SCROLL_TILES"
  shows "plan_loop (F32 (of_int c)) (F32 (of_int v)) (F32 (of_int (c - v)))
      (F32 (of_int (min (int i * v) c))) tiles
    = (if tiles_needed c v \<le> MAX_SCROLL_TILES
       then Inr (tiles @ map (\<lambda>k. int_tile c v (int k)) [i ..< tiles_needed c v])
       else Inl (Msg ''screenshot scrolled exceeds 32 tiles''))"
  using len
proof (induction "tiles_needed c v - i" arbitrary: i tiles)
  case 0
  then have "\<not> int i * v < c" using less_tiles_needed [of v c i] v by simp
  then have "min (int i * v) c = c" by simp
  moreover have "\<not> f32_lt (F32 (of_int c)) (f32_sub (F32 (of_int c)) (F32 (1 / 2)))"
    using v c by (simp add: f32_half)
  ultimately show ?case using 0 by (subst plan_loop.simps) simp
next
  case (Suc m)
  then have less: "i < tiles_needed c v" by simp
  then have i: "int i * v < c" using less_tiles_needed [of v c i] v by simp
  show ?case
  proof (cases "i = MAX_SCROLL_TILES")
    case True
    have "f32_lt (F32 (of_int (int i * v))) (f32_sub (F32 (of_int c)) (F32 (1 / 2)))"
      using i v c by (simp add: f32_half of_int_less_half del: of_int_mult of_int_of_nat_eq)
    moreover have "''screenshot scrolled exceeds '' @ dec MAX_SCROLL_TILES @ '' tiles''
        = ''screenshot scrolled exceeds 32 tiles''" by code_simp
    ultimately show ?thesis using True less i Suc.prems
      by (subst plan_loop.simps) (simp del: of_int_mult of_int_of_nat_eq)
  next
    case False
    then have room: "length tiles < MAX_SCROLL_TILES" using Suc.prems by simp
    have step: "plan_loop (F32 (of_int c)) (F32 (of_int v)) (F32 (of_int (c - v)))
        (F32 (of_int (int i * v))) tiles
      = plan_loop (F32 (of_int c)) (F32 (of_int v)) (F32 (of_int (c - v)))
          (F32 (of_int (min (int (Suc i) * v) c))) (tiles @ [int_tile c v (int i)])"
      using plan_step [OF v c _ i room] by (simp add: add.commute)
    have "plan_loop (F32 (of_int c)) (F32 (of_int v)) (F32 (of_int (c - v)))
          (F32 (of_int (min (int (Suc i) * v) c))) (tiles @ [int_tile c v (int i)])
      = (if tiles_needed c v \<le> MAX_SCROLL_TILES
         then Inr ((tiles @ [int_tile c v (int i)]) @ map (\<lambda>k. int_tile c v (int k)) [Suc i ..< tiles_needed c v])
         else Inl (Msg ''screenshot scrolled exceeds 32 tiles''))"
      using Suc.hyps(2) Suc.prems less room by (intro Suc.hyps(1)) auto
    moreover have "min (int i * v) c = int i * v" using i by simp
    ultimately show ?thesis using step less by (simp only: upt_conv_Cons) simp
  qed
qed

text \<open>
  With whole-pixel metrics the plan is the row of adjacent tiles that ends at the end of
  the content, or the error when it would need more than 32 of them.
\<close>

lemma plan_scroll_tiles_int:
  assumes v: "1 \<le> v" and c: "0 \<le> c" "max c v \<le> uint h" and h: "h \<le> 16384"
    and m: "bh (sm_viewport m) = F32 (of_int v)" "sm_content_height m = F32 (of_int c)"
  shows "plan_scroll_tiles m h = (let n = tiles_needed (max c v) v in
     if n \<le> MAX_SCROLL_TILES then Inr (map (\<lambda>k. int_tile (max c v) v (int k)) [0 ..< n])
     else Inl (Msg ''screenshot scrolled exceeds 32 tiles''))"
proof -
  let ?c = "max c v"
  have uh: "uint h \<le> 16384" using h by (simp add: word_le_def)
  have h0: "h \<noteq> 0" using c(2) v by auto
  have pos: "0 < tiles_needed ?c v" using less_tiles_needed [of v ?c 0] v by simp
  have cap: "f32_of_int (uint h) = F32 (of_int (uint h))" using uh by (intro f32_of_int_exact) simp
  have mo: "f32_max (f32_sub (F32 (of_int ?c)) (F32 (of_int v))) (F32 0) = F32 (of_int (?c - v))"
  proof -
    have "\<bar>?c - v\<bar> < 2 ^ 24" using v c uh by auto
    then show ?thesis using f32_max_int [of "?c - v" 0] by (simp only: f32_sub_int of_int_0) simp
  qed
  have loop: "plan_loop (F32 (of_int ?c)) (F32 (of_int v)) (F32 (of_int (?c - v))) (F32 0) []
    = (if tiles_needed ?c v \<le> MAX_SCROLL_TILES
       then Inr (map (\<lambda>k. int_tile ?c v (int k)) [0 ..< tiles_needed ?c v])
       else Inl (Msg ''screenshot scrolled exceeds 32 tiles''))"
    using plan_rest [of v ?c "[]" 0] v c uh by (simp del: of_int_max)
  have lt: "f32_lt (F32 (of_int a)) (F32 (of_int b)) \<longleftrightarrow> a < b" for a b by simp
  have ge: "f32_lt (F32 (of_int v)) (F32 1) = False" "f32_lt (F32 (of_int c)) (F32 0) = False"
    "f32_lt (F32 (of_int (uint h))) (F32 (of_int ?c)) = False"
    subgoal using v lt [of v 1] by simp
    subgoal using c lt [of c 0] by simp
    subgoal using c(2) unfolding lt by (simp only: eq_False not_less)
    done
  show ?thesis
    unfolding plan_scroll_tiles_def Let_def m cap f32_max_int mo loop ge if_False
    using h0 pos by simp
qed

lemma plan_scroll_tiles_too_high:
  assumes "1 \<le> v" "uint h < max c v" "h \<le> 16384"
    and m: "bh (sm_viewport m) = F32 (of_int v)" "sm_content_height m = F32 (of_int c)"
  shows "\<not> is_ok (plan_scroll_tiles m h)"
proof -
  have "uint h \<le> 16384" using assms(3) by (simp add: word_le_def)
  then have cap: "f32_of_int (uint h) = F32 (of_int (uint h))" by (intro f32_of_int_exact) simp
  have lt: "f32_lt (F32 (of_int a)) (F32 (of_int b)) \<longleftrightarrow> a < b" for a b by simp
  have high: "f32_lt (F32 (of_int (uint h))) (F32 (of_int (max c v))) = True" using assms(2) unfolding lt by simp
  show ?thesis
    unfolding plan_scroll_tiles_def Let_def m cap f32_max_int high if_True by (simp add: is_ok_def)
qed

section \<open>Bitmaps\<close>

record rgba_image =
  im_width :: u32
  im_height :: u32
  im_pixels :: "byte list"

definition rgba_new :: "u32 \<Rightarrow> u32 \<Rightarrow> byte list \<Rightarrow> scroll_error + rgba_image" where
  "rgba_new w h pixels =
     (let need = unat w * unat h * 4 in
      if 2 ^ 64 \<le> need then Inl (Msg ''rgba image size overflow'')
      else if length pixels \<noteq> need then
        Inl (Msg (''rgba buffer length '' @ dec (length pixels) @ '' != '' @ dec need @ '' (''
          @ dec (unat w) @ ''x'' @ dec (unat h) @ '')''))
      else Inr \<lparr>im_width = w, im_height = h, im_pixels = pixels\<rparr>)"

definition pixel_index :: "rgba_image \<Rightarrow> nat \<Rightarrow> nat \<Rightarrow> nat" where
  "pixel_index img x y = (y * unat (im_width img) + x) * 4"

text \<open>\<open>&v[i..j]\<close>, which panics out of range.\<close>

definition slice :: "nat \<Rightarrow> nat \<Rightarrow> 'a list \<Rightarrow> scroll_error + 'a list" where
  "slice i j xs = (if i \<le> j \<and> j \<le> length xs then Inr (take (j - i) (drop i xs)) else Inl SlicePanic)"

datatype png_color = Rgba | Rgb | Grayscale | GrayscaleAlpha | Indexed

fun color_debug :: "png_color \<Rightarrow> string" where
  "color_debug Rgba = ''Rgba''"
| "color_debug Rgb = ''Rgb''"
| "color_debug Grayscale = ''Grayscale''"
| "color_debug GrayscaleAlpha = ''GrayscaleAlpha''"
| "color_debug Indexed = ''Indexed''"

record png_frame =
  pf_width :: u32
  pf_height :: u32
  pf_color :: png_color
  pf_depth :: "nat \<times> string"  \<comment> \<open>bits per sample, and the \<open>Debug\<close> text of the depth\<close>
  pf_buf :: "byte list"

text \<open>\<open>chunks_exact(n)\<close> of a buffer whose length is a multiple of \<open>n\<close>, expanded one by one.\<close>

fun expand_rgb :: "byte list \<Rightarrow> byte list" where
  "expand_rgb (r # g # b # rest) = [r, g, b, 255] @ expand_rgb rest"
| "expand_rgb _ = []"

fun expand_gray_alpha :: "byte list \<Rightarrow> byte list" where
  "expand_gray_alpha (g # a # rest) = [g, g, g, a] @ expand_gray_alpha rest"
| "expand_gray_alpha _ = []"

definition to_rgba :: "png_frame \<Rightarrow> scroll_error + rgba_image" where
  "to_rgba f =
     (let n = unat (pf_width f) * unat (pf_height f); buf = pf_buf f;
          mk = rgba_new (pf_width f) (pf_height f) in
      if fst (pf_depth f) \<noteq> 8 then Inl (Msg (''unsupported png bit depth '' @ snd (pf_depth f)))
      else case pf_color f of
        Rgba \<Rightarrow> if length buf \<noteq> n * 4 then Inl (Msg ''png rgba size mismatch'') else mk buf
      | Rgb \<Rightarrow> if length buf \<noteq> n * 3 then Inl (Msg ''png rgb size mismatch'') else mk (expand_rgb buf)
      | Grayscale \<Rightarrow> if length buf \<noteq> n then Inl (Msg ''png gray size mismatch'')
          else mk (concat (map (\<lambda>g. [g, g, g, 255]) buf))
      | GrayscaleAlpha \<Rightarrow> if length buf \<noteq> n * 2 then Inl (Msg ''png gray-alpha size mismatch'')
          else mk (expand_gray_alpha buf)
      | other \<Rightarrow> Inl (Msg (''unsupported png color type '' @ color_debug other)))"

definition PNG_MAGIC :: "byte list" where "PNG_MAGIC = [0x89, 0x50, 0x4E, 0x47]"

definition decode_png_rgba ::
    "(byte list \<Rightarrow> string + png_frame) \<Rightarrow> byte list \<Rightarrow> scroll_error + rgba_image" where
  "decode_png_rgba png_decode bytes =
     (if take 4 bytes \<noteq> PNG_MAGIC then Inl (Msg (screenshot_unavailable ''not a PNG''))
      else case png_decode bytes of Inl e \<Rightarrow> Inl (Msg e) | Inr f \<Rightarrow> to_rgba f)"

definition crop_rgba :: "rgba_image \<Rightarrow> u32 \<Rightarrow> u32 \<Rightarrow> u32 \<Rightarrow> u32 \<Rightarrow> scroll_error + rgba_image" where
  "crop_rgba src x y w h =
     (if w = 0 \<or> h = 0 then Inl (Msg ''crop size must be > 0'')
      else if unat (im_width src) < unat x + unat w \<or> unat (im_height src) < unat y + unat h then
        Inl (Msg (''crop ('' @ dec (unat x) @ '','' @ dec (unat y) @ '','' @ dec (unat w) @ '',''
          @ dec (unat h) @ '') outside '' @ dec (unat (im_width src)) @ ''x''
          @ dec (unat (im_height src))))
      else
        rbind (rmap_list (\<lambda>row. let start = pixel_index src (unat x) row
                                in slice start (start + unat w * 4) (im_pixels src))
                 [unat y ..< unat y + unat h]) (\<lambda>rows. rgba_new w h (concat rows)))"

text \<open>The loop of \<open>stitch_tiles_vertically\<close> that checks the tiles and adds their heights.\<close>

fun stitch_height :: "u32 \<Rightarrow> nat \<Rightarrow> nat \<Rightarrow> rgba_image list \<Rightarrow> scroll_error + nat" where
  "stitch_height width i height [] = Inr height"
| "stitch_height width i height (tile # tiles) =
     (if im_width tile \<noteq> width then
        Inl (Msg (''tile '' @ dec i @ '' width '' @ dec (unat (im_width tile))
          @ '' != first tile '' @ dec (unat width)))
      else if im_height tile = 0 then Inl (Msg (''tile '' @ dec i @ '' height must be > 0''))
      else if 2 ^ 32 \<le> height + unat (im_height tile) then Inl (Msg ''stitched height overflow'')
      else stitch_height width (i + 1) (height + unat (im_height tile)) tiles)"

definition stitch_tiles_vertically :: "rgba_image list \<Rightarrow> scroll_error + rgba_image" where
  "stitch_tiles_vertically tiles =
     (case tiles of [] \<Rightarrow> Inl (Msg ''scrolled screenshot produced no tiles'')
      | tile # _ \<Rightarrow>
          let width = im_width tile in
          if width = 0 then Inl (Msg ''tile width must be > 0'')
          else rbind (stitch_height width 0 0 tiles) (\<lambda>height.
            rgba_new width (of_nat height) (concat (map im_pixels tiles))))"

definition sat_sub_u32 :: "u32 \<Rightarrow> u32 \<Rightarrow> u32" where
  "sat_sub_u32 a b = (if a < b then 0 else a - b)"

text \<open>\<open>(v.round() as i64).max(0) as u32\<close> and \<open>v.round() as u32\<close>.\<close>

definition round_pos :: "f32 \<Rightarrow> u32" where
  "round_pos v = word_of_int (max 0 (f32_round_to_int (- (2 ^ 63)) (2 ^ 63 - 1) v))"

definition round_u32 :: "f32 \<Rightarrow> u32" where
  "round_u32 v = word_of_int (f32_round_to_int 0 (2 ^ 32 - 1) v)"

definition crop_window_png ::
    "(byte list \<Rightarrow> string + png_frame) \<Rightarrow> byte list \<Rightarrow> f32 \<Rightarrow> f32 \<Rightarrow> bounds \<Rightarrow> f32 \<Rightarrow> f32 \<Rightarrow>
       scroll_error + rgba_image" where
  "crop_window_png png_decode png window_w window_h clip skip_top_px take_height_px =
     rbind (decode_png_rgba png_decode png) (\<lambda>img.
       if f32_lt window_w (F32 1) \<or> f32_lt window_h (F32 1) then
         Inl (Msg (screenshot_unavailable ''window size is zero; cannot crop a scrolled tile''))
       else
         let scale = f32_div (f32_of_int (uint (im_width img))) window_w;
             extra_top = f32_max (f32_sub (f32_div (f32_of_int (uint (im_height img))) scale) window_h) (F32 0);
             x = round_pos (f32_mul (bx clip) scale);
             y = round_pos (f32_mul (f32_add (f32_add (bY clip) extra_top) skip_top_px) scale);
             w = max (round_u32 (f32_mul (bw clip) scale)) 1;
             h = max (round_u32 (f32_mul take_height_px scale)) 1;
             w = min w (sat_sub_u32 (im_width img) x);
             h = min h (sat_sub_u32 (im_height img) y)
         in if w = 0 \<or> h = 0 then Inl (ClipOutside clip (im_width img) (im_height img))
            else crop_rgba img x y w h)"

section \<open>The capture\<close>

definition SCREENSHOT_BACKEND_SCREENCAPTURE :: string where
  "SCREENSHOT_BACKEND_SCREENCAPTURE = ''screencapture''"

definition scrolled_result_json :: "string \<Rightarrow> string \<Rightarrow> f32 \<Rightarrow> f32 \<Rightarrow> nat \<Rightarrow> json" where
  "scrolled_result_json path target content_height viewport_height tiles =
     json_obj [(''path'', JStr path), (''backend'', JStr SCREENSHOT_BACKEND_SCREENCAPTURE),
       (''mode'', JStr ''scrolled''), (''target'', JStr target),
       (''content_height'', json_of_f32 content_height),
       (''viewport_height'', json_of_f32 viewport_height), (''tiles'', JInt (int tiles))]"

definition scrolled_dispatch_result :: "string \<Rightarrow> string \<Rightarrow> f32 \<Rightarrow> f32 \<Rightarrow> nat \<Rightarrow> dispatch_result" where
  "scrolled_dispatch_result path target ch vh tiles =
     dispatch_json (scrolled_result_json path target ch vh tiles)"

text \<open>The closures of the host, on its state \<open>'s\<close>.\<close>

record 's scroll_device =
  dv_set_offset :: "f32 \<Rightarrow> 's \<Rightarrow> unit result \<times> 's"
  dv_wait_paint :: "'s \<Rightarrow> unit result \<times> 's"
  dv_capture :: "'s \<Rightarrow> byte list result \<times> 's"

fun capture_slices ::
    "(byte list \<Rightarrow> string + png_frame) \<Rightarrow> 's scroll_device \<Rightarrow> bounds \<Rightarrow> f32 \<times> f32 \<Rightarrow>
       tile_spec list \<Rightarrow> 's \<Rightarrow> (scroll_error + rgba_image list) \<times> 's" where
  "capture_slices png_decode dv clip window [] s = (Inr [], s)"
| "capture_slices png_decode dv clip window (spec # specs) s =
     (case dv_set_offset dv (tl_offset_y spec) s of
        (Inl e, s) \<Rightarrow> (Inl (Msg e), s)
      | (Inr _, s) \<Rightarrow>
     (case dv_wait_paint dv s of
        (Inl e, s) \<Rightarrow> (Inl (Msg e), s)
      | (Inr _, s) \<Rightarrow>
     (case dv_capture dv s of
        (Inl e, s) \<Rightarrow> (Inl (Msg e), s)
      | (Inr png, s) \<Rightarrow>
     (case crop_window_png png_decode png (fst window) (snd window) clip (tl_skip_top_px spec)
             (tl_take_height_px spec) of
        Inl e \<Rightarrow> (Inl e, s)
      | Inr img \<Rightarrow>
          (case capture_slices png_decode dv clip window specs s of
             (r, s) \<Rightarrow> (rmap (Cons img) r, s))))))"

definition finish_capture ::
    "(rgba_image \<Rightarrow> byte list result) \<Rightarrow> string \<Rightarrow> scroll_metrics \<Rightarrow> nat \<Rightarrow> rgba_image list \<Rightarrow>
       scroll_error + byte list \<times> json" where
  "finish_capture png_encode target metrics ntiles slices =
     rbind (stitch_tiles_vertically slices) (\<lambda>stitched.
     rbind (case png_encode stitched of Inl e \<Rightarrow> Inl (Msg e) | Inr b \<Rightarrow> Inr b) (\<lambda>bytes.
       if MAX_SCROLLED_PNG_BYTES < length bytes then
         Inl (Msg (''stitched png exceeds '' @ dec MAX_SCROLLED_PNG_BYTES @ '' bytes (''
           @ dec (length bytes) @ '')''))
       else Inr (bytes, scrolled_result_json [] target
         (f32_max (sm_content_height metrics) (bh (sm_viewport metrics)))
         (bh (sm_viewport metrics)) ntiles)))"

text \<open>The inner closure, then the restoring call whose error counts only after a success.\<close>

definition capture_run ::
    "(byte list \<Rightarrow> string + png_frame) \<Rightarrow> (rgba_image \<Rightarrow> byte list result) \<Rightarrow> 's scroll_device \<Rightarrow>
       string \<Rightarrow> scroll_metrics \<Rightarrow> f32 \<times> f32 \<Rightarrow> u32 \<Rightarrow> 's \<Rightarrow> (scroll_error + byte list \<times> json) \<times> 's" where
  "capture_run png_decode png_encode dv target metrics window max_height_px s =
     (case plan_scroll_tiles metrics max_height_px of
        Inl e \<Rightarrow> (Inl e, s)
      | Inr tiles \<Rightarrow>
          (case capture_slices png_decode dv (sm_viewport metrics) window tiles s of
             (slices, s) \<Rightarrow>
               (rbind slices (finish_capture png_encode target metrics (length tiles)), s)))"

definition run_scrolled_capture_sync ::
    "(byte list \<Rightarrow> string + png_frame) \<Rightarrow> (rgba_image \<Rightarrow> byte list result) \<Rightarrow> 's scroll_device \<Rightarrow>
       string \<Rightarrow> scroll_metrics \<Rightarrow> f32 \<times> f32 \<Rightarrow> u32 \<Rightarrow> 's \<Rightarrow> (scroll_error + byte list \<times> json) \<times> 's" where
  "run_scrolled_capture_sync png_decode png_encode dv target metrics window max_height_px s =
     (let original = sm_offset_y metrics;
          (run, s) = capture_run png_decode png_encode dv target metrics window max_height_px s;
          (restored, s) = dv_set_offset dv original s
      in (case (run, restored) of
            (Inr v, Inr _) \<Rightarrow> Inr v
          | (Inr _, Inl err) \<Rightarrow> Inl (RestoreFailed (Msg err))
          | (Inl err, _) \<Rightarrow> Inl err, s))"

section \<open>Bitmaps stay consistent\<close>

definition image_ok :: "rgba_image \<Rightarrow> bool" where
  "image_ok img = (length (im_pixels img) = unat (im_width img) * unat (im_height img) * 4 \<and>
     unat (im_width img) * unat (im_height img) * 4 < 2 ^ 64)"

lemma rgba_new_ok: "rgba_new w h px = Inr img \<Longrightarrow>
    image_ok img \<and> im_width img = w \<and> im_height img = h \<and> im_pixels img = px"
  by (auto simp: rgba_new_def Let_def image_ok_def split: if_splits)

lemma rgba_new_Inr: "length px = unat w * unat h * 4 \<Longrightarrow> unat w * unat h * 4 < 2 ^ 64 \<Longrightarrow>
    rgba_new w h px = Inr \<lparr>im_width = w, im_height = h, im_pixels = px\<rparr>"
  by (simp add: rgba_new_def)

lemma to_rgba_ok: "to_rgba f = Inr img \<Longrightarrow> image_ok img"
  by (auto simp: to_rgba_def Let_def rgba_new_ok split: if_splits png_color.splits)

lemma decode_png_ok: "decode_png_rgba d bytes = Inr img \<Longrightarrow> image_ok img"
  by (auto simp: decode_png_rgba_def to_rgba_ok split: if_splits sum.splits)

text \<open>The pixel at a place, four bytes.\<close>

definition pixel_at :: "rgba_image \<Rightarrow> nat \<Rightarrow> nat \<Rightarrow> byte list" where
  "pixel_at img x y = take 4 (drop (pixel_index img x y) (im_pixels img))"

lemma row_end:
  assumes "y < h" "x + w \<le> W"
  shows "(y * W + x) * 4 + w * 4 \<le> W * h * (4 :: nat)"
proof -
  have "y * W + W \<le> h * W" using assms(1) mult_le_mono1 [of "Suc y" h W] by simp
  then show ?thesis using assms(2) by (simp add: algebra_simps)
qed

lemma take_drop_concat:
  assumes "t < length xss" "j + m \<le> length (xss ! t)"
  shows "take m (drop (length (concat (take t xss)) + j) (concat xss)) = take m (drop j (xss ! t))"
proof -
  have "xss = take t xss @ xss ! t # drop (Suc t) xss" using assms(1) by (rule id_take_nth_drop)
  then have c: "concat xss = concat (take t xss) @ xss ! t @ concat (drop (Suc t) xss)"
    by (metis concat.simps(2) concat_append)
  show ?thesis using assms(2) by (subst c) simp
qed

lemma length_concat_same: "(\<And>xs. xs \<in> set xss \<Longrightarrow> length xs = k) \<Longrightarrow> length (concat xss) = length xss * k"
  by (induction xss) auto

lemma rmap_list_map: "(\<And>x. x \<in> set xs \<Longrightarrow> f x = Inr (g x)) \<Longrightarrow> rmap_list f xs = Inr (map g xs)"
  by (induction xs) simp_all

text \<open>A crop inside the bitmap never panics, and holds exactly the pixels of its rectangle.\<close>

lemma crop_rgba_inside:
  assumes ok: "image_ok src" and wh: "w \<noteq> 0" "h \<noteq> 0"
    and x: "unat x + unat w \<le> unat (im_width src)" and y: "unat y + unat h \<le> unat (im_height src)"
  shows "\<exists>img. crop_rgba src x y w h = Inr img \<and> image_ok img \<and> im_width img = w \<and> im_height img = h \<and>
     (\<forall>i j. i < unat w \<longrightarrow> j < unat h \<longrightarrow>
        pixel_at img i j = pixel_at src (unat x + i) (unat y + j))"
proof -
  let ?W = "unat (im_width src)" and ?H = "unat (im_height src)" and ?w = "unat w" and ?h = "unat h"
  define g where "g row = take (?w * 4) (drop (pixel_index src (unat x) row) (im_pixels src))" for row
  define rows where "rows = map g [unat y ..< unat y + ?h]"
  have len: "length (im_pixels src) = ?W * ?H * 4" and lim: "?W * ?H * 4 < 2 ^ 64"
    using ok by (simp_all add: image_ok_def)
  have fits: "pixel_index src (unat x) row + ?w * 4 \<le> length (im_pixels src)"
    if "row < unat y + ?h" for row
    unfolding len pixel_index_def by (rule row_end) (use that x y in auto)
  have glen: "length (g row) = ?w * 4" if "row < unat y + ?h" for row
    using fits [OF that] by (simp add: g_def)
  have sl: "rmap_list (\<lambda>row. let start = pixel_index src (unat x) row
                in slice start (start + ?w * 4) (im_pixels src)) [unat y ..< unat y + ?h] = Inr rows"
    unfolding rows_def by (rule rmap_list_map) (use fits in \<open>auto simp: slice_def g_def Let_def\<close>)
  have rl: "length rows = ?h" by (simp add: rows_def)
  have "length xs = ?w * 4" if "xs \<in> set rows" for xs
    using that by (auto simp: rows_def glen)
  then have clen: "length (concat (take t rows)) = t * (?w * 4)" if "t \<le> ?h" for t
    using that length_concat_same [of "take t rows" "?w * 4"] rl by (auto dest: in_set_takeD)
  have size: "?w * ?h * 4 \<le> ?W * ?H * 4" using x y by (intro mult_le_mono) auto
  have "rgba_new w h (concat rows) = Inr \<lparr>im_width = w, im_height = h, im_pixels = concat rows\<rparr>"
    using clen [of ?h] rl le_less_trans [OF size lim] by (intro rgba_new_Inr) (auto simp: ac_simps)
  note new = this
  have crop: "crop_rgba src x y w h = Inr \<lparr>im_width = w, im_height = h, im_pixels = concat rows\<rparr>"
    unfolding crop_rgba_def sl rbind_simps new using wh x y by simp
  have "pixel_at \<lparr>im_width = w, im_height = h, im_pixels = concat rows\<rparr> i j
      = pixel_at src (unat x + i) (unat y + j)" if "i < ?w" "j < ?h" for i j
  proof -
    have idx: "(j * ?w + i) * 4 = length (concat (take j rows)) + i * 4"
      using that clen [of j] by (simp add: algebra_simps)
    have row: "rows ! j = g (unat y + j)" using that by (simp add: rows_def)
    have room: "i * 4 + 4 \<le> length (rows ! j)" using that glen [of "unat y + j"] by (simp add: row)
    have "take 4 (drop ((j * ?w + i) * 4) (concat rows)) = take 4 (drop (i * 4) (rows ! j))"
      unfolding idx using that room rl by (intro take_drop_concat) auto
    also have "\<dots> = take 4 (drop (pixel_index src (unat x + i) (unat y + j)) (im_pixels src))"
    proof -
      have "take 4 (drop a (take n (drop s xs))) = take 4 (drop (s + a) xs)"
        if "a + 4 \<le> n" for a n s and xs :: "byte list"
        using that by (simp add: drop_take min_def ac_simps)
      from this [of "i * 4" "?w * 4"] \<open>i < ?w\<close> show ?thesis
        unfolding row g_def by (simp add: pixel_index_def algebra_simps)
    qed
    finally show ?thesis by (simp add: pixel_at_def pixel_index_def)
  qed
  then show ?thesis using rgba_new_ok [OF new] crop by auto
qed

section \<open>Stitching\<close>

lemma stitch_height_Inr:
  "stitch_height w i h tiles = Inr n \<longleftrightarrow>
     (\<forall>t \<in> set tiles. im_width t = w \<and> im_height t \<noteq> 0) \<and>
     n = h + (\<Sum>t\<leftarrow>tiles. unat (im_height t)) \<and> (tiles = [] \<or> n < 2 ^ 32)"
proof (induction w i h tiles rule: stitch_height.induct)
  case (2 w i h tile tiles)
  then show ?case by (cases tiles) auto
qed auto

text \<open>A stitched bitmap is the tiles one below the other: every pixel of each is found again.\<close>

lemma stitch_rows:
  assumes ok: "\<forall>t \<in> set tiles. image_ok t" and st: "stitch_tiles_vertically tiles = Inr img"
  shows "image_ok img \<and> unat (im_height img) = (\<Sum>t\<leftarrow>tiles. unat (im_height t)) \<and>
     (\<forall>k < length tiles. \<forall>x y. x < unat (im_width img) \<longrightarrow> y < unat (im_height (tiles ! k)) \<longrightarrow>
        pixel_at img x ((\<Sum>t\<leftarrow>take k tiles. unat (im_height t)) + y) = pixel_at (tiles ! k) x y)"
proof -
  obtain tile rest where tiles: "tiles = tile # rest"
    using st by (cases tiles) (auto simp: stitch_tiles_vertically_def)
  let ?w = "im_width tile"
  obtain n where n: "stitch_height ?w 0 0 tiles = Inr n"
    and new: "rgba_new ?w (of_nat n) (concat (map im_pixels tiles)) = Inr img"
    using st tiles by (auto simp: stitch_tiles_vertically_def Let_def rbind_Inr_iff split: if_splits)
  note all = n [unfolded stitch_height_Inr]
  have width: "\<And>t. t \<in> set tiles \<Longrightarrow> im_width t = ?w" using all by blast
  have sum: "n = (\<Sum>t\<leftarrow>tiles. unat (im_height t))" and small: "n < 2 ^ 32"
    using all tiles by simp_all
  have img: "image_ok img" "im_width img = ?w" "im_height img = of_nat n"
    "im_pixels img = concat (map im_pixels tiles)"
    using rgba_new_ok [OF new] by auto
  have height: "unat (im_height img) = n" using small by (simp add: img(3) unat_of_nat take_bit_nat_eq_self)
  have px: "length (im_pixels t) = unat ?w * unat (im_height t) * 4" if "t \<in> set tiles" for t
    using ok width that by (auto simp: image_ok_def)
  have clen: "length (concat (map im_pixels ts)) = unat ?w * (\<Sum>t\<leftarrow>ts. unat (im_height t)) * 4"
    if "set ts \<subseteq> set tiles" for ts
    using that by (induction ts) (auto simp: px algebra_simps)
  have "pixel_at img x ((\<Sum>t\<leftarrow>take k tiles. unat (im_height t)) + y) = pixel_at (tiles ! k) x y"
    if k: "k < length tiles" and x: "x < unat ?w" and y: "y < unat (im_height (tiles ! k))" for k x y
  proof -
    let ?s = "\<Sum>t\<leftarrow>take k tiles. unat (im_height t)"
    have mem: "tiles ! k \<in> set tiles" using k by simp
    have idx: "((?s + y) * unat ?w + x) * 4
        = length (concat (take k (map im_pixels tiles))) + (y * unat ?w + x) * 4"
      using clen [of "take k tiles"] set_take_subset [of k tiles]
      by (simp add: take_map algebra_simps)
    have "(y * unat ?w + x) * 4 + 1 * 4 \<le> unat ?w * unat (im_height (tiles ! k)) * 4"
      by (rule row_end) (use x y in auto)
    then have "(y * unat ?w + x) * 4 + 4 \<le> length (map im_pixels tiles ! k)"
      using k px [OF mem] by simp
    then have "take 4 (drop (((?s + y) * unat ?w + x) * 4) (concat (map im_pixels tiles)))
        = take 4 (drop ((y * unat ?w + x) * 4) (map im_pixels tiles ! k))"
      unfolding idx using k by (intro take_drop_concat) auto
    then show ?thesis using k by (simp add: pixel_at_def pixel_index_def img width [OF mem])
  qed
  then show ?thesis using img height sum by simp
qed

section \<open>The capture restores the offset\<close>

lemma run_scrolled_capture_state:
  "snd (run_scrolled_capture_sync d e dv target m win h s) =
     snd (dv_set_offset dv (sm_offset_y m) (snd (capture_run d e dv target m win h s)))"
  by (simp add: run_scrolled_capture_sync_def Let_def case_prod_unfold)

lemma run_scrolled_capture_Inr:
  "fst (run_scrolled_capture_sync d e dv target m win h s) = Inr v \<longleftrightarrow>
     fst (capture_run d e dv target m win h s) = Inr v \<and>
     is_ok (fst (dv_set_offset dv (sm_offset_y m) (snd (capture_run d e dv target m win h s))))"
  by (auto simp: run_scrolled_capture_sync_def Let_def case_prod_unfold is_ok_def split: sum.splits)

section \<open>Properties\<close>

text \<open>The rows of the content a tile keeps.\<close>

definition tile_rows :: "tile_spec \<Rightarrow> int list" where
  "tile_rows t = (case (tl_offset_y t, tl_skip_top_px t, tl_take_height_px t) of
     (F32 off, F32 skp, F32 tak) \<Rightarrow> [\<lfloor>off + skp\<rfloor> .. \<lfloor>off + skp + tak\<rfloor> - 1]
   | _ \<Rightarrow> [])"

lemma tile_rows_int: "tile_rows (int_tile c v i) = [i * v .. i * v + min v (c - i * v) - 1]"
proof -
  have "\<lfloor>rat_of_int a + of_int b\<rfloor> = a + b" "\<lfloor>rat_of_int a + of_int b + of_int d\<rfloor> = a + b + d" for a b d
    by (metis of_int_add floor_of_int)+
  then show ?thesis by (simp add: tile_rows_def int_tile_def del: of_int_min of_int_diff of_int_mult)
qed

lemma tile_rows_concat:
  assumes "1 \<le> v" "0 \<le> c" "n \<le> tiles_needed c v"
  shows "concat (map (\<lambda>k. tile_rows (int_tile c v (int k))) [0 ..< n]) = [0 .. min (int n * v) c - 1]"
  using assms(3)
proof (induction n)
  case (Suc n)
  let ?p = "int n * v"
  have p: "?p < c" "0 \<le> ?p" using Suc.prems assms less_tiles_needed [of v c n] by simp_all
  have e: "?p + min v (c - ?p) = min (int (Suc n) * v) c" by (simp add: min_def distrib_right)
  have "[0 .. ?p - 1] @ [?p .. ?p + min v (c - ?p) - 1] = [0 .. ?p + min v (c - ?p) - 1]"
    using upto_split1 [of 0 "?p" "?p + min v (c - ?p) - 1"] p assms(1) by simp
  then show ?case using Suc p unfolding e [symmetric] by (simp add: tile_rows_int)
qed simp

text \<open>
  C40. For a target of whole-pixel size and a limit of at most 16384 pixels, the default, a plan exists exactly when the content
  (or the viewport, when that is taller) is within the limit and at most 32 tiles are needed.  The tiles
  of the plan, in order, keep every row of the content (or of the taller viewport) once and no other row, and no
  tile scrolls past the end.  A plan for any metrics and any limit, not just whole pixels, has between 1 and 32 tiles.
\<close>

theorem scroll_plan_covers:
  assumes "1 \<le> v" "0 \<le> c" "h \<le> 16384"
    and "bh (sm_viewport m) = F32 (of_int v)" "sm_content_height m = F32 (of_int c)"
  shows "(is_ok (plan_scroll_tiles m h) \<longleftrightarrow> max c v \<le> uint h \<and> tiles_needed (max c v) v \<le> MAX_SCROLL_TILES) \<and>
    (\<forall>tiles. plan_scroll_tiles m h = Inr tiles \<longrightarrow>
       concat (map tile_rows tiles) = [0 .. max c v - 1] \<and>
       (\<forall>t \<in> set tiles. \<not> f32_lt (max_offset_y m) (tl_offset_y t))) \<and>
    (\<forall>any limit tiles. plan_scroll_tiles any limit = Inr tiles \<longrightarrow> length tiles \<in> {1 .. MAX_SCROLL_TILES})"
proof (cases "max c v \<le> uint h")
  case False
  then have "\<not> is_ok (plan_scroll_tiles m h)" using assms by (intro plan_scroll_tiles_too_high [of v h c]) linarith+
  then show ?thesis using False plan_scroll_tiles_count by (auto simp: is_ok_def)
next
  case True
  let ?c = "max c v" and ?n = "tiles_needed (max c v) v"
  note plan = plan_scroll_tiles_int [OF assms(1,2) True assms(3-5)]
  have c: "0 \<le> ?c" using assms(2) by simp
  then have "\<not> int ?n * v < ?c" using less_tiles_needed [OF assms(1), of ?c ?n] by blast
  then have e: "min (int ?n * v) ?c = ?c" by (intro min_absorb2) linarith
  have rows: "concat (map (\<lambda>k. tile_rows (int_tile ?c v (int k))) [0 ..< ?n]) = [0 .. ?c - 1]"
    using tile_rows_concat [OF assms(1) c order_refl] unfolding e .
  have h: "uint h \<le> 16384" using assms(3) by (simp add: word_le_def)
  have "max_offset_y m = F32 (of_int (max (c - v) 0))"
    unfolding max_offset_y_def assms(4,5) using assms(1,2) True h f32_max_int [of "c - v" 0]
    by (subst f32_sub_int) auto
  then have offs: "\<not> f32_lt (max_offset_y m) (tl_offset_y (int_tile ?c v (int k)))" for k
    by (simp add: int_tile_def max_def min_def)
  show ?thesis using rows offs True plan_scroll_tiles_count unfolding plan
    by (auto simp: Let_def comp_def split: if_splits)
qed

theorem scroll_plan_covers_witness:
  "let m = \<lparr>sm_viewport = \<lparr>bx = F32 0, bY = F32 0, bw = F32 80, bh = F32 100\<rparr>,
            sm_content_height = F32 250, sm_offset_y = F32 30\<rparr>
   in \<exists>tiles. plan_scroll_tiles m 16384 = Inr tiles \<and> concat (map tile_rows tiles) = [0 .. 249]"
proof -
  let ?m = "\<lparr>sm_viewport = \<lparr>bx = F32 0, bY = F32 0, bw = F32 80, bh = F32 100\<rparr>,
            sm_content_height = F32 250, sm_offset_y = F32 30\<rparr>"
  note cover = scroll_plan_covers [of 100 250 16384 ?m]
  have "is_ok (plan_scroll_tiles ?m 16384)"
    using cover by (simp add: tiles_needed_def MAX_SCROLL_TILES_def)
  then obtain tiles where "plan_scroll_tiles ?m 16384 = Inr tiles" by (auto simp: is_ok_iff)
  then show ?thesis using cover by simp
qed

text \<open>
  A crop that lies inside the bitmap never slices out of range, and every pixel of the
  result is the pixel of the source at the shifted place.
\<close>

theorem crop_keeps_pixels:
  assumes "image_ok src" "w \<noteq> 0" "h \<noteq> 0" "unat x + unat w \<le> unat (im_width src)"
    "unat y + unat h \<le> unat (im_height src)"
  shows "\<exists>img. crop_rgba src x y w h = Inr img \<and> image_ok img \<and> im_width img = w \<and> im_height img = h \<and>
     (\<forall>i j. i < unat w \<longrightarrow> j < unat h \<longrightarrow>
        pixel_at img i j = pixel_at src (unat x + i) (unat y + j))"
  using assms by (rule crop_rgba_inside)

theorem crop_keeps_pixels_witness:
  "let src = \<lparr>im_width = 2, im_height = 1, im_pixels = [1, 2, 3, 255, 4, 5, 6, 255]\<rparr>
   in \<exists>img. crop_rgba src 1 0 1 1 = Inr img \<and> pixel_at img 0 0 = pixel_at src 1 0"
proof -
  let ?src = "\<lparr>im_width = 2, im_height = 1, im_pixels = [1, 2, 3, 255, 4, 5, 6, 255]\<rparr>"
  have "image_ok ?src" by (simp add: image_ok_def)
  from crop_keeps_pixels [OF this, of 1 1 1 0] show ?thesis by auto
qed

text \<open>
  Stitching puts the tiles one below the other: the height is the sum of theirs, and every
  pixel of every tile is found again at its row.
\<close>

theorem stitch_keeps_pixels:
  assumes "\<forall>t \<in> set tiles. image_ok t" "stitch_tiles_vertically tiles = Inr img"
  shows "image_ok img \<and> unat (im_height img) = (\<Sum>t\<leftarrow>tiles. unat (im_height t)) \<and>
     (\<forall>k < length tiles. \<forall>x y. x < unat (im_width img) \<longrightarrow> y < unat (im_height (tiles ! k)) \<longrightarrow>
        pixel_at img x ((\<Sum>t\<leftarrow>take k tiles. unat (im_height t)) + y) = pixel_at (tiles ! k) x y)"
  using assms by (rule stitch_rows)

theorem stitch_keeps_pixels_witness:
  "let a = \<lparr>im_width = 1, im_height = 1, im_pixels = [1, 2, 3, 255]\<rparr>;
       b = \<lparr>im_width = 1, im_height = 1, im_pixels = [4, 5, 6, 255]\<rparr>
   in \<exists>img. stitch_tiles_vertically [a, b] = Inr img \<and> pixel_at img 0 1 = pixel_at b 0 0"
proof -
  let ?ts = "[\<lparr>im_width = 1, im_height = 1, im_pixels = [1, 2, 3, 255]\<rparr>,
       \<lparr>im_width = 1, im_height = 1, im_pixels = [4, 5, 6, 255]\<rparr>]"
  let ?img = "\<lparr>im_width = 1, im_height = 2, im_pixels = [1, 2, 3, 255, 4, 5, 6, 255]\<rparr>"
  have "stitch_tiles_vertically ?ts = Inr ?img" "\<forall>t \<in> set ?ts. image_ok t"
    by (simp_all add: stitch_tiles_vertically_def rgba_new_def image_ok_def)
  then show ?thesis
    using stitch_keeps_pixels [of ?ts ?img, THEN conjunct2, THEN conjunct2, rule_format, of 1 0 0] by auto
qed

text \<open>
  However a scrolled capture ends, its last action on the device is to set the scroll
  offset back to the one it found; it reports success exactly when the capture succeeded and
  that last call did too.
\<close>

theorem capture_restores_scroll:
  "snd (run_scrolled_capture_sync png_decode png_encode dv target m window h s) =
     snd (dv_set_offset dv (sm_offset_y m) (snd (capture_run png_decode png_encode dv target m window h s))) \<and>
   (fst (run_scrolled_capture_sync png_decode png_encode dv target m window h s) = Inr v \<longleftrightarrow>
     fst (capture_run png_decode png_encode dv target m window h s) = Inr v \<and>
     is_ok (fst (dv_set_offset dv (sm_offset_y m)
       (snd (capture_run png_decode png_encode dv target m window h s)))))"
  by (simp only: run_scrolled_capture_state run_scrolled_capture_Inr simp_thms)

end
