(* ===== verification/Security.thy ===== *)
theory Security
  imports Wire
begin

text \<open>
  \<open>crates/gpui-agent/src/security.rs\<close> and \<open>hmac_auth.rs\<close>: who may bind and connect where, the
  token comparison, the hexadecimal codec and the challenge.  HMAC-SHA256 is a third-party
  crate: it is the argument \<open>hm\<close>, a function of key and message bytes.
\<close>

section \<open>Addresses and policies\<close>

datatype ip_addr = V4 "8 word" "8 word" "8 word" "8 word" | V6 "128 word"

record socket_addr =
  sa_ip :: ip_addr
  sa_port :: "16 word"

datatype security_error =
    Disabled
  | ReleaseBlocked
  | NonLoopback socket_addr
  | RemoteDisabled socket_addr
  | RemoteRequiresToken socket_addr
  | LoopbackRequiresToken
  | BadAddr string

definition DEFAULT_PORT :: "16 word" where "DEFAULT_PORT = 17421"

definition default_addr :: socket_addr where
  "default_addr = \<lparr>sa_ip = V4 127 0 0 1, sa_port = DEFAULT_PORT\<rparr>"

fun is_loopback_ip :: "ip_addr \<Rightarrow> bool" where
  "is_loopback_ip (V4 a b c d) = (a = 127)"
| "is_loopback_ip (V6 w) = (w = 1)"

definition is_loopback_addr :: "socket_addr \<Rightarrow> bool" where
  "is_loopback_addr addr = is_loopback_ip (sa_ip addr)"

definition ensure_loopback :: "socket_addr \<Rightarrow> security_error + socket_addr" where
  "ensure_loopback addr = (if is_loopback_addr addr then Inr addr else Inl (NonLoopback addr))"

definition nonempty_token :: "string option \<Rightarrow> bool" where
  "nonempty_token token = (case token of Some t \<Rightarrow> t \<noteq> [] | None \<Rightarrow> False)"

definition authorize_remote_endpoint ::
    "socket_addr \<Rightarrow> string option \<Rightarrow> bool \<Rightarrow> security_error + socket_addr" where
  "authorize_remote_endpoint addr token allow_remote =
     (if \<not> allow_remote then Inl (RemoteDisabled addr)
      else if nonempty_token token then Inr addr
      else Inl (RemoteRequiresToken addr))"

definition authorize_bind_with_insecure ::
    "socket_addr \<Rightarrow> string option \<Rightarrow> bool \<Rightarrow> bool \<Rightarrow> security_error + socket_addr" where
  "authorize_bind_with_insecure addr token allow_remote insecure_no_token =
     (if is_loopback_addr addr then
        (if nonempty_token token then Inr addr
         else if insecure_no_token then Inr addr
         else Inl LoopbackRequiresToken)
      else authorize_remote_endpoint addr token allow_remote)"

definition authorize_bind ::
    "socket_addr \<Rightarrow> string option \<Rightarrow> bool \<Rightarrow> security_error + socket_addr" where
  "authorize_bind addr token allow_remote = authorize_bind_with_insecure addr token allow_remote False"

definition authorize_client ::
    "socket_addr \<Rightarrow> string option \<Rightarrow> bool \<Rightarrow> security_error + socket_addr" where
  "authorize_client addr token allow_remote =
     (if is_loopback_addr addr then Inr addr else authorize_remote_endpoint addr token allow_remote)"

text \<open>\<open>from_env\<close>: the environment and the standard parser of socket addresses are arguments.\<close>

record agent_config =
  cfg_addr :: socket_addr
  cfg_token :: "string option"

definition truthy_env :: "(string \<Rightarrow> string option) \<Rightarrow> string \<Rightarrow> bool" where
  "truthy_env env name = (case env name of None \<Rightarrow> False
     | Some v \<Rightarrow> to_ascii_lowercase (trim v) \<in> {''1'', ''true'', ''yes'', ''on''})"

definition from_env ::
    "(string \<Rightarrow> socket_addr option) \<Rightarrow> bool \<Rightarrow> (string \<Rightarrow> string option) \<Rightarrow>
       security_error + agent_config option" where
  "from_env parse debug_build env =
     (if \<not> truthy_env env ''GPUI_AGENT'' then Inr None
      else if \<not> debug_build \<and> \<not> truthy_env env ''GPUI_AGENT_ALLOW_RELEASE'' then Inl ReleaseBlocked
      else
        rbind (case env ''GPUI_AGENT_ADDR'' of
                 Some raw \<Rightarrow> (case parse raw of Some a \<Rightarrow> Inr a | None \<Rightarrow> Inl (BadAddr raw))
               | None \<Rightarrow> Inr default_addr) (\<lambda>addr.
        let token = (case env ''GPUI_AGENT_TOKEN'' of Some t \<Rightarrow> if t = [] then None else Some t
                     | None \<Rightarrow> None);
            allow_remote = truthy_env env ''GPUI_AGENT_REMOTE'';
            insecure_no_token = truthy_env env ''GPUI_AGENT_INSECURE_NO_TOKEN''
        in rbind (authorize_bind_with_insecure addr token allow_remote insecure_no_token)
             (\<lambda>_. Inr (Some \<lparr>cfg_addr = addr, cfg_token = token\<rparr>))))"

lemma authorize_bind_iff:
  "authorize_bind_with_insecure addr token remote insecure = Inr a \<longleftrightarrow>
     a = addr \<and> (nonempty_token token \<and> (is_loopback_addr addr \<or> remote) \<or>
                 is_loopback_addr addr \<and> insecure)"
  by (auto simp: authorize_bind_with_insecure_def authorize_remote_endpoint_def)

section \<open>Token comparison\<close>

text \<open>\<open>tokens_match_bytes\<close>: the accumulator of the loop from index \<open>i\<close> to \<open>len\<close>.\<close>

definition byte_at :: "string \<Rightarrow> nat \<Rightarrow> nat" where
  "byte_at s i = (if i < length s then of_char (s ! i) else 0)"

unbundle bit_operations_syntax

function match_loop :: "string \<Rightarrow> string \<Rightarrow> nat \<Rightarrow> nat \<Rightarrow> nat \<Rightarrow> nat" where
  "match_loop got expected len i acc =
     (if i < len
      then match_loop got expected len (i + 1) (acc OR (byte_at got i XOR byte_at expected i))
      else acc)"
  by pat_completeness auto
termination by (relation "measure (\<lambda>(got, expected, len, i, acc). len - i)") auto

definition tokens_match :: "string \<Rightarrow> string \<Rightarrow> bool" where
  "tokens_match got expected =
     (let len = max (length got) (length expected)
      in match_loop got expected len 0 (length got XOR length expected) = 0)"

lemma or_nat_eq_0: "(a OR b) = 0 \<longleftrightarrow> a = 0 \<and> b = (0 :: nat)"
  by (auto simp: bit_eq_iff bit_or_iff)

lemma xor_nat_eq_0: "(a XOR b) = 0 \<longleftrightarrow> a = (b :: nat)"
  by (auto simp: bit_eq_iff bit_xor_iff)

declare match_loop.simps [simp del]

lemma match_loop_0:
  "match_loop got expected len i acc = 0 \<longleftrightarrow>
     acc = 0 \<and> (\<forall>j. i \<le> j \<and> j < len \<longrightarrow> byte_at got j = byte_at expected j)"
proof (induction got expected len i acc rule: match_loop.induct)
  case (1 got expected len i acc)
  have split: "(\<forall>j. i \<le> j \<and> j < len \<longrightarrow> P j) \<longleftrightarrow> (i < len \<longrightarrow> P i) \<and> (\<forall>j. i + 1 \<le> j \<and> j < len \<longrightarrow> P j)"
    for P by (auto simp: le_Suc_eq) (metis Suc_leI le_neq_implies_less)
  show ?case
  proof (cases "i < len")
    case True
    then show ?thesis using 1 split [of "\<lambda>j. byte_at got j = byte_at expected j"]
      by (subst match_loop.simps) (auto simp: or_nat_eq_0 xor_nat_eq_0)
  qed (subst match_loop.simps, auto)
qed

lemma tokens_match_iff: "tokens_match got expected \<longleftrightarrow> got = expected"
proof
  assume "tokens_match got expected"
  then have len: "length got = length expected"
    and bytes: "\<And>j. j < length got \<Longrightarrow> byte_at got j = byte_at expected j"
    by (auto simp: tokens_match_def match_loop_0 xor_nat_eq_0)
  then show "got = expected"
    by (intro nth_equalityI) (auto simp: byte_at_def)
next
  assume "got = expected"
  then show "tokens_match got expected"
    by (simp add: tokens_match_def match_loop_0)
qed

section \<open>Hexadecimal\<close>

definition HEX :: string where "HEX = ''0123456789abcdef''"

definition hex_encode :: "string \<Rightarrow> string" where
  "hex_encode bytes = concat (map (\<lambda>b. [HEX ! (of_char b div 16), HEX ! (of_char b mod 16)]) bytes)"

definition hex_nibble :: "char \<Rightarrow> nat result" where
  "hex_nibble b =
     (let n = of_char b :: nat in
      if 48 \<le> n \<and> n \<le> 57 then Inr (n - 48)
      else if 97 \<le> n \<and> n \<le> 102 then Inr (n - 97 + 10)
      else if 65 \<le> n \<and> n \<le> 70 then Inr (n - 65 + 10)
      else Inl ''invalid hex'')"

text \<open>The loop over the pairs; the length is even, so \<open>bytes[i + 1]\<close> is in bounds.\<close>

fun hex_pairs :: "string \<Rightarrow> string result" where
  "hex_pairs (a # b # s) =
     rbind (hex_nibble a) (\<lambda>hi. rbind (hex_nibble b) (\<lambda>lo.
       rmap (\<lambda>out. char_of (hi * 16 + lo) # out) (hex_pairs s)))"
| "hex_pairs _ = Inr []"

definition hex_decode :: "string \<Rightarrow> string result" where
  "hex_decode s =
     (let s = trim s in
      if length s mod 2 \<noteq> 0 then Inl ''hex length must be even'' else hex_pairs s)"

lemma hex_nibble_digit:
  assumes "n < 16" shows "hex_nibble (HEX ! n) = Inr n"
proof -
  have "\<forall>n \<in> set [0 ..< 16]. hex_nibble (HEX ! n) = Inr n" by code_simp
  then show ?thesis using assms by simp
qed

lemma hex_pairs_encode: "hex_pairs (hex_encode bs) = Inr bs"
proof (induction bs)
  case (Cons b bs)
  have "(of_char b :: nat) < 256" by simp
  then have "(of_char b :: nat) div 16 < 16" by linarith
  then show ?case using Cons
    by (simp add: hex_encode_def hex_nibble_digit)
qed (simp add: hex_encode_def)

lemma hex_encode_graph: "\<forall>c \<in> set (hex_encode bs). is_graph c"
proof -
  have "\<forall>c \<in> set HEX. is_graph c" by code_simp
  moreover have "HEX ! (of_char b div 16) \<in> set HEX" "HEX ! (of_char b mod 16) \<in> set HEX" for b :: char
  proof -
    have "(of_char b :: nat) < 256" by simp
    then have "(of_char b :: nat) div 16 < 16" by linarith
    moreover have "length HEX = 16" by code_simp
    ultimately show "HEX ! (of_char b div 16) \<in> set HEX" "HEX ! (of_char b mod 16) \<in> set HEX"
      by (metis nth_mem, metis nth_mem mod_less_divisor zero_less_numeral)
  qed
  ultimately show ?thesis by (auto simp: hex_encode_def)
qed

lemma hex_encode_length: "length (hex_encode bs) = 2 * length bs"
  by (induction bs) (simp_all add: hex_encode_def)

lemma hex_decode_encode: "hex_decode (hex_encode bs) = Inr bs"
  by (simp add: hex_decode_def trim_graph [OF hex_encode_graph] hex_encode_length hex_pairs_encode)

interpretation hex: codec hex_encode hex_decode "\<lambda>_. True"
  by unfold_locales (simp add: hex_decode_encode)

lemma hex_pairs_error: "hex_pairs s = Inl e \<Longrightarrow> e = ''invalid hex''"
  by (induction s rule: hex_pairs.induct)
    (auto simp: rbind_def rmap_def hex_nibble_def Let_def split: sum.splits if_splits)

section \<open>Challenge and response\<close>

definition NONCE_LEN :: nat where "NONCE_LEN = 32"

record challenge =
  chal_v :: u32
  chal_op :: string
  chal_nonce :: string

definition hmac_hex :: "(string \<Rightarrow> string \<Rightarrow> string) \<Rightarrow> string \<Rightarrow> string \<Rightarrow> string result" where
  "hmac_hex hm token nonce = Inr (hex_encode (hm token nonce))"

definition hmac_verify :: "(string \<Rightarrow> string \<Rightarrow> string) \<Rightarrow> string \<Rightarrow> string \<Rightarrow> string \<Rightarrow> bool" where
  "hmac_verify hm token nonce auth_hex =
     (case hex_decode auth_hex of Inl _ \<Rightarrow> False | Inr got \<Rightarrow> got = hm token nonce)"

definition challenge_for_nonce :: "string \<Rightarrow> challenge" where
  "challenge_for_nonce nonce =
     \<lparr>chal_v = PROTOCOL_VERSION, chal_op = ''challenge'', chal_nonce = hex_encode nonce\<rparr>"

lemma hmac_verify_hex: "hmac_hex hm token nonce = Inr auth \<Longrightarrow> hmac_verify hm token nonce auth"
  by (auto simp: hmac_hex_def hmac_verify_def hex_decode_encode)

text \<open>An honest answer for one session fails in another unless the codes collide.\<close>

lemma hmac_verify_other:
  "hmac_hex hm token nonce = Inr auth \<Longrightarrow>
     hmac_verify hm token' nonce' auth \<longleftrightarrow> hm token nonce = hm token' nonce'"
  by (auto simp: hmac_hex_def hmac_verify_def hex_decode_encode)

section \<open>Properties\<close>

text \<open>
  The whole bind policy: a listener gets exactly the address it asked for, and gets it
  exactly when the address is loopback or remote access is allowed, with a non-empty token;
  the one exception is a loopback address with the explicit insecure switch.  A client may
  go to any loopback address, and elsewhere only with the remote switch and a token.
\<close>

theorem bind_policy:
  "(authorize_bind_with_insecure addr token remote insecure = Inr a \<longleftrightarrow>
      a = addr \<and> (nonempty_token token \<and> (is_loopback_addr addr \<or> remote) \<or>
                  is_loopback_addr addr \<and> insecure)) \<and>
   (authorize_bind addr token remote = Inr a \<longleftrightarrow>
      a = addr \<and> nonempty_token token \<and> (is_loopback_addr addr \<or> remote)) \<and>
   (authorize_client addr token remote = Inr a \<longleftrightarrow>
      a = addr \<and> (is_loopback_addr addr \<or> remote \<and> nonempty_token token))"
  by (auto simp: authorize_bind_iff authorize_bind_def authorize_client_def authorize_remote_endpoint_def)

text \<open>
  The challenge answer: hexadecimal decoding inverts encoding, an answer computed with the
  host's token for the session's nonce is accepted, and the same answer is accepted for
  another token or nonce only if the authentication codes collide; a replay on a fresh nonce
  fails.  The comparison loop of \<open>tokens_match\<close>, which never stops early, is equality.
\<close>

theorem challenge_answer:
  "hex_decode (hex_encode bytes) = Inr bytes \<and>
   rmap (hmac_verify hm token' nonce') (hmac_hex hm token nonce) = Inr (hm token nonce = hm token' nonce') \<and>
   (tokens_match got expected \<longleftrightarrow> got = expected)"
  by (simp add: hex_decode_encode tokens_match_iff hmac_hex_def hmac_verify_def)

end
