(* ===== verification/Host.thy ===== *)
theory Host
  imports Keybinding Scroll_Capture Security
begin

text \<open>
  \<open>crates/gpui-agent/src/host.rs\<close>: the trait \<open>AgentHost\<close> as a record of functions on the
  state of the host, its default methods, and the revision contract of the trait's
  documentation as a locale.
\<close>

record 'h agent_host =
  ah_hello :: "'h \<Rightarrow> hello_info"
  ah_snapshot :: "'h \<Rightarrow> ui_tree"
  ah_dispatch :: "op \<Rightarrow> 'h \<Rightarrow> dispatch_result result \<times> 'h"
  ah_screenshot :: "screenshot_spec \<Rightarrow> 'h \<Rightarrow> dispatch_result result"
  ah_keybindings :: "'h \<Rightarrow> keybinding_info list"
  ah_is_app_focused :: "'h \<Rightarrow> bool"
  ah_revision :: "'h \<Rightarrow> u64 option"
  ah_event_ring :: "'h \<Rightarrow> event_ring option"

section \<open>Default methods\<close>

definition default_screenshot :: "screenshot_spec \<Rightarrow> 'h \<Rightarrow> dispatch_result result" where
  "default_screenshot s h = Inl (screenshot_unavailable ''this host has no pixel surface'')"

definition default_keybindings :: "'h \<Rightarrow> keybinding_info list" where
  "default_keybindings h = []"

definition default_is_app_focused :: "'h \<Rightarrow> bool" where
  "default_is_app_focused h = False"

definition default_revision :: "'h \<Rightarrow> u64 option" where
  "default_revision h = None"

definition default_event_ring :: "'h \<Rightarrow> event_ring option" where
  "default_event_ring h = None"

section \<open>The cache of trees\<close>

text \<open>
  \<open>TreeCache\<close> of \<open>dispatch.rs\<close>: the ring of the trees built at known revisions, oldest first,
  and the number of rebuilds.
\<close>

record tree_cache =
  tc_ring :: "(u64 \<times> ui_tree) list"
  tc_rebuilds :: u64

definition REV_RING_DEPTH :: nat where "REV_RING_DEPTH = 8"

definition cache_new :: tree_cache where
  "cache_new = \<lparr>tc_ring = [], tc_rebuilds = 0\<rparr>"

definition opt_or :: "'a option \<Rightarrow> 'a option \<Rightarrow> 'a option" where
  "opt_or a b = (case a of Some x \<Rightarrow> Some x | None \<Rightarrow> b)"

definition ring_back :: "'a list \<Rightarrow> 'a option" where
  "ring_back xs = (if xs = [] then None else Some (last xs))"

text \<open>\<open>while ring.len() > REV_RING_DEPTH { ring.pop_front(); }\<close>\<close>

definition trim_ring :: "'a list \<Rightarrow> 'a list" where
  "trim_ring xs = drop (length xs - REV_RING_DEPTH) xs"

definition cache_rebuild :: "'h agent_host \<Rightarrow> 'h \<Rightarrow> tree_cache \<Rightarrow> ui_tree \<times> tree_cache" where
  "cache_rebuild H h c =
     (let c = c\<lparr>tc_rebuilds := tc_rebuilds c + 1\<rparr>;
          tree = ah_snapshot H h
      in case opt_or (ah_revision H h) (tree_rev tree) of
           Some r \<Rightarrow>
             let tree = tree\<lparr>tree_rev := Some r\<rparr>
             in (tree, c\<lparr>tc_ring := trim_ring (tc_ring c @ [(r, tree)])\<rparr>)
         | None \<Rightarrow> (tree, c))"

definition cache_snapshot :: "'h agent_host \<Rightarrow> 'h \<Rightarrow> tree_cache \<Rightarrow> ui_tree \<times> tree_cache" where
  "cache_snapshot H h c =
     (case ah_revision H h of
        Some r \<Rightarrow>
          (case ring_back (tc_ring c) of
             Some (cached_rev, tree) \<Rightarrow> if cached_rev = r then (tree, c) else cache_rebuild H h c
           | None \<Rightarrow> cache_rebuild H h c)
      | None \<Rightarrow> cache_rebuild H h c)"

definition tree_at :: "tree_cache \<Rightarrow> u64 \<Rightarrow> ui_tree option" where
  "tree_at c r = map_option snd (List.find (\<lambda>(q, _). q = r) (tc_ring c))"

definition rebuild_count :: "tree_cache \<Rightarrow> u64" where
  "rebuild_count c = tc_rebuilds c"

text \<open>The tree a host shows now, as a rebuild returns it.\<close>

definition fresh_tree :: "'h agent_host \<Rightarrow> 'h \<Rightarrow> ui_tree" where
  "fresh_tree H h = (let t = ah_snapshot H h
     in t\<lparr>tree_rev := opt_or (ah_revision H h) (tree_rev t)\<rparr>)"

lemma fst_cache_rebuild [simp]: "fst (cache_rebuild H h c) = fresh_tree H h"
proof -
  have "t = t\<lparr>tree_rev := None\<rparr>" if "tree_rev t = None" for t :: ui_tree
    using that by (cases t) simp
  then show ?thesis
    by (auto simp: cache_rebuild_def fresh_tree_def Let_def opt_or_def split: option.splits)
qed

lemma cache_snapshot_length:
  "length (tc_ring c) \<le> REV_RING_DEPTH \<Longrightarrow> length (tc_ring (snd (cache_snapshot H h c))) \<le> REV_RING_DEPTH"
  by (auto simp: cache_snapshot_def cache_rebuild_def trim_ring_def Let_def split: option.splits)

interpretation cache_buffer: bounded_buffer tc_ring "\<lambda>_. REV_RING_DEPTH"
  "\<lambda>h c. snd (cache_snapshot H h c)"
  by unfold_locales (simp_all add: cache_snapshot_length)

lemma cache_snapshot_none:
  "ah_revision H h = None \<Longrightarrow> fst (cache_snapshot H h c) = fresh_tree H h"
  by (simp add: cache_snapshot_def)

section \<open>The revision contract\<close>

text \<open>
  "Bump on every mutation that can alter the snapshot.  Never lie."  Among the states in
  which the counter has room, an allowed operation never lowers the revision, and an
  operation that keeps it keeps the snapshot.
\<close>

definition coherent :: "'h agent_host \<Rightarrow> tree_cache \<Rightarrow> 'h \<Rightarrow> bool" where
  "coherent H c h = (\<forall>(r, t) \<in> set (tc_ring c). r \<le> the (ah_revision H h) \<and>
     (r = the (ah_revision H h) \<longrightarrow> t = fresh_tree H h))"

locale revision_contract =
  fixes H :: "'h agent_host"
    and room :: "'h \<Rightarrow> bool"
    and allowed :: "op \<Rightarrow> bool"
  assumes counts: "ah_revision H h \<noteq> None"
    and mono: "room h \<Longrightarrow> allowed op \<Longrightarrow>
      the (ah_revision H h) \<le> the (ah_revision H (snd (ah_dispatch H op h)))"
    and honest: "room h \<Longrightarrow> allowed op \<Longrightarrow>
      ah_revision H (snd (ah_dispatch H op h)) = ah_revision H h \<Longrightarrow>
      ah_snapshot H (snd (ah_dispatch H op h)) = ah_snapshot H h"
begin

lemma coherent_new: "coherent H cache_new h"
  by (simp add: coherent_def cache_new_def)

lemma revision_Some: "ah_revision H h = Some (the (ah_revision H h))"
  using counts [of h] by auto

lemma cached_is_fresh:
  assumes "coherent H c h"
  shows "fst (cache_snapshot H h c) = fresh_tree H h"
proof -
  have "t = fresh_tree H h" if "ring_back (tc_ring c) = Some (the (ah_revision H h), t)" for t
  proof -
    have "(the (ah_revision H h), t) \<in> set (tc_ring c)"
      using that by (auto simp: ring_back_def split: if_splits dest: last_in_set)
    then show ?thesis using assms by (auto simp: coherent_def)
  qed
  then show ?thesis using revision_Some [of h]
    by (auto simp: cache_snapshot_def split: option.splits)
qed

lemma coherent_snapshot:
  assumes "coherent H c h"
  shows "coherent H (snd (cache_snapshot H h c)) h"
proof -
  have "coherent H (snd (cache_rebuild H h c)) h"
  proof -
    have "fresh_tree H h = (ah_snapshot H h)\<lparr>tree_rev := Some (the (ah_revision H h))\<rparr>"
      unfolding fresh_tree_def Let_def by (subst revision_Some) (simp add: opt_or_def)
    then show ?thesis
      using assms revision_Some [of h]
      by (auto simp: coherent_def cache_rebuild_def Let_def opt_or_def trim_ring_def
          split: option.splits dest!: in_set_dropD)
  qed
  then show ?thesis using assms by (auto simp: cache_snapshot_def split: option.splits)
qed

lemma coherent_dispatch:
  assumes "coherent H c h" "room h" "allowed op"
  shows "coherent H c (snd (ah_dispatch H op h))"
proof -
  let ?h = "snd (ah_dispatch H op h)"
  have le: "the (ah_revision H h) \<le> the (ah_revision H ?h)" using assms mono by blast
  have same: "fresh_tree H ?h = fresh_tree H h" if "the (ah_revision H ?h) = the (ah_revision H h)"
  proof -
    have "ah_revision H ?h = ah_revision H h" using that revision_Some by metis
    then show ?thesis using honest [OF assms(2,3)] by (simp add: fresh_tree_def)
  qed
  have "r \<le> the (ah_revision H ?h) \<and> (r = the (ah_revision H ?h) \<longrightarrow> t = fresh_tree H ?h)"
    if "(r, t) \<in> set (tc_ring c)" for r t
  proof -
    have r: "r \<le> the (ah_revision H h)" "r = the (ah_revision H h) \<longrightarrow> t = fresh_tree H h"
      using that assms(1) by (auto simp: coherent_def)
    then have "r = the (ah_revision H ?h) \<Longrightarrow> r = the (ah_revision H h)" using le by simp
    then show ?thesis using r le same by auto
  qed
  then show ?thesis by (auto simp: coherent_def)
qed

end

end
