(* ===== verification/Dispatch.thy ===== *)
theory Dispatch
  imports Host
begin

text \<open>
  \<open>crates/gpui-agent/src/dispatch.rs\<close>: the gate of a request, the handler with its cache, the
  wait loops, the assertions on a tree and the viewport geometry.  A host may share its state
  with other threads, so it can change while a wait loop sleeps.  The loops take the list of
  their polls: the clock reading at the end of a look (nanoseconds since the call) and the
  host that the next look meets; \<open>Waiting\<close> says that the polls ended first.  A handler
  returns the host as it was last seen.
\<close>

definition STALE_TARGET :: string where "STALE_TARGET = ''stale_target''"
definition TARGET_GONE :: string where "TARGET_GONE = ''target_gone''"

definition is_stale_dispatch_error :: "string \<Rightarrow> bool" where
  "is_stale_dispatch_error err = (starts_with err STALE_TARGET \<or> starts_with err TARGET_GONE)"

section \<open>The gate\<close>

definition authorize_request ::
    "(string \<Rightarrow> string \<Rightarrow> string) \<Rightarrow> request \<Rightarrow> string option \<Rightarrow> string option \<Rightarrow> response + unit" where
  "authorize_request hm req expected_token session_nonce =
     (if req_v req \<noteq> PROTOCOL_VERSION then
        Inl (response_err (req_id req) (''unsupported protocol version '' @ dec (unat (req_v req))
          @ '' (want '' @ dec (unat PROTOCOL_VERSION) @ '')''))
      else case expected_token of
        None \<Rightarrow> Inr ()
      | Some expected \<Rightarrow>
          if (case req_token req of Some t \<Rightarrow> t \<noteq> [] | None \<Rightarrow> False) then
            Inl (response_err (req_id req) ''token must not be sent on the wire'')
          else
            (case (case session_nonce of Some n \<Rightarrow> if length n = NONCE_LEN then Some n else None
                   | None \<Rightarrow> None) of
               None \<Rightarrow> Inl (response_err (req_id req) ''automation token required'')
             | Some nonce \<Rightarrow>
                 (case req_auth req of
                    Some auth \<Rightarrow> if hmac_verify hm expected nonce auth then Inr ()
                                 else Inl (response_err (req_id req) ''invalid automation token'')
                  | None \<Rightarrow> Inl (response_err (req_id req) ''automation token required''))))"

section \<open>Assertions on a tree\<close>

fun window_for_target :: "string \<Rightarrow> ui_node option \<Rightarrow> ui_node \<Rightarrow> ui_node option" where
  "window_for_target target_id current_window (UiNode d cs) =
     (let window = (if nd_role d = role_window then Some (UiNode d cs) else current_window) in
      if nd_id d = target_id then window
      else find_map (window_for_target target_id window) cs)"

definition find_window_for :: "ui_tree \<Rightarrow> string \<Rightarrow> ui_node option" where
  "find_window_for tree target_id = find_map (window_for_target target_id None) (tree_nodes tree)"

definition window_clip :: "ui_tree \<Rightarrow> ui_node \<Rightarrow> bounds result" where
  "window_clip tree target =
     (case find_window_for tree (nid target) of
        Some window \<Rightarrow> Inr (nd_bounds (data window))
      | None \<Rightarrow> Inl (in_viewport_unavailable (''no window clip for `'' @ nid target @ ''`'')))"

definition node_in_viewport :: "ui_tree \<Rightarrow> ui_node \<Rightarrow> bool result" where
  "node_in_viewport tree node =
     (if tree_platform tree = Headless then
        Inl (in_viewport_unavailable ''headless hosts have no painted window clip'')
      else if \<not> has_area (nd_bounds (data node)) then
        Inl (in_viewport_unavailable (''node `'' @ nid node @ ''` bounds are zero''))
      else rbind (window_clip tree node) (\<lambda>clip.
        if \<not> has_area clip then
          Inl (in_viewport_unavailable (''window clip for `'' @ nid node @ ''` has zero bounds''))
        else Inr (intersects (nd_bounds (data node)) clip)))"

text \<open>One field of an assert specification; the message is only built when it fails.\<close>

definition expect_field :: "'a option \<Rightarrow> ('a \<Rightarrow> bool) \<Rightarrow> ('a \<Rightarrow> string) \<Rightarrow> unit result" where
  "expect_field want holds msg =
     (case want of None \<Rightarrow> Inr () | Some v \<Rightarrow> if holds v then Inr () else Inl (msg v))"

definition node_says :: "string \<Rightarrow> string \<Rightarrow> string \<Rightarrow> string \<Rightarrow> string" where
  "node_says target field expected got =
     ''node `'' @ target @ ''` '' @ field @ '': expected '' @ expected @ '', got '' @ got"

definition check_viewport :: "ui_tree \<Rightarrow> ui_node \<Rightarrow> assert_spec \<Rightarrow> unit result" where
  "check_viewport tree node spec =
     (case spec_in_viewport spec of
        None \<Rightarrow> Inr ()
      | Some expected \<Rightarrow> rbind (node_in_viewport tree node) (\<lambda>actual.
          if actual \<noteq> expected then
            Inl (node_says (spec_target spec) ''in_viewport'' (show_bool expected) (show_bool actual))
          else Inr ()))"

definition check_node :: "ui_tree \<Rightarrow> ui_node \<Rightarrow> assert_spec \<Rightarrow> unit result" where
  "check_node tree node spec =
     (let d = data node; says = node_says (spec_target spec) in
      rbind (expect_field (spec_name spec) (\<lambda>v. nd_name d = v)
               (\<lambda>v. says ''name'' (debug_str v) (debug_str (nd_name d)))) (\<lambda>_.
      rbind (expect_field (spec_value spec) (\<lambda>v. nd_value d = Some v)
               (\<lambda>v. says ''value'' (debug_str v) (debug_opt debug_str (nd_value d)))) (\<lambda>_.
      rbind (expect_field (spec_role spec) (\<lambda>v. nd_role d = v)
               (\<lambda>v. says ''role'' (debug_str v) (debug_str (nd_role d)))) (\<lambda>_.
      rbind (expect_field (spec_checked spec) (\<lambda>v. nd_checked d = Some v)
               (\<lambda>v. says ''checked'' (show_bool v) (debug_opt show_bool (nd_checked d)))) (\<lambda>_.
      rbind (expect_field (spec_visible spec) (\<lambda>v. nd_visible d = v)
               (\<lambda>v. says ''visible'' (show_bool v) (show_bool (nd_visible d)))) (\<lambda>_.
      check_viewport tree node spec))))))"

definition assert_tree :: "ui_tree \<Rightarrow> assert_spec \<Rightarrow> unit result" where
  "assert_tree tree spec =
     (if (case spec_exists spec of None \<Rightarrow> True | Some b \<Rightarrow> b) then
        rbind (require_id tree (spec_target spec)) (\<lambda>node. check_node tree node spec)
      else
        let n = length (find_all tree (spec_target spec)) in
        if n = 0 then Inr ()
        else if n = 1 then Inl (''node `'' @ spec_target spec @ ''` exists but should be absent'')
        else Inl (''duplicate id `'' @ spec_target spec @ ''` ('' @ dec n @ '' nodes)''))"

section \<open>Answers\<close>

record dispatch_env =
  de_checks :: bool  \<comment> \<open>overflow checks compiled in\<close>
  de_identity :: host_identity
  de_hmac :: "string \<Rightarrow> string \<Rightarrow> string"

definition push_feature :: "string \<Rightarrow> string list \<Rightarrow> string list" where
  "push_feature f fs = (if f \<in> set fs then fs else fs @ [f])"

definition hello_features :: "'h agent_host \<Rightarrow> 'h \<Rightarrow> string list \<Rightarrow> string list" where
  "hello_features H h fs =
     (let fs = fold push_feature [''snapshot_since'', ''snapshot_compact'', ''expect_fingerprint''] fs;
          fs = (if ah_revision H h \<noteq> None then push_feature ''rev'' fs else fs)
      in if ah_event_ring H h \<noteq> None then push_feature ''events'' fs else fs)"

definition filled_hello :: "dispatch_env \<Rightarrow> string option \<Rightarrow> hello_info \<Rightarrow> hello_info" where
  "filled_hello env expected_token hello =
     fill_hello_identity (de_identity env)
       (hello\<lparr>he_auth := auth_from_token_configured expected_token\<rparr>)"

definition hello_response ::
    "dispatch_env \<Rightarrow> 'h agent_host \<Rightarrow> 'h \<Rightarrow> string \<Rightarrow> string option \<Rightarrow> response" where
  "hello_response env H h ident expected_token =
     (let hello = filled_hello env expected_token (ah_hello H h);
          hello = hello\<lparr>he_features := hello_features H h (he_features hello)\<rparr>
      in (response_ok ident)\<lparr>rs_hello := Some hello\<rparr>)"

definition snapshot_response ::
    "'h agent_host \<Rightarrow> 'h \<Rightarrow> tree_cache \<Rightarrow> string \<Rightarrow> u64 option \<Rightarrow> snapshot_format option \<Rightarrow>
       bool option \<Rightarrow> response \<times> tree_cache" where
  "snapshot_response H h c ident since format fingerprints =
     (let (tree, c) = cache_snapshot H h c;
          r = tree_rev tree;
          resp = (response_ok ident)\<lparr>rs_rev := r\<rparr>;
          resp = (if fingerprints = Some True
                  then resp\<lparr>rs_fingerprints := Some (fingerprint_map tree)\<rparr> else resp)
      in if format = Some FmtCompact then
           (resp\<lparr>rs_result := Some (json_obj [(''compact'', JStr (compact_lines tree))])\<rparr>, c)
         else
           (case since of
              None \<Rightarrow> resp\<lparr>rs_tree := Some tree\<rparr>
            | Some s \<Rightarrow>
                if r = Some s then resp\<lparr>rs_result := Some (json_obj [(''unchanged'', JBool True)])\<rparr>
                else (case (case r of None \<Rightarrow> None | Some _ \<Rightarrow> tree_at c s) of
                        Some old \<Rightarrow> resp\<lparr>rs_result :=
                          Some (json_obj [(''diff'', json_of_diff (diff_trees old tree))])\<rparr>
                      | None \<Rightarrow> resp\<lparr>rs_tree := Some tree,
                                     rs_result := Some (json_obj [(''full'', JBool True)])\<rparr>), c))"

text \<open>The deadline passes when a reading, in nanoseconds, reaches \<open>timeout_ms\<close>.\<close>

definition past_deadline :: "u64 \<Rightarrow> nat \<Rightarrow> bool" where
  "past_deadline timeout_ms elapsed = (unat timeout_ms * 1000000 \<le> elapsed)"

type_synonym 'h polls = "(nat \<times> 'h) list"

fun wait_until_ready ::
    "dispatch_env \<Rightarrow> 'h agent_host \<Rightarrow> 'h \<Rightarrow> string \<Rightarrow> string option \<Rightarrow> u64 \<Rightarrow> 'h polls \<Rightarrow>
       response outcome \<times> 'h" where
  "wait_until_ready env H h ident expected_token timeout_ms polls =
     (let hello = ah_hello H h in
      if he_ready hello then
        (Returns ((response_ok ident)\<lparr>rs_hello := Some (filled_hello env expected_token hello)\<rparr>), h)
      else case polls of
        [] \<Rightarrow> (Waiting, h)
      | (now, h') # polls \<Rightarrow>
          if past_deadline timeout_ms now then (Returns (response_err ident ''wait timed out''), h)
          else wait_until_ready env H h' ident expected_token timeout_ms polls)"

fun wait_until_assert ::
    "'h agent_host \<Rightarrow> 'h \<Rightarrow> string \<Rightarrow> assert_spec \<Rightarrow> u64 \<Rightarrow> 'h polls \<Rightarrow> tree_cache \<Rightarrow>
       response outcome \<times> tree_cache \<times> 'h" where
  "wait_until_assert H h ident spec timeout_ms polls c =
     (case cache_snapshot H h c of (tree, c) \<Rightarrow>
      (case assert_tree tree spec of
         Inr _ \<Rightarrow> (Returns (response_ok ident), c, h)
       | Inl error \<Rightarrow>
           if is_in_viewport_unavailable error \<and> tree_platform tree = Headless then
             (Returns (response_err ident error), c, h)
           else (case polls of
               [] \<Rightarrow> (Waiting, c, h)
             | (now, h') # polls \<Rightarrow>
                 if past_deadline timeout_ms now then
                   (Returns (response_err ident (''wait_until timed out: '' @ error)), c, h)
                 else wait_until_assert H h' ident spec timeout_ms polls c)))"

declare wait_until_ready.simps [simp del] wait_until_assert.simps [simp del]

section \<open>The handler\<close>

definition respond :: "string \<Rightarrow> dispatch_result result \<Rightarrow> response" where
  "respond ident r =
     (case r of Inr result \<Rightarrow> (response_ok ident)\<lparr>rs_result := dr_value result\<rparr>
      | Inl error \<Rightarrow> response_err ident error)"

text \<open>\<open>host.dispatch(op)\<close> and the response made of its result.\<close>

definition dispatch_respond ::
    "'h agent_host \<Rightarrow> string \<Rightarrow> op \<Rightarrow> 'h \<Rightarrow> tree_cache \<Rightarrow> response outcome \<times> tree_cache \<times> 'h" where
  "dispatch_respond H ident op h c =
     (case ah_dispatch H op h of (r, h) \<Rightarrow> (Returns (respond ident r), c, h))"

definition stale_gate :: "'h agent_host \<Rightarrow> 'h \<Rightarrow> op \<Rightarrow> tree_cache \<Rightarrow> string option \<times> tree_cache" where
  "stale_gate H h op c =
     (case fingerprint_gate op of
        None \<Rightarrow> (None, c)
      | Some (target, expected) \<Rightarrow>
          (case cache_snapshot H h c of (tree, c) \<Rightarrow>
            (case fingerprint_of tree target of
               None \<Rightarrow> Some (TARGET_GONE @ '': `'' @ target @ ''` is no longer in the tree'')
             | Some actual \<Rightarrow>
                 if actual \<noteq> expected then
                   Some (STALE_TARGET @ '': `'' @ target @ ''` changed between snapshot and dispatch'')
                 else None, c)))"

definition handle_other ::
    "'h agent_host \<Rightarrow> string \<Rightarrow> op \<Rightarrow> 'h \<Rightarrow> tree_cache \<Rightarrow> response outcome \<times> tree_cache \<times> 'h" where
  "handle_other H ident op h c =
     (case stale_gate H h op c of
        (Some error, c) \<Rightarrow> (Returns (response_err ident error), c, h)
      | (None, c) \<Rightarrow> dispatch_respond H ident op h c)"

definition events_response ::
    "dispatch_env \<Rightarrow> event_ring option \<Rightarrow> string \<Rightarrow> u64 option \<Rightarrow> u32 option \<Rightarrow> response outcome" where
  "events_response env ring ident since limit =
     (case ring of
        None \<Rightarrow> Returns (response_err ident ''events unsupported on this host'')
      | Some r \<Rightarrow>
          (case ring_since (de_checks env) since
                  (case limit of Some l \<Rightarrow> unat l | None \<Rightarrow> EVENTS_DEFAULT_LIMIT) r of
             None \<Rightarrow> Panics
           | Some poll \<Rightarrow> Returns ((response_ok ident)\<lparr>rs_result := Some (json_of_poll poll)\<rparr>)))"

definition handle_op ::
    "dispatch_env \<Rightarrow> 'h agent_host \<Rightarrow> string \<Rightarrow> op \<Rightarrow> string option \<Rightarrow> 'h polls \<Rightarrow> 'h \<Rightarrow> tree_cache \<Rightarrow>
       response outcome \<times> tree_cache \<times> 'h" where
  "handle_op env H ident op expected_token polls h c =
     (case op of
        OpHello \<Rightarrow> (Returns (hello_response env H h ident expected_token), c, h)
      | OpWait None \<Rightarrow> (Returns (hello_response env H h ident expected_token), c, h)
      | OpWait (Some ms) \<Rightarrow>
          (case wait_until_ready env H h ident expected_token ms polls of (r, h) \<Rightarrow> (r, c, h))
      | OpWaitUntil timeout_ms spec \<Rightarrow> wait_until_assert H h ident spec timeout_ms polls c
      | OpRevision \<Rightarrow> (Returns ((response_ok ident)\<lparr>rs_rev := ah_revision H h\<rparr>), c, h)
      | OpSnapshot since format fingerprints \<Rightarrow>
          (case snapshot_response H h c ident since format fingerprints of
             (r, c) \<Rightarrow> (Returns r, c, h))
      | OpScreenshot path mode target max_height_px \<Rightarrow>
          (let spec = screenshot_spec_from_op path mode target max_height_px in
           case validate_request spec of
             Inl error \<Rightarrow> (Returns (response_err ident error), c, h)
           | Inr _ \<Rightarrow> (Returns (respond ident (ah_screenshot H spec h)), c, h))
      | OpAssert spec \<Rightarrow>
          (case cache_snapshot H h c of (tree, c) \<Rightarrow>
             (Returns (case assert_tree tree spec of Inr _ \<Rightarrow> response_ok ident
                       | Inl error \<Rightarrow> response_err ident error), c, h))
      | OpKeybindings \<Rightarrow>
          (Returns ((response_ok ident)\<lparr>rs_result := Some (keybinding_list_json (ah_keybindings H h))\<rparr>),
           c, h)
      | OpEvents since limit \<Rightarrow> (events_response env (ah_event_ring H h) ident since limit, c, h)
      | OpKeybinding _ _ _ _ _ \<Rightarrow>
          (case authorize_keybinding_op op (ah_keybindings H h) (ah_is_app_focused H h) of
             Inl error \<Rightarrow> (Returns (response_err ident error), c, h)
           | Inr _ \<Rightarrow> dispatch_respond H ident op h c)
      | OpShutdown \<Rightarrow> dispatch_respond H ident OpShutdown h c
      | _ \<Rightarrow> handle_other H ident op h c)"

definition handle_request_cached ::
    "dispatch_env \<Rightarrow> 'h agent_host \<Rightarrow> request \<Rightarrow> string option \<Rightarrow> string option \<Rightarrow> 'h polls \<Rightarrow>
       'h \<Rightarrow> tree_cache \<Rightarrow> response outcome \<times> tree_cache \<times> 'h" where
  "handle_request_cached env H req expected_token session_nonce polls h c =
     (case authorize_request (de_hmac env) req expected_token session_nonce of
        Inl resp \<Rightarrow> (Returns resp, c, h)
      | Inr _ \<Rightarrow> handle_op env H (req_id req) (req_op req) expected_token polls h c)"

definition handle_request ::
    "dispatch_env \<Rightarrow> 'h agent_host \<Rightarrow> request \<Rightarrow> string option \<Rightarrow> string option \<Rightarrow> 'h polls \<Rightarrow>
       'h \<Rightarrow> response outcome \<times> 'h" where
  "handle_request env H req expected_token session_nonce polls h =
     (case handle_request_cached env H req expected_token session_nonce polls h cache_new of
        (r, _, h) \<Rightarrow> (r, h))"

text \<open>The polls of a host that nobody else changes, such as one that the mutex of the server guards whole.\<close>

definition steady :: "'h \<Rightarrow> nat list \<Rightarrow> 'h polls" where
  "steady h clock = map (\<lambda>now. (now, h)) clock"

end
