(* ===== verification/Dispatch_Laws.thy ===== *)
theory Dispatch_Laws
  imports Dispatch
begin

text \<open>
  Laws of the request handler: who passes the gate, what an assertion means, what a stale
  fingerprint stops, what a wait loop can see, and why the cache cannot be observed when the
  host keeps its revision contract.
\<close>

section \<open>The gate\<close>

definition answers_challenge ::
    "(string \<Rightarrow> string \<Rightarrow> string) \<Rightarrow> string \<Rightarrow> string option \<Rightarrow> request \<Rightarrow> bool" where
  "answers_challenge hm token session_nonce req =
     (\<exists>nonce auth. session_nonce = Some nonce \<and> length nonce = NONCE_LEN \<and>
        req_auth req = Some auth \<and> hex_decode auth = Inr (hm token nonce))"

lemma hmac_verify_iff: "hmac_verify hm token nonce auth \<longleftrightarrow> hex_decode auth = Inr (hm token nonce)"
  by (auto simp: hmac_verify_def split: sum.splits)

lemma authorize_request_iff:
  "authorize_request hm req token nonce = Inr () \<longleftrightarrow>
     req_v req = PROTOCOL_VERSION \<and>
     (case token of None \<Rightarrow> True
      | Some t \<Rightarrow> opt_empty (req_token req) \<and> answers_challenge hm t nonce req)"
  by (auto simp: authorize_request_def opt_empty_def answers_challenge_def hmac_verify_iff
      split: option.splits if_splits)

lemma authorize_request_Inl:
  "authorize_request hm req token nonce = Inl resp \<Longrightarrow> \<not> rs_ok resp \<and> rs_id resp = req_id req"
  by (auto simp: authorize_request_def split: option.splits if_splits)

lemma refused_no_effect:
  assumes "authorize_request (de_hmac env) req token nonce \<noteq> Inr ()"
  shows "\<exists>resp. handle_request_cached env H req token nonce polls h c = (Returns resp, c, h) \<and>
     \<not> rs_ok resp \<and> rs_id resp = req_id req"
proof -
  obtain resp where "authorize_request (de_hmac env) req token nonce = Inl resp"
    using assms by (cases "authorize_request (de_hmac env) req token nonce") auto
  then show ?thesis using authorize_request_Inl by (auto simp: handle_request_cached_def)
qed

section \<open>Assertions\<close>

definition field_holds :: "'a option \<Rightarrow> ('a \<Rightarrow> bool) \<Rightarrow> bool" where
  "field_holds want holds = (case want of None \<Rightarrow> True | Some v \<Rightarrow> holds v)"

lemma expect_field_ok: "expect_field want holds msg = Inr () \<longleftrightarrow> field_holds want holds"
  by (simp add: expect_field_def field_holds_def split: option.splits)

definition node_satisfies :: "ui_tree \<Rightarrow> ui_node \<Rightarrow> assert_spec \<Rightarrow> bool" where
  "node_satisfies tree n spec =
     (field_holds (spec_name spec) (\<lambda>v. nd_name (data n) = v) \<and>
      field_holds (spec_value spec) (\<lambda>v. nd_value (data n) = Some v) \<and>
      field_holds (spec_role spec) (\<lambda>v. nd_role (data n) = v) \<and>
      field_holds (spec_checked spec) (\<lambda>v. nd_checked (data n) = Some v) \<and>
      field_holds (spec_visible spec) (\<lambda>v. nd_visible (data n) = v) \<and>
      field_holds (spec_in_viewport spec) (\<lambda>v. node_in_viewport tree n = Inr v))"

lemma check_viewport_ok:
  "check_viewport tree n spec = Inr () \<longleftrightarrow>
     field_holds (spec_in_viewport spec) (\<lambda>v. node_in_viewport tree n = Inr v)"
  by (auto simp: check_viewport_def field_holds_def rbind_Inr_iff split: option.splits if_splits)

lemma check_node_ok: "check_node tree n spec = Inr () \<longleftrightarrow> node_satisfies tree n spec"
  by (auto simp: check_node_def Let_def rbind_Inr_iff expect_field_ok check_viewport_ok node_satisfies_def)

lemma assert_tree_ok:
  "assert_tree tree spec = Inr () \<longleftrightarrow>
     (if spec_exists spec = Some False then find_all tree (spec_target spec) = []
      else \<exists>n. find_all tree (spec_target spec) = [n] \<and> node_satisfies tree n spec)"
proof -
  have "(case spec_exists spec of None \<Rightarrow> True | Some b \<Rightarrow> b) \<longleftrightarrow> spec_exists spec \<noteq> Some False"
    by (auto split: option.splits)
  then show ?thesis
    by (auto simp: assert_tree_def Let_def rbind_Inr_iff require_id_Inr_iff check_node_ok)
qed

text \<open>Missing geometry is an error, never a verdict.\<close>

lemma node_in_viewport_Inr:
  "node_in_viewport tree n = Inr b \<longleftrightarrow>
     tree_platform tree \<noteq> Headless \<and> has_area (nd_bounds (data n)) \<and>
     (\<exists>w. find_window_for tree (nid n) = Some w \<and> has_area (nd_bounds (data w)) \<and>
          b = intersects (nd_bounds (data n)) (nd_bounds (data w)))"
  by (auto simp: node_in_viewport_def window_clip_def rbind_Inr_iff split: option.splits)

section \<open>The cache over one state of the host\<close>

lemma last_trim_ring: "last (trim_ring (xs @ [x])) = x" "trim_ring (xs @ [x]) \<noteq> []"
  by (simp_all add: trim_ring_def REV_RING_DEPTH_def)

lemma cache_snapshot_again:
  "fst (cache_snapshot H h (snd (cache_snapshot H h c))) = fst (cache_snapshot H h c)"
proof (cases "ah_revision H h")
  case (Some r)
  have "cache_snapshot H h (snd (cache_rebuild H h c)) = (fresh_tree H h, snd (cache_rebuild H h c))"
    using Some
    by (simp add: cache_snapshot_def cache_rebuild_def ring_back_def opt_or_def Let_def fresh_tree_def
        last_trim_ring)
  then have "fst (cache_snapshot H h (snd (cache_rebuild H h c))) = fresh_tree H h" by simp
  then show ?thesis using Some
    by (auto simp: cache_snapshot_def split: option.splits if_splits)
qed (simp add: cache_snapshot_none)

section \<open>Waiting\<close>

text \<open>Polls that meet no other host than the first.\<close>

definition quiet :: "'h \<Rightarrow> 'h polls \<Rightarrow> bool" where
  "quiet h polls = (\<forall>p \<in> set polls. snd p = h)"

lemma quiet_simps [simp]: "quiet h []" "quiet h ((now, h') # polls) \<longleftrightarrow> h' = h \<and> quiet h polls" "quiet h (steady h clock)"
  by (auto simp: quiet_def steady_def)

lemma steady_simps [simp]: "steady h [] = []" "steady h (now # clock) = (now, h) # steady h clock"
  by (simp_all add: steady_def)

lemma wait_until_assert_unfold:
  assumes "cache_snapshot H h c = (tree, c1)"
  shows "wait_until_assert H h i spec ms polls c =
     (case assert_tree tree spec of
        Inr _ \<Rightarrow> (Returns (response_ok i), c1, h)
      | Inl e \<Rightarrow>
          if is_in_viewport_unavailable e \<and> tree_platform tree = Headless then
            (Returns (response_err i e), c1, h)
          else (case polls of [] \<Rightarrow> (Waiting, c1, h)
            | (now, h') # polls \<Rightarrow>
                if past_deadline ms now then
                  (Returns (response_err i (''wait_until timed out: '' @ e)), c1, h)
                else wait_until_assert H h' i spec ms polls c1))"
  by (subst wait_until_assert.simps) (simp add: assms)

text \<open>A clock that passes the deadline ends the wait.\<close>

lemma wait_until_assert_returns:
  assumes "\<exists>p \<in> set polls. past_deadline ms (fst p)"
  shows "\<exists>resp. fst (wait_until_assert H h i spec ms polls c) = Returns resp"
  using assms
proof (induction polls arbitrary: h c)
  case (Cons p polls)
  obtain now h' where p: "p = (now, h')" by (cases p)
  obtain tree c1 where snap: "cache_snapshot H h c = (tree, c1)" by fastforce
  show ?case using Cons.prems Cons.IH [of h' c1] p
    by (auto simp: wait_until_assert_unfold [OF snap] split: sum.split)
qed simp

lemma wait_until_ready_returns:
  assumes "\<exists>p \<in> set polls. past_deadline ms (fst p)"
  shows "\<exists>resp. fst (wait_until_ready env H h i token ms polls) = Returns resp"
  using assms
proof (induction polls arbitrary: h)
  case (Cons p polls)
  obtain now h' where p: "p = (now, h')" by (cases p)
  show ?case using Cons.prems Cons.IH [of h'] p by (subst wait_until_ready.simps) (auto simp: Let_def)
qed simp

lemma wait_until_assert_quiet: "quiet h polls \<Longrightarrow> snd (snd (wait_until_assert H h i spec ms polls c)) = h"
proof (induction polls arbitrary: c)
  case Nil
  obtain tree c1 where snap: "cache_snapshot H h c = (tree, c1)" by fastforce
  show ?case by (simp add: wait_until_assert_unfold [OF snap] split: sum.split)
next
  case (Cons p polls)
  obtain tree c1 where snap: "cache_snapshot H h c = (tree, c1)" by fastforce
  show ?case using Cons.prems Cons.IH [of c1]
    by (cases p) (simp add: wait_until_assert_unfold [OF snap] split: sum.split)
qed

lemma wait_until_ready_quiet: "quiet h polls \<Longrightarrow> snd (wait_until_ready env H h i token ms polls) = h"
proof (induction polls)
  case (Cons p polls)
  then show ?case by (cases p) (subst wait_until_ready.simps, simp add: Let_def)
qed (subst wait_until_ready.simps, simp add: Let_def)

text \<open>
  The looks of a wait.  Equal revisions mean equal trees among the states seen, and the cached
  tree is the tree of its revision: then every look sees the tree of the moment.
\<close>

definition honest_run :: "'h agent_host \<Rightarrow> 'h set \<Rightarrow> bool" where
  "honest_run H hs = (\<forall>h \<in> hs. \<forall>h' \<in> hs. ah_revision H h \<noteq> None \<longrightarrow>
     ah_revision H h = ah_revision H h' \<longrightarrow> fresh_tree H h = fresh_tree H h')"

definition cache_agrees :: "'h agent_host \<Rightarrow> 'h set \<Rightarrow> tree_cache \<Rightarrow> bool" where
  "cache_agrees H hs c = (\<forall>r t h. ring_back (tc_ring c) = Some (r, t) \<longrightarrow> h \<in> hs \<longrightarrow>
     ah_revision H h = Some r \<longrightarrow> t = fresh_tree H h)"

lemma cache_agrees_new: "cache_agrees H hs cache_new"
  by (simp add: cache_agrees_def cache_new_def ring_back_def)

lemma rebuild_agrees:
  assumes "honest_run H hs" "h \<in> hs" "ah_revision H h = Some r"
  shows "cache_agrees H hs (snd (cache_rebuild H h c))"
proof -
  have own: "ring_back (tc_ring (snd (cache_rebuild H h c))) = Some (r, fresh_tree H h)"
    using assms(3) by (simp add: cache_rebuild_def ring_back_def opt_or_def Let_def fresh_tree_def last_trim_ring)
  show ?thesis unfolding cache_agrees_def
  proof (intro allI impI)
    fix r' t h'
    assume other: "ring_back (tc_ring (snd (cache_rebuild H h c))) = Some (r', t)" and h': "h' \<in> hs" "ah_revision H h' = Some r'"
    then have "r' = r" "t = fresh_tree H h" using own by simp_all
    moreover have "fresh_tree H h = fresh_tree H h'"
      using assms h' calculation(1) unfolding honest_run_def by (metis option.distinct(1))
    ultimately show "t = fresh_tree H h'" by simp
  qed
qed

text \<open>A host with no revision leaves a tree of its own revision in the ring, which no look reads again.\<close>

definition counted :: "'h agent_host \<Rightarrow> 'h set \<Rightarrow> bool" where
  "counted H hs = (\<forall>h \<in> hs. ah_revision H h \<noteq> None)"

lemma snapshot_cases:
  "cache_snapshot H h c = cache_rebuild H h c \<or>
     (\<exists>r t. ah_revision H h = Some r \<and> ring_back (tc_ring c) = Some (r, t) \<and> cache_snapshot H h c = (t, c))"
  by (auto simp: cache_snapshot_def split: option.split)

lemma look_fresh:
  assumes "h \<in> hs" "cache_agrees H hs c"
  shows "fst (cache_snapshot H h c) = fresh_tree H h"
  using snapshot_cases [of H h c]
proof (elim disjE exE conjE)
  fix r t assume "ah_revision H h = Some r" "ring_back (tc_ring c) = Some (r, t)" "cache_snapshot H h c = (t, c)"
  then show ?thesis using assms unfolding cache_agrees_def by (metis fst_conv)
qed simp

lemma look_agrees:
  assumes "honest_run H hs" "h \<in> hs" "cache_agrees H hs c" "counted H hs"
  shows "cache_agrees H hs (snd (cache_snapshot H h c))"
  using snapshot_cases [of H h c]
proof (elim disjE exE conjE)
  obtain r where r: "ah_revision H h = Some r" using assms(2,4) by (auto simp: counted_def)
  assume "cache_snapshot H h c = cache_rebuild H h c"
  then show ?thesis using rebuild_agrees [OF assms(1,2) r] by simp
qed (simp add: assms(3))

text \<open>The tree of the moment, in a coherent cache.\<close>

lemma coherent_agrees: "coherent H c h \<Longrightarrow> cache_agrees H {h} c"
  by (auto simp: cache_agrees_def coherent_def ring_back_def split: if_splits dest!: last_in_set)

text \<open>The first look that ends the wait.\<close>

definition looks :: "'h \<Rightarrow> 'h polls \<Rightarrow> 'h list" where
  "looks h polls = h # map snd polls"

definition gives_up :: "'h agent_host \<Rightarrow> assert_spec \<Rightarrow> 'h \<Rightarrow> bool" where
  "gives_up H spec h = (tree_platform (fresh_tree H h) = Headless \<and>
     (case assert_tree (fresh_tree H h) spec of Inl e \<Rightarrow> is_in_viewport_unavailable e | Inr _ \<Rightarrow> False))"

lemma first_look:
  "(\<exists>k \<le> Suc n. P k \<and> (\<forall>j < k. Q j)) \<longleftrightarrow> P 0 \<or> Q 0 \<and> (\<exists>k \<le> n. P (Suc k) \<and> (\<forall>j < k. Q (Suc j)))" (is "?l = ?r")
proof
  assume ?l
  then obtain k where k: "k \<le> Suc n" "P k" "\<forall>j < k. Q j" by blast
  then show ?r by (cases k) auto
next
  assume ?r
  then show ?l
  proof
    assume "Q 0 \<and> (\<exists>k \<le> n. P (Suc k) \<and> (\<forall>j < k. Q (Suc j)))"
    then obtain k where "k \<le> n" "P (Suc k)" "\<forall>j < Suc k. Q j" by (auto simp: less_Suc_eq_0_disj)
    then show ?l by (intro exI [of _ "Suc k"]) simp
  qed auto
qed

lemma wait_until_assert_verdict:
  assumes "honest_run H hs" "counted H hs" "set (looks h polls) \<subseteq> hs" "cache_agrees H hs c"
  shows "(\<exists>resp. fst (wait_until_assert H h i spec ms polls c) = Returns resp \<and> rs_ok resp) \<longleftrightarrow>
     (\<exists>k \<le> length polls. assert_tree (fresh_tree H (looks h polls ! k)) spec = Inr () \<and>
        (\<forall>j < k. \<not> past_deadline ms (fst (polls ! j)) \<and> \<not> gives_up H spec (looks h polls ! j)))"
  using assms(3,4)
proof (induction polls arbitrary: h c)
  case Nil
  obtain tree c1 where snap: "cache_snapshot H h c = (tree, c1)" by fastforce
  have "tree = fresh_tree H h" using look_fresh [of h hs H c] Nil snap by (simp add: looks_def)
  then show ?case by (auto simp: wait_until_assert_unfold [OF snap] looks_def split: sum.split)
next
  case (Cons p polls)
  obtain now h' where p: "p = (now, h')" by (cases p)
  obtain tree c1 where snap: "cache_snapshot H h c = (tree, c1)" by fastforce
  have h: "h \<in> hs" "set (looks h' polls) \<subseteq> hs" using Cons.prems(1) p by (auto simp: looks_def)
  have tree: "tree = fresh_tree H h" using look_fresh [OF h(1) Cons.prems(2)] snap by simp
  have c1: "cache_agrees H hs c1" using look_agrees [OF assms(1) h(1) Cons.prems(2) assms(2)] snap by simp
  have shift: "looks h (p # polls) ! Suc k = looks h' polls ! k" for k by (simp add: looks_def p)
  have first: "(\<exists>resp. fst (wait_until_assert H h i spec ms (p # polls) c) = Returns resp \<and> rs_ok resp) \<longleftrightarrow>
     assert_tree (fresh_tree H h) spec = Inr () \<or> (\<not> past_deadline ms now \<and> \<not> gives_up H spec h) \<and>
       (\<exists>resp. fst (wait_until_assert H h' i spec ms polls c1) = Returns resp \<and> rs_ok resp)"
    by (auto simp: wait_until_assert_unfold [OF snap] p tree gives_up_def split: sum.split)
  show ?case
    unfolding first Cons.IH [OF h(2) c1] list.size add_Suc_right add_0_right first_look shift
    by (simp add: looks_def p)
qed

section \<open>The stale gate\<close>

lemma stale_gate_passes:
  "fst (stale_gate H h op c) = None \<longleftrightarrow>
     (case fingerprint_gate op of None \<Rightarrow> True
      | Some (t, fp) \<Rightarrow> fingerprint_of (fst (cache_snapshot H h c)) t = Some fp)"
  by (auto simp: stale_gate_def split: option.splits prod.splits)

lemma stale_gate_error:
  "fst (stale_gate H h op c) = Some e \<Longrightarrow> is_stale_dispatch_error e"
  by (auto simp: stale_gate_def is_stale_dispatch_error_def split: option.splits prod.splits if_splits)

lemma handle_op_gateable:
  "is_gateable op \<Longrightarrow> handle_op env H i op token polls h c = handle_other H i op h c"
  by (cases op) (simp_all add: handle_op_def)

lemma handle_other_effect:
  "snd (snd (handle_other H i op h c)) =
     (if fst (stale_gate H h op c) = None then snd (ah_dispatch H op h) else h)"
  by (auto simp: handle_other_def dispatch_respond_def split: prod.splits option.splits)

section \<open>Operations that only read\<close>

fun reads_only :: "op \<Rightarrow> bool" where
  "reads_only (OpClick _ _ _) = False"
| "reads_only (OpType _ _ _ _) = False"
| "reads_only (OpSetValue _ _ _) = False"
| "reads_only (OpKey _ _ _ _) = False"
| "reads_only (OpKeybinding _ _ _ _ _) = False"
| "reads_only (OpInvoke _ _) = False"
| "reads_only OpShutdown = False"
| "reads_only _ = True"

lemma handle_op_reads:
  "reads_only op \<Longrightarrow> quiet h polls \<Longrightarrow> snd (snd (handle_op env H i op token polls h c)) = h"
  by (cases op)
    (auto simp: handle_op_def Let_def case_prod_unfold wait_until_assert_quiet wait_until_ready_quiet
       split: option.splits sum.splits)

lemma handle_op_keybinding:
  "snd (snd (handle_op env H i (OpKeybinding b ch sc cf ac) token polls h c)) =
     (if is_ok (authorize_keybinding_op (OpKeybinding b ch sc cf ac) (ah_keybindings H h)
           (ah_is_app_focused H h))
      then snd (ah_dispatch H (OpKeybinding b ch sc cf ac) h) else h)"
  by (auto simp: handle_op_def dispatch_respond_def is_ok_def split: sum.splits prod.splits)

lemma handle_op_keybinding_answer:
  "fst (handle_op env H i (OpKeybinding b ch sc cf ac) token polls h c) =
     (case authorize_keybinding_op (OpKeybinding b ch sc cf ac) (ah_keybindings H h) (ah_is_app_focused H h) of
        Inl e \<Rightarrow> Returns (response_err i e)
      | Inr _ \<Rightarrow> Returns (respond i (fst (ah_dispatch H (OpKeybinding b ch sc cf ac) h))))"
  by (auto simp: handle_op_def dispatch_respond_def split: sum.splits prod.splits)

text \<open>What the handler does to the host is at most one dispatch of the request's operation.\<close>

lemma handle_op_host:
  assumes "quiet h polls"
  shows "snd (snd (handle_op env H i op token polls h c)) \<in> {h, snd (ah_dispatch H op h)}"
proof (cases "reads_only op")
  case True
  then show ?thesis using assms by (simp add: handle_op_reads)
next
  case False
  then show ?thesis
    by (cases op)
      (auto simp: handle_op_gateable handle_other_effect handle_op_keybinding,
       auto simp: handle_op_def handle_other_effect dispatch_respond_def split: prod.splits)
qed

lemma handle_request_cached_host:
  "quiet h polls \<Longrightarrow> snd (snd (handle_request_cached env H req token nonce polls h c))
     \<in> {h, snd (ah_dispatch H (req_op req) h)}"
  using handle_op_host [of h polls env H "req_id req" "req_op req" token c]
  by (auto simp: handle_request_cached_def split: sum.splits)

section \<open>The cache is not observable\<close>

text \<open>All operations but \<open>snapshot\<close> with \<open>since\<close>, whose answer is about past revisions.\<close>

fun uses_history :: "op \<Rightarrow> bool" where
  "uses_history (OpSnapshot (Some _) _ _) = True"
| "uses_history _ = False"

lemma snapshot_response_fst:
  assumes "fst (cache_snapshot H h c) = fst (cache_snapshot H h c')"
  shows "fst (snapshot_response H h c i None fmt fps) = fst (snapshot_response H h c' i None fmt fps)"
  using assms by (auto simp: snapshot_response_def Let_def case_prod_unfold)

lemma wait_until_assert_fst:
  assumes "fst (cache_snapshot H h c) = fst (cache_snapshot H h c')" "quiet h polls"
  shows "fst (wait_until_assert H h i spec ms polls c) = fst (wait_until_assert H h i spec ms polls c')"
  using assms
proof (induction polls arbitrary: c c')
  case Nil
  obtain tree c1 c1' where snap: "cache_snapshot H h c = (tree, c1)" "cache_snapshot H h c' = (tree, c1')"
    using Nil by (metis prod.collapse)
  show ?case
    by (auto simp: wait_until_assert_unfold [OF snap(1)] wait_until_assert_unfold [OF snap(2)]
        split: sum.splits)
next
  case (Cons p polls)
  obtain now where p: "p = (now, h)" "quiet h polls" using Cons.prems(2) by (cases p) simp
  obtain tree c1 c1' where snap: "cache_snapshot H h c = (tree, c1)" "cache_snapshot H h c' = (tree, c1')"
    using Cons.prems(1) by (metis prod.collapse)
  have "fst (cache_snapshot H h c1) = fst (cache_snapshot H h c1')"
    using cache_snapshot_again [of H h c] cache_snapshot_again [of H h c'] snap by simp
  from Cons.IH [OF this p(2)] show ?case
    by (auto simp: p(1) wait_until_assert_unfold [OF snap(1)] wait_until_assert_unfold [OF snap(2)]
        split: sum.splits)
qed

lemma stale_gate_fst:
  "fst (cache_snapshot H h c) = fst (cache_snapshot H h c') \<Longrightarrow>
     fst (stale_gate H h op c) = fst (stale_gate H h op c')"
  by (auto simp: stale_gate_def split: option.splits prod.splits)

lemma handle_other_same:
  assumes "fst (cache_snapshot H h c) = fst (cache_snapshot H h c')"
  shows "fst (handle_other H i op h c) = fst (handle_other H i op h c')"
    "snd (snd (handle_other H i op h c)) = snd (snd (handle_other H i op h c'))"
  using stale_gate_fst [OF assms, of op]
  by (auto simp: handle_other_def dispatch_respond_def split: prod.splits option.splits)

lemma handle_op_same:
  assumes "fst (cache_snapshot H h c) = fst (cache_snapshot H h c')" "\<not> uses_history op" "quiet h polls"
  shows "fst (handle_op env H i op token polls h c) = fst (handle_op env H i op token polls h c') \<and>
    snd (snd (handle_op env H i op token polls h c)) = snd (snd (handle_op env H i op token polls h c'))"
proof (cases op)
  case (OpSnapshot since fmt fps)
  then have "since = None" using assms(2) by (cases since) auto
  then show ?thesis using OpSnapshot snapshot_response_fst [OF assms(1)]
    by (auto simp: handle_op_def case_prod_unfold)
next
  case (OpWaitUntil ms spec)
  then show ?thesis using wait_until_assert_fst [OF assms(1,3)] wait_until_assert_quiet [OF assms(3)]
    by (auto simp: handle_op_def case_prod_unfold)
qed (use assms(1) handle_other_same [OF assms(1)] in
    \<open>auto simp: handle_op_def dispatch_respond_def Let_def case_prod_unfold
       split: sum.splits option.splits\<close>)

context revision_contract
begin

text \<open>A session with a coherent cache answers as a session with none, and stays coherent.\<close>

lemma cached_answers_fresh:
  assumes "coherent H c h" "\<not> uses_history (req_op req)" "quiet h polls"
  shows "fst (handle_request_cached env H req token nonce polls h c) =
      fst (handle_request env H req token nonce polls h)"
    "snd (snd (handle_request_cached env H req token nonce polls h c)) =
      snd (handle_request env H req token nonce polls h)"
proof -
  have "fst (cache_snapshot H h c) = fst (cache_snapshot H h cache_new)"
    using cached_is_fresh [OF assms(1)] cached_is_fresh [OF coherent_new] by simp
  note same = handle_op_same [OF this assms(2,3), of env "req_id req" token]
  show "fst (handle_request_cached env H req token nonce polls h c) =
      fst (handle_request env H req token nonce polls h)"
    "snd (snd (handle_request_cached env H req token nonce polls h c)) =
      snd (handle_request env H req token nonce polls h)"
    using same by (auto simp: handle_request_cached_def handle_request_def case_prod_unfold
        split: sum.splits)
qed

lemma coherent_wait:
  "coherent H c h \<Longrightarrow> quiet h polls \<Longrightarrow> coherent H (fst (snd (wait_until_assert H h i spec ms polls c))) h"
proof (induction polls arbitrary: c)
  case Nil
  obtain tree c1 where snap: "cache_snapshot H h c = (tree, c1)" by fastforce
  show ?case using coherent_snapshot [OF Nil(1)] snap
    by (auto simp: wait_until_assert_unfold [OF snap] split: sum.split)
next
  case (Cons p polls)
  obtain now where p: "p = (now, h)" "quiet h polls" using Cons.prems(2) by (cases p) simp
  obtain tree c1 where snap: "cache_snapshot H h c = (tree, c1)" by fastforce
  show ?case using coherent_snapshot [OF Cons.prems(1)] snap Cons.IH [of c1] p(2)
    by (auto simp: p(1) wait_until_assert_unfold [OF snap] split: sum.split)
qed

lemma coherent_gate:
  "coherent H c h \<Longrightarrow> coherent H (snd (stale_gate H h op c)) h"
  using coherent_snapshot by (auto simp: stale_gate_def case_prod_unfold split: option.split)

lemma coherent_cache_after:
  assumes "coherent H c h" "quiet h polls"
  shows "coherent H (fst (snd (handle_op env H i op token polls h c))) h"
proof -
  have snap: "coherent H (snd (cache_snapshot H h c)) h" using assms(1) by (rule coherent_snapshot)
  have resp: "coherent H (snd (snapshot_response H h c i since fmt fps)) h" for since fmt fps
    using snap by (auto simp: snapshot_response_def Let_def case_prod_unfold)
  have other: "coherent H (fst (snd (handle_other H i op h c))) h" for op
    using coherent_gate [OF assms(1)]
    by (auto simp: handle_other_def dispatch_respond_def case_prod_unfold split: option.split)
  show ?thesis
    by (cases op) (use assms(1) snap resp other coherent_wait [OF assms] in
      \<open>auto simp: handle_op_def dispatch_respond_def Let_def case_prod_unfold
         split: sum.splits option.splits\<close>)
qed

lemma coherent_request:
  assumes "coherent H c h" "room h" "allowed (req_op req)" "quiet h polls"
  shows "case handle_request_cached env H req token nonce polls h c of (_, c', h') \<Rightarrow> coherent H c' h'"
proof -
  let ?r = "handle_request_cached env H req token nonce polls h c"
  have "coherent H (fst (snd ?r)) h"
    using assms(1) coherent_cache_after [OF assms(1,4)]
    by (auto simp: handle_request_cached_def split: sum.split)
  then have "coherent H (fst (snd ?r)) (snd (snd ?r))"
    using handle_request_cached_host [OF assms(4), of env H req token nonce c]
      coherent_dispatch [OF _ assms(2,3)] by auto
  then show ?thesis by (simp add: case_prod_unfold)
qed

end

end
