(* ===== verification/Server.thy ===== *)
theory Server
  imports Dispatch_Laws
begin

text \<open>
  \<open>ndjson.rs\<close>, \<open>mailbox.rs\<close> and \<open>server.rs\<close>: the framing of requests, the mailbox between the
  TCP threads and the UI thread, one connection's loop, and the server as a step relation
  over the interleaving of its connections.  \<open>serde_json::from_slice\<close> is the argument
  \<open>parse\<close>; the socket is the list of results that its reads give.
\<close>

section \<open>Lines\<close>

definition MAX_LINE_BYTES :: nat where "MAX_LINE_BYTES = 1024 * 1024"
definition MAX_CONNECTIONS :: nat where "MAX_CONNECTIONS = 32"
definition IDLE_TIMEOUT_SECS :: nat where "IDLE_TIMEOUT_SECS = 30"

text \<open>\<open>u8::is_ascii_whitespace\<close>: space, tab, line feed, form feed, carriage return.\<close>

definition is_ascii_whitespace :: "char \<Rightarrow> bool" where
  "is_ascii_whitespace c = (c \<in> {CHR 0x20, CHR 0x09, CHR 0x0A, CHR 0x0C, CHR 0x0D})"

definition line_is_blank :: "string \<Rightarrow> bool" where
  "line_is_blank buf = list_all is_ascii_whitespace buf"

definition in_range :: "nat \<Rightarrow> nat \<Rightarrow> char \<Rightarrow> bool" where
  "in_range lo hi c = (let n = of_char c :: nat in lo \<le> n \<and> n \<le> hi)"

text \<open>\<open>std::str::from_utf8(..).is_ok()\<close>: well-formed UTF-8 (Unicode, table 3-7).\<close>

function utf8_ok :: "string \<Rightarrow> bool" where
  "utf8_ok [] = True"
| "utf8_ok (a # s) =
     (if in_range 0 0x7F a then utf8_ok s
      else if in_range 0xC2 0xDF a then
        (case s of b # s' \<Rightarrow> is_cont b \<and> utf8_ok s' | _ \<Rightarrow> False)
      else if in_range 0xE0 0xEF a then
        (case s of b # c # s' \<Rightarrow>
           (if in_range 0xE0 0xE0 a then in_range 0xA0 0xBF b
            else if in_range 0xED 0xED a then in_range 0x80 0x9F b else is_cont b)
           \<and> is_cont c \<and> utf8_ok s'
         | _ \<Rightarrow> False)
      else if in_range 0xF0 0xF4 a then
        (case s of b # c # d # s' \<Rightarrow>
           (if in_range 0xF0 0xF0 a then in_range 0x90 0xBF b
            else if in_range 0xF4 0xF4 a then in_range 0x80 0x8F b else is_cont b)
           \<and> is_cont c \<and> is_cont d \<and> utf8_ok s'
         | _ \<Rightarrow> False)
      else False)"
  by pat_completeness auto
termination by (relation "measure length") auto

datatype read_result = ReadLine string | ReadEof | ReadInvalid string | ReadError

text \<open>\<open>read_until(b'\n')\<close> on the first \<open>n\<close> bytes: what is read and what remains.\<close>

fun read_until_nl :: "nat \<Rightarrow> string \<Rightarrow> string \<times> string" where
  "read_until_nl 0 s = ([], s)"
| "read_until_nl (Suc n) [] = ([], [])"
| "read_until_nl (Suc n) (c # s) =
     (if c = CHR 0x0A then ([c], s)
      else case read_until_nl n s of (line, rest) \<Rightarrow> (c # line, rest))"

definition strip_newline :: "string \<Rightarrow> string" where
  "strip_newline buf =
     (if buf \<noteq> [] \<and> last buf = CHR 0x0A then
        let buf = butlast buf in
        if buf \<noteq> [] \<and> last buf = CHR 0x0D then butlast buf else buf
      else buf)"

definition read_limited_line_into :: "nat \<Rightarrow> string \<Rightarrow> read_result \<times> string" where
  "read_limited_line_into max_bytes input =
     (case read_until_nl (max_bytes + 1) input of (buf, rest) \<Rightarrow>
      (if buf = [] then ReadEof
       else if max_bytes < length buf then ReadInvalid ''line too long''
       else if \<not> utf8_ok (strip_newline buf) then ReadInvalid ''line is not valid UTF-8''
       else ReadLine (strip_newline buf), rest))"

text \<open>\<open>write_json_line\<close>: the serialized value and the newline, as one write.\<close>

definition write_json_line :: "('v \<Rightarrow> string) \<Rightarrow> 'v \<Rightarrow> string" where
  "write_json_line to_string v = to_string v @ [CHR 0x0A]"

section \<open>Mailbox\<close>

definition MAX_MAILBOX_DEPTH :: nat where "MAX_MAILBOX_DEPTH = 128"

text \<open>A queued request with the number of the channel its reply goes to.\<close>

record mailbox =
  mb_queue :: "(request \<times> nat) list"
  mb_next :: nat

definition mailbox_new :: mailbox where
  "mailbox_new = \<lparr>mb_queue = [], mb_next = 0\<rparr>"

text \<open>\<open>push\<close>: the channel, the reply already sent on it, and the mailbox.\<close>

definition mailbox_push :: "request \<Rightarrow> mailbox \<Rightarrow> nat \<times> response option \<times> mailbox" where
  "mailbox_push req m =
     (let ch = mb_next m; m = m\<lparr>mb_next := mb_next m + 1\<rparr> in
      if MAX_MAILBOX_DEPTH \<le> length (mb_queue m) then
        (ch, Some (response_err (req_id req) ''mailbox full (UI thread not draining)''), m)
      else (ch, None, m\<lparr>mb_queue := mb_queue m @ [(req, ch)]\<rparr>))"

definition mailbox_take :: "mailbox \<Rightarrow> (request \<times> nat) list \<times> mailbox" where
  "mailbox_take m = (mb_queue m, m\<lparr>mb_queue := []\<rparr>)"

text \<open>\<open>wait\<close>, given what arrives on the channel before the timeout.\<close>

definition mailbox_wait :: "request \<Rightarrow> response option \<Rightarrow> mailbox \<Rightarrow> response result \<times> mailbox" where
  "mailbox_wait req arrives m =
     (case mailbox_push req m of (ch, sent, m) \<Rightarrow>
       (case opt_or sent arrives of
          Some resp \<Rightarrow> Inr resp
        | None \<Rightarrow> Inl ''timed out waiting for the UI thread to drain the agent mailbox'', m))"

definition mailbox_len :: "mailbox \<Rightarrow> nat" where
  "mailbox_len m = length (mb_queue m)"

interpretation mailbox_buffer: bounded_buffer mb_queue "\<lambda>_. MAX_MAILBOX_DEPTH"
  "\<lambda>req m. snd (snd (mailbox_push req m))"
  by unfold_locales (simp_all add: mailbox_push_def Let_def)

section \<open>Waiting through the mailbox\<close>

text \<open>What one iteration meets: the answers to its two requests and the clock after them.\<close>

record poll_env =
  pe_probe :: "response result"
  pe_assert :: "response result"
  pe_now :: nat

definition timed_out :: "string \<Rightarrow> response" where
  "timed_out ident = response_err ident ''wait_until timed out''"

fun wait_until_polls ::
    "string \<Rightarrow> u64 \<Rightarrow> u64 option option \<Rightarrow> poll_env list \<Rightarrow> response outcome" where
  "wait_until_polls ident timeout_ms checked_rev [] = Waiting"
| "wait_until_polls ident timeout_ms checked_rev (p # ps) =
     (let r = (case pe_probe p of Inr resp \<Rightarrow> rs_rev resp | Inl _ \<Rightarrow> None) in
      if r \<noteq> None \<and> checked_rev = Some r then
        (if past_deadline timeout_ms (pe_now p) then Returns (timed_out ident)
         else wait_until_polls ident timeout_ms checked_rev ps)
      else
        (case pe_assert p of
           Inl err \<Rightarrow> Returns (response_err ident err)
         | Inr resp \<Rightarrow>
             if rs_ok resp then Returns resp
             else
               let checked_rev = (if r \<noteq> None then Some r else checked_rev);
                   last_err = (case rs_error resp of Some e \<Rightarrow> e | None \<Rightarrow> ''assert failed'')
               in if is_in_viewport_unavailable last_err \<and> str_contains last_err ''headless'' then
                    Returns (response_err ident last_err)
                  else if past_deadline timeout_ms (pe_now p) then
                    Returns (response_err ident (''wait_until timed out: '' @ last_err))
                  else wait_until_polls ident timeout_ms checked_rev ps))"

definition wait_until_via_mailbox :: "request \<Rightarrow> poll_env list \<Rightarrow> response outcome" where
  "wait_until_via_mailbox req polls =
     (case req_op req of
        OpWaitUntil timeout_ms spec \<Rightarrow> wait_until_polls (req_id req) timeout_ms None polls
      | _ \<Rightarrow> Returns (response_err (req_id req) ''wait_until_via_mailbox requires op wait_until''))"

section \<open>One request line\<close>

datatype line_end = Keep | Break | BreakShutdown | DieLocked

record server_config =
  sc_token :: "string option"
  sc_max_line_bytes :: nat
  sc_max_connections :: nat

definition default_limits :: "string option \<Rightarrow> server_config" where
  "default_limits token = \<lparr>sc_token = token, sc_max_line_bytes = MAX_LINE_BYTES,
     sc_max_connections = MAX_CONNECTIONS\<rparr>"

definition ends_server :: "op \<Rightarrow> bool \<Rightarrow> bool" where
  "ends_server op answered_ok = (op = OpShutdown \<or> op_is_confirmed_quit op \<and> answered_ok)"

text \<open>
  One turn of the loop of \<open>handle_stream_host\<close>: the response written, how the loop goes on,
  and the cache and host after it.  A panic happens while the host's mutex is held.
  \<open>None\<close>: the handler has not returned within the clock readings.  The mutex of this machine guards
  the whole state of its host, as \<open>TodoStore\<close>, so the host is steady while a handler holds it.
\<close>

definition serve_request ::
    "dispatch_env \<Rightarrow> 'h agent_host \<Rightarrow> server_config \<Rightarrow> string option \<Rightarrow> nat list \<Rightarrow> request \<Rightarrow>
       tree_cache \<Rightarrow> 'h \<Rightarrow> (response option \<times> line_end \<times> tree_cache \<times> 'h) option" where
  "serve_request env H cfg nonce clock req c h =
     (case authorize_request (de_hmac env) req (sc_token cfg) nonce of
        Inl resp \<Rightarrow> Some (Some resp, Break, c, h)
      | Inr _ \<Rightarrow>
          (case handle_request_cached env H req (sc_token cfg) nonce (steady h clock) h c of
             (Returns resp, c, h) \<Rightarrow>
               Some (Some resp, if ends_server (req_op req) (rs_ok resp) then BreakShutdown else Keep, c, h)
           | (Panics, c, h) \<Rightarrow> Some (None, DieLocked, c, h)
           | (Waiting, c, h) \<Rightarrow> None))"

definition serve_read ::
    "dispatch_env \<Rightarrow> 'h agent_host \<Rightarrow> server_config \<Rightarrow> (string \<Rightarrow> request result) \<Rightarrow> string option \<Rightarrow>
       nat list \<Rightarrow> read_result \<Rightarrow> tree_cache \<Rightarrow> 'h \<Rightarrow>
       (response option \<times> line_end \<times> tree_cache \<times> 'h) option" where
  "serve_read env H cfg parse nonce clock r c h =
     (case r of
        ReadEof \<Rightarrow> Some (None, Break, c, h)
      | ReadError \<Rightarrow> Some (None, Break, c, h)
      | ReadInvalid err \<Rightarrow> Some (Some (response_err ''?'' (''bad request: '' @ err)), Break, c, h)
      | ReadLine line \<Rightarrow>
          if line_is_blank line then Some (None, Keep, c, h)
          else (case parse line of
             Inl err \<Rightarrow> Some (Some (response_err ''?'' (''bad json: '' @ err)), Break, c, h)
           | Inr req \<Rightarrow> serve_request env H cfg nonce clock req c h))"

section \<open>The server\<close>

record session =
  sn_nonce :: "string option"
  sn_cache :: tree_cache
  sn_out :: "response list"

record 'h server =
  sv_host :: 'h
  sv_poisoned :: bool  \<comment> \<open>the mutex of the host\<close>
  sv_sessions :: "nat \<rightharpoonup> session"
  sv_inflight :: nat
  sv_shutdown :: bool

definition server_new :: "'h \<Rightarrow> 'h server" where
  "server_new h = \<lparr>sv_host = h, sv_poisoned = False, sv_sessions = Map.empty, sv_inflight = 0,
     sv_shutdown = False\<rparr>"

definition claim_connection :: "nat \<Rightarrow> nat \<Rightarrow> bool \<times> nat" where
  "claim_connection inflight max_conn =
     (let prev = inflight; inflight = inflight + 1 in
      if max_conn \<le> prev then (False, inflight - 1) else (True, inflight))"

text \<open>\<open>Drop for InflightGuard\<close>: the thread of a connection ends, however it ends.\<close>

definition end_session :: "nat \<Rightarrow> 'h server \<Rightarrow> 'h server" where
  "end_session sid sv = sv\<lparr>sv_sessions := (sv_sessions sv)(sid := None),
     sv_inflight := sv_inflight sv - 1\<rparr>"

definition set_session :: "nat \<Rightarrow> session \<Rightarrow> 'h server \<Rightarrow> 'h server" where
  "set_session sid sn sv = sv\<lparr>sv_sessions := (sv_sessions sv)(sid \<mapsto> sn)\<rparr>"

text \<open>\<open>begin_session\<close>: a nonce is drawn and its challenge written only when a token is set.\<close>

definition session_nonce :: "server_config \<Rightarrow> string \<Rightarrow> string option" where
  "session_nonce cfg nonce = (if sc_token cfg = None then None else Some nonce)"

definition new_session :: "server_config \<Rightarrow> string \<Rightarrow> session" where
  "new_session cfg nonce = \<lparr>sn_nonce = session_nonce cfg nonce, sn_cache = cache_new, sn_out = []\<rparr>"

definition write_out :: "response option \<Rightarrow> session \<Rightarrow> session" where
  "write_out resp sn = sn\<lparr>sn_out := sn_out sn @ (case resp of None \<Rightarrow> [] | Some r \<Rightarrow> [r])\<rparr>"

text \<open>What a finished turn of a connection does to the server.\<close>

definition finish_turn ::
    "nat \<Rightarrow> session \<Rightarrow> response option \<times> line_end \<times> tree_cache \<times> 'h \<Rightarrow> 'h server \<Rightarrow> 'h server" where
  "finish_turn sid sn turn sv =
     (case turn of (resp, ending, c, h) \<Rightarrow>
       let sv = (set_session sid (write_out resp (sn\<lparr>sn_cache := c\<rparr>)) sv)\<lparr>sv_host := h\<rparr>
       in case ending of
            Keep \<Rightarrow> sv
          | Break \<Rightarrow> end_session sid sv
          | BreakShutdown \<Rightarrow> end_session sid (sv\<lparr>sv_shutdown := True\<rparr>)
          | DieLocked \<Rightarrow> end_session sid (sv\<lparr>sv_poisoned := True\<rparr>))"

text \<open>A line that reaches \<open>host.lock().expect("host")\<close>.\<close>

definition reaches_lock :: "dispatch_env \<Rightarrow> server_config \<Rightarrow> (string \<Rightarrow> request result) \<Rightarrow> session \<Rightarrow>
    read_result \<Rightarrow> bool" where
  "reaches_lock env cfg parse sn r =
     (case r of ReadLine line \<Rightarrow> \<not> line_is_blank line \<and>
        (case parse line of
           Inr req \<Rightarrow> authorize_request (de_hmac env) req (sc_token cfg) (sn_nonce sn) = Inr ()
         | Inl _ \<Rightarrow> False)
      | _ \<Rightarrow> False)"

inductive server_step ::
    "dispatch_env \<Rightarrow> 'h agent_host \<Rightarrow> server_config \<Rightarrow> (string \<Rightarrow> request result) \<Rightarrow>
       'h server \<Rightarrow> 'h server \<Rightarrow> bool"
  for env H cfg parse where
  accept: "\<lbrakk>\<not> sv_shutdown sv; claim_connection (sv_inflight sv) (sc_max_connections cfg) = (True, n);
      sv_sessions sv sid = None; length nonce = NONCE_LEN\<rbrakk> \<Longrightarrow>
    server_step env H cfg parse sv
      (set_session sid (new_session cfg nonce) (sv\<lparr>sv_inflight := n\<rparr>))"
| refuse: "\<lbrakk>\<not> sv_shutdown sv; claim_connection (sv_inflight sv) (sc_max_connections cfg) = (False, n)\<rbrakk> \<Longrightarrow>
    server_step env H cfg parse sv (sv\<lparr>sv_inflight := n\<rparr>)"
| turn: "\<lbrakk>sv_sessions sv sid = Some sn;
      \<not> (sv_poisoned sv \<and> reaches_lock env cfg parse sn r);
      serve_read env H cfg parse (sn_nonce sn) clock r (sn_cache sn) (sv_host sv) = Some t\<rbrakk> \<Longrightarrow>
    server_step env H cfg parse sv (finish_turn sid sn t sv)"
| poisoned: "\<lbrakk>sv_sessions sv sid = Some sn; sv_poisoned sv; reaches_lock env cfg parse sn r\<rbrakk> \<Longrightarrow>
    server_step env H cfg parse sv (end_session sid sv)"
| drop: "sv_sessions sv sid = Some sn \<Longrightarrow> server_step env H cfg parse sv (end_session sid sv)"
    \<comment> \<open>the thread ends before its next turn, e.g. its challenge cannot be written\<close>

inductive_cases server_stepE: "server_step env H cfg parse sv sv'"

abbreviation server_reach where
  "server_reach env H cfg parse \<equiv> (server_step env H cfg parse)\<^sup>*\<^sup>*"

end
