(* ===== verification/Server_Laws.thy ===== *)
theory Server_Laws
  imports Server
begin

text \<open>
  Laws of the server: framing, the equivalence of the revision-probing wait with the plain
  one, and the invariants of the connection machine.
\<close>

section \<open>Framing\<close>

lemma read_until_nl_line:
  "CHR 0x0A \<notin> set line \<Longrightarrow> length line < n \<Longrightarrow>
     read_until_nl n (line @ CHR 0x0A # rest) = (line @ [CHR 0x0A], rest)"
proof (induction line arbitrary: n)
  case Nil
  then show ?case by (cases n) simp_all
next
  case (Cons c line)
  then show ?case by (cases n) auto
qed

lemma read_until_nl_long:
  "CHR 0x0A \<notin> set (take n s) \<Longrightarrow> n \<le> length s \<Longrightarrow> read_until_nl n s = (take n s, drop n s)"
  by (induction n s rule: read_until_nl.induct) auto

lemma read_until_nl_split: "read_until_nl n s = (line, rest) \<Longrightarrow> s = line @ rest \<and> length line \<le> n"
  by (induction n s arbitrary: line rest rule: read_until_nl.induct) (auto split: if_splits prod.splits)

lemma read_line:
  assumes "CHR 0x0A \<notin> set line" "length line < max_bytes" "utf8_ok line"
    "line \<noteq> [] \<longrightarrow> last line \<noteq> CHR 0x0D"
  shows "read_limited_line_into max_bytes (line @ CHR 0x0A # rest) = (ReadLine line, rest)"
proof -
  have "strip_newline (line @ [CHR 0x0A]) = line" using assms(4) by (auto simp: strip_newline_def)
  moreover have "read_until_nl (max_bytes + 1) (line @ CHR 0x0A # rest) = (line @ [CHR 0x0A], rest)"
    using assms(1,2) by (intro read_until_nl_line) simp_all
  ultimately show ?thesis using assms(2,3) by (simp add: read_limited_line_into_def)
qed

lemma read_line_at_cap:
  assumes "CHR 0x0A \<notin> set line" "length line = max_bytes"
  shows "read_limited_line_into max_bytes (line @ CHR 0x0A # rest) = (ReadInvalid ''line too long'', rest)"
  using read_until_nl_line [OF assms(1), of "max_bytes + 1"] assms(2)
  by (simp add: read_limited_line_into_def)

lemma read_bounded:
  assumes "read_limited_line_into max_bytes s = (r, rest)"
  shows "\<exists>used. s = used @ rest \<and> length used \<le> max_bytes + 1 \<and>
     (case r of ReadLine line \<Rightarrow> length line \<le> max_bytes \<and> utf8_ok line | _ \<Rightarrow> True)"
proof -
  obtain buf where buf: "read_until_nl (max_bytes + 1) s = (buf, rest)"
    using assms by (auto simp: read_limited_line_into_def split: prod.splits)
  have "length (strip_newline buf) \<le> length buf" by (auto simp: strip_newline_def Let_def)
  then show ?thesis using read_until_nl_split [OF buf] assms buf
    by (auto simp: read_limited_line_into_def split: if_splits)
qed

section \<open>Waiting\<close>

definition outcome_ok :: "response outcome \<Rightarrow> bool outcome" where
  "outcome_ok r = (case r of Returns resp \<Rightarrow> Returns (rs_ok resp) | Panics \<Rightarrow> Panics | Waiting \<Rightarrow> Waiting)"

lemma outcome_ok_simps [simp]:
  "outcome_ok (Returns r) = Returns (rs_ok r)" "outcome_ok Waiting = Waiting" "outcome_ok Panics = Panics"
  by (simp_all add: outcome_ok_def)

text \<open>The iterations over the states of a host, each with the clock after it.\<close>

definition assert_response :: "'h agent_host \<Rightarrow> string \<Rightarrow> assert_spec \<Rightarrow> 'h \<Rightarrow> response" where
  "assert_response H i spec h = (case assert_tree (fresh_tree H h) spec of
     Inr _ \<Rightarrow> response_ok i | Inl e \<Rightarrow> response_err i e)"

definition poll_of :: "'h agent_host \<Rightarrow> string \<Rightarrow> assert_spec \<Rightarrow> 'h \<times> nat \<Rightarrow> poll_env" where
  "poll_of H i spec p = \<lparr>pe_probe = Inr ((response_ok i)\<lparr>rs_rev := ah_revision H (fst p)\<rparr>),
     pe_assert = Inr (assert_response H i spec (fst p)), pe_now = snd p\<rparr>"

lemma poll_of_simps [simp]:
  "pe_probe (poll_of H i spec p) = Inr ((response_ok i)\<lparr>rs_rev := ah_revision H (fst p)\<rparr>)"
  "pe_assert (poll_of H i spec p) = Inr (assert_response H i spec (fst p))"
  "pe_now (poll_of H i spec p) = snd p"
  by (simp_all add: poll_of_def)

text \<open>The loop without the probe: every iteration asserts.\<close>

fun plain_wait :: "'h agent_host \<Rightarrow> string \<Rightarrow> assert_spec \<Rightarrow> u64 \<Rightarrow> ('h \<times> nat) list \<Rightarrow> response outcome" where
  "plain_wait H i spec ms [] = Waiting"
| "plain_wait H i spec ms ((h, now) # ps) =
     (case assert_tree (fresh_tree H h) spec of
        Inr _ \<Rightarrow> Returns (response_ok i)
      | Inl e \<Rightarrow>
          if is_in_viewport_unavailable e \<and> str_contains e ''headless'' then Returns (response_err i e)
          else if past_deadline ms now then Returns (response_err i (''wait_until timed out: '' @ e))
          else plain_wait H i spec ms ps)"

lemma honest_runD:
  "honest_run H hs \<Longrightarrow> h \<in> hs \<Longrightarrow> h' \<in> hs \<Longrightarrow> ah_revision H h \<noteq> None \<Longrightarrow>
     ah_revision H h = ah_revision H h' \<Longrightarrow> fresh_tree H h = fresh_tree H h'"
  unfolding honest_run_def by blast

lemma honest_run_mono: "honest_run H hs \<Longrightarrow> hs' \<subseteq> hs \<Longrightarrow> honest_run H hs'"
  unfolding honest_run_def by blast

lemma wait_until_polls_plain:
  assumes "honest_run H (insert h0 (fst ` set ps))"
    and "checked = None \<or> (checked = Some (ah_revision H h0) \<and>
      (\<exists>e. assert_tree (fresh_tree H h0) spec = Inl e \<and>
           \<not> (is_in_viewport_unavailable e \<and> str_contains e ''headless'')))"
  shows "outcome_ok (wait_until_polls i ms checked (map (poll_of H i spec) ps))
    = outcome_ok (plain_wait H i spec ms ps)"
  using assms
proof (induction ps arbitrary: h0 checked)
  case (Cons p ps)
  obtain h now where p: "p = (h, now)" by (cases p)
  have run: "honest_run H (insert h0 (fst ` set ps))" "honest_run H (insert h (fst ` set ps))"
    by (rule honest_run_mono [OF Cons.prems(1)]; auto simp: p)+
  show ?case
  proof (cases "ah_revision H h \<noteq> None \<and> checked = Some (ah_revision H h)")
    case True
    then have "fresh_tree H h = fresh_tree H h0"
      using Cons.prems(2) by (intro honest_runD [OF Cons.prems(1)]) (auto simp: p)
    then obtain e where e: "assert_tree (fresh_tree H h) spec = Inl e"
      "\<not> (is_in_viewport_unavailable e \<and> str_contains e ''headless'')"
      using Cons.prems(2) True by auto
    then show ?thesis using True Cons.IH [OF run(1) Cons.prems(2)]
      by (auto simp: p timed_out_def)
  next
    case False
    show ?thesis
    proof (cases "assert_tree (fresh_tree H h) spec")
      case (Inr u)
      then show ?thesis using False by (auto simp: p assert_response_def Let_def)
    next
      case (Inl e)
      have "outcome_ok (wait_until_polls i ms (if ah_revision H h \<noteq> None then Some (ah_revision H h) else checked)
            (map (poll_of H i spec) ps)) = outcome_ok (plain_wait H i spec ms ps)"
        if "\<not> (is_in_viewport_unavailable e \<and> str_contains e ''headless'')"
        using Cons.IH [OF run(2), of "Some (ah_revision H h)"] Cons.IH [OF run(1) Cons.prems(2)] Inl that
        by simp
      then show ?thesis using False Inl
        by (auto simp: p assert_response_def Let_def)
    qed
  qed
qed simp

section \<open>Connections\<close>

definition server_ok :: "server_config \<Rightarrow> 'h server \<Rightarrow> bool" where
  "server_ok cfg sv = (finite (dom (sv_sessions sv)) \<and> card (dom (sv_sessions sv)) = sv_inflight sv \<and>
     sv_inflight sv \<le> sc_max_connections cfg)"

lemma claim_connection_iff:
  "claim_connection n m = (True, k) \<longleftrightarrow> n < m \<and> k = n + 1"
  "claim_connection n m = (False, k) \<longleftrightarrow> m \<le> n \<and> k = n"
  by (auto simp: claim_connection_def Let_def)

lemma server_ok_new: "server_ok cfg (server_new h)"
  by (simp add: server_ok_def server_new_def)

lemma end_session_ok:
  assumes "server_ok cfg sv" "sv_sessions sv sid \<noteq> None"
  shows "server_ok cfg (end_session sid sv)"
proof -
  have sid: "sid \<in> dom (sv_sessions sv)" using assms(2) by auto
  then have "card (dom (sv_sessions sv) - {sid}) = sv_inflight sv - 1"
    using assms(1) by (simp add: server_ok_def)
  then show ?thesis using assms(1) by (auto simp: server_ok_def end_session_def)
qed

lemma server_ok_cong:
  "sv_sessions sv = sv_sessions sv' \<Longrightarrow> sv_inflight sv = sv_inflight sv' \<Longrightarrow>
     server_ok cfg sv = server_ok cfg sv'"
  by (simp add: server_ok_def)

lemma finish_turn_ok:
  assumes "server_ok cfg sv" "sv_sessions sv sid = Some sn"
  shows "server_ok cfg (finish_turn sid sn' t sv)"
proof -
  obtain resp ending c h where t: "t = (resp, ending, c, h)" by (cases t)
  let ?sv = "(set_session sid (write_out resp (sn'\<lparr>sn_cache := c\<rparr>)) sv)\<lparr>sv_host := h\<rparr>"
  have "insert sid (dom (sv_sessions sv)) = dom (sv_sessions sv)" using assms(2) by auto
  then have ok: "server_ok cfg ?sv" using assms(1) by (simp add: server_ok_def set_session_def)
  have "server_ok cfg (end_session sid ?sv)" using ok by (rule end_session_ok) (simp add: set_session_def)
  then show ?thesis using ok
    by (cases ending) (simp_all add: finish_turn_def t server_ok_def end_session_def)
qed

lemma server_step_ok:
  assumes "server_step env H cfg parse sv sv'" "server_ok cfg sv"
  shows "server_ok cfg sv'"
  using assms
proof (induction rule: server_step.induct)
  case (accept sv n sid nonce)
  then have n: "sv_inflight sv < sc_max_connections cfg" "n = sv_inflight sv + 1"
    by (auto simp: claim_connection_iff)
  have "sid \<notin> dom (sv_sessions sv)" using accept(3) by auto
  then show ?case using accept(5) n by (simp add: server_ok_def set_session_def)
next
  case (refuse sv n)
  then show ?case by (simp add: claim_connection_iff)
qed (auto intro: finish_turn_ok end_session_ok)

lemma server_reach_ok:
  "server_reach env H cfg parse sv sv' \<Longrightarrow> server_ok cfg sv \<Longrightarrow> server_ok cfg sv'"
  by (induction rule: rtranclp_induct) (auto intro: server_step_ok)

section \<open>What a connection can do\<close>

definition authorized :: "dispatch_env \<Rightarrow> server_config \<Rightarrow> session \<Rightarrow> request \<Rightarrow> bool" where
  "authorized env cfg sn req = (authorize_request (de_hmac env) req (sc_token cfg) (sn_nonce sn) = Inr ())"

lemma serve_request_host:
  assumes "serve_request env H cfg nonce clock req c h = Some (resp, e, c', h')"
  shows "h' = h \<or> authorize_request (de_hmac env) req (sc_token cfg) nonce = Inr () \<and>
     h' = snd (ah_dispatch H (req_op req) h)"
proof (cases "authorize_request (de_hmac env) req (sc_token cfg) nonce")
  case (Inr u)
  have "h' = snd (snd (handle_request_cached env H req (sc_token cfg) nonce (steady h clock) h c))"
    using assms Inr by (auto simp: serve_request_def split: outcome.splits prod.splits)
  then show ?thesis using handle_request_cached_host [of h "steady h clock" env H req "sc_token cfg" nonce c] Inr
    by auto
qed (use assms in \<open>auto simp: serve_request_def\<close>)

lemma finish_turn_host: "sv_host (finish_turn sid sn (resp, e, c, h) sv) = h"
  by (cases e) (simp_all add: finish_turn_def end_session_def set_session_def)

text \<open>A turn that changes the host has read the line of a request that passed the gate.\<close>

lemma serve_read_host:
  assumes "serve_read env H cfg parse (sn_nonce sn) clock r c h = Some (resp, e, c', h')" "h' \<noteq> h"
  shows "\<exists>line req. r = ReadLine line \<and> \<not> line_is_blank line \<and> parse line = Inr req
     \<and> authorized env cfg sn req \<and> h' = snd (ah_dispatch H (req_op req) h)"
proof -
  obtain line req where line: "r = ReadLine line" "\<not> line_is_blank line" "parse line = Inr req"
    and serve: "serve_request env H cfg (sn_nonce sn) clock req c h = Some (resp, e, c', h')"
    using assms by (auto simp: serve_read_def split: read_result.splits if_splits sum.splits)
  then show ?thesis using serve_request_host [OF serve] assms(2) by (auto simp: authorized_def)
qed

text \<open>A turn of session \<open>sid\<close> on what it reads.\<close>

definition is_turn ::
    "dispatch_env \<Rightarrow> 'h agent_host \<Rightarrow> server_config \<Rightarrow> (string \<Rightarrow> request result) \<Rightarrow>
       'h server \<Rightarrow> nat \<Rightarrow> session \<Rightarrow> read_result \<Rightarrow> 'h server \<Rightarrow> bool" where
  "is_turn env H cfg parse sv sid sn r sv' \<longleftrightarrow> sv_sessions sv sid = Some sn \<and>
     (\<exists>clock t. serve_read env H cfg parse (sn_nonce sn) clock r (sn_cache sn) (sv_host sv) = Some t
        \<and> sv' = finish_turn sid sn t sv)"

lemma turn_host:
  assumes "is_turn env H cfg parse sv sid sn r sv'" "sv_host sv' \<noteq> sv_host sv"
  shows "\<exists>line req. r = ReadLine line \<and> \<not> line_is_blank line \<and> parse line = Inr req
     \<and> authorized env cfg sn req \<and> sv_host sv' = snd (ah_dispatch H (req_op req) (sv_host sv))"
proof -
  obtain clock t where read: "serve_read env H cfg parse (sn_nonce sn) clock r (sn_cache sn) (sv_host sv) = Some t"
      and sv': "sv' = finish_turn sid sn t sv"
    using assms(1) unfolding is_turn_def by blast
  obtain resp e c h where t: "t = (resp, e, c, h)" by (cases t)
  have "sv_host sv' = h" by (simp add: sv' t finish_turn_host)
  then show ?thesis using serve_read_host [OF read [unfolded t]] assms(2) by simp
qed

text \<open>A step leaves the host alone, or is a turn, and the mutex was not poisoned.\<close>

lemma server_step_turn:
  assumes "server_step env H cfg parse sv sv'" "sv_host sv' \<noteq> sv_host sv"
  shows "\<not> sv_poisoned sv \<and> (\<exists>sid sn r. is_turn env H cfg parse sv sid sn r sv')"
  using assms
proof (induction rule: server_step.induct)
  case (turn sv sid sn r clock t)
  then have t: "is_turn env H cfg parse sv sid sn r (finish_turn sid sn t sv)" unfolding is_turn_def by blast
  have "reaches_lock env cfg parse sn r"
    using turn_host [OF t turn(4)] by (auto simp: reaches_lock_def authorized_def)
  then show ?case using t turn(2) by blast
qed (simp_all add: set_session_def end_session_def)

lemma server_step_host:
  assumes "server_step env H cfg parse sv sv'"
  shows "sv_host sv' = sv_host sv \<or>
     (\<exists>sid sn req. sv_sessions sv sid = Some sn \<and> authorized env cfg sn req \<and> \<not> sv_poisoned sv \<and>
        sv_host sv' = snd (ah_dispatch H (req_op req) (sv_host sv)))"
proof (cases "sv_host sv' = sv_host sv")
  case False
  then obtain sid sn r where t: "is_turn env H cfg parse sv sid sn r sv'" "\<not> sv_poisoned sv"
    using server_step_turn [OF assms] by blast
  then show ?thesis using turn_host [OF t(1) False] by (auto simp: is_turn_def)
qed simp

section \<open>A poisoned host\<close>

lemma finish_turn_poisoned: "sv_poisoned sv \<Longrightarrow> sv_poisoned (finish_turn sid sn t sv)"
  by (cases t; cases "fst (snd t)") (auto simp: finish_turn_def end_session_def set_session_def)

lemma poisoned_step:
  assumes "server_step env H cfg parse sv sv'" "sv_poisoned sv"
  shows "sv_poisoned sv' \<and> sv_host sv' = sv_host sv"
proof -
  have "sv_host sv' = sv_host sv" using server_step_host [OF assms(1)] assms(2) by blast
  moreover have "sv_poisoned sv'"
    using assms by (induction rule: server_step.induct)
      (simp_all add: set_session_def end_session_def finish_turn_poisoned)
  ultimately show ?thesis by simp
qed

lemma poisoned_forever:
  "server_reach env H cfg parse sv sv' \<Longrightarrow> sv_poisoned sv \<Longrightarrow>
     sv_poisoned sv' \<and> sv_host sv' = sv_host sv"
  by (induction rule: rtranclp_induct) (auto dest: poisoned_step)

text \<open>The request that poisons it: \<open>events\<close> with the largest cursor, in a checked build.\<close>

lemma events_max_panics:
  assumes "de_checks env" "ah_event_ring H h = Some ring" "ring_ok ring"
    and "req_op req = OpEvents (Some (- 1)) limit"
    and "authorize_request (de_hmac env) req (sc_token cfg) nonce = Inr ()"
  shows "serve_request env H cfg nonce clock req c h = Some (None, DieLocked, c, h)"
  using assms ring_since_max(1) [OF assms(3)]
  by (simp add: serve_request_def handle_request_cached_def handle_op_def events_response_def)

section \<open>Caches of all connections\<close>

definition server_coherent :: "'h agent_host \<Rightarrow> 'h server \<Rightarrow> bool" where
  "server_coherent H sv = (\<forall>sid sn. sv_sessions sv sid = Some sn \<longrightarrow> coherent H (sn_cache sn) (sv_host sv))"

context revision_contract
begin

lemma coherent_host_step:
  assumes "coherent H c h" "room h" "h' = h \<or> (\<exists>op. allowed op \<and> h' = snd (ah_dispatch H op h))"
  shows "coherent H c h'"
  using assms coherent_dispatch by blast

lemma serve_request_coherent:
  assumes "serve_request env H cfg nonce clock req c h = Some (resp, e, c', h')"
    and "coherent H c h" "room h" "allowed (req_op req)"
  shows "coherent H c' h'"
proof -
  have "coherent H c' h' \<or> c' = c \<and> h' = h"
    using assms(1) coherent_request [OF assms(2-4), of "steady h clock" env "sc_token cfg" nonce]
    by (auto simp: serve_request_def split: outcome.splits prod.splits sum.splits)
  then show ?thesis using assms(2) by auto
qed

text \<open>However the connections interleave, every cache stays coherent with the one host.\<close>

lemma server_coherent_step:
  assumes step: "server_step env H cfg parse sv sv'" and room: "room (sv_host sv)"
    and parse: "\<And>line req. parse line = Inr req \<Longrightarrow> allowed (req_op req)"
    and coh: "server_coherent H sv"
  shows "server_coherent H sv'"
  using step room coh
proof (induction rule: server_step.induct)
  case (accept sv n sid nonce)
  then show ?case using coherent_new
    by (auto simp: server_coherent_def set_session_def new_session_def)
next
  case (turn sv sid sn r clock t)
  obtain resp e c h where t: "t = (resp, e, c, h)" by (cases t)
  have own: "coherent H (sn_cache sn) (sv_host sv)" using turn(1,5) by (auto simp: server_coherent_def)
  have cases: "c = sn_cache sn \<and> h = sv_host sv \<or>
     (\<exists>req. allowed (req_op req) \<and>
        serve_request env H cfg (sn_nonce sn) clock req (sn_cache sn) (sv_host sv) = Some (resp, e, c, h))"
    using turn(3) parse t by (auto simp: serve_read_def split: read_result.splits if_splits sum.splits)
  have new: "coherent H c h"
    using cases own turn(4) by (auto intro: serve_request_coherent)
  have "h = sv_host sv \<or> (\<exists>op. allowed op \<and> h = snd (ah_dispatch H op (sv_host sv)))"
    using cases by (auto dest: serve_request_host)
  then have "coherent H (sn_cache sn') h" if "sv_sessions sv sid' = Some sn'" for sid' sn'
    using coherent_host_step [OF _ turn(4)] turn(5) that by (auto simp: server_coherent_def)
  then show ?case using new
    by (cases e) (auto simp: server_coherent_def finish_turn_def t end_session_def set_session_def
        write_out_def split: if_splits)
qed (auto simp: server_coherent_def end_session_def split: if_splits)

end

end
