(* ===== verification/Virtual_Input.thy ===== *)
theory Virtual_Input
  imports Host
begin

text \<open>
  \<open>crates/gpui-agent/src/virtual_input.rs\<close>: the plan of an in-window click, the key tokens of
  virtual input and the painted cursor; and the path rules of \<open>screenshot.rs\<close>.
\<close>

section \<open>Virtual input\<close>

definition VIRTUAL_UNAVAILABLE :: string where "VIRTUAL_UNAVAILABLE = ''virtual_unavailable''"

definition virtual_unavailable :: "string \<Rightarrow> string" where
  "virtual_unavailable detail = VIRTUAL_UNAVAILABLE @ '': '' @ detail"

definition hit_point :: "bounds \<Rightarrow> (f32 \<times> f32) result" where
  "hit_point b =
     (if \<not> has_area b then Inl (virtual_unavailable (''target has zero bounds (no layout / hit-test). ''
        @ ''Headless hosts never fill bounds. On desktop, wait for a painted frame ''
        @ ''or use delivery=semantic.''))
      else Inr (center b))"

record virtual_pointer_click =
  vc_target :: string
  vc_x :: f32
  vc_y :: f32

definition plan_click :: "ui_tree \<Rightarrow> string \<Rightarrow> virtual_pointer_click result" where
  "plan_click tree target =
     rbind (require_id tree target) (\<lambda>node.
     rbind (hit_point (nd_bounds (data node))) (\<lambda>(x, y).
       Inr \<lparr>vc_target = target, vc_x = x, vc_y = y\<rparr>))"

definition looks_like_modifier_chord :: "string \<Rightarrow> bool" where
  "looks_like_modifier_chord key =
     (let lower = to_ascii_lowercase key in
      str_contains lower ''-'' \<or> list_ex (starts_with lower)
        [''cmd'', ''ctrl'', ''alt'', ''shift'', ''super'', ''meta'', ''win''])"

definition keystroke_token :: "string \<Rightarrow> string result" where
  "keystroke_token key =
     (let trimmed = trim key in
      if trimmed = [] then Inl (virtual_unavailable ''empty key'')
      else if looks_like_modifier_chord trimmed then
        Inl (virtual_unavailable (''modifiers are not allowed on free-form key `'' @ trimmed
          @ ''`; use op keybinding''))
      else
        let other = to_ascii_lowercase trimmed in
        if other = ''enter'' \<or> other = ''return'' then Inr ''enter''
        else if other = ''backspace'' then Inr ''backspace''
        else if other = ''tab'' then Inr ''tab''
        else if other = ''escape'' \<or> other = ''esc'' then Inr ''escape''
        else if other = ''space'' \<or> other = '' '' then Inr ''space''
        else if other = ''delete'' \<or> other = ''del'' then Inr ''delete''
        else if length (chars_of other) = 1 then Inr other
        else Inl (virtual_unavailable (''unhandled virtual key `'' @ other
          @ ''` (first slice: Enter, Backspace, Tab, Escape, Delete, Space, ASCII)'')))"

definition debug_char :: "string \<Rightarrow> string" where
  "debug_char c = [CHR 0x27] @ concat (map debug_byte c) @ [CHR 0x27]"

definition is_ascii_graphic :: "string \<Rightarrow> bool" where
  "is_ascii_graphic ch = (case ch of [c] \<Rightarrow> is_graph c | _ \<Rightarrow> False)"

definition char_keystroke :: "string \<Rightarrow> string result" where
  "char_keystroke ch =
     (if ch = '' '' then Inr ''space''
      else if is_ascii_graphic ch \<or> ch = [CHR 0x0A] \<or> ch = [CHR 0x09] then
        (if ch = [CHR 0x0A] then Inr ''enter''
         else if ch = [CHR 0x09] then Inr ''tab''
         else Inr ch)
      else Inl (virtual_unavailable (''virtual type is ASCII-only in this slice (got ''
        @ debug_char ch @ '')'')))"

definition text_keystrokes :: "string \<Rightarrow> string list result" where
  "text_keystrokes text = rmap_list char_keystroke (chars_of text)"

record agent_cursor =
  cu_x :: f32
  cu_y :: f32
  cu_visible :: bool
  cu_hue :: f32

definition session_default :: agent_cursor where
  "session_default = \<lparr>cu_x = F32 0, cu_y = F32 0, cu_visible = False, cu_hue = f32_round (54 / 100)\<rparr>"

definition move_to :: "f32 \<Rightarrow> f32 \<Rightarrow> agent_cursor \<Rightarrow> agent_cursor" where
  "move_to x y c = c\<lparr>cu_x := x, cu_y := y, cu_visible := True\<rparr>"

lemma plan_click_Inr:
  "plan_click tree target = Inr click \<longleftrightarrow>
     (\<exists>n. find_all tree target = [n] \<and> has_area (nd_bounds (data n)) \<and>
        click = \<lparr>vc_target = target, vc_x = fst (center (nd_bounds (data n))),
                 vc_y = snd (center (nd_bounds (data n)))\<rparr>)"
  by (auto simp: plan_click_def hit_point_def rbind_Inr_iff require_id_Inr_iff split: prod.splits)

text \<open>A token of virtual input never names a modifier chord.\<close>

lemma keystroke_token_no_chord:
  assumes "keystroke_token key = Inr tok"
  shows "tok \<noteq> [] \<and> \<not> looks_like_modifier_chord tok"
proof -
  have low: "to_ascii_lowercase (to_ascii_lowercase s) = to_ascii_lowercase s" for s
  proof -
    have "lower_byte (lower_byte c) = lower_byte c" for c
      by (auto simp: lower_byte_def Let_def of_char_of)
    then show ?thesis by (simp add: to_ascii_lowercase_def)
  qed
  have names: "\<forall>t \<in> set [''enter'', ''backspace'', ''tab'', ''escape'', ''space'', ''delete''].
      t \<noteq> [] \<and> \<not> looks_like_modifier_chord t" by code_simp
  have ne: "trim key \<noteq> []" and nc: "\<not> looks_like_modifier_chord (trim key)"
    using assms by (auto simp: keystroke_token_def Let_def split: if_splits)
  have "tok \<in> set [''enter'', ''backspace'', ''tab'', ''escape'', ''space'', ''delete''] \<or>
      tok = to_ascii_lowercase (trim key)"
    using assms by (auto simp: keystroke_token_def Let_def split: if_splits)
  then show ?thesis
  proof
    assume "tok = to_ascii_lowercase (trim key)"
    moreover have "looks_like_modifier_chord (to_ascii_lowercase (trim key))
        = looks_like_modifier_chord (trim key)"
      by (simp only: looks_like_modifier_chord_def low)
    moreover have "to_ascii_lowercase (trim key) \<noteq> []" using ne by (simp add: to_ascii_lowercase_def)
    ultimately show ?thesis using nc by simp
  qed (use names in blast)
qed

section \<open>Screenshot paths\<close>

text \<open>
  Paths of a Unix host.  \<open>Path::components\<close> splits at the separators and drops empty and
  \<open>.\<close> parts (a leading \<open>.\<close> is \<open>CurDir\<close>, which the code skips); a path is its list of parts.
\<close>

definition SCREENSHOT_PATH_CONFINE_ERR :: string where
  "SCREENSHOT_PATH_CONFINE_ERR =
     ''screenshot path must be a relative .png name under the host screenshot dir''"

definition require_screenshot_path :: "string option \<Rightarrow> string result" where
  "require_screenshot_path path =
     (case map_option trim path of
        Some p \<Rightarrow> if p = [] then Inl ''screenshot requires path'' else Inr p
      | None \<Rightarrow> Inl ''screenshot requires path'')"

fun split_slash :: "string \<Rightarrow> string \<Rightarrow> string list" where
  "split_slash acc [] = [acc]"
| "split_slash acc (c # s) = (if c = CHR ''/'' then acc # split_slash [] s else split_slash (acc @ [c]) s)"

definition components :: "string \<Rightarrow> string list" where
  "components p = filter (\<lambda>c. c \<noteq> [] \<and> c \<noteq> ''.'') (split_slash [] p)"

text \<open>\<open>Path::file_name\<close>: the last component, unless it is \<open>..\<close>.\<close>

definition path_file_name :: "string \<Rightarrow> string option" where
  "path_file_name p = (case rev (components p) of [] \<Rightarrow> None | c # _ \<Rightarrow> if c = ''..'' then None else Some c)"

fun confine_parts :: "string list \<Rightarrow> string list result" where
  "confine_parts [] = Inr []"
| "confine_parts (c # cs) =
     (if c = ''..'' \<or> starts_with c ''~'' then Inl SCREENSHOT_PATH_CONFINE_ERR
      else rmap (Cons c) (confine_parts cs))"

definition confine_screenshot_path_in :: "string \<Rightarrow> string list \<Rightarrow> string list result" where
  "confine_screenshot_path_in client base =
     rbind (require_screenshot_path (Some client)) (\<lambda>client.
       if starts_with client ''/'' then Inl SCREENSHOT_PATH_CONFINE_ERR
       else rbind (confine_parts (components client)) (\<lambda>rel.
         if rel = [] then Inl ''screenshot requires path''
         else
           let file = last rel in
           if \<not> ends_with file ''.png'' \<or> length file < 5 then
             Inl ''screenshot path must end with .png''
           else if starts_with file ''-'' \<or> starts_with file ''.'' then
             Inl (''screenshot filename must not start with '' @ [CHR 0x27] @ ''-'' @ [CHR 0x27]
               @ '' or '' @ [CHR 0x27] @ ''.'' @ [CHR 0x27])
           else Inr (base @ rel)))"

definition screencapture_window_argv :: "u32 \<Rightarrow> string \<Rightarrow> string list result" where
  "screencapture_window_argv window_id path =
     rbind (require_screenshot_path (Some path)) (\<lambda>path.
       if starts_with path ''-'' then
         Inl (''screenshot path must not start with '' @ [CHR 0x27] @ ''-'' @ [CHR 0x27]
           @ '' (would look like a screencapture flag)'')
       else if window_id = 0 then
         Inl (screenshot_unavailable
           ''refusing screencapture without a CGWindowID (would not be this app window)'')
       else Inr [''-l'' @ dec (unat window_id), ''-o'', ''-x'', path])"

lemma split_slash_no_slash: "CHR ''/'' \<notin> set acc \<Longrightarrow> c \<in> set (split_slash acc s) \<Longrightarrow> CHR ''/'' \<notin> set c"
  by (induction acc s rule: split_slash.induct) (auto split: if_splits)

lemma confine_parts_Inr:
  "confine_parts cs = Inr rel \<Longrightarrow> rel = cs \<and> (\<forall>c \<in> set cs. c \<noteq> ''..'' \<and> \<not> starts_with c ''~'')"
  by (induction cs arbitrary: rel) (auto simp: rmap_Inr_iff split: if_splits)

text \<open>
  A confined path lies strictly below the base, and none of the parts it adds can leave it:
  none is empty, a dot, a double dot or holds a separator.
\<close>

lemma confined_below:
  assumes "confine_screenshot_path_in client base = Inr dest"
  shows "\<exists>rel. dest = base @ rel \<and> rel \<noteq> [] \<and>
     (\<forall>c \<in> set rel. c \<noteq> [] \<and> c \<noteq> ''.'' \<and> c \<noteq> ''..'' \<and> CHR ''/'' \<notin> set c \<and> \<not> starts_with c ''~'') \<and>
     ends_with (last rel) ''.png'' \<and> \<not> starts_with (last rel) ''-'' \<and> \<not> starts_with (last rel) ''.''"
proof -
  obtain p rel where p: "confine_parts (components p) = Inr rel" "dest = base @ rel" "rel \<noteq> []"
    "ends_with (last rel) ''.png''" "\<not> starts_with (last rel) ''-''" "\<not> starts_with (last rel) ''.''"
    using assms
    by (auto simp: confine_screenshot_path_in_def rbind_Inr_iff Let_def split: if_splits)
  have "rel = components p" "\<forall>c \<in> set rel. c \<noteq> ''..'' \<and> \<not> starts_with c ''~''"
    using confine_parts_Inr [OF p(1)] by auto
  moreover have "CHR ''/'' \<notin> set c" if "c \<in> set (components p)" for c
    using that split_slash_no_slash [of "[]" c p] by (auto simp: components_def)
  moreover have "c \<noteq> [] \<and> c \<noteq> ''.''" if "c \<in> set (components p)" for c
    using that by (auto simp: components_def)
  ultimately show ?thesis using p by blast
qed

section \<open>Properties\<close>

text \<open>
  A screenshot path a client sends stays strictly below the host's directory: what is
  appended is not empty, no part is empty, a dot, a double dot, holds a separator or starts
  with a tilde, and the file is a \<open>.png\<close> that does not look like a flag or a hidden file.
\<close>

theorem screenshot_path_confined:
  assumes "confine_screenshot_path_in client base = Inr dest"
  shows "\<exists>rel. dest = base @ rel \<and> rel \<noteq> [] \<and>
     (\<forall>c \<in> set rel. c \<noteq> [] \<and> c \<noteq> ''.'' \<and> c \<noteq> ''..'' \<and> CHR ''/'' \<notin> set c \<and> \<not> starts_with c ''~'') \<and>
     ends_with (last rel) ''.png'' \<and> \<not> starts_with (last rel) ''-'' \<and> \<not> starts_with (last rel) ''.''"
  using assms by (rule confined_below)

theorem screenshot_path_confined_witness:
  "\<exists>rel. [''shots'', ''run'', ''a.png''] = [''shots''] @ rel \<and> rel \<noteq> [] \<and> ends_with (last rel) ''.png''"
proof -
  have "confine_screenshot_path_in ''./run//a.png'' [''shots''] = Inr [''shots'', ''run'', ''a.png'']"
    by code_simp
  from screenshot_path_confined [OF this] show ?thesis by blast
qed

end
