(* ===== verification/Todo.thy ===== *)
theory Todo
  imports Server_Laws Virtual_Input
begin

text \<open>
  \<open>crates/todo-core/src/lib.rs\<close>: the store of the demo application, its tree, its operations
  and its \<open>AgentHost\<close> implementation.  The counters \<open>next_id\<close> and \<open>rev\<close> wrap as in a release
  build; the laws ask for room where that matters.
\<close>

section \<open>Data\<close>

definition id_input :: string where "id_input = ''todo-input''"
definition id_add :: string where "id_add = ''todo-add''"
definition id_list :: string where "id_list = ''todo-list''"
definition id_list_scroll :: string where "id_list_scroll = ''todo-list-scroll''"
definition id_empty :: string where "id_empty = ''todo-empty''"
definition id_status :: string where "id_status = ''todo-status''"
definition id_window :: string where "id_window = ''todo-window''"
definition id_nav :: string where "id_nav = ''todo-nav''"
definition id_nav_todos :: string where "id_nav_todos = ''nav-todos''"
definition id_nav_settings :: string where "id_nav_settings = ''nav-settings''"
definition id_nav_toggle :: string where "id_nav_toggle = ''nav-toggle-sidebar''"
definition id_page_todos :: string where "id_page_todos = ''page-todos''"
definition id_page_settings :: string where "id_page_settings = ''page-settings''"
definition id_settings_confirm_delete :: string where
  "id_settings_confirm_delete = ''settings-confirm-delete''"
definition key_focus_input :: string where "key_focus_input = ''todo.focus_input''"
definition key_go_settings :: string where "key_go_settings = ''todo.go_settings''"
definition key_quit :: string where "key_quit = ''app.quit''"

lemmas id_defs = id_input_def id_add_def id_list_def id_list_scroll_def id_empty_def id_status_def
  id_window_def id_nav_def id_nav_todos_def id_nav_settings_def id_nav_toggle_def id_page_todos_def
  id_page_settings_def id_settings_confirm_delete_def
lemmas key_defs = key_focus_input_def key_go_settings_def key_quit_def

definition id_item :: "u64 \<Rightarrow> string" where "id_item i = ''todo-item-'' @ dec (unat i)"
definition id_toggle :: "u64 \<Rightarrow> string" where "id_toggle i = ''todo-toggle-'' @ dec (unat i)"
definition id_delete :: "u64 \<Rightarrow> string" where "id_delete i = ''todo-delete-'' @ dec (unat i)"

definition parse_numbered_id :: "string \<Rightarrow> string \<Rightarrow> u64 option" where
  "parse_numbered_id prefix target =
     Option.bind (strip_prefix prefix target)
       (\<lambda>rest. map_option of_nat (parse_unsigned (2 ^ 64) rest))"

datatype page = Todos | Settings

record todo =
  td_id :: u64
  td_title :: string
  td_done :: bool

record todo_view =
  tv_items :: "todo list"
  tv_draft :: string
  tv_page :: page
  tv_confirm_delete :: bool
  tv_sidebar_open :: bool

definition default_view :: todo_view where
  "default_view = \<lparr>tv_items = [], tv_draft = [], tv_page = Todos, tv_confirm_delete = False,
     tv_sidebar_open = True\<rparr>"

text \<open>\<open>tree.visit\<close> calls its closure on the nodes in the order of \<open>tree_flatten\<close>.\<close>

definition view_item :: "ui_node \<Rightarrow> todo option" where
  "view_item n = map_option (\<lambda>i. \<lparr>td_id = i, td_title = nd_name (data n),
       td_done = (case nd_checked (data n) of None \<Rightarrow> False | Some b \<Rightarrow> b)\<rparr>)
     (parse_numbered_id ''todo-item-'' (nid n))"

definition view_from_tree :: "ui_tree \<Rightarrow> todo_view" where
  "view_from_tree tree =
     \<lparr>tv_items = sort_key td_id (List.map_filter view_item (tree_flatten tree)),
      tv_draft = (case Option.bind (tree_find tree id_input) (\<lambda>n. nd_value (data n)) of
                    None \<Rightarrow> [] | Some v \<Rightarrow> v),
      tv_page = (if tree_find tree id_page_settings \<noteq> None then Settings else Todos),
      tv_confirm_delete =
        (case Option.bind (tree_find tree id_settings_confirm_delete) (\<lambda>n. nd_checked (data n)) of
           None \<Rightarrow> False | Some b \<Rightarrow> b),
      tv_sidebar_open = (case tree_find tree id_nav of None \<Rightarrow> True | Some n \<Rightarrow> nd_visible (data n))\<rparr>"

record todo_store =
  st_next_id :: u64
  st_items :: "todo list"
  st_draft :: string
  st_page :: page
  st_confirm_delete :: bool
  st_sidebar_open :: bool
  st_platform :: platform_kind
  st_shutdown :: bool
  st_app_focused :: bool
  st_rev :: u64
  st_events :: event_ring

definition store_new :: "platform_kind \<Rightarrow> todo_store" where
  "store_new p = \<lparr>st_next_id = 1, st_items = [], st_draft = [], st_page = Todos,
     st_confirm_delete = False, st_sidebar_open = True, st_platform = p, st_shutdown = False,
     st_app_focused = False, st_rev = 0, st_events = ring_default\<rparr>"

section \<open>Mutators\<close>

definition bump_revision :: "todo_store \<Rightarrow> todo_store" where
  "bump_revision s = s\<lparr>st_rev := st_rev s + 1\<rparr>"

definition store_go :: "page \<Rightarrow> todo_store \<Rightarrow> todo_store" where
  "store_go p s = bump_revision (s\<lparr>st_page := p\<rparr>)"

definition toggle_confirm_delete :: "todo_store \<Rightarrow> todo_store" where
  "toggle_confirm_delete s = bump_revision (s\<lparr>st_confirm_delete := \<not> st_confirm_delete s\<rparr>)"

definition toggle_sidebar :: "todo_store \<Rightarrow> todo_store" where
  "toggle_sidebar s = bump_revision (s\<lparr>st_sidebar_open := \<not> st_sidebar_open s\<rparr>)"

definition set_draft :: "string \<Rightarrow> todo_store \<Rightarrow> todo_store" where
  "set_draft d s = bump_revision (s\<lparr>st_draft := d\<rparr>)"

definition set_app_focused :: "bool \<Rightarrow> todo_store \<Rightarrow> todo_store" where
  "set_app_focused b s = s\<lparr>st_app_focused := b\<rparr>"

definition store_add :: "string \<Rightarrow> todo_store \<Rightarrow> todo result \<times> todo_store" where
  "store_add title s =
     (let title = trim title in
      if title = [] then (Inl ''cannot add an empty todo'', s)
      else
        let t = \<lparr>td_id = st_next_id s, td_title = title, td_done = False\<rparr>
        in (Inr t, bump_revision (s\<lparr>st_next_id := st_next_id s + 1,
              st_items := st_items s @ [t], st_draft := []\<rparr>)))"

definition add_from_draft :: "todo_store \<Rightarrow> todo result \<times> todo_store" where
  "add_from_draft s = store_add (st_draft s) s"

text \<open>\<open>iter_mut().find(|item| item.id == id)\<close> and the update of what it finds.\<close>

fun update_item :: "u64 \<Rightarrow> (todo \<Rightarrow> todo) \<Rightarrow> todo list \<Rightarrow> (todo \<times> todo list) option" where
  "update_item i f [] = None"
| "update_item i f (t # ts) =
     (if td_id t = i then Some (f t, f t # ts)
      else map_option (\<lambda>(x, ts). (x, t # ts)) (update_item i f ts))"

fun remove_item :: "u64 \<Rightarrow> todo list \<Rightarrow> (todo \<times> todo list) option" where
  "remove_item i [] = None"
| "remove_item i (t # ts) =
     (if td_id t = i then Some (t, ts)
      else map_option (\<lambda>(x, ts). (x, t # ts)) (remove_item i ts))"

definition todo_not_found :: "u64 \<Rightarrow> string" where
  "todo_not_found i = ''todo '' @ dec (unat i) @ '' not found''"

definition store_toggle :: "u64 \<Rightarrow> todo_store \<Rightarrow> todo result \<times> todo_store" where
  "store_toggle i s =
     (case update_item i (\<lambda>t. t\<lparr>td_done := \<not> td_done t\<rparr>) (st_items s) of
        None \<Rightarrow> (Inl (todo_not_found i), s)
      | Some (t, ts) \<Rightarrow> (Inr t, bump_revision (s\<lparr>st_items := ts\<rparr>)))"

definition store_delete :: "u64 \<Rightarrow> todo_store \<Rightarrow> todo result \<times> todo_store" where
  "store_delete i s =
     (case remove_item i (st_items s) of
        None \<Rightarrow> (Inl (todo_not_found i), s)
      | Some (t, ts) \<Rightarrow> (Inr t, bump_revision (s\<lparr>st_items := ts\<rparr>)))"

fun seed_loop :: "nat list \<Rightarrow> todo_store \<Rightarrow> todo_store" where
  "seed_loop [] s = s"
| "seed_loop (i # is) s = seed_loop is (snd (store_add (''Scroll demo '' @ dec i) s))"

definition seed_overflow_demo :: "nat \<Rightarrow> todo_store \<Rightarrow> todo_store" where
  "seed_overflow_demo n s = seed_loop [1 ..< n + 1] s"

section \<open>The tree\<close>

definition item_node :: "todo \<Rightarrow> ui_node" where
  "item_node t =
     with_child (new_node (id_delete (td_id t)) role_button (''Delete '' @ td_title t))
    (with_child (with_checked (td_done t) (new_node (id_toggle (td_id t)) role_checkbox (td_title t)))
    (with_checked (td_done t) (new_node (id_item (td_id t)) role_listitem (td_title t))))"

definition todos_page :: "todo_store \<Rightarrow> ui_node" where
  "todos_page s =
     (let status_name = (if st_items s = [] then ''No todos''
            else dec (length (st_items s)) @ '' todos, ''
              @ dec (length (filter td_done (st_items s))) @ '' done'');
          list_children = (if st_items s = []
            then [new_node id_empty role_note ''No todos yet. Add one above.'']
            else map item_node (st_items s))
      in with_child (new_node id_status role_status status_name)
        (with_child (with_child (with_children list_children (new_node id_list role_list ''Todos''))
                       (new_node id_list_scroll role_scroll ''Todo list''))
        (with_child (new_node id_add role_button ''Add'')
        (with_child (with_value (st_draft s) (new_node id_input role_textbox ''What needs doing?''))
        (new_node id_page_todos role_page ''Todos'')))))"

definition settings_page :: "todo_store \<Rightarrow> ui_node" where
  "settings_page s =
     with_child (with_checked (st_confirm_delete s)
         (new_node id_settings_confirm_delete role_checkbox ''Confirm before delete''))
       (new_node id_page_settings role_page ''Settings'')"

definition nav_node :: "todo_store \<Rightarrow> ui_node" where
  "nav_node s =
     (let nav = with_child (new_node id_nav_settings role_button ''Settings'')
                  (with_child (new_node id_nav_todos role_button ''Todos'')
                    (new_node id_nav role_navigation ''Todo''))
      in if st_sidebar_open s then nav else with_visible_deep False nav)"

definition store_tree :: "todo_store \<Rightarrow> ui_tree" where
  "store_tree s =
     (let page = (case st_page s of Todos \<Rightarrow> todos_page s | Settings \<Rightarrow> settings_page s);
          toggle_name = (if st_sidebar_open s then ''Hide sidebar'' else ''Show sidebar'');
          window = with_child page (with_child (nav_node s)
            (with_child (new_node id_nav_toggle role_button toggle_name)
              (new_node id_window role_window ''Agent Todo'')))
      in \<lparr>tree_app = ''todo'', tree_platform = st_platform s, tree_ready = True,
          tree_nodes = [window], tree_rev = Some (st_rev s)\<rparr>)"

section \<open>The operations of an agent\<close>

definition json_of_todo :: "todo \<Rightarrow> json" where
  "json_of_todo t = json_obj [(''id'', json_of_u64 (td_id t)), (''title'', JStr (td_title t)),
     (''done'', JBool (td_done t))]"

definition todo_result :: "todo \<Rightarrow> dispatch_result" where
  "todo_result t = dispatch_json (json_of_todo t)"

definition on_todo :: "todo result \<times> todo_store \<Rightarrow> dispatch_result result \<times> todo_store" where
  "on_todo r = (case r of (t, s) \<Rightarrow> (rmap todo_result t, s))"

definition store_click :: "string \<Rightarrow> todo_store \<Rightarrow> dispatch_result result \<times> todo_store" where
  "store_click target s =
     (if target = id_nav_toggle then
        (let s = toggle_sidebar s
         in (Inr (dispatch_json (json_obj [(''sidebar_open'', JBool (st_sidebar_open s))])), s))
      else if target = id_nav_todos then (Inr dispatch_empty, store_go Todos s)
      else if target = id_nav_settings then (Inr dispatch_empty, store_go Settings s)
      else if target = id_settings_confirm_delete then
        (let s = toggle_confirm_delete s
         in (Inr (dispatch_json (json_obj [(''confirm_delete'', JBool (st_confirm_delete s))])), s))
      else if target = id_add then on_todo (add_from_draft s)
      else case parse_numbered_id ''todo-toggle-'' target of
        Some i \<Rightarrow> on_todo (store_toggle i s)
      | None \<Rightarrow>
     (case parse_numbered_id ''todo-delete-'' target of
        Some i \<Rightarrow> on_todo (store_delete i s)
      | None \<Rightarrow>
     (case parse_numbered_id ''todo-item-'' target of
        Some i \<Rightarrow> on_todo (store_toggle i s)
      | None \<Rightarrow> (Inl (''cannot click `'' @ target @ ''`''), s))))"

definition value_result :: "todo_store \<Rightarrow> dispatch_result" where
  "value_result s = dispatch_json (json_obj [(''value'', JStr (st_draft s))])"

definition store_type_into :: "string \<Rightarrow> string \<Rightarrow> todo_store \<Rightarrow> dispatch_result result \<times> todo_store" where
  "store_type_into target txt s =
     (if target \<noteq> id_input then (Inl (''`'' @ target @ ''` is not editable''), s)
      else let s = bump_revision (s\<lparr>st_draft := st_draft s @ txt\<rparr>) in (Inr (value_result s), s))"

definition store_set_value :: "string \<Rightarrow> string \<Rightarrow> todo_store \<Rightarrow> dispatch_result result \<times> todo_store" where
  "store_set_value target v s =
     (if target \<noteq> id_input then (Inl (''`'' @ target @ ''` is not editable''), s)
      else let s = bump_revision (s\<lparr>st_draft := v\<rparr>) in (Inr (value_result s), s))"

definition store_key :: "string \<Rightarrow> string \<Rightarrow> todo_store \<Rightarrow> dispatch_result result \<times> todo_store" where
  "store_key target key s =
     (if (target = id_input \<or> target = id_add) \<and> key = ''Enter'' then on_todo (add_from_draft s)
      else if target = id_input \<and> key = ''Backspace'' then
        (Inr dispatch_empty, bump_revision (s\<lparr>st_draft := str_pop (st_draft s)\<rparr>))
      else (Inl (''unhandled key `'' @ key @ ''` on `'' @ target @ ''`''), s))"

definition arg_id :: "json \<Rightarrow> u64 result" where
  "arg_id args = (case Option.bind (json_get args ''id'') as_u64 of
     Some i \<Rightarrow> Inr i | None \<Rightarrow> Inl ''expected args.id'')"

definition store_invoke :: "string \<Rightarrow> json \<Rightarrow> todo_store \<Rightarrow> dispatch_result result \<times> todo_store" where
  "store_invoke name args s =
     (if name = ''todo.add'' then
        (case Option.bind (json_get args ''title'') as_str of
           None \<Rightarrow> (Inl ''todo.add requires args.title'', s)
         | Some title \<Rightarrow> on_todo (store_add title s))
      else if name = ''todo.toggle'' then
        (case arg_id args of Inl e \<Rightarrow> (Inl e, s) | Inr i \<Rightarrow> on_todo (store_toggle i s))
      else if name = ''todo.delete'' then
        (case arg_id args of Inl e \<Rightarrow> (Inl e, s) | Inr i \<Rightarrow> on_todo (store_delete i s))
      else if name = ''todo.list'' then
        (Inr (dispatch_json (JArr (map json_of_todo (st_items s)))), s)
      else if name = ''nav.go'' then
        (case Option.bind (json_get args ''page'') as_str of
           None \<Rightarrow> (Inl ''nav.go requires args.page'', s)
         | Some p \<Rightarrow>
             if p = ''todos'' then (Inr dispatch_empty, s\<lparr>st_page := Todos\<rparr>)
             else if p = ''settings'' then (Inr dispatch_empty, s\<lparr>st_page := Settings\<rparr>)
             else (Inl (''unknown page `'' @ p @ ''`''), s))
      else if name = ''todo.toggle_sidebar'' then
        (let s = toggle_sidebar s
         in (Inr (dispatch_json (json_obj [(''sidebar_open'', JBool (st_sidebar_open s))])), s))
      else (Inl (''unknown invoke `'' @ name @ ''`''), s))"

section \<open>Key bindings\<close>

definition keybinding_catalog :: "keybinding_info list" where
  "keybinding_catalog =
     [keybinding_info_new key_focus_input ''cmd-n'' Focused False,
      keybinding_info_new key_go_settings ''cmd-shift-s'' Global False,
      keybinding_info_new key_quit ''cmd-q'' Global True]"

definition action_json :: "string \<Rightarrow> string \<Rightarrow> (string \<times> json) list \<Rightarrow> dispatch_result" where
  "action_json ident scope extra = dispatch_json (json_obj ([(''id'', JStr ident),
     (''scope'', JStr scope), (''path'', JStr ''gpui.action'')] @ extra))"

definition perform_keybinding :: "string \<Rightarrow> todo_store \<Rightarrow> dispatch_result result \<times> todo_store" where
  "perform_keybinding binding s =
     (if binding = key_focus_input then
        (Inr (action_json key_focus_input ''focused'' []), bump_revision (s\<lparr>st_page := Todos\<rparr>))
      else if binding = key_go_settings then
        (Inr (action_json key_go_settings ''global'' []), bump_revision (s\<lparr>st_page := Settings\<rparr>))
      else if binding = key_quit then
        (Inr (action_json key_quit ''global'' [(''dangerous'', JBool True)]),
         bump_revision (s\<lparr>st_shutdown := True\<rparr>))
      else (Inl (''unknown binding `'' @ binding @ ''`''), s))"

definition fire_keybinding :: "op \<Rightarrow> todo_store \<Rightarrow> dispatch_result result \<times> todo_store" where
  "fire_keybinding op s =
     (if st_platform s = Desktop then
        (Inl (keybinding_unavailable (''desktop keybinding fire must run on the GPUI UI thread ''
           @ ''(Action / keymap dispatch). Mailbox intercept missing?'')), s)
      else case op of
        OpKeybinding binding _ _ _ activate \<Rightarrow>
          perform_keybinding binding (if activate then s\<lparr>st_app_focused := True\<rparr> else s)
      | _ \<Rightarrow> (Inl ''not a keybinding fire op'', s))"

section \<open>The host\<close>

definition store_hello :: "string \<Rightarrow> todo_store \<Rightarrow> hello_info" where
  "store_hello os s = \<lparr>he_protocol = PROTOCOL_VERSION, he_app = ''todo'', he_platform = st_platform s,
     he_os = os, he_ready = True,
     he_deliveries = (if st_platform s = Desktop then [Semantic, Virtual] else [Semantic]),
     he_auth = AuthNone, he_bundle_id = None, he_executable = None, he_features = []\<rparr>"

definition store_screenshot :: "screenshot_spec \<Rightarrow> todo_store \<Rightarrow> dispatch_result result" where
  "store_screenshot spec s =
     rbind (require_screenshot_path (ss_path spec)) (\<lambda>path.
     rbind (confine_screenshot_path_in path []) (\<lambda>_.
       Inl (screenshot_unavailable (case st_platform s of
          Headless \<Rightarrow> ''headless host has no pixel surface (viewport and scrolled)''
        | Desktop \<Rightarrow> ''desktop screenshot must run on the GPUI UI thread with a Window ''
            @ ''(mailbox intercept). This store has no pixel surface.''
        | _ \<Rightarrow> ''this host has no pixel surface''))))"

definition NO_VIRTUAL :: string where
  "NO_VIRTUAL = ''this host has no GPUI pointer/key pipeline. ''
     @ ''Virtual delivery synthesizes in-window events on the desktop GPUI host ''
     @ ''after a painted frame. Headless and store-only hosts implement semantic ''
     @ ''dispatch only '' @ [CHR 0xE2, CHR 0x80, CHR 0x94]
     @ '' use delivery=semantic, or run apps/todo with GPUI_AGENT=1.''"

definition store_dispatch :: "op \<Rightarrow> todo_store \<Rightarrow> dispatch_result result \<times> todo_store" where
  "store_dispatch op s =
     (if is_virtual_input op then (Inl (virtual_unavailable NO_VIRTUAL), s)
      else case op of
        OpClick target _ _ \<Rightarrow> store_click target s
      | OpType target txt _ _ \<Rightarrow> store_type_into target txt s
      | OpSetValue target v _ \<Rightarrow> store_set_value target v s
      | OpKey target key _ _ \<Rightarrow> store_key target key s
      | OpKeybinding _ _ _ _ _ \<Rightarrow> fire_keybinding op s
      | OpKeybindings \<Rightarrow> (Inr (dispatch_json (keybinding_list_json keybinding_catalog)), s)
      | OpInvoke name args \<Rightarrow>
          (case store_invoke name args s of
             (r, s) \<Rightarrow> (r, if is_ok r then
                s\<lparr>st_events := ring_put (Info, ''todo'', ''invoke '' @ name) (st_events s)\<rparr> else s))
      | OpScreenshot path mode target max_height_px \<Rightarrow>
          (store_screenshot (screenshot_spec_from_op path mode target max_height_px) s, s)
      | OpShutdown \<Rightarrow> (Inr dispatch_empty, s\<lparr>st_shutdown := True\<rparr>)
      | _ \<Rightarrow> (Inr dispatch_empty, s))"

definition todo_host :: "string \<Rightarrow> todo_store agent_host" where
  "todo_host os = \<lparr>ah_hello = store_hello os, ah_snapshot = store_tree, ah_dispatch = store_dispatch,
     ah_screenshot = store_screenshot, ah_keybindings = (\<lambda>_. keybinding_catalog),
     ah_is_app_focused = st_app_focused, ah_revision = (\<lambda>s. Some (st_rev s)),
     ah_event_ring = (\<lambda>s. Some (st_events s))\<rparr>"

end
