(* ===== verification/Todo_Laws.thy ===== *)
theory Todo_Laws
  imports Todo
begin

text \<open>
  Laws of the demo store: its invariant, the uniqueness of the ids of its tree, the
  projection of a tree back to a view, and the revision contract, which every operation
  keeps but \<open>nav.go\<close>.
\<close>

section \<open>Invariant\<close>

definition store_ok :: "todo_store \<Rightarrow> bool" where
  "store_ok s = (sorted_wrt (<) (map td_id (st_items s)) \<and>
     (\<forall>t \<in> set (st_items s). td_id t < st_next_id s \<and> td_title t \<noteq> []))"

definition id_room :: "todo_store \<Rightarrow> bool" where
  "id_room s = (st_next_id s \<noteq> - 1)"

definition rev_room :: "todo_store \<Rightarrow> bool" where
  "rev_room s = (st_rev s \<noteq> - 1)"

lemma store_ok_new: "store_ok (store_new p)"
  by (simp add: store_ok_def store_new_def)

text \<open>What \<open>store_ok\<close> reads.\<close>

lemma store_ok_cong:
  "st_items s = st_items s' \<Longrightarrow> st_next_id s = st_next_id s' \<Longrightarrow> store_ok s = store_ok s'"
  by (simp add: store_ok_def)

lemma update_item_Some:
  "update_item i f ts = Some (t, ts') \<Longrightarrow> (\<And>t. td_id (f t) = td_id t \<and> td_title (f t) = td_title t) \<Longrightarrow>
     map td_id ts' = map td_id ts \<and> map td_title ts' = map td_title ts"
  by (induction ts arbitrary: ts') (auto split: if_splits)

lemma remove_item_Some:
  "remove_item i ts = Some (t, ts') \<Longrightarrow> \<exists>us vs. ts = us @ t # vs \<and> ts' = us @ vs \<and> td_id t = i"
proof (induction ts arbitrary: ts')
  case (Cons a ts)
  show ?case
  proof (cases "td_id a = i")
    case True
    then have "a # ts = [] @ t # ts \<and> ts' = [] @ ts \<and> td_id t = i" using Cons.prems by auto
    then show ?thesis by blast
  next
    case False
    then obtain ts2 where r: "remove_item i ts = Some (t, ts2)" "ts' = a # ts2"
      using Cons.prems by auto
    then obtain us vs where "ts = us @ t # vs \<and> ts2 = us @ vs \<and> td_id t = i"
      using Cons.IH by blast
    then have "a # ts = (a # us) @ t # vs \<and> ts' = (a # us) @ vs \<and> td_id t = i" using r(2) by simp
    then show ?thesis by blast
  qed
qed simp

lemma next_less: "x \<noteq> - 1 \<Longrightarrow> x < x + (1 :: u64)"
  using unatSuc [of x] by (auto simp: word_less_nat_alt add.commute eq_neg_iff_add_eq_0)

lemma add_keeps_ok:
  assumes "store_ok s" "id_room s"
  shows "store_ok (snd (store_add title s))"
proof -
  have "st_next_id s < st_next_id s + 1" using assms(2) by (simp add: id_room_def next_less)
  then have "td_id t < st_next_id s + 1" if "t \<in> set (st_items s)" for t
    using assms(1) that by (auto simp: store_ok_def intro: less_trans)
  then show ?thesis using assms(1) next_less [of "st_next_id s"] assms(2)
    by (auto simp: store_add_def Let_def store_ok_def bump_revision_def sorted_wrt_append id_room_def)
qed

lemma toggle_keeps_ok:
  assumes "store_ok s"
  shows "store_ok (snd (store_toggle i s))"
proof (cases "update_item i (\<lambda>t. t\<lparr>td_done := \<not> td_done t\<rparr>) (st_items s)")
  case (Some r)
  obtain t ts where r: "r = (t, ts)" by fastforce
  have same: "map td_id ts = map td_id (st_items s)" "map td_title ts = map td_title (st_items s)"
    using update_item_Some [OF Some [unfolded r]] by simp_all
  have "\<forall>t \<in> set ts. td_id t < st_next_id s \<and> td_title t \<noteq> []"
  proof
    fix t assume "t \<in> set ts"
    then obtain k where k: "k < length ts" "t = ts ! k" by (auto simp: in_set_conv_nth)
    have len: "length ts = length (st_items s)" using same(1) by (metis length_map)
    have "td_id t = td_id (st_items s ! k)" "td_title t = td_title (st_items s ! k)"
      using k len same by (metis nth_map)+
    then show "td_id t < st_next_id s \<and> td_title t \<noteq> []"
      using assms k len by (auto simp: store_ok_def)
  qed
  then show ?thesis using assms same(1)
    by (simp add: store_toggle_def Some r store_ok_def bump_revision_def)
qed (use assms in \<open>simp add: store_toggle_def\<close>)

lemma delete_keeps_ok:
  assumes "store_ok s"
  shows "store_ok (snd (store_delete i s))"
proof (cases "remove_item i (st_items s)")
  case (Some r)
  obtain t ts where r: "r = (t, ts)" by fastforce
  obtain us vs where "st_items s = us @ t # vs" "ts = us @ vs"
    using remove_item_Some [OF Some [unfolded r]] by blast
  moreover have "store_delete i s = (Inr t, bump_revision (s\<lparr>st_items := ts\<rparr>))"
    by (simp add: store_delete_def Some r)
  ultimately show ?thesis using assms
    by (auto simp: store_ok_def bump_revision_def sorted_wrt_append)
qed (use assms in \<open>simp add: store_delete_def\<close>)

named_theorems store_ops \<open>definitions of the store's small operations\<close>

lemmas [store_ops] = bump_revision_def store_go_def toggle_confirm_delete_def toggle_sidebar_def
  set_draft_def store_click_def store_type_into_def store_set_value_def store_key_def
  store_invoke_def perform_keybinding_def fire_keybinding_def on_todo_def add_from_draft_def

lemma items_only [simp]:
  "store_ok (s\<lparr>st_rev := r\<rparr>) = store_ok s" "store_ok (s\<lparr>st_page := p\<rparr>) = store_ok s"
  "store_ok (s\<lparr>st_draft := d\<rparr>) = store_ok s" "store_ok (s\<lparr>st_sidebar_open := b\<rparr>) = store_ok s"
  "store_ok (s\<lparr>st_confirm_delete := b\<rparr>) = store_ok s" "store_ok (s\<lparr>st_shutdown := b\<rparr>) = store_ok s"
  "store_ok (s\<lparr>st_app_focused := b\<rparr>) = store_ok s" "store_ok (s\<lparr>st_events := e\<rparr>) = store_ok s"
  by (simp_all add: store_ok_def)

lemma click_keeps_ok: "store_ok s \<Longrightarrow> id_room s \<Longrightarrow> store_ok (snd (store_click target s))"
  by (auto simp: store_ops Let_def case_prod_unfold add_keeps_ok toggle_keeps_ok delete_keeps_ok
      split: option.split)

lemma invoke_keeps_ok: "store_ok s \<Longrightarrow> id_room s \<Longrightarrow> store_ok (snd (store_invoke name args s))"
  by (auto simp: store_ops Let_def case_prod_unfold add_keeps_ok toggle_keeps_ok delete_keeps_ok
      split: option.split sum.split)

lemma binding_keeps_ok: "store_ok s \<Longrightarrow> store_ok (snd (perform_keybinding b s))"
  by (auto simp: store_ops)

lemma dispatch_keeps_ok:
  assumes "store_ok s" "id_room s"
  shows "store_ok (snd (store_dispatch op s))"
  using assms
  by (cases op)
    (auto simp: store_dispatch_def click_keeps_ok invoke_keeps_ok binding_keeps_ok case_prod_unfold,
     auto simp: store_ops Let_def case_prod_unfold add_keeps_ok binding_keeps_ok)

section \<open>Revisions\<close>

fun is_nav_go :: "op \<Rightarrow> bool" where
  "is_nav_go (OpInvoke name _) = (name = ''nav.go'')"
| "is_nav_go _ = False"

text \<open>What the tree of the store shows.\<close>

definition same_view :: "todo_store \<Rightarrow> todo_store \<Rightarrow> bool" where
  "same_view s s' = (st_items s = st_items s' \<and> st_draft s = st_draft s' \<and> st_page s = st_page s' \<and>
     st_confirm_delete s = st_confirm_delete s' \<and> st_sidebar_open s = st_sidebar_open s' \<and>
     st_platform s = st_platform s')"

lemma store_tree_same:
  assumes "same_view s s'" "st_rev s = st_rev s'"
  shows "store_tree s = store_tree s'"
proof -
  have "todos_page s = todos_page s'" "settings_page s = settings_page s'" "nav_node s = nav_node s'"
    using assms by (simp_all add: same_view_def todos_page_def settings_page_def nav_node_def)
  then show ?thesis using assms by (simp add: store_tree_def same_view_def cong: page.case_cong)
qed

text \<open>An operation bumps the counter, or it leaves what is shown and the counter as they are.\<close>

definition bumps_or_keeps :: "todo_store \<Rightarrow> todo_store \<Rightarrow> bool" where
  "bumps_or_keeps s s' = (st_rev s' = st_rev s + 1 \<or> st_rev s' = st_rev s \<and> same_view s s')"

lemma same_view_refl [simp]: "same_view s s"
  by (simp add: same_view_def)

lemma store_results:
  "bumps_or_keeps s (snd (store_add t s))" "bumps_or_keeps s (snd (store_toggle i s))"
  "bumps_or_keeps s (snd (store_delete i s))"
  by (auto simp: bumps_or_keeps_def store_add_def store_toggle_def store_delete_def bump_revision_def
      Let_def split: option.split)

lemma bumps_simps [simp]:
  "bumps_or_keeps s s" "st_rev s' = st_rev s \<Longrightarrow> bumps_or_keeps s (bump_revision s')"
  "bumps_or_keeps s (s\<lparr>st_shutdown := b\<rparr>)" "bumps_or_keeps s (s\<lparr>st_app_focused := b\<rparr>)"
  by (auto simp: bumps_or_keeps_def bump_revision_def same_view_def)

lemma bumps_events: "bumps_or_keeps s s' \<Longrightarrow> bumps_or_keeps s (s'\<lparr>st_events := e\<rparr>)"
  by (simp add: bumps_or_keeps_def same_view_def)

lemmas mutators = store_go_def toggle_confirm_delete_def toggle_sidebar_def on_todo_def add_from_draft_def

lemma click_bumps: "bumps_or_keeps s (snd (store_click t s))"
  by (simp add: store_click_def mutators store_results Let_def case_prod_unfold split: option.split)

lemma binding_bumps: "bumps_or_keeps s (snd (perform_keybinding b s))"
  by (simp add: perform_keybinding_def)

lemma fire_bumps: "bumps_or_keeps s (snd (fire_keybinding op s))"
proof -
  have "bumps_or_keeps s (snd (perform_keybinding b (s\<lparr>st_app_focused := True\<rparr>)))" for b
    by (simp add: perform_keybinding_def)
  then show ?thesis
    by (cases op) (simp_all add: fire_keybinding_def binding_bumps)
qed

lemma invoke_bumps: "name \<noteq> ''nav.go'' \<Longrightarrow> bumps_or_keeps s (snd (store_invoke name args s))"
  by (simp add: store_invoke_def mutators store_results Let_def case_prod_unfold
      split: option.split sum.split)

lemma key_bumps: "bumps_or_keeps s (snd (store_key t k s))"
  by (simp add: store_key_def mutators store_results case_prod_unfold)

lemma edit_bumps:
  "bumps_or_keeps s (snd (store_type_into t v s))" "bumps_or_keeps s (snd (store_set_value t v s))"
  by (simp_all add: store_type_into_def store_set_value_def Let_def)

lemma dispatch_bumps: "\<not> is_nav_go op \<Longrightarrow> bumps_or_keeps s (snd (store_dispatch op s))"
  by (cases op)
    (simp_all add: store_dispatch_def case_prod_unfold click_bumps key_bumps edit_bumps fire_bumps
      invoke_bumps bumps_events)

text \<open>The store keeps the revision contract for every operation but \<open>nav.go\<close>.\<close>

interpretation todo_revision: revision_contract "todo_host os" rev_room "\<lambda>op. \<not> is_nav_go op"
proof
  fix h :: todo_store and op
  assume room: "rev_room h" and op: "\<not> is_nav_go op"
  have bk: "bumps_or_keeps h (snd (store_dispatch op h))" using op by (rule dispatch_bumps)
  have less: "st_rev h < st_rev h + 1" using room by (simp add: rev_room_def next_less)
  show "the (ah_revision (todo_host os) h)
      \<le> the (ah_revision (todo_host os) (snd (ah_dispatch (todo_host os) op h)))"
    using bk less by (auto simp: todo_host_def bumps_or_keeps_def)
  assume "ah_revision (todo_host os) (snd (ah_dispatch (todo_host os) op h)) = ah_revision (todo_host os) h"
  then have "same_view h (snd (store_dispatch op h))" "st_rev h = st_rev (snd (store_dispatch op h))"
    using bk less by (auto simp: todo_host_def bumps_or_keeps_def)
  from store_tree_same [OF this]
  show "ah_snapshot (todo_host os) (snd (ah_dispatch (todo_host os) op h)) = ah_snapshot (todo_host os) h"
    by (simp add: todo_host_def)
qed (simp add: todo_host_def)

text \<open>\<open>nav.go\<close> changes the page under the same revision.\<close>

lemma nav_go_lies:
  "snd (store_dispatch (OpInvoke ''nav.go'' (json_obj [(''page'', JStr ''settings'')])) s)
     = s\<lparr>st_page := Settings, st_events := ring_put (Info, ''todo'', ''invoke nav.go'') (st_events s)\<rparr>"
  by (simp add: store_dispatch_def store_invoke_def is_virtual_input_def json_get_obj)

section \<open>The tree\<close>

lemma new_node_ids [simp]: "node_ids (new_node i r n) = [i]"
  by (simp add: new_node_def)

lemma with_ids [simp]:
  "node_ids (with_child c n) = node_ids n @ node_ids c"
  "node_ids (with_checked b n) = node_ids n" "node_ids (with_value v n) = node_ids n"
  by (cases n; simp add: with_checked_def with_value_def)+

lemma with_children_ids [simp]: "node_ids (with_children cs (new_node i r n)) = i # forest_ids cs"
  by (simp add: new_node_def)

lemma with_visible_deep_ids [simp]: "node_ids (with_visible_deep v n) = node_ids n"
proof (induction v n rule: with_visible_deep.induct)
  case (1 v d cs)
  then have "\<not> v \<Longrightarrow> map (node_ids \<circ> with_visible_deep False) cs = map node_ids cs" by simp
  then show ?case by (simp add: forest_ids_def del: map_eq_conv)
qed

lemma item_node_ids:
  "node_ids (item_node t) = [id_item (td_id t), id_toggle (td_id t), id_delete (td_id t)]"
  by (simp add: item_node_def)

definition item_ids :: "todo list \<Rightarrow> string list" where
  "item_ids ts = concat (map (\<lambda>t. [id_item (td_id t), id_toggle (td_id t), id_delete (td_id t)]) ts)"

lemma store_tree_ids:
  "tree_ids (store_tree s) = [id_window, id_nav_toggle, id_nav, id_nav_todos, id_nav_settings] @
     (case st_page s of
        Todos \<Rightarrow> [id_page_todos, id_input, id_add, id_list_scroll, id_list] @
          (if st_items s = [] then [id_empty] else item_ids (st_items s)) @ [id_status]
      | Settings \<Rightarrow> [id_page_settings, id_settings_confirm_delete])"
proof -
  have nav: "node_ids (nav_node s) = [id_nav, id_nav_todos, id_nav_settings]"
    by (simp add: nav_node_def Let_def)
  have items: "forest_ids (map item_node ts) = item_ids ts" for ts
    by (simp add: forest_ids_def item_ids_def comp_def item_node_ids)
  show ?thesis
    by (simp add: tree_ids_def store_tree_def Let_def nav todos_page_def settings_page_def items
        split: page.split)
qed

text \<open>Numbered ids: the number and the prefix are read back from the text.\<close>

lemma unat_dec_inj: "dec (unat (i :: u64)) = dec (unat j) \<longleftrightarrow> i = j"
  by (simp add: dec_inj word_unat_eq_iff)

lemma numbered_ids [simp]:
  "id_item i = id_item j \<longleftrightarrow> i = j" "id_toggle i = id_toggle j \<longleftrightarrow> i = j"
  "id_delete i = id_delete j \<longleftrightarrow> i = j"
  "id_item i \<noteq> id_toggle j" "id_toggle j \<noteq> id_item i" "id_item i \<noteq> id_delete j"
  "id_delete j \<noteq> id_item i" "id_toggle i \<noteq> id_delete j" "id_delete j \<noteq> id_toggle i"
  by (simp_all add: id_item_def id_toggle_def id_delete_def unat_dec_inj)

lemma item_ids_distinct:
  assumes "distinct (map td_id ts)"
  shows "distinct (item_ids ts)"
  using assms by (induction ts) (auto simp: item_ids_def)

lemma item_ids_prefix:
  "x \<in> set (item_ids ts) \<Longrightarrow> \<exists>i. x = id_item i \<or> x = id_toggle i \<or> x = id_delete i"
  by (auto simp: item_ids_def)

lemma fixed_ids_not_item:
  assumes "x \<in> set (item_ids ts)"
  shows "x \<notin> {id_window, id_nav_toggle, id_nav, id_nav_todos, id_nav_settings, id_page_todos,
     id_input, id_add, id_list_scroll, id_list, id_status, id_page_settings, id_settings_confirm_delete}"
  using item_ids_prefix [OF assms]
  by (auto simp: id_item_def id_toggle_def id_delete_def id_defs)

lemma store_tree_distinct:
  assumes "distinct (map td_id (st_items s))"
  shows "distinct (tree_ids (store_tree s))"
proof -
  have fixed: "distinct [id_window, id_nav_toggle, id_nav, id_nav_todos, id_nav_settings, id_page_todos,
     id_input, id_add, id_list_scroll, id_list, id_empty, id_status]"
    "distinct [id_window, id_nav_toggle, id_nav, id_nav_todos, id_nav_settings, id_page_settings,
     id_settings_confirm_delete]"
    by code_simp+
  show ?thesis
    using fixed item_ids_distinct [OF assms] fixed_ids_not_item [of _ "st_items s"]
    by (auto simp: store_tree_ids split: page.split)
qed

lemma store_ok_distinct: "store_ok s \<Longrightarrow> distinct (map td_id (st_items s))"
  by (simp add: store_ok_def strict_sorted_iff)

section \<open>The view of a tree\<close>

definition node_datas :: "ui_node \<Rightarrow> node_data list" where
  "node_datas n = map data (node_flatten n)"

lemma node_datas_simps [simp]:
  "node_datas (UiNode d cs) = d # concat (map node_datas cs)"
  "node_datas (with_child c n) = node_datas n @ node_datas c"
  by (cases n; simp add: node_datas_def [abs_def] map_concat comp_def)+

lemma node_datas_map_data: "node_datas (map_data f n) = f (hd (node_datas n)) # tl (node_datas n)"
  by (cases n) simp

definition base_data :: "string \<Rightarrow> string \<Rightarrow> string \<Rightarrow> node_data" where
  "base_data i r n = data (new_node i r n)"

lemma base_data_simps [simp]:
  "node_datas (new_node i r n) = [base_data i r n]" "nd_id (base_data i r n) = i"
  "nd_name (base_data i r n) = n" "nd_checked (base_data i r n) = None"
  "nd_value (base_data i r n) = None" "nd_visible (base_data i r n)"
  by (simp_all add: base_data_def new_node_def)

lemma node_datas_children [simp]:
  "node_datas (with_children cs (new_node i r n)) = base_data i r n # concat (map node_datas cs)"
  by (simp add: new_node_def base_data_def)

lemma find_data: "map_option data (List.find (\<lambda>n. P (data n)) ns) = List.find P (map data ns)"
  by (induction ns) auto

lemma tree_find_data: "map_option data (tree_find t i) = List.find (\<lambda>d. nd_id d = i) (map data (tree_flatten t))"
  unfolding tree_find_first by (rule find_data)

definition view_data :: "node_data \<Rightarrow> todo option" where
  "view_data d = map_option (\<lambda>i. \<lparr>td_id = i, td_title = nd_name d,
       td_done = (case nd_checked d of None \<Rightarrow> False | Some b \<Rightarrow> b)\<rparr>)
     (parse_numbered_id ''todo-item-'' (nd_id d))"

text \<open>A view is read off the data of the nodes in order.\<close>

lemma view_from_datas:
  assumes "ds = map data (tree_flatten t)"
  shows "view_from_tree t =
     \<lparr>tv_items = sort_key td_id (List.map_filter view_data ds),
      tv_draft = (case Option.bind (List.find (\<lambda>d. nd_id d = id_input) ds) nd_value of
                    None \<Rightarrow> [] | Some v \<Rightarrow> v),
      tv_page = (if List.find (\<lambda>d. nd_id d = id_page_settings) ds \<noteq> None then Settings else Todos),
      tv_confirm_delete =
        (case Option.bind (List.find (\<lambda>d. nd_id d = id_settings_confirm_delete) ds) nd_checked of
           None \<Rightarrow> False | Some b \<Rightarrow> b),
      tv_sidebar_open = (case List.find (\<lambda>d. nd_id d = id_nav) ds of None \<Rightarrow> True | Some d \<Rightarrow> nd_visible d)\<rparr>"
proof -
  have "view_item n = view_data (data n)" for n by (simp add: view_item_def view_data_def)
  then have "List.map_filter view_item ns = List.map_filter view_data (map data ns)" for ns
    by (induction ns) (simp_all add: map_filter_simps split: option.split)
  note items = this [of "tree_flatten t", folded assms]
  show ?thesis
    unfolding view_from_tree_def
    by (cases "tree_find t id_input"; cases "tree_find t id_page_settings";
        cases "tree_find t id_settings_confirm_delete"; cases "tree_find t id_nav")
       (simp_all add: items, simp_all add: assms tree_find_data [symmetric])
qed

lemma parse_item_ids [simp]:
  "parse_numbered_id ''todo-item-'' (id_item i) = Some i"
  "parse_numbered_id ''todo-item-'' (id_toggle i) = None"
  "parse_numbered_id ''todo-item-'' (id_delete i) = None"
proof -
  have "parse_unsigned (2 ^ 64) (dec (unat i)) = Some (unat i)"
    using unsigned_less [of i, where ?'a = nat] by (intro parse_unsigned_dec) simp
  then show "parse_numbered_id ''todo-item-'' (id_item i) = Some i"
    by (simp add: parse_numbered_id_def id_item_def strip_prefix_def)
qed (simp_all add: parse_numbered_id_def id_toggle_def id_delete_def strip_prefix_def)

lemma parse_fixed_ids [simp]:
  "parse_numbered_id ''todo-item-'' id_window = None" "parse_numbered_id ''todo-item-'' id_nav = None"
  "parse_numbered_id ''todo-item-'' id_nav_toggle = None" "parse_numbered_id ''todo-item-'' id_add = None"
  "parse_numbered_id ''todo-item-'' id_nav_todos = None" "parse_numbered_id ''todo-item-'' id_input = None"
  "parse_numbered_id ''todo-item-'' id_nav_settings = None" "parse_numbered_id ''todo-item-'' id_list = None"
  "parse_numbered_id ''todo-item-'' id_page_todos = None" "parse_numbered_id ''todo-item-'' id_empty = None"
  "parse_numbered_id ''todo-item-'' id_list_scroll = None" "parse_numbered_id ''todo-item-'' id_status = None"
  "parse_numbered_id ''todo-item-'' id_page_settings = None"
  "parse_numbered_id ''todo-item-'' id_settings_confirm_delete = None"
  by (simp_all add: parse_numbered_id_def strip_prefix_def id_defs)

lemma view_data_None: "parse_numbered_id ''todo-item-'' (nd_id d) = None \<Longrightarrow> view_data d = None"
  by (simp add: view_data_def)

definition checked_data :: "bool \<Rightarrow> node_data \<Rightarrow> node_data" where
  "checked_data c d = d\<lparr>nd_checked := Some c,
     nd_states := nd_states d @ [if c then ''checked'' else ''unchecked'']\<rparr>"

lemma item_node_datas:
  "node_datas (item_node t) =
     [checked_data (td_done t) (base_data (id_item (td_id t)) role_listitem (td_title t)),
      checked_data (td_done t) (base_data (id_toggle (td_id t)) role_checkbox (td_title t)),
      base_data (id_delete (td_id t)) role_button (''Delete '' @ td_title t)]"
  by (simp add: item_node_def with_checked_def node_datas_map_data checked_data_def)

lemma view_item_node: "List.map_filter view_data (node_datas (item_node t)) = [t]"
  by (simp add: item_node_datas map_filter_simps view_data_def checked_data_def)

lemma map_filter_append: "List.map_filter f (xs @ ys) = List.map_filter f xs @ List.map_filter f ys"
  by (simp add: List.map_filter_def)

lemma view_items: "List.map_filter view_data (concat (map (node_datas \<circ> item_node) ts)) = ts"
  by (induction ts) (simp_all add: map_filter_append view_item_node map_filter_simps)

lemma find_append: "List.find P (xs @ ys) = (case List.find P xs of Some x \<Rightarrow> Some x | None \<Rightarrow> List.find P ys)"
  by (induction xs) auto

lemma find_not_item:
  assumes "x \<in> {id_page_settings, id_settings_confirm_delete}"
  shows "List.find (\<lambda>d. nd_id d = x) (concat (map (node_datas \<circ> item_node) ts)) = None"
  using assms
  by (auto simp: find_None_iff item_node_datas checked_data_def id_defs id_item_def id_toggle_def
      id_delete_def)

lemma nav_datas:
  "node_datas (nav_node s) = map (\<lambda>d. d\<lparr>nd_visible := st_sidebar_open s\<rparr>)
     [base_data id_nav role_navigation ''Todo'', base_data id_nav_todos role_button ''Todos'',
      base_data id_nav_settings role_button ''Settings'']"
  by (simp add: nav_node_def Let_def base_data_def new_node_def)

lemma find_none_datas:
  assumes "\<forall>d \<in> set ds. nd_id d \<noteq> x" shows "List.find (\<lambda>d. nd_id d = x) ds = None"
  using assms by (simp add: find_None_iff)

lemma todos_page_datas:
  "\<exists>status. node_datas (todos_page s) =
     [base_data id_page_todos role_page ''Todos'',
      (base_data id_input role_textbox ''What needs doing?'')\<lparr>nd_value := Some (st_draft s)\<rparr>,
      base_data id_add role_button ''Add'', base_data id_list_scroll role_scroll ''Todo list'',
      base_data id_list role_list ''Todos''] @
     (if st_items s = [] then [base_data id_empty role_note ''No todos yet. Add one above.'']
      else concat (map (node_datas \<circ> item_node) (st_items s))) @
     [base_data id_status role_status status]"
  by (rule exI [of _ "if st_items s = [] then ''No todos''
            else dec (length (st_items s)) @ '' todos, ''
              @ dec (length (filter td_done (st_items s))) @ '' done''"])
    (simp add: todos_page_def Let_def with_value_def node_datas_map_data comp_def)

lemma settings_page_datas:
  "node_datas (settings_page s) = [base_data id_page_settings role_page ''Settings'',
     checked_data (st_confirm_delete s)
       (base_data id_settings_confirm_delete role_checkbox ''Confirm before delete'')]"
  by (simp add: settings_page_def with_checked_def node_datas_map_data checked_data_def)

lemma store_tree_datas:
  "map data (tree_flatten (store_tree s)) =
     base_data id_window role_window ''Agent Todo'' #
     base_data id_nav_toggle role_button (if st_sidebar_open s then ''Hide sidebar'' else ''Show sidebar'') #
     node_datas (nav_node s) @
     node_datas (case st_page s of Todos \<Rightarrow> todos_page s | Settings \<Rightarrow> settings_page s)"
  by (simp add: store_tree_def tree_flatten_def Let_def flip: node_datas_def)

lemma id_neqs [simp]:
  "id_window \<noteq> id_input" "id_window \<noteq> id_page_settings" "id_window \<noteq> id_settings_confirm_delete"
  "id_window \<noteq> id_nav" "id_nav_toggle \<noteq> id_input" "id_nav_toggle \<noteq> id_page_settings"
  "id_nav_toggle \<noteq> id_settings_confirm_delete" "id_nav_toggle \<noteq> id_nav" "id_nav \<noteq> id_input"
  "id_nav \<noteq> id_page_settings" "id_nav \<noteq> id_settings_confirm_delete" "id_nav_todos \<noteq> id_input"
  "id_nav_todos \<noteq> id_page_settings" "id_nav_todos \<noteq> id_settings_confirm_delete"
  "id_nav_settings \<noteq> id_input" "id_nav_settings \<noteq> id_page_settings"
  "id_nav_settings \<noteq> id_settings_confirm_delete" "id_page_todos \<noteq> id_input"
  "id_page_todos \<noteq> id_page_settings" "id_page_todos \<noteq> id_settings_confirm_delete"
  "id_input \<noteq> id_page_settings" "id_input \<noteq> id_settings_confirm_delete"
  "id_add \<noteq> id_page_settings" "id_add \<noteq> id_settings_confirm_delete"
  "id_list_scroll \<noteq> id_page_settings" "id_list_scroll \<noteq> id_settings_confirm_delete"
  "id_list \<noteq> id_page_settings" "id_list \<noteq> id_settings_confirm_delete"
  "id_empty \<noteq> id_page_settings" "id_empty \<noteq> id_settings_confirm_delete"
  "id_status \<noteq> id_page_settings" "id_status \<noteq> id_settings_confirm_delete"
  "id_page_settings \<noteq> id_input" "id_page_settings \<noteq> id_settings_confirm_delete"
  "id_settings_confirm_delete \<noteq> id_input" "id_settings_confirm_delete \<noteq> id_page_settings"
  by (simp_all add: id_defs)

text \<open>On the todo page the view shows the store, on the settings page only its setting.\<close>

lemma view_of_store:
  assumes "store_ok s"
  shows "view_from_tree (store_tree s) = (case st_page s of
       Todos \<Rightarrow> \<lparr>tv_items = st_items s, tv_draft = st_draft s, tv_page = Todos,
                  tv_confirm_delete = False, tv_sidebar_open = st_sidebar_open s\<rparr>
     | Settings \<Rightarrow> \<lparr>tv_items = [], tv_draft = [], tv_page = Settings,
                  tv_confirm_delete = st_confirm_delete s, tv_sidebar_open = st_sidebar_open s\<rparr>)"
proof -
  have sorted: "sort_key td_id (st_items s) = st_items s"
    using assms by (intro sort_key_id_if_sorted) (simp add: store_ok_def strict_sorted_imp_sorted)
  note view = view_from_datas [OF store_tree_datas [symmetric], of s]
  note eval = nav_datas view_data_None map_filter_simps map_filter_append find_append view_items
    find_not_item sorted
  show ?thesis
  proof (cases "st_page s")
    case Settings
    then show ?thesis unfolding view
      by (simp add: settings_page_datas eval checked_data_def)
  next
    case Todos
    obtain status where page: "node_datas (todos_page s) =
     [base_data id_page_todos role_page ''Todos'',
      (base_data id_input role_textbox ''What needs doing?'')\<lparr>nd_value := Some (st_draft s)\<rparr>,
      base_data id_add role_button ''Add'', base_data id_list_scroll role_scroll ''Todo list'',
      base_data id_list role_list ''Todos''] @
     (if st_items s = [] then [base_data id_empty role_note ''No todos yet. Add one above.'']
      else concat (map (node_datas \<circ> item_node) (st_items s))) @
     [base_data id_status role_status status]"
      using todos_page_datas by blast
    show ?thesis unfolding view using Todos
      by (cases "st_items s = []") (simp_all add: page eval)
  qed
qed

end
