(* ===== verification/Diff_Laws.thy ===== *)
theory Diff_Laws
  imports Tree_Diff
begin

text \<open>
  Laws of the diff: what \<open>index\<close> holds, what a field diff keeps and loses, and that
  applying the diff of two trees of one shape to the old tree gives the new one when no
  field is cleared.
\<close>

section \<open>The index\<close>

lemma index_loop_pairs:
  "index_loop stack out =
     fold (\<lambda>(n, p). bt_insert (nid n) (n, p)) (concat (map (\<lambda>(n, p). node_pairs p n) stack)) out"
proof (induction stack out rule: index_loop.induct)
  case (2 d cs parent stack out)
  then show ?case by (simp add: forest_pairs_def comp_def)
qed simp

lemma index_pairs: "index t = fold (\<lambda>(n, p). bt_insert (nid n) (n, p)) (tree_pairs t) []"
  by (simp add: index_def index_loop_pairs tree_pairs_def forest_pairs_def comp_def)

lemma index_ok: "bt_ok (index t)"
  using bt_fold_insert(1) [of "[]" "\<lambda>(n, _). nid n" "\<lambda>x. x" "tree_pairs t"]
  by (simp add: index_pairs case_prod_unfold)

lemma index_keys: "set (map fst (index t)) = set (tree_ids t)"
proof -
  have keys: "set (map fst (fold (\<lambda>(n, p). bt_insert (nid n) (n, p)) xs m)) =
      set (map (\<lambda>x. nid (fst x)) xs) \<union> set (map fst m)" for xs m
    by (induction xs arbitrary: m) (auto simp del: set_map)
  show ?thesis unfolding index_pairs keys by (simp add: image_image flip: tree_pairs_ids)
qed

lemma index_lookup_find:
  assumes "distinct (tree_ids t)"
  shows "map_of (index t) i = List.find (\<lambda>(n, _). nid n = i) (tree_pairs t)"
proof -
  have "distinct (map (\<lambda>x. nid (fst x)) (tree_pairs t))"
    using assms by (simp add: comp_def flip: tree_pairs_ids)
  from bt_fold_insert(2) [OF bt_ok_Nil this, of "\<lambda>x. x"]
  show ?thesis by (simp add: index_pairs map_of_keyed case_prod_unfold option.map_ident)
qed

lemma index_lookup_SomeD: "map_of (index t) i = Some (n, p) \<Longrightarrow> (n, p) \<in> set (tree_pairs t) \<and> nid n = i"
proof -
  have "(i, n, p) \<in> set (fold (\<lambda>(n, p). bt_insert (nid n) (n, p)) xs m) \<Longrightarrow>
     (n, p) \<in> set xs \<and> nid n = i \<or> (i, n, p) \<in> set m" for xs m
  proof (induction xs arbitrary: m)
    case (Cons x xs)
    have ins: "(i, n, p) \<in> set (bt_insert k v m) \<Longrightarrow> (i, n, p) = (k, v) \<or> (i, n, p) \<in> set m" for k v m
      by (induction k v m rule: bt_insert.induct) (auto split: if_splits)
    show ?case using Cons.IH [of "bt_insert (nid (fst x)) x m"] Cons.prems ins
      by (cases x) (auto dest!: ins)
  qed simp
  from this [of "tree_pairs t" "[]"] show "map_of (index t) i = Some (n, p) \<Longrightarrow> ?thesis"
    by (auto simp: index_pairs dest: map_of_SomeD)
qed

section \<open>Field diffs\<close>

lemma bt_ok_filter: "bt_ok m \<Longrightarrow> bt_ok (filter P m)"
  by (induction m) (auto simp: bt_ok_def)

lemma map_of_filter_key: "map_of (filter (\<lambda>(k, _). P k) m) k = (if P k then map_of m k else None)"
  by (induction m) auto

lemma data_fields_distinct: "distinct (map fst (data_fields d @ opt_field ''children'' c))"
  by (auto simp: data_fields_def opt_field_def split: option.splits)

lemma json_obj_lookup:
  assumes "distinct (map fst kvs)"
  shows "\<exists>m. json_obj kvs = JObj m \<and> bt_ok m \<and> map_of m = map_of kvs"
proof -
  have "map (\<lambda>x. (fst x, snd x)) kvs = kvs" by simp
  then show ?thesis
    using bt_fold_insert(1) [of "[]" fst snd kvs] bt_fold_insert(2) [of "[]" fst kvs snd] assms
    by (auto simp: json_obj_def case_prod_unfold)
qed

lemma scalar_fields_ok: "bt_ok (scalar_fields n)"
proof (cases n)
  case (UiNode d cs)
  obtain m where "json_of_node n = JObj m" "bt_ok m"
    using json_obj_lookup [OF data_fields_distinct] UiNode by (metis json_of_node.simps)
  then show ?thesis by (simp add: scalar_fields_def bt_ok_filter)
qed

lemma scalar_fields_lookup:
  "map_of (scalar_fields n) k =
     (if k \<in> set NODE_FIELDS then map_of (data_fields (data n)) k else None)"
proof (cases n)
  case (UiNode d cs)
  obtain m where m: "json_of_node n = JObj m"
    "map_of m = map_of (data_fields d @ opt_field ''children''
       (if cs = [] then None else Some (JArr (map json_of_node cs))))"
    using json_obj_lookup [OF data_fields_distinct] UiNode by (metis json_of_node.simps)
  have "k \<in> set NODE_FIELDS \<Longrightarrow> map_of m k = map_of (data_fields d) k"
    by (auto simp: m(2) NODE_FIELDS_def map_add_def opt_field_def split: option.splits)
  moreover have "data n = d" using UiNode by simp
  ultimately show ?thesis by (simp add: scalar_fields_def m(1) map_of_filter_key)
qed

lemma changed_fields_ok: "bt_ok (changed_fields a b)"
  by (simp add: changed_fields_def Let_def bt_ok_filter scalar_fields_ok)

lemma changed_fields_lookup:
  "map_of (changed_fields a b) k =
     (if map_of (scalar_fields b) k = map_of (scalar_fields a) k then None
      else map_of (scalar_fields b) k)"
proof -
  have "distinct (map fst m) \<Longrightarrow>
      map_of (filter (\<lambda>(k, v). f k \<noteq> Some v) m) k = (if map_of m k = f k then None else map_of m k)"
    for m :: "(string \<times> json) list" and f
  proof (induction m)
    case (Cons x m)
    have "fst x = k \<Longrightarrow> map_of m k = None" using Cons.prems by (auto simp: map_of_eq_None_iff)
    then show ?case using Cons by (cases x) auto
  qed simp
  then show ?thesis using scalar_fields_ok [of b]
    by (simp add: changed_fields_def Let_def bt_ok_def)
qed

lemma changed_fields_same_data: "data a = data b \<Longrightarrow> changed_fields a b = []"
proof -
  assume "data a = data b"
  then have "map_of (changed_fields a b) k = None" for k
    by (simp add: changed_fields_lookup scalar_fields_lookup)
  then show ?thesis by (metis map_of_eq_empty_iff)
qed

lemma data_field_lookups:
  "map_of (data_fields d) ''role'' = Some (JStr (nd_role d))"
  "map_of (data_fields d) ''name'' = Some (JStr (nd_name d))"
  "map_of (data_fields d) ''value'' = map_option JStr (nd_value d)"
  "map_of (data_fields d) ''checked'' = map_option JBool (nd_checked d)"
  "map_of (data_fields d) ''enabled'' = Some (JBool (nd_enabled d))"
  "map_of (data_fields d) ''focused'' = Some (JBool (nd_focused d))"
  "map_of (data_fields d) ''visible'' = (if nd_visible d then None else Some (JBool False))"
  "map_of (data_fields d) ''bounds'' = Some (json_of_bounds (nd_bounds d))"
  "map_of (data_fields d) ''states'' =
     (if nd_states d = [] then None else Some (JArr (map JStr (nd_states d))))"
  by (auto simp: data_fields_def opt_field_def split: option.splits)

subsection \<open>Applying fields\<close>

lemma apply_fields_component:
  assumes "distinct (map fst fs)"
    and other: "\<And>k v d. k \<noteq> k0 \<Longrightarrow> sel (apply_field k v d) = sel d"
    and hit: "\<And>v d. sel (apply_field k0 v d) = g v (sel d)"
  shows "sel (apply_fields fs d) = (case map_of fs k0 of None \<Rightarrow> sel d | Some v \<Rightarrow> g v (sel d))"
  using assms(1)
proof (induction fs arbitrary: d)
  case (Cons kv fs)
  obtain k v where kv: "kv = (k, v)" by (cases kv)
  have step: "apply_fields (kv # fs) d = apply_fields fs (apply_field k v d)"
    by (simp add: apply_fields_def kv)
  show ?case
  proof (cases "k = k0")
    case True
    then have "map_of fs k0 = None" using Cons.prems kv by (auto simp: map_of_eq_None_iff)
    then show ?thesis using Cons True step kv by (simp add: hit)
  next
    case False
    then show ?thesis using Cons step kv by (simp add: other split: option.split)
  qed
qed (simp add: apply_fields_def)

lemma apply_fields_id: "nd_id (apply_fields fs d) = nd_id d"
proof -
  have step: "nd_id (apply_field k v d) = nd_id d" for k v d
    by (simp add: apply_field_def split: option.splits)
  show ?thesis unfolding apply_fields_def
    by (induction fs arbitrary: d) (auto simp: step)
qed

lemmas component = apply_fields_component [OF changed_fields_ok [unfolded bt_ok_def, THEN conjunct2]]

lemma apply_changed_components:
  fixes a b :: ui_node and d :: node_data
  defines "r \<equiv> apply_fields (changed_fields a b) d"
  defines "fs \<equiv> map_of (changed_fields a b)"
  shows "nd_role r = (case fs ''role'' of None \<Rightarrow> nd_role d | Some v \<Rightarrow> case_option '''' (\<lambda>s. s) (as_str v))"
    "nd_name r = (case fs ''name'' of None \<Rightarrow> nd_name d | Some v \<Rightarrow> case_option '''' (\<lambda>s. s) (as_str v))"
    "nd_value r = (case fs ''value'' of None \<Rightarrow> nd_value d | Some v \<Rightarrow> as_str v)"
    "nd_checked r = (case fs ''checked'' of None \<Rightarrow> nd_checked d | Some v \<Rightarrow> as_bool v)"
    "nd_enabled r = (case fs ''enabled'' of None \<Rightarrow> nd_enabled d | Some v \<Rightarrow> case_option True (\<lambda>b. b) (as_bool v))"
    "nd_focused r = (case fs ''focused'' of None \<Rightarrow> nd_focused d | Some v \<Rightarrow> case_option False (\<lambda>b. b) (as_bool v))"
    "nd_visible r = (case fs ''visible'' of None \<Rightarrow> nd_visible d | Some v \<Rightarrow> case_option True (\<lambda>b. b) (as_bool v))"
    "nd_bounds r = (case fs ''bounds'' of None \<Rightarrow> nd_bounds d
       | Some v \<Rightarrow> (case bounds_of_json v of Some b \<Rightarrow> b | None \<Rightarrow> nd_bounds d))"
    "nd_states r = (case fs ''states'' of None \<Rightarrow> nd_states d
       | Some v \<Rightarrow> (case strings_of_json v of Some s \<Rightarrow> s | None \<Rightarrow> nd_states d))"
  unfolding r_def fs_def
  by (rule component; auto simp: apply_field_def split: option.splits)+

text \<open>The field changes a diff cannot express: a field becomes absent on the wire.\<close>

definition lossless :: "node_data \<Rightarrow> node_data \<Rightarrow> bool" where
  "lossless old new =
     ((nd_value new = None \<longrightarrow> nd_value old = None) \<and>
      (nd_checked new = None \<longrightarrow> nd_checked old = None) \<and>
      (nd_visible new \<longrightarrow> nd_visible old) \<and>
      (nd_states new = [] \<longrightarrow> nd_states old = []))"

definition finite_f32 :: "f32 \<Rightarrow> bool" where
  "finite_f32 x = (case x of F32 q \<Rightarrow> is_f32 q | _ \<Rightarrow> False)"

definition finite_bounds :: "bounds \<Rightarrow> bool" where
  "finite_bounds b = (finite_f32 (bx b) \<and> finite_f32 (bY b) \<and> finite_f32 (bw b) \<and> finite_f32 (bh b))"

lemma finite_f32_roundtrip: "finite_f32 x \<Longrightarrow> f32_of_json (json_of_f32 x) = Some x"
  by (cases x) (simp_all add: finite_f32_def is_f32_def)

lemma finite_bounds_roundtrip:
  assumes "finite_bounds b" shows "bounds_of_json (json_of_bounds b) = Some b"
proof -
  let ?kvs = "[(''x'', json_of_f32 (bx b)), (''y'', json_of_f32 (bY b)),
     (''w'', json_of_f32 (bw b)), (''h'', json_of_f32 (bh b))]"
  obtain m where m: "json_of_bounds b = JObj m" "map_of m = map_of ?kvs"
    using json_obj_lookup [of ?kvs] by (auto simp: json_of_bounds_def)
  show ?thesis using assms
    by (simp add: bounds_of_json_def m finite_bounds_def finite_f32_roundtrip)
qed

lemma json_of_f32_inj: "json_of_f32 x = json_of_f32 y \<Longrightarrow> finite_f32 y \<Longrightarrow> x = y"
  by (cases x; cases y) (simp_all add: finite_f32_def)

lemma json_of_bounds_inj:
  assumes "json_of_bounds a = json_of_bounds b" "finite_bounds b" shows "a = b"
proof -
  have get: "json_get (json_of_bounds b) ''x'' = Some (json_of_f32 (bx b)) \<and>
      json_get (json_of_bounds b) ''y'' = Some (json_of_f32 (bY b)) \<and>
      json_get (json_of_bounds b) ''w'' = Some (json_of_f32 (bw b)) \<and>
      json_get (json_of_bounds b) ''h'' = Some (json_of_f32 (bh b))" for b
    using json_obj_lookup [of "[(''x'', json_of_f32 (bx b)), (''y'', json_of_f32 (bY b)),
       (''w'', json_of_f32 (bw b)), (''h'', json_of_f32 (bh b))]"]
    by (auto simp: json_of_bounds_def)
  show ?thesis using get [of a] get [of b] assms
    by (auto simp: finite_bounds_def intro!: bounds.equality json_of_f32_inj)
qed

lemma node_data_eq_iff:
  "(a :: node_data) = b \<longleftrightarrow> nd_id a = nd_id b \<and> nd_role a = nd_role b \<and> nd_name a = nd_name b \<and>
     nd_enabled a = nd_enabled b \<and> nd_focused a = nd_focused b \<and> nd_bounds a = nd_bounds b \<and>
     nd_value a = nd_value b \<and> nd_checked a = nd_checked b \<and> nd_visible a = nd_visible b \<and>
     nd_states a = nd_states b"
  by (cases a; cases b) auto

lemma apply_changed_data:
  assumes "nd_id (data a) = nd_id (data b)" and fin: "finite_bounds (nd_bounds (data b))"
  shows "apply_fields (changed_fields a b) (data a) = data b \<longleftrightarrow> lossless (data a) (data b)"
proof -
  let ?r = "apply_fields (changed_fields a b) (data a)"
  have bounds: "json_of_bounds (nd_bounds (data a)) = json_of_bounds (nd_bounds (data b)) \<Longrightarrow>
      nd_bounds (data a) = nd_bounds (data b)"
    using fin json_of_bounds_inj by blast
  note look = changed_fields_lookup scalar_fields_lookup NODE_FIELDS_def data_field_lookups
  have same: "nd_role ?r = nd_role (data b)" "nd_name ?r = nd_name (data b)"
    "nd_enabled ?r = nd_enabled (data b)" "nd_focused ?r = nd_focused (data b)"
    "nd_bounds ?r = nd_bounds (data b)"
    using fin by (auto simp: apply_changed_components look finite_bounds_roundtrip dest: bounds sym [THEN bounds])
  have "nd_value ?r = nd_value (data b) \<longleftrightarrow> (nd_value (data b) = None \<longrightarrow> nd_value (data a) = None)"
    "nd_checked ?r = nd_checked (data b) \<longleftrightarrow> (nd_checked (data b) = None \<longrightarrow> nd_checked (data a) = None)"
    "nd_visible ?r = nd_visible (data b) \<longleftrightarrow> (nd_visible (data b) \<longrightarrow> nd_visible (data a))"
    by (cases "nd_value (data a)"; cases "nd_checked (data a)";
        auto simp: apply_changed_components look split: option.splits)+
  moreover have "nd_states ?r = nd_states (data b) \<longleftrightarrow>
      (nd_states (data b) = [] \<longrightarrow> nd_states (data a) = [])"
    by (auto simp: apply_changed_components look inj_map_eq_map inj_def simp del: strings_of_json.simps)
  moreover have "nd_id ?r = nd_id (data b)" using assms(1) by (simp add: apply_fields_id)
  ultimately show ?thesis unfolding node_data_eq_iff [of ?r] lossless_def by (simp only: same) simp
qed

section \<open>Trees of one shape\<close>

text \<open>A tree whose nodes keep their ids and places; \<open>g\<close> says what becomes of each node's data.\<close>

fun node_map_data :: "(node_data \<Rightarrow> node_data) \<Rightarrow> ui_node \<Rightarrow> ui_node" where
  "node_map_data g (UiNode d cs) = UiNode (g d) (map (node_map_data g) cs)"

definition tree_map_data :: "(node_data \<Rightarrow> node_data) \<Rightarrow> ui_tree \<Rightarrow> ui_tree" where
  "tree_map_data g t = t\<lparr>tree_nodes := map (node_map_data g) (tree_nodes t)\<rparr>"

definition keeps_ids :: "(node_data \<Rightarrow> node_data) \<Rightarrow> bool" where
  "keeps_ids g = (\<forall>d. nd_id (g d) = nd_id d)"

lemma data_node_map_data [simp]: "data (node_map_data g n) = g (data n)"
  by (cases n) simp

lemma node_map_data_comp: "node_map_data f (node_map_data g n) = node_map_data (f \<circ> g) n"
  by (induction n) simp

lemma node_map_data_ident [simp]: "node_map_data (\<lambda>d. d) n = n"
  by (induction n) (simp add: map_idI)

lemma node_map_data_eq_iff:
  "node_map_data f n = node_map_data g n \<longleftrightarrow> (\<forall>m \<in> set (node_flatten n). f (data m) = g (data m))"
  by (induction n) auto

lemma node_ids_map_data: "keeps_ids g \<Longrightarrow> node_ids (node_map_data g n) = node_ids n"
proof (induction n)
  case (UiNode d cs)
  then have "map (node_ids \<circ> node_map_data g) cs = map node_ids cs" by simp
  then show ?case using UiNode.prems by (simp add: keeps_ids_def forest_ids_def del: map_eq_conv)
qed

lemma forest_ids_map_data: "keeps_ids g \<Longrightarrow> forest_ids (map (node_map_data g) ns) = forest_ids ns"
  by (simp add: forest_ids_def comp_def node_ids_map_data)

lemma bt_insert_map:
  "bt_insert k (f k v) (map (\<lambda>(k, v). (k, f k v)) m) = map (\<lambda>(k, v). (k, f k v)) (bt_insert k v m)"
  by (induction k v m rule: bt_insert.induct) auto

lemma index_loop_map:
  assumes "keeps_ids g"
  shows "index_loop (map (\<lambda>(n, p). (node_map_data g n, p)) stack) (map (\<lambda>(i, n, p). (i, node_map_data g n, p)) out)
     = map (\<lambda>(i, n, p). (i, node_map_data g n, p)) (index_loop stack out)"
proof (induction stack out rule: index_loop.induct)
  case (2 d cs parent stack out)
  have ins: "bt_insert (nd_id d) (node_map_data g (UiNode d cs), parent) (map (\<lambda>(i, n, p). (i, node_map_data g n, p)) out)
      = map (\<lambda>(i, n, p). (i, node_map_data g n, p)) (bt_insert (nd_id d) (UiNode d cs, parent) out)"
    using bt_insert_map [of "nd_id d" "\<lambda>_ (n, p). (node_map_data g n, p)" "(UiNode d cs, parent)" out]
    by (simp add: case_prod_unfold)
  show ?case using 2 ins assms by (simp add: keeps_ids_def comp_def)
qed simp

lemma index_map:
  "keeps_ids g \<Longrightarrow> index (tree_map_data g t) = map (\<lambda>(i, n, p). (i, node_map_data g n, p)) (index t)"
  using index_loop_map [of g "map (\<lambda>n. (n, None)) (tree_nodes t)" "[]"]
  by (simp add: index_def tree_map_data_def comp_def)

subsection \<open>The diff of two trees of one shape\<close>

definition changes :: "(node_data \<Rightarrow> node_data) \<Rightarrow> ui_tree \<Rightarrow> changed_node list" where
  "changes g t = map (\<lambda>(i, n, p). \<lparr>ch_id = i, ch_fields = changed_fields n (node_map_data g n)\<rparr>)
     (filter (\<lambda>(i, n, p). changed_fields n (node_map_data g n) \<noteq> []) (index t))"

lemma diff_same_shape:
  assumes "keeps_ids g"
  shows "diff_trees t (tree_map_data g t) = \<lparr>df_added = [], df_removed = [], df_changed = changes g t\<rparr>"
proof -
  let ?chg = "\<lambda>(i, n, p). \<lparr>ch_id = i, ch_fields = changed_fields n (node_map_data g n)\<rparr>"
  let ?P = "\<lambda>(i, n, p). changed_fields n (node_map_data g n) \<noteq> []"
  have look: "map_of (index t) i = Some (n, p)" if "(i, n, p) \<in> set (index t)" for i n p
    using that index_ok [of t] by (simp add: bt_ok_def)
  have step: "diff_step (index t) after (i, m, p) df =
      (if changed_fields n m = [] then df
       else df\<lparr>df_changed := df_changed df @ [\<lparr>ch_id = i, ch_fields = changed_fields n m\<rparr>]\<rparr>)"
    if "(i, n, p) \<in> set (index t)" for i n m p after df
    by (simp add: diff_step_def look [OF that])
  have "fold (diff_step (index t) after) (map (\<lambda>(i, n, p). (i, node_map_data g n, p)) xs) df
      = df\<lparr>df_changed := df_changed df @ map ?chg (filter ?P xs)\<rparr>"
    if "set xs \<subseteq> set (index t)" for xs after df
    using that
  proof (induction xs arbitrary: df)
    case (Cons x xs)
    obtain i n p where x: "x = (i, n, p)" by (cases x)
    have "(i, n, p) \<in> set (index t)" using Cons.prems x by simp
    note now = step [OF this]
    show ?case using Cons by (simp add: x now)
  qed simp
  from this [of "index t" "index (tree_map_data g t)" empty_diff]
  have fold: "fold (diff_step (index t) (index (tree_map_data g t))) (index (tree_map_data g t)) empty_diff
      = \<lparr>df_added = [], df_removed = [], df_changed = changes g t\<rparr>"
    by (simp add: index_map [OF assms] empty_diff_def changes_def)
  have "map fst (index (tree_map_data g t)) = map fst (index t)"
    by (simp add: index_map [OF assms] case_prod_unfold comp_def)
  then have "map_of (index (tree_map_data g t)) i = None \<longleftrightarrow> i \<notin> set (map fst (index t))" for i
    by (simp only: map_of_eq_None_iff set_map [symmetric])
  then have gone: "filter (\<lambda>i. map_of (index (tree_map_data g t)) i = None) (map fst (index t)) = []"
    by (simp add: filter_empty_conv del: set_map)
  have "map ch_id (changes g t) = map fst (filter ?P (index t))"
    by (simp add: changes_def case_prod_unfold)
  then have "sort_key ch_id (changes g t) = changes g t"
    using index_ok [of t] by (intro sort_key_id_if_sorted) (simp add: bt_ok_def sorted_filter)
  then show ?thesis by (simp add: diff_trees_def Let_def fold gone)
qed

lemma changes_empty:
  assumes "\<And>a b. data b = g (data a) \<Longrightarrow> changed_fields a b = []"
  shows "changes g t = []"
  by (auto simp: changes_def filter_empty_conv assms)

subsection \<open>Applying it\<close>

abbreviation at_id :: "string \<Rightarrow> (node_data \<Rightarrow> node_data) \<Rightarrow> node_data \<Rightarrow> node_data" where
  "at_id i h d \<equiv> (if nd_id d = i then h d else d)"

lemma node_map_data_absent: "i \<notin> set (node_ids n) \<Longrightarrow> node_map_data (at_id i h) n = n"
proof (induction n)
  case (UiNode d cs)
  then show ?case by (auto simp: set_forest_ids intro: map_idI)
qed

lemma update_first_ids:
  assumes "distinct (forest_ids ns)"
    and "\<And>n. n \<in> set ns \<Longrightarrow> G n = (if i \<in> set (node_ids n) then Some (node_map_data (at_id i h) n) else None)"
  shows "update_first G ns =
     (if i \<in> set (forest_ids ns) then Some (map (node_map_data (at_id i h)) ns) else None)"
  using assms
proof (induction ns)
  case (Cons n ns)
  have rest: "i \<in> set (node_ids n) \<Longrightarrow> map (node_map_data (at_id i h)) ns = ns"
    using Cons.prems(1) by (auto simp: set_forest_ids intro!: map_idI node_map_data_absent)
  show ?case using Cons rest by (auto simp: node_map_data_absent)
qed simp

lemma node_modify_ids:
  "distinct (node_ids n) \<Longrightarrow> node_modify i (map_data h) n =
     (if i \<in> set (node_ids n) then Some (node_map_data (at_id i h) n) else None)"
proof (induction n)
  case (UiNode d cs)
  have "update_first (node_modify i (map_data h)) cs =
     (if i \<in> set (forest_ids cs) then Some (map (node_map_data (at_id i h)) cs) else None)"
  proof (rule update_first_ids)
    fix c assume c: "c \<in> set cs"
    have "distinct (node_ids c)" using UiNode.prems c by (auto simp: forest_ids_def distinct_concat_iff)
    then show "node_modify i (map_data h) c =
      (if i \<in> set (node_ids c) then Some (node_map_data (at_id i h) c) else None)"
      by (rule UiNode.IH [OF c])
  qed (use UiNode.prems in simp)
  moreover have "nd_id d = i \<Longrightarrow> map (node_map_data (at_id i h)) cs = cs"
    using UiNode.prems by (auto simp: set_forest_ids intro!: map_idI node_map_data_absent)
  ultimately show ?case by auto
qed

lemma forest_modify_ids:
  assumes "distinct (forest_ids ns)"
  shows "forest_modify i (map_data h) ns = map (node_map_data (at_id i h)) ns"
proof -
  have "update_first (node_modify i (map_data h)) ns =
     (if i \<in> set (forest_ids ns) then Some (map (node_map_data (at_id i h)) ns) else None)"
    using assms by (intro update_first_ids node_modify_ids) (auto simp: forest_ids_def distinct_concat_iff)
  moreover have "i \<notin> set (forest_ids ns) \<Longrightarrow> map (node_map_data (at_id i h)) ns = ns"
    by (auto simp: set_forest_ids intro!: map_idI node_map_data_absent)
  ultimately show ?thesis by (simp add: forest_modify_def)
qed

definition apply_change :: "changed_node \<Rightarrow> node_data \<Rightarrow> node_data" where
  "apply_change c = at_id (ch_id c) (apply_fields (ch_fields c))"

lemma keeps_ids_change: "keeps_ids (apply_change c)"
  by (simp add: keeps_ids_def apply_change_def apply_fields_id)

lemma fold_changes:
  assumes "distinct (forest_ids ns)"
  shows "fold (\<lambda>c. forest_modify (ch_id c) (map_data (apply_fields (ch_fields c)))) cs ns
     = map (node_map_data (fold apply_change cs)) ns"
  using assms
proof (induction cs arbitrary: ns)
  case Nil
  then show ?case by (simp add: map_idI id_def)
next
  case (Cons c cs)
  have "distinct (forest_ids (map (node_map_data (apply_change c)) ns))"
    using Cons.prems by (simp add: forest_ids_map_data [OF keeps_ids_change])
  from Cons.IH [OF this] show ?case
    by (simp add: forest_modify_ids [OF Cons.prems] node_map_data_comp apply_change_def [symmetric]
        comp_def)
qed

lemma fold_apply_change:
  "distinct (map ch_id cs) \<Longrightarrow> fold apply_change cs d =
     (case map_of (map (\<lambda>c. (ch_id c, ch_fields c)) cs) (nd_id d) of
        None \<Rightarrow> d | Some fs \<Rightarrow> apply_fields fs d)"
proof (induction cs arbitrary: d)
  case (Cons c cs)
  have "nd_id d = ch_id c \<Longrightarrow> map_of (map (\<lambda>c. (ch_id c, ch_fields c)) cs) (nd_id d) = None"
    using Cons.prems by (auto simp: map_of_eq_None_iff)
  then show ?case using Cons by (auto simp: apply_change_def apply_fields_id)
qed simp

lemma fold_changes_data:
  assumes "distinct (tree_ids t)" "keeps_ids g" "n \<in> set (tree_flatten t)"
  shows "fold apply_change (changes g t) (data n)
     = apply_fields (changed_fields n (node_map_data g n)) (data n)"
proof -
  have m: "map fst (tree_pairs t) = tree_flatten t"
    by (simp add: tree_pairs_def tree_flatten_def forest_pairs_def map_concat comp_def node_pairs_flatten)
  obtain p where p: "(n, p) \<in> set (tree_pairs t)"
    using assms(3) by (auto simp flip: m)
  have "distinct (map (\<lambda>x. nid (fst x)) (tree_pairs t))"
    using assms(1) by (simp add: comp_def flip: tree_pairs_ids)
  then have idx: "map_of (index t) (nid n) = Some (n, p)"
    using bt_fold_insert(2) [OF bt_ok_Nil, of "\<lambda>x. nid (fst x)" "tree_pairs t" "\<lambda>x. x"] p
    by (auto simp: index_pairs case_prod_unfold comp_def intro!: map_of_is_SomeI
        intro: rev_image_eqI)
  have dist: "distinct (map fst (index t))" using index_ok [of t] by (simp add: bt_ok_def)
  have keyed: "map_of (map (\<lambda>(i, n, p). (i, F n)) (filter (\<lambda>(i, n, p). F n \<noteq> []) xs)) k =
     (case map_of xs k of None \<Rightarrow> None | Some (n, p) \<Rightarrow> if F n = [] then None else Some (F n))"
    if "distinct (map fst xs)" for F :: "ui_node \<Rightarrow> (string, json) btmap"
      and xs :: "node_index" and k
    using that
  proof (induction xs)
    case (Cons x xs)
    have "fst x = k \<Longrightarrow> map_of xs k = None" using Cons.prems by (auto simp: map_of_eq_None_iff)
    then show ?case using Cons by (cases x) auto
  qed simp
  have "map_of (map (\<lambda>c. (ch_id c, ch_fields c)) (changes g t)) (nid n) =
     (if changed_fields n (node_map_data g n) = [] then None
      else Some (changed_fields n (node_map_data g n)))"
    using keyed [OF dist, of "\<lambda>n. changed_fields n (node_map_data g n)" "nid n"]
    by (simp add: changes_def comp_def case_prod_unfold idx)
  moreover have "distinct (map ch_id (changes g t))"
    using dist by (simp add: changes_def comp_def case_prod_unfold distinct_map_filter)
  ultimately show ?thesis by (simp add: fold_apply_change apply_fields_def)
qed

lemma apply_diff_changes:
  assumes "distinct (tree_ids t)" "keeps_ids g"
  shows "apply_diff t (diff_trees t (tree_map_data g t)) = tree_map_data (fold apply_change (changes g t)) t"
  using assms(1) graft_loop.simps [of "[]"]
  by (simp add: apply_diff_def diff_same_shape [OF assms(2)] tree_ids_def fold_changes)
     (simp add: tree_map_data_def)

section \<open>Round trips\<close>

lemma apply_same_shape:
  assumes "distinct (tree_ids t)" "keeps_ids g"
    and fin: "\<And>n. n \<in> set (tree_flatten t) \<Longrightarrow> finite_bounds (nd_bounds (g (data n)))"
  shows "apply_diff t (diff_trees t (tree_map_data g t)) = tree_map_data g t \<longleftrightarrow>
     (\<forall>n \<in> set (tree_flatten t). lossless (data n) (g (data n)))"
proof -
  have "fold apply_change (changes g t) (data n) = g (data n) \<longleftrightarrow> lossless (data n) (g (data n))"
    if "n \<in> set (tree_flatten t)" for n
    using apply_changed_data [of n "node_map_data g n"] assms(2) fin [OF that]
    by (simp add: fold_changes_data [OF assms(1,2) that] keeps_ids_def)
  moreover have "tree_map_data f t = tree_map_data g t \<longleftrightarrow>
      (\<forall>n \<in> set (tree_flatten t). f (data n) = g (data n))" for f
    by (auto simp: tree_map_data_def tree_flatten_def node_map_data_eq_iff
        dest!: arg_cong [where f = tree_nodes])
  ultimately show ?thesis unfolding apply_diff_changes [OF assms(1,2)] by simp
qed

lemma apply_empty_diff: "apply_diff t empty_diff = t"
  by (simp add: apply_diff_def empty_diff_def graft_loop.simps)

lemma diff_self: "diff_trees t t = empty_diff"
proof -
  have "tree_map_data (\<lambda>d. d) t = t" by (simp add: tree_map_data_def map_idI)
  then show ?thesis
    using diff_same_shape [of "\<lambda>d. d" t] changes_empty [of "\<lambda>d. d" t]
    by (simp add: keeps_ids_def changed_fields_same_data empty_diff_def)
qed

text \<open>What the diff cannot see.\<close>

definition clear_optional :: "node_data \<Rightarrow> node_data" where
  "clear_optional d = d\<lparr>nd_value := None, nd_checked := None, nd_visible := True, nd_states := []\<rparr>"

lemma diff_clear: "diff_trees t (tree_map_data clear_optional t) = empty_diff"
proof -
  have "map_of (changed_fields a b) k = None" if "data b = clear_optional (data a)" for a b k
    unfolding changed_fields_lookup scalar_fields_lookup that
    by (auto simp: NODE_FIELDS_def data_field_lookups clear_optional_def)
  then have "changed_fields a b = []" if "data b = clear_optional (data a)" for a b
    using that by (metis map_of_eq_empty_iff ext)
  then show ?thesis
    using diff_same_shape [of clear_optional t] changes_empty [of clear_optional t]
    by (simp add: keeps_ids_def clear_optional_def empty_diff_def)
qed

section \<open>Properties\<close>

text \<open>
  C12. Between two trees of the same nodes, \<open>apply_diff\<close> inverts \<open>diff_trees\<close> exactly when no
  node lost an optional field on the way (\<open>value\<close> or \<open>checked\<close> became absent, \<open>visible\<close>
  became true, or \<open>states\<close> became empty).  The ids must be unique and the bounds finite.
\<close>

theorem apply_diff_inverts_iff:
  assumes "ids_are_unique t" "\<forall>d. nd_id (g d) = nd_id d"
    and "\<forall>n \<in> set (tree_flatten t). finite_bounds (nd_bounds (g (data n)))"
  shows "apply_diff t (diff_trees t (tree_map_data g t)) = tree_map_data g t \<longleftrightarrow>
     (\<forall>n \<in> set (tree_flatten t). lossless (data n) (g (data n)))"
  using assms by (intro apply_same_shape) (auto simp: ids_are_unique_iff keeps_ids_def)

theorem apply_diff_inverts_iff_witness:
  "let typed = tree_map_data (\<lambda>d. if nd_id d = ''in'' then d\<lparr>nd_value := Some ''milk''\<rparr> else d) sample_tree
   in apply_diff sample_tree (diff_trees sample_tree typed) = typed \<and> typed \<noteq> sample_tree"
proof -
  let ?g = "\<lambda>d. if nd_id d = ''in'' then d\<lparr>nd_value := Some ''milk''\<rparr> else (d :: node_data)"
  have "\<forall>d. nd_id (?g d) = nd_id d"
    "\<forall>n \<in> set (tree_flatten sample_tree). finite_bounds (nd_bounds (?g (data n)))"
    "\<forall>n \<in> set (tree_flatten sample_tree). lossless (data n) (?g (data n))"
    by (simp_all add: sample_tree_def tree_flatten_def new_node_def lossless_def
        finite_bounds_def default_bounds_def finite_f32_def is_f32_def)
  then have "apply_diff sample_tree (diff_trees sample_tree (tree_map_data ?g sample_tree))
      = tree_map_data ?g sample_tree"
    using apply_diff_inverts_iff [of sample_tree ?g] sample_tree_ids(2) by blast
  moreover have "tree_map_data ?g sample_tree \<noteq> sample_tree"
    by (simp add: tree_map_data_def sample_tree_def new_node_def)
  ultimately show ?thesis by simp
qed

end
