(* ===== verification/Service.thy ===== *)
theory Service
  imports Todo_Laws Diff_Laws
begin

text \<open>
  The properties of the running service, over the dispatcher, the server and the sample
  host \<open>TodoStore\<close>: who can change the host, what the caches may answer, what a stale
  fingerprint or a wait sees, and what the todo host keeps.
\<close>

section \<open>Inputs of the witnesses\<close>

definition sample_env :: dispatch_env where
  "sample_env = \<lparr>de_checks = True,
     de_identity = \<lparr>hi_executable = ''/bin/todo'', hi_bundle_id = None, hi_connect_id = None\<rparr>,
     de_hmac = (\<lambda>k m. k @ m)\<rparr>"

abbreviation sample_host :: "todo_store agent_host" where
  "sample_host \<equiv> todo_host ''linux''"

definition sample_store :: todo_store where
  "sample_store = snd (store_add ''milk'' (store_new Headless))"

definition sample_session :: session where
  "sample_session = new_session (default_limits None) (replicate NONCE_LEN CHR ''n'')"

definition sample_server :: "todo_store server" where
  "sample_server = set_session 7 sample_session ((server_new sample_store)\<lparr>sv_inflight := 1\<rparr>)"

text \<open>A parser that reads every line as the one request.\<close>

definition sends :: "op \<Rightarrow> string \<Rightarrow> request result" where
  "sends op line = Inr (new_request ''1'' op)"

lemma new_request_simps [simp]:
  "req_v (new_request i op) = PROTOCOL_VERSION" "req_id (new_request i op) = i"
  "req_op (new_request i op) = op" "req_auth (new_request i op) = None"
  "req_token (new_request i op) = None"
  by (simp_all add: new_request_def)

lemma no_token_authorized [simp]: "authorize_request hm (new_request i op) None nonce = Inr ()"
  by (simp add: authorize_request_def)

lemma sample_server_simps [simp]:
  "sv_sessions sample_server = [7 \<mapsto> sample_session]" "sv_host sample_server = sample_store"
  "\<not> sv_poisoned sample_server" "sn_nonce sample_session = None" "sn_cache sample_session = cache_new"
  "sc_token (default_limits t) = t" "sc_max_connections (default_limits t) = 32"
  by (simp_all add: sample_server_def set_session_def server_new_def sample_session_def new_session_def
      session_nonce_def default_limits_def MAX_CONNECTIONS_def)

lemma fresh_store_tree: "fresh_tree (todo_host os) s = store_tree s"
  by (simp add: fresh_tree_def todo_host_def opt_or_def store_tree_def Let_def)

lemma first_snapshot: "fst (cache_snapshot (todo_host os) s cache_new) = store_tree s"
  by (simp add: todo_revision.cached_is_fresh [OF todo_revision.coherent_new] fresh_store_tree)

section \<open>Who can change the host\<close>

text \<open>
  C9. A request passes the gate exactly when it speaks the protocol version and, where a token
  is configured, sends no token and answers the challenge of its own session; a refused
  request gets an error with its id, and neither the host nor the cache changes.
\<close>

theorem request_gate:
  "(authorize_request (de_hmac env) req token nonce = Inr () \<longleftrightarrow>
      req_v req = PROTOCOL_VERSION \<and>
      (case token of None \<Rightarrow> True
       | Some t \<Rightarrow> opt_empty (req_token req) \<and> answers_challenge (de_hmac env) t nonce req)) \<and>
   (if authorize_request (de_hmac env) req token nonce = Inr () then True
    else \<exists>resp. handle_request_cached env H req token nonce polls h c = (Returns resp, c, h) \<and>
       \<not> rs_ok resp \<and> rs_id resp = req_id req)"
  using refused_no_effect [of env req token nonce H polls h c] by (simp add: authorize_request_iff)

text \<open>
  C1. Whatever the connections of the server do, in any interleaving, a step that changes the host is
  the turn of one session, and what that turn has read is a line whose parsed request passes the
  gate of this session: it speaks the protocol version and, with a token configured, sends no token and carries the
  authentication code of the session's own nonce.  The host changes by one dispatch of this
  request's operation, and never once the mutex is poisoned.
\<close>

theorem host_changes_authorized:
  assumes "server_step env H cfg parse sv sv'" "sv_host sv' \<noteq> sv_host sv"
  shows "\<not> sv_poisoned sv \<and> (\<exists>sid sn r. is_turn env H cfg parse sv sid sn r sv') \<and>
     (\<forall>sid sn r. is_turn env H cfg parse sv sid sn r sv' \<longrightarrow>
        (\<exists>line req. r = ReadLine line \<and> parse line = Inr req \<and> req_v req = PROTOCOL_VERSION \<and>
           (case sc_token cfg of None \<Rightarrow> True
            | Some t \<Rightarrow> opt_empty (req_token req) \<and> answers_challenge (de_hmac env) t (sn_nonce sn) req) \<and>
           sv_host sv' = snd (ah_dispatch H (req_op req) (sv_host sv))))"
proof (intro conjI allI impI)
  show "\<not> sv_poisoned sv" "\<exists>sid sn r. is_turn env H cfg parse sv sid sn r sv'"
    using server_step_turn [OF assms] by blast+
next
  fix sid sn r assume t: "is_turn env H cfg parse sv sid sn r sv'"
  from turn_host [OF t assms(2)] show "\<exists>line req. r = ReadLine line \<and> parse line = Inr req \<and> req_v req = PROTOCOL_VERSION \<and>
      (case sc_token cfg of None \<Rightarrow> True
       | Some t \<Rightarrow> opt_empty (req_token req) \<and> answers_challenge (de_hmac env) t (sn_nonce sn) req) \<and>
      sv_host sv' = snd (ah_dispatch H (req_op req) (sv_host sv))"
    unfolding authorized_def authorize_request_iff by blast
qed

definition click_settings :: op where
  "click_settings = OpClick id_nav_settings Semantic None"

lemma sample_click:
  "\<exists>sv'. server_step sample_env sample_host (default_limits None) (sends click_settings) sample_server sv' \<and>
     sv_host sv' = store_go Settings sample_store"
proof -
  let ?r = "ReadLine ''x''"
  have blank: "\<not> line_is_blank ''x''" by (simp add: line_is_blank_def is_ascii_whitespace_def)
  have d: "store_dispatch click_settings sample_store = (Inr dispatch_empty, store_go Settings sample_store)"
    by (simp add: store_dispatch_def click_settings_def is_virtual_input_def is_virtual_def store_click_def
        id_defs)
  have serve: "serve_read sample_env sample_host (default_limits None) (sends click_settings) None [] ?r
      cache_new sample_store
     = Some (Some (respond ''1'' (Inr dispatch_empty)), Keep, cache_new, store_go Settings sample_store)"
    using d blank
    by (simp add: serve_read_def sends_def serve_request_def handle_request_cached_def handle_op_def
        click_settings_def handle_other_def stale_gate_def dispatch_respond_def todo_host_def
        ends_server_def)
  have step: "server_step sample_env sample_host (default_limits None) (sends click_settings) sample_server
      (finish_turn 7 sample_session (Some (respond ''1'' (Inr dispatch_empty)), Keep, cache_new,
         store_go Settings sample_store) sample_server)"
    using serve by (intro server_step.turn [where r = ?r and clock = "[]"]) simp_all
  show ?thesis by (intro exI conjI, rule step, rule finish_turn_host)
qed

theorem host_changes_authorized_witness:
  "\<exists>sv' sid sn r line (req :: request). server_step sample_env sample_host (default_limits None) (sends click_settings) sample_server sv' \<and>
     is_turn sample_env sample_host (default_limits None) (sends click_settings) sample_server sid sn r sv' \<and>
     r = ReadLine line \<and> sends click_settings line = Inr req \<and>
     sv_host sv' = snd (ah_dispatch sample_host (req_op req) sample_store) \<and> sv_host sv' \<noteq> sample_store"
proof -
  obtain sv' where step: "server_step sample_env sample_host (default_limits None) (sends click_settings) sample_server sv'"
    and host: "sv_host sv' = store_go Settings sample_store" using sample_click by blast
  have "st_page (store_go Settings sample_store) \<noteq> st_page sample_store"
    by (simp add: store_go_def bump_revision_def sample_store_def store_add_def store_new_def trim_graph
        is_graph_def Let_def)
  then have neq: "sv_host sv' \<noteq> sv_host sample_server" using host by auto
  obtain sid sn r where t: "is_turn sample_env sample_host (default_limits None) (sends click_settings) sample_server sid sn r sv'"
    using host_changes_authorized [OF step neq] by blast
  then obtain line req where "r = ReadLine line" "sends click_settings line = Inr req"
      "sv_host sv' = snd (ah_dispatch sample_host (req_op req) (sv_host sample_server))"
    using host_changes_authorized [OF step neq] by blast
  then show ?thesis using step t neq unfolding sample_server_simps by blast
qed

text \<open>
  C27. From an empty server, whatever connections come, act, fail and go, the counter of open
  connections is exactly the number of live sessions and never exceeds the limit.
\<close>

theorem connections_bounded:
  assumes "server_reach env H cfg parse (server_new h) sv"
  shows "finite (dom (sv_sessions sv)) \<and> card (dom (sv_sessions sv)) = sv_inflight sv \<and>
    sv_inflight sv \<le> sc_max_connections cfg"
  using server_reach_ok [OF assms server_ok_new] by (simp add: server_ok_def)

lemma sample_accept:
  "server_step sample_env sample_host (default_limits None) parse (server_new sample_store) sample_server"
  unfolding sample_server_def sample_session_def
  by (rule server_step.accept) (simp_all add: server_new_def claim_connection_def)

theorem connections_bounded_witness:
  "\<exists>sv. server_reach sample_env sample_host (default_limits None) (sends OpHello) (server_new sample_store) sv \<and>
     card (dom (sv_sessions sv)) = 1 \<and> sv_inflight sv \<le> 32"
proof -
  have reach: "server_reach sample_env sample_host (default_limits None) (sends OpHello) (server_new sample_store) sample_server"
    using sample_accept by (rule r_into_rtranclp)
  from connections_bounded [OF reach] show ?thesis
    by (intro exI [of _ sample_server] conjI reach) simp_all
qed



section \<open>What the dispatcher does\<close>

text \<open>
  C15. A guarded click, type, set-value or key acts exactly when the fingerprint that the target has in the tree which
  the host shows at that moment is the expected one; otherwise the host is untouched and the
  error names a stale or a vanished target.  The cache of the session has to be coherent: a tree
  that it keeps for the current revision is the tree of the host.
\<close>

theorem stale_gate_guards:
  assumes "fingerprint_gate op = Some (target, expected)" "coherent H c h"
  shows "if fingerprint_of (fresh_tree H h) target = Some expected
    then snd (snd (handle_op env H i op token polls h c)) = snd (ah_dispatch H op h) \<and>
         fst (handle_op env H i op token polls h c) = Returns (respond i (fst (ah_dispatch H op h)))
    else snd (snd (handle_op env H i op token polls h c)) = h \<and>
         (\<exists>e. fst (handle_op env H i op token polls h c) = Returns (response_err i e) \<and>
              is_stale_dispatch_error e)"
proof -
  have op: "handle_op env H i op token polls h c = handle_other H i op h c"
    using assms(1) by (intro handle_op_gateable) (rule fingerprint_gate_gateable)
  have tree: "fst (cache_snapshot H h c) = fresh_tree H h"
    using look_fresh [OF _ coherent_agrees [OF assms(2)]] by simp
  show ?thesis unfolding op tree [symmetric] using stale_gate_passes [of H h op c] stale_gate_error [of H h op c] assms(1)
    by (auto simp: handle_other_def dispatch_respond_def split: prod.splits option.splits)
qed

theorem stale_gate_guards_witness:
  "snd (snd (handle_op sample_env sample_host ''1'' (OpClick ''gone'' Semantic (Some 5)) None [] sample_store cache_new))
     = sample_store"
proof -
  have gate: "fingerprint_gate (OpClick ''gone'' Semantic (Some 5)) = Some (''gone'', 5)" by simp
  have "''gone'' \<notin> set (tree_ids (store_tree sample_store))"
    using item_ids_prefix [of "''gone''" "st_items sample_store"]
    by (auto simp: store_tree_ids id_defs id_item_def id_toggle_def id_delete_def split: page.splits if_splits)
  then have "fingerprint_of (fresh_tree sample_host sample_store) ''gone'' = None"
    by (simp add: fresh_store_tree fingerprint_of_None_iff)
  then show ?thesis
    using stale_gate_guards [where env = sample_env and i = "''1''" and token = None and polls = "[]",
        OF gate todo_revision.coherent_new, of "''linux''" sample_store] by simp
qed

text \<open>
  C38. A keybinding is dispatched exactly when the catalog of the host has a row with the trimmed,
  non-empty binding as its id and the wanted scope, and the first such row agrees with the chord, its focus rule
  holds (a global binding does not activate, a focused one needs the focus or activates), and a row that may end
  the process is confirmed: one that is flagged, whose id is \<open>quit\<close> or ends in \<open>.quit\<close> in any letter case, or
  whose chord is the platform's quit chord in any spelling.  Otherwise the host is untouched and the
  answer is an error.
\<close>

theorem keybinding_gate:
  "let out = handle_op env H i (OpKeybinding binding chord scope confirm activate) token polls h c
   in if \<exists>e. trim binding \<noteq> [] \<and>
        List.find (\<lambda>row. kb_id row = trim binding \<and> kb_scope row = scope) (ah_keybindings H h) = Some e \<and>
        (case chord of None \<Rightarrow> True
         | Some given \<Rightarrow> trim given = [] \<or> normalize_chord (kb_chord e) = normalize_chord (trim given)) \<and>
        (case scope of Global \<Rightarrow> \<not> activate | Focused \<Rightarrow> ah_is_app_focused H h \<or> activate) \<and>
        (if kb_dangerous e \<or>
            to_ascii_lowercase (trim (kb_id e)) = ''quit'' \<or> ends_with (to_ascii_lowercase (trim (kb_id e))) ''.quit'' \<or>
            normalize_chord (kb_chord e) \<in> {''cmd-q'', ''super-q'', ''meta-q'', ''win-q''}
         then confirm else True)
      then snd (snd out) = snd (ah_dispatch H (OpKeybinding binding chord scope confirm activate) h) \<and>
           fst out = Returns (respond i (fst (ah_dispatch H (OpKeybinding binding chord scope confirm activate) h)))
      else snd (snd out) = h \<and> (\<exists>e. fst out = Returns (response_err i e))"
  unfolding Let_def authorize_keybinding_spelled [symmetric] handle_op_keybinding handle_op_keybinding_answer
  by (cases "authorize_keybinding (ah_keybindings H h) \<lparr>kr_binding = binding, kr_chord = chord, kr_scope = scope,
          kr_confirm = confirm, kr_activate = activate\<rparr> (ah_is_app_focused H h)")
    (auto simp: authorize_keybinding_op_def rbind_def is_ok_def)

text \<open>
  A request whose operation only reads never changes the host, whatever the operation
  answers and however long it waits, unless somebody else does.
\<close>

theorem reading_keeps_host:
  assumes "reads_only (req_op req)" "quiet h polls"
  shows "snd (snd (handle_request_cached env H req token nonce polls h c)) = h"
  using handle_op_reads [OF assms, of env H "req_id req" token c]
  by (simp add: handle_request_cached_def split: sum.split)

theorem reading_keeps_host_witness:
  "snd (snd (handle_request_cached sample_env sample_host
     (new_request ''1'' (OpSnapshot (Some 0) None (Some True))) None None [] sample_store cache_new)) = sample_store"
  by (rule reading_keeps_host) simp_all

text \<open>
  \<open>assert\<close> succeeds exactly when the target occurs once and every field given holds of that
  node, or, for \<open>exists: false\<close>, when it does not occur; a viewport claim is a verdict only on
  a surface with geometry: never on a headless host, never on a node or window without area.
\<close>

theorem assert_means:
  "(assert_tree tree spec = Inr () \<longleftrightarrow>
     (if spec_exists spec = Some False then count_list (tree_ids tree) (spec_target spec) = 0
      else \<exists>n. find_all tree (spec_target spec) = [n] \<and> node_satisfies tree n spec)) \<and>
   (node_in_viewport tree n = Inr b \<longleftrightarrow>
     tree_platform tree \<noteq> Headless \<and> has_area (nd_bounds (data n)) \<and>
     (\<exists>w. find_window_for tree (nid n) = Some w \<and> has_area (nd_bounds (data w)) \<and>
          b = intersects (nd_bounds (data n)) (nd_bounds (data w))))"
  by (simp add: assert_tree_ok node_in_viewport_Inr flip: length_find_all)

text \<open>
  C37. A \<open>wait_until\<close> succeeds exactly when, at one of its looks, the assertion holds of the tree that the host
  shows then, and no earlier look ended after the deadline or was a viewport claim on a headless
  host: an assertion that fails at first and holds later is a success.  The host may change between
  the looks in any way in which every state has a revision and equal revisions mean equal trees, and the
  session's cache may keep a tree only for the revision it belongs to.
  And the wait returns once the clock has passed the deadline at the end of a look.
\<close>

theorem wait_sees_change:
  assumes "honest_run H (set (looks h polls))" "counted H (set (looks h polls))" "cache_agrees H (set (looks h polls)) c"
  shows "((\<exists>resp. fst (wait_until_assert H h i spec ms polls c) = Returns resp \<and> rs_ok resp) \<longleftrightarrow>
     (\<exists>k \<le> length polls. assert_tree (fresh_tree H (looks h polls ! k)) spec = Inr () \<and>
        (\<forall>j < k. \<not> past_deadline ms (fst (polls ! j)) \<and> \<not> gives_up H spec (looks h polls ! j)))) \<and>
    ((\<exists>p \<in> set polls. past_deadline ms (fst p)) \<longrightarrow> (\<exists>resp. fst (wait_until_assert H h i spec ms polls c) = Returns resp))"
  using wait_until_assert_verdict [OF assms(1,2) order_refl assms(3)] wait_until_assert_returns
  by (intro conjI impI) assumption+

text \<open>The store goes to its settings while the wait sleeps.\<close>

theorem wait_sees_change_witness:
  "\<exists>resp. fst (wait_until_assert sample_host sample_store ''1'' (default_spec\<lparr>spec_target := id_page_settings\<rparr>) 5
      [(1, store_go Settings sample_store)] cache_new) = Returns resp \<and> rs_ok resp"
proof -
  let ?s = "store_go Settings sample_store" and ?spec = "default_spec\<lparr>spec_target := id_page_settings\<rparr>"
  let ?polls = "[(1 :: nat, ?s)]"
  have revs: "ah_revision sample_host sample_store = Some (st_rev sample_store)" "ah_revision sample_host ?s = Some (st_rev sample_store + 1)"
    by (simp_all add: todo_host_def store_go_def bump_revision_def)
  have looks: "looks sample_store ?polls = [sample_store, ?s]" by (simp add: looks_def)
  have honest: "honest_run sample_host (set (looks sample_store ?polls))"
    unfolding looks by (simp add: honest_run_def revs)
  have counted: "counted sample_host (set (looks sample_store ?polls))"
    unfolding looks by (simp add: counted_def revs)
  have holds: "assert_tree (fresh_tree sample_host ?s) ?spec = Inr ()"
    unfolding fresh_store_tree sample_store_def by code_simp
  have on: "\<not> gives_up sample_host ?spec sample_store"
    unfolding gives_up_def fresh_store_tree sample_store_def by code_simp
  have look: "\<exists>k \<le> length ?polls. assert_tree (fresh_tree sample_host (looks sample_store ?polls ! k)) ?spec = Inr () \<and>
      (\<forall>j < k. \<not> past_deadline 5 (fst (?polls ! j)) \<and> \<not> gives_up sample_host ?spec (looks sample_store ?polls ! j))"
    unfolding looks using holds on by (intro exI [of _ 1]) (simp add: past_deadline_def)
  show ?thesis
    by (rule iffD2 [OF conjunct1 [OF wait_sees_change [OF honest counted cache_agrees_new]] look])
qed

text \<open>
  C28. The wait through the mailbox, which probes the revision and skips the assertion while it
  has not moved, gives the verdict of the loop that asserts on every poll, at every
  sequence of host states in which equal revisions mean equal trees.
\<close>

theorem probing_wait_equals_plain:
  assumes "\<forall>h \<in> fst ` set ps. \<forall>h' \<in> fst ` set ps. ah_revision H h \<noteq> None \<longrightarrow>
    ah_revision H h = ah_revision H h' \<longrightarrow> fresh_tree H h = fresh_tree H h'"
  shows "outcome_ok (wait_until_polls i ms None (map (poll_of H i spec) ps))
    = outcome_ok (plain_wait H i spec ms ps)"
proof (cases ps)
  case (Cons p ps')
  have "honest_run H (insert (fst p) (fst ` set ps))" using assms Cons by (simp add: honest_run_def)
  then show ?thesis by (rule wait_until_polls_plain) simp
qed simp

theorem probing_wait_equals_plain_witness:
  "outcome_ok (wait_until_polls ''1'' 5 None (map (poll_of sample_host ''1'' (default_spec\<lparr>spec_target := id_page_settings\<rparr>))
       [(sample_store, 0), (sample_store, 1), (store_go Settings sample_store, 2)]))
    = outcome_ok (plain_wait sample_host ''1'' (default_spec\<lparr>spec_target := id_page_settings\<rparr>) 5
       [(sample_store, 0), (sample_store, 1), (store_go Settings sample_store, 2)])"
  by (rule probing_wait_equals_plain)
    (simp add: todo_host_def store_go_def bump_revision_def sample_store_def store_add_def store_new_def
      trim_graph is_graph_def Let_def)

section \<open>Framing and the mailbox\<close>

text \<open>
  A line shorter than the limit is delivered without its newline and the rest of the input
  stays for the next read; a line of exactly the limit is rejected, although the
  documentation counts the limit without the newline.
\<close>

theorem line_framing:
  assumes "CHR 0x0A \<notin> set line" "length line \<le> max_bytes" "utf8_ok line"
    "line = [] \<or> last line \<noteq> CHR 0x0D"
  shows "read_limited_line_into max_bytes (line @ CHR 0x0A # rest) =
    (if length line < max_bytes then ReadLine line else ReadInvalid ''line too long'', rest)"
  using read_line [OF assms(1) _ assms(3)] read_line_at_cap [OF assms(1)] assms(2,4)
  by (cases "length line < max_bytes") auto

theorem line_framing_witness:
  "read_limited_line_into 3 (''abc'' @ CHR 0x0A # ''{}'') = (ReadInvalid ''line too long'', ''{}'') \<and>
   read_limited_line_into 4 (''abc'' @ CHR 0x0A # ''{}'') = (ReadLine ''abc'', ''{}'')"
proof -
  have "utf8_ok ''abc''" by (simp add: in_range_def)
  then show ?thesis
    using line_framing [of "''abc''" 3 "''{}''"] line_framing [of "''abc''" 4 "''{}''"] by auto
qed

text \<open>
  However many requests are pushed, the mailbox keeps the first 128 in their order and
  answers every later one at once with an error, so no waiter is left without a reply.
\<close>

theorem mailbox_bounded:
  "mb_queue (fold (\<lambda>req m. snd (snd (mailbox_push req m))) reqs mailbox_new) =
     take MAX_MAILBOX_DEPTH (zip reqs [0 ..< length reqs]) \<and>
   (fst (snd (mailbox_push req m)) = None \<longleftrightarrow> length (mb_queue m) < MAX_MAILBOX_DEPTH) \<and>
   (case fst (snd (mailbox_push req m)) of None \<Rightarrow> True
    | Some resp \<Rightarrow> \<not> rs_ok resp \<and> rs_id resp = req_id req)"
proof -
  let ?push = "\<lambda>req m. snd (snd (mailbox_push req m))"
  have "mb_queue (fold ?push reqs mailbox_new) = take MAX_MAILBOX_DEPTH (zip reqs [0 ..< length reqs]) \<and>
      mb_next (fold ?push reqs mailbox_new) = length reqs"
  proof (induction reqs rule: rev_induct)
    case (snoc req reqs)
    then show ?case
      by (cases "length reqs < MAX_MAILBOX_DEPTH")
        (auto simp: mailbox_push_def Let_def not_less)
  qed (simp add: mailbox_new_def)
  then show ?thesis by (auto simp: mailbox_push_def Let_def)
qed

section \<open>The todo host\<close>

lemma next_id_cases:
  "st_next_id (snd (store_dispatch op s)) = st_next_id s \<or>
   st_next_id (snd (store_dispatch op s)) = st_next_id s + 1"
  by (cases op)
    (simp_all add: store_dispatch_def store_ops store_add_def store_toggle_def store_delete_def Let_def
      case_prod_unfold split: option.split sum.split)

lemma unat_m1: "unat (- 1 :: u64) = 2 ^ 64 - 1"
  by (simp add: unsigned_minus_1_eq_mask mask_eq_exp_minus_1)

lemma unat_room: "unat (x :: u64) + Suc k < 2 ^ 64 \<Longrightarrow> x \<noteq> - 1 \<and> unat (x + 1) + k < 2 ^ 64"
  using unat_add_small [of x 1] by (auto simp: unat_m1)

text \<open>
  C39. Any sequence of operations keeps the store well formed: the ids of the items ascend
  strictly below the counter and no title is empty; and the ids of the tree it shows are
  unique, as the semantic interface demands.  It needs only that the id counter does not
  wrap, which takes \<open>2 ^ 64\<close> additions.
\<close>

theorem todo_invariant:
  assumes "store_ok s" "unat (st_next_id s) + length ops < 2 ^ 64"
  shows "store_ok (fold (\<lambda>op s. snd (store_dispatch op s)) ops s) \<and>
    ids_are_unique (store_tree (fold (\<lambda>op s. snd (store_dispatch op s)) ops s))"
proof -
  have "store_ok (fold (\<lambda>op s. snd (store_dispatch op s)) ops s)"
    using assms
  proof (induction ops arbitrary: s)
    case (Cons op ops)
    let ?s = "snd (store_dispatch op s)"
    have room: "st_next_id s \<noteq> - 1" "unat (st_next_id s + 1) + length ops < 2 ^ 64"
      using unat_room [of "st_next_id s" "length ops"] Cons.prems(2) by simp_all
    have "store_ok ?s" using Cons.prems(1) room by (intro dispatch_keeps_ok) (simp_all add: id_room_def)
    moreover have "unat (st_next_id ?s) + length ops < 2 ^ 64"
      using next_id_cases [of op s] room(2) Cons.prems(2) by auto
    ultimately show ?case using Cons.IH by simp
  qed simp
  then show ?thesis by (simp add: ids_are_unique_iff store_tree_distinct store_ok_distinct)
qed

theorem todo_invariant_witness:
  "ids_are_unique (store_tree (fold (\<lambda>op s. snd (store_dispatch op s))
     [OpSetValue id_input ''milk'' None, OpClick id_add Semantic None, OpClick ''todo-toggle-1'' Semantic None,
      OpShutdown] (store_new Headless)))"
  using todo_invariant [OF store_ok_new [of Headless], of "[OpSetValue id_input ''milk'' None,
      OpClick id_add Semantic None, OpClick ''todo-toggle-1'' Semantic None, OpShutdown]"]
  by (simp add: store_new_def)

text \<open>
  The view an agent rebuilds from the semantic tree is the store: on the todo page every
  item with its id, title and state, the draft and the sidebar; on the settings page the
  setting and the sidebar, and nothing of the list.
\<close>

theorem view_reads_store:
  assumes "store_ok s"
  shows "view_from_tree (store_tree s) = (case st_page s of
       Todos \<Rightarrow> \<lparr>tv_items = st_items s, tv_draft = st_draft s, tv_page = Todos,
                  tv_confirm_delete = False, tv_sidebar_open = st_sidebar_open s\<rparr>
     | Settings \<Rightarrow> \<lparr>tv_items = [], tv_draft = [], tv_page = Settings,
                  tv_confirm_delete = st_confirm_delete s, tv_sidebar_open = st_sidebar_open s\<rparr>)"
  using assms by (rule view_of_store)

lemma sample_store_ok: "store_ok sample_store" "st_page sample_store = Todos" "st_rev sample_store = 1"
  "st_items sample_store = [\<lparr>td_id = 1, td_title = ''milk'', td_done = False\<rparr>]"
  by (simp_all add: sample_store_def store_add_def store_new_def bump_revision_def Let_def trim_graph
      is_graph_def store_ok_def)

theorem view_reads_store_witness:
  "tv_items (view_from_tree (store_tree sample_store)) = [\<lparr>td_id = 1, td_title = ''milk'', td_done = False\<rparr>]"
  by (simp add: view_reads_store sample_store_ok)

text \<open>One step of the server moves the revision of the store by at most one.\<close>

lemma todo_step_rev:
  assumes "server_step env (todo_host os) cfg parse sv sv'"
  shows "unat (st_rev (sv_host sv')) \<le> unat (st_rev (sv_host sv)) + 1"
proof -
  have "st_rev (snd (store_dispatch op s)) = st_rev s \<or> st_rev (snd (store_dispatch op s)) = st_rev s + 1" for op s
  proof (cases "is_nav_go op")
    case True
    then show ?thesis
      by (cases op) (auto simp: store_dispatch_def store_invoke_def is_virtual_input_def split: option.split)
  next
    case False
    then show ?thesis using dispatch_bumps [of op s] by (auto simp: bumps_or_keeps_def)
  qed
  moreover have "unat (x + 1) \<le> unat x + 1" for x :: u64 by (simp add: unat_word_ariths)
  ultimately show ?thesis using server_step_host [OF assms]
    by (auto simp: todo_host_def) (metis Suc_eq_plus1 le_SucI order_refl)+
qed

text \<open>
  C13. On the todo host the caches cannot be observed: after any interleaving of the
  connections, a request in any session is answered as if the host had no cache at all,
  provided no client uses \<open>nav.go\<close> and the 64-bit revision has not run out.  (A \<open>snapshot\<close>
  relative to an older revision is about the past and is left aside.)
\<close>

theorem todo_answers_fresh:
  assumes "(server_step env (todo_host os) cfg parse ^^ n) (server_new s) sv"
    and "unat (st_rev s) + n < 2 ^ 64 - 1"
    and "\<forall>line req. parse line = Inr req \<longrightarrow> \<not> is_nav_go (req_op req)"
    and "sv_sessions sv sid = Some sn" "\<not> uses_history (req_op req)"
  shows "fst (handle_request_cached env (todo_host os) req token nonce (steady (sv_host sv) clock) (sv_host sv) (sn_cache sn)) =
     fst (handle_request env (todo_host os) req token nonce (steady (sv_host sv) clock) (sv_host sv))"
proof -
  have "server_coherent (todo_host os) sv \<and> unat (st_rev (sv_host sv)) \<le> unat (st_rev s) + n"
    using assms(1,2)
  proof (induction n arbitrary: sv)
    case 0
    then have "sv = server_new s" by simp
    then show ?case by (simp add: server_coherent_def server_new_def)
  next
    case (Suc n)
    then obtain sv1 where sv1: "(server_step env (todo_host os) cfg parse ^^ n) (server_new s) sv1"
      and step: "server_step env (todo_host os) cfg parse sv1 sv" by auto
    have ih: "server_coherent (todo_host os) sv1" "unat (st_rev (sv_host sv1)) \<le> unat (st_rev s) + n"
      using Suc.IH [OF sv1] Suc.prems(2) by simp_all
    have "rev_room (sv_host sv1)" using ih(2) Suc.prems(2) by (auto simp: rev_room_def unat_m1)
    then have "server_coherent (todo_host os) sv"
      using todo_revision.server_coherent_step [OF step] assms(3) ih(1) by blast
    then show ?case using todo_step_rev [OF step] ih(2) by simp
  qed
  then have "coherent (todo_host os) (sn_cache sn) (sv_host sv)"
    using assms(4) by (simp add: server_coherent_def)
  then show ?thesis using assms(5) by (rule todo_revision.cached_answers_fresh(1)) simp
qed

theorem todo_answers_fresh_witness:
  "fst (handle_request_cached sample_env sample_host (new_request ''1'' op_snapshot) None None
       (steady (sv_host sample_server) [3]) (sv_host sample_server) (sn_cache sample_session)) =
   fst (handle_request sample_env sample_host (new_request ''1'' op_snapshot) None None
       (steady (sv_host sample_server) [3]) (sv_host sample_server))"
proof (rule todo_answers_fresh)
  show "(server_step sample_env sample_host (default_limits None) (sends OpHello) ^^ 1)
      (server_new sample_store) sample_server" unfolding relpowp_1 by (rule sample_accept)
qed (simp_all add: sends_def sample_store_ok op_snapshot_def)

text \<open>
  C14. \<open>nav.go\<close> breaks the contract: it changes the page without moving the revision, so a
  session that has seen the todo page and then navigates by \<open>nav.go\<close>, which answers
  success, keeps being shown the old page; the tree of the host is another one.
\<close>

theorem nav_go_shows_old_page:
  assumes "st_page s = Todos"
  shows "let op = OpInvoke ''nav.go'' (json_obj [(''page'', JStr ''settings'')]);
      c = snd (cache_snapshot (todo_host os) s cache_new);
      s' = snd (ah_dispatch (todo_host os) op s)
    in is_ok (fst (ah_dispatch (todo_host os) op s)) \<and> st_page s' = Settings \<and>
       fst (cache_snapshot (todo_host os) s' c) = store_tree s \<and> store_tree s' \<noteq> store_tree s"
proof -
  let ?op = "OpInvoke ''nav.go'' (json_obj [(''page'', JStr ''settings'')])"
  let ?s = "snd (store_dispatch ?op s)"
  have s': "st_page ?s = Settings" "st_rev ?s = st_rev s" by (simp_all add: nav_go_lies)
  have ok: "is_ok (fst (store_dispatch ?op s))"
    by (simp add: store_dispatch_def store_invoke_def is_virtual_input_def json_get_obj)
  have ring: "tc_ring (snd (cache_snapshot (todo_host os) s cache_new)) = [(st_rev s, store_tree s)]"
    by (simp add: cache_snapshot_def cache_rebuild_def ring_back_def cache_new_def Let_def opt_or_def
        trim_ring_def REV_RING_DEPTH_def todo_host_def store_tree_def)
  have "id_page_todos \<in> set (tree_ids (store_tree s))" "id_page_todos \<notin> set (tree_ids (store_tree ?s))"
    by (simp_all add: store_tree_ids assms s' id_defs)
  then have "store_tree ?s \<noteq> store_tree s" by metis
  moreover have "fst (cache_snapshot (todo_host os) ?s (snd (cache_snapshot (todo_host os) s cache_new))) = store_tree s"
    unfolding cache_snapshot_def [of _ ?s] ring using s' by (simp add: ring_back_def todo_host_def)
  ultimately show ?thesis using ok s' by (simp add: todo_host_def Let_def)
qed

theorem nav_go_shows_old_page_witness:
  "let c = snd (cache_snapshot sample_host sample_store cache_new);
      s' = snd (ah_dispatch sample_host (OpInvoke ''nav.go'' (json_obj [(''page'', JStr ''settings'')])) sample_store)
    in fst (cache_snapshot sample_host s' c) = store_tree sample_store \<and> store_tree s' \<noteq> store_tree sample_store"
  using nav_go_shows_old_page [OF sample_store_ok(2), of "''linux''"] by (simp add: Let_def)

text \<open>Showing the sidebar again changes the nodes of the sidebar and its button only.\<close>

definition reopen_nav :: "node_data \<Rightarrow> node_data" where
  "reopen_nav d = (if nd_id d = id_nav_toggle then d\<lparr>nd_name := ''Hide sidebar''\<rparr>
     else if nd_id d \<in> {id_nav, id_nav_todos, id_nav_settings} then d\<lparr>nd_visible := True\<rparr> else d)"

lemma reopen_nav_page:
  assumes "store_ok s"
  shows "node_map_data reopen_nav (case st_page s of Todos \<Rightarrow> todos_page s | Settings \<Rightarrow> settings_page s)
     = (case st_page s of Todos \<Rightarrow> todos_page s | Settings \<Rightarrow> settings_page s)"
proof -
  let ?page = "case st_page s of Todos \<Rightarrow> todos_page s | Settings \<Rightarrow> settings_page s"
  have "tree_ids (store_tree s) = id_window # id_nav_toggle # id_nav # id_nav_todos # id_nav_settings # node_ids ?page"
    by (simp add: tree_ids_def store_tree_def nav_node_def Let_def)
  then have other: "id_nav_toggle \<notin> set (node_ids ?page) \<and> id_nav \<notin> set (node_ids ?page) \<and>
     id_nav_todos \<notin> set (node_ids ?page) \<and> id_nav_settings \<notin> set (node_ids ?page)"
    using store_tree_distinct [OF store_ok_distinct [OF assms]] by simp
  have "reopen_nav (data m) = data m" if "m \<in> set (node_flatten ?page)" for m
  proof -
    have "nid m \<in> set (node_ids ?page)" using that by (simp add: node_ids_def)
    then show ?thesis using other by (auto simp: reopen_nav_def)
  qed
  then have "node_map_data reopen_nav ?page = node_map_data (\<lambda>d. d) ?page"
    unfolding node_map_data_eq_iff by simp
  then show ?thesis by simp
qed

lemma reopen_nav_tree:
  assumes "store_ok s" "\<not> st_sidebar_open s"
  shows "tree_nodes (store_tree (toggle_sidebar s)) = tree_nodes (tree_map_data reopen_nav (store_tree s))"
proof -
  let ?s = "toggle_sidebar s"
  have page: "(case st_page ?s of Todos \<Rightarrow> todos_page ?s | Settings \<Rightarrow> settings_page ?s)
      = (case st_page s of Todos \<Rightarrow> todos_page s | Settings \<Rightarrow> settings_page s)"
    by (simp add: toggle_sidebar_def bump_revision_def todos_page_def settings_page_def split: page.split)
  have "nav_node ?s = node_map_data reopen_nav (nav_node s)"
    using assms(2) by (simp add: nav_node_def toggle_sidebar_def bump_revision_def Let_def new_node_def
        reopen_nav_def id_defs)
  moreover have "node_map_data reopen_nav (with_child a (with_child b (with_child c (new_node id_window role_window n)))) =
      with_child (node_map_data reopen_nav a) (with_child (node_map_data reopen_nav b)
        (with_child (node_map_data reopen_nav c) (new_node id_window role_window n)))" for a b c n
    by (simp add: new_node_def reopen_nav_def id_defs)
  moreover have "node_map_data reopen_nav (new_node id_nav_toggle role_button ''Show sidebar'')
      = new_node id_nav_toggle role_button ''Hide sidebar''" by (simp add: new_node_def reopen_nav_def)
  ultimately show ?thesis using assms(2)
    unfolding tree_map_data_def store_tree_def Let_def page
    by (simp add: reopen_nav_page [OF assms(1)] toggle_sidebar_def bump_revision_def)
qed

lemma store_tree_bounds:
  assumes "d \<in> set (map data (tree_flatten (store_tree s)))"
  shows "nd_bounds d = default_bounds"
proof -
  have base [simp]: "nd_bounds (base_data i r n) = default_bounds" for i r n
    by (simp add: base_data_def new_node_def)
  have item: "nd_bounds d = default_bounds" if "d \<in> set (node_datas (item_node t))" for d t
    using that by (auto simp: item_node_datas checked_data_def)
  have todos: "nd_bounds d = default_bounds" if "d \<in> set (node_datas (todos_page s))" for d
    using that todos_page_datas [of s] item by (auto split: if_splits)
  show ?thesis using assms todos unfolding store_tree_datas
    by (auto simp: nav_datas settings_page_datas checked_data_def split: page.splits)
qed

lemma hidden_nav:
  assumes "\<not> st_sidebar_open s"
  shows "\<exists>d \<in> set (map data (tree_flatten (store_tree s))). nd_id d = id_nav \<and> \<not> nd_visible d"
  unfolding store_tree_datas using assms by (simp add: nav_datas)

text \<open>
  C26. Showing the sidebar again cannot be followed by diffs: the diff from the tree with the
  hidden sidebar to the tree that shows it, applied to the former, does not give the
  latter, because a node that became visible is reported without \<open>visible\<close>.
\<close>

theorem reopened_sidebar_is_lost:
  assumes "store_ok s" "\<not> st_sidebar_open s"
  shows "tree_nodes (apply_diff (store_tree s) (diff_trees (store_tree s) (store_tree (toggle_sidebar s))))
     \<noteq> tree_nodes (store_tree (toggle_sidebar s))"
proof
  let ?t = "store_tree s" and ?t' = "tree_map_data reopen_nav (store_tree s)"
  have nodes: "tree_nodes (store_tree (toggle_sidebar s)) = tree_nodes ?t'" by (rule reopen_nav_tree [OF assms])
  assume "tree_nodes (apply_diff ?t (diff_trees ?t (store_tree (toggle_sidebar s))))
     = tree_nodes (store_tree (toggle_sidebar s))"
  moreover have "diff_trees ?t (store_tree (toggle_sidebar s)) = diff_trees ?t ?t'"
    by (simp add: diff_trees_def index_def nodes)
  ultimately have "tree_nodes (apply_diff ?t (diff_trees ?t ?t')) = tree_nodes ?t'" by (simp add: nodes)
  then have eq: "apply_diff ?t (diff_trees ?t ?t') = ?t'" by (simp add: apply_diff_def tree_map_data_def)
  have uniq: "distinct (tree_ids ?t)" by (rule store_tree_distinct [OF store_ok_distinct [OF assms(1)]])
  have fin: "finite_bounds (nd_bounds (reopen_nav (data n)))" if "n \<in> set (tree_flatten ?t)" for n
    using store_tree_bounds [of "data n" s] that
    by (simp add: reopen_nav_def finite_bounds_def default_bounds_def finite_f32_def is_f32_def)
  have "\<forall>n \<in> set (tree_flatten ?t). lossless (data n) (reopen_nav (data n))"
    using apply_same_shape [OF uniq, of reopen_nav] fin eq by (auto simp: keeps_ids_def reopen_nav_def)
  moreover have "\<exists>n \<in> set (tree_flatten ?t). nid n = id_nav \<and> \<not> nd_visible (data n)"
    using hidden_nav [OF assms(2)] by (auto simp: image_iff)
  moreover have "\<not> lossless (data n) (reopen_nav (data n))"
    if "nid n = id_nav" "\<not> nd_visible (data n)" for n
    using that by (simp add: lossless_def reopen_nav_def id_defs)
  ultimately show False by blast
qed

theorem reopened_sidebar_is_lost_witness:
  "let s = toggle_sidebar sample_store
   in tree_nodes (apply_diff (store_tree s) (diff_trees (store_tree s) (store_tree (toggle_sidebar s))))
     \<noteq> tree_nodes (store_tree (toggle_sidebar s))"
proof -
  have "store_ok (toggle_sidebar sample_store)" "\<not> st_sidebar_open (toggle_sidebar sample_store)"
    by (simp_all add: toggle_sidebar_def bump_revision_def sample_store_ok)
      (simp add: sample_store_def store_add_def store_new_def bump_revision_def Let_def)
  from reopened_sidebar_is_lost [OF this] show ?thesis by (simp add: Let_def)
qed

end
