(* ===== verification/Registry.thy ===== *)
theory Registry
  imports Protocol Json
begin

text \<open>
  \<open>crates/gpui-agent-recipe/src/schema.rs\<close> and \<open>registry.rs\<close>: the schemas of operations,
  their validation, and the registry, a \<open>BTreeMap\<close> from names to schemas.  Schema files are
  read by \<open>serde_json\<close>; here a file is the list of its rows.
\<close>

section \<open>Schemas\<close>

datatype schema_kind = KindProtocol | KindInvoke | KindId

datatype effect = Read | Write | Exit

text \<open>\<open>derive(PartialOrd, Ord)\<close>: the order of the declaration.\<close>

instantiation effect :: linorder
begin

primrec effect_rank :: "effect \<Rightarrow> nat" where
  "effect_rank Read = 0"
| "effect_rank Write = 1"
| "effect_rank Exit = 2"

definition less_eq_effect :: "effect \<Rightarrow> effect \<Rightarrow> bool" where
  "less_eq_effect a b = (effect_rank a \<le> effect_rank b)"

definition less_effect :: "effect \<Rightarrow> effect \<Rightarrow> bool" where
  "less_effect a b = (effect_rank a < effect_rank b)"

instance
proof
  fix a b :: effect
  show "a \<le> b \<Longrightarrow> b \<le> a \<Longrightarrow> a = b"
    by (cases a; cases b) (simp_all add: less_eq_effect_def)
qed (auto simp: less_eq_effect_def less_effect_def)

end

record arg_schema =
  as_ty :: string
  as_required :: bool

record op_schema =
  os_name :: string
  os_kind :: schema_kind
  os_description :: string
  os_effects :: "effect list"
  os_idempotent :: bool
  os_verified :: bool
  os_required :: "string list"
  os_args :: "(string, arg_schema) btmap"
  os_result :: "json option"
  os_keywords :: "string list"

definition schema_char :: "char \<Rightarrow> bool" where
  "schema_char c = (is_ascii_alnum c \<or> c = CHR ''_'' \<or> c = CHR ''-'' \<or> c = CHR ''.'')"

definition IMPLICIT_ARGS :: "string list" where
  "IMPLICIT_ARGS = [''target'', ''text'', ''value'', ''key'', ''name'', ''binding'', ''scope'']"

definition schema_validate :: "op_schema \<Rightarrow> unit result" where
  "schema_validate s =
     (if trim (os_name s) = [] then Inl ''schema name cannot be empty''
      else if \<not> list_all schema_char (os_name s) then
        Inl (''schema name `'' @ os_name s @ ''` must be alphanumeric plus _-. '')
      else case List.find (\<lambda>req. map_of (os_args s) req = None \<and> req \<notin> set IMPLICIT_ARGS)
                  (os_required s) of
        Some req \<Rightarrow> Inl (''schema `'' @ os_name s @ ''` lists required `'' @ req
          @ ''` with no args entry'')
      | None \<Rightarrow> Inr ())"

section \<open>The registry\<close>

type_synonym registry = "(string, op_schema) btmap"

definition registry_new :: registry where
  "registry_new = []"

definition registry_insert :: "op_schema \<Rightarrow> registry \<Rightarrow> registry result" where
  "registry_insert s reg = rbind (schema_validate s) (\<lambda>_. Inr (bt_insert (os_name s) s reg))"

fun registry_merge :: "op_schema list \<Rightarrow> registry \<Rightarrow> registry result" where
  "registry_merge [] reg = Inr reg"
| "registry_merge (s # others) reg =
     (if map_of reg (os_name s) \<noteq> None then Inl (''duplicate schema `'' @ os_name s @ ''`'')
      else rbind (registry_insert s reg) (registry_merge others))"

definition registry_get :: "registry \<Rightarrow> string \<Rightarrow> op_schema option" where
  "registry_get reg name = map_of reg name"

definition registry_iter :: "registry \<Rightarrow> op_schema list" where
  "registry_iter reg = map snd reg"

fun insert_all :: "op_schema list \<Rightarrow> registry \<Rightarrow> registry result" where
  "insert_all [] reg = Inr reg"
| "insert_all (s # ss) reg = rbind (registry_insert s reg) (insert_all ss)"

text \<open>\<open>load_schema_file\<close> after \<open>serde_json\<close>: an array, or an object that holds one.\<close>

definition schema_rows :: "string \<Rightarrow> json \<Rightarrow> json list result" where
  "schema_rows path v =
     (case as_array v of
        Some arr \<Rightarrow> Inr arr
      | None \<Rightarrow> (case Option.bind (json_get v ''schemas'') as_array of
          Some arr \<Rightarrow> Inr arr
        | None \<Rightarrow> Inl (path @ '': expected a JSON array or { '' @ [CHR 0x22] @ ''schemas'' @ [CHR 0x22]
            @ '': [...] }'')))"

fun load_rows :: "(json \<Rightarrow> op_schema result) \<Rightarrow> string \<Rightarrow> json list \<Rightarrow> registry \<Rightarrow> registry result" where
  "load_rows row path [] reg = Inr reg"
| "load_rows row path (v # vs) reg =
     (case row v of
        Inl err \<Rightarrow> Inl (path @ '': '' @ err)
      | Inr s \<Rightarrow> rbind (registry_insert s reg) (load_rows row path vs))"

definition load_schema_file ::
    "(string \<Rightarrow> string result) \<Rightarrow> (string \<Rightarrow> json result) \<Rightarrow> (json \<Rightarrow> op_schema result) \<Rightarrow> string \<Rightarrow>
       registry result" where
  "load_schema_file read parse row path =
     (case read path of
        Inl err \<Rightarrow> Inl (path @ '': '' @ err)
      | Inr txt \<Rightarrow> (case parse txt of
          Inl err \<Rightarrow> Inl (path @ '': '' @ err)
        | Inr v \<Rightarrow> rbind (schema_rows path v) (\<lambda>rows. load_rows row path rows registry_new)))"

section \<open>The schemas of the protocol\<close>

definition protocol_schema ::
    "string \<Rightarrow> string \<Rightarrow> effect list \<Rightarrow> bool \<Rightarrow> string list \<Rightarrow> string list \<Rightarrow> op_schema" where
  "protocol_schema name description effects idempotent keywords required =
     \<lparr>os_name = name, os_kind = KindProtocol, os_description = description, os_effects = effects,
      os_idempotent = idempotent, os_verified = True, os_required = required, os_args = [],
      os_result = None, os_keywords = keywords\<rparr>"

definition protocol_ops :: "op_schema list" where
  "protocol_ops = [
     protocol_schema ''hello'' ''Handshake: protocol version, app name, platform.''
       [Read] True [''hello'', ''handshake''] [],
     protocol_schema ''wait'' ''Block until the host answers hello/ready.''
       [Read] True [''wait'', ''ready''] [],
     protocol_schema ''wait_until'' ''Poll assert fields until they match or timeout_ms elapses.''
       [Read] True [''wait_until''] [''target''],
     protocol_schema ''snapshot'' ''Read the semantic UI tree.''
       [Read] True [''snapshot'', ''tree'', ''perceive''] [],
     protocol_schema ''revision'' ''Read the snapshot revision counter (None = untracked).''
       [Read] True [''revision'', ''rev''] [],
     protocol_schema ''screenshot'' ''Write an observe-only PNG of the app surface (not the desktop).''
       [Read] True [''screenshot'', ''png'', ''frame''] [],
     protocol_schema ''click'' ''Activate a widget by stable id.''
       [Write] False [''click'', ''press'', ''tap''] [''target''],
     protocol_schema ''type'' ''Append text to an editable widget.''
       [Write] False [''type'', ''append''] [''target'', ''text''],
     protocol_schema ''set_value'' ''Replace the value of an editable widget.''
       [Write] True [''set'', ''value'', ''fill''] [''target'', ''value''],
     protocol_schema ''key'' ''Send a key to a widget (no modifiers).''
       [Write] False [''key'', ''enter'', ''backspace''] [''target'', ''key''],
     protocol_schema ''keybinding'' ''Fire a GPUI Action by id (keymap path, never OS HID).''
       [Write] False [''keybinding'', ''shortcut'', ''chord''] [''binding'', ''scope''],
     protocol_schema ''keybindings'' ''List registered Action-id keybindings.''
       [Read] True [''keybindings'', ''shortcuts''] [],
     protocol_schema ''assert'' (''Check snapshot fields on a stable id (exists, visible, in_viewport, ''
         @ ellipsis @ '').'')
       [Read] True [''assert'', ''check'', ''verify''] [''target''],
     protocol_schema ''invoke'' ''Call a named host command (allow-listed by the app).''
       [Write] False [''invoke'', ''command''] [''name''],
     protocol_schema ''shutdown'' ''Ask the host to exit.''
       [Exit] False [''shutdown'', ''exit'', ''quit''] []]"

text \<open>\<open>expect("protocol schema")\<close>: the insertions cannot fail, see \<open>protocol_registry_ok\<close>.\<close>

definition protocol_registry :: "registry result" where
  "protocol_registry = insert_all protocol_ops registry_new"

definition arg :: "string \<Rightarrow> bool \<Rightarrow> arg_schema" where
  "arg ty required = \<lparr>as_ty = ty, as_required = required\<rparr>"

definition todo_shape :: json where
  "todo_shape = json_obj [(''id'', JStr ''u64''), (''title'', JStr ''string''), (''done'', JStr ''bool'')]"

definition app_schema ::
    "string \<Rightarrow> schema_kind \<Rightarrow> string \<Rightarrow> effect list \<Rightarrow> bool \<Rightarrow> string list \<Rightarrow>
       (string, arg_schema) btmap \<Rightarrow> json option \<Rightarrow> string list \<Rightarrow> op_schema" where
  "app_schema name kind description effects idempotent required args res keywords =
     \<lparr>os_name = name, os_kind = kind, os_description = description, os_effects = effects,
      os_idempotent = idempotent, os_verified = True, os_required = required, os_args = args,
      os_result = res, os_keywords = keywords\<rparr>"

definition todo_app_schemas :: "op_schema list" where
  "todo_app_schemas = [
     app_schema ''todo.add'' KindInvoke ''Create a todo item from a title.'' [Write] False [''title'']
       [(''title'', arg ''string'' True)] (Some todo_shape)
       [''add'', ''create'', ''new'', ''todo'', ''task''],
     app_schema ''todo.toggle'' KindInvoke
       (''Toggle a todo item'' @ [CHR 0x27] @ ''s done state.'') [Write] False [''id'']
       [(''id'', arg ''number'' True)] (Some todo_shape) [''toggle'', ''check'', ''complete'', ''todo''],
     app_schema ''todo.delete'' KindInvoke ''Delete a todo item.'' [Write] False [''id'']
       [(''id'', arg ''number'' True)] (Some todo_shape) [''delete'', ''remove'', ''todo''],
     app_schema ''todo.list'' KindInvoke ''List todo items.'' [Read] True [] []
       (Some (JArr [todo_shape])) [''list'', ''todos'', ''items''],
     app_schema ''todo.toggle_sidebar'' KindInvoke ''Toggle the nav sidebar (sets todo-nav visible).''
       [Write] False [] [] (Some (json_obj [(''sidebar_open'', JStr ''bool'')])) [''sidebar'', ''nav''],
     app_schema ''todo-input'' KindId ''Draft text field for a new todo.'' [Write] False [] [] None
       [''input'', ''draft'', ''textbox''],
     app_schema ''todo-add'' KindId ''Add button that commits the draft.'' [Write] False [] [] None
       [''add'', ''button''],
     app_schema ''todo-list'' KindId ''List of todo items.'' [Write] False [] [] None [''list''],
     app_schema ''todo-window'' KindId ''Root window of the sample todo app.'' [Write] False [] [] None
       [''window'']]"

definition todo_app_registry :: "registry result" where
  "todo_app_registry = insert_all todo_app_schemas registry_new"

definition todo_registry :: "registry result" where
  "todo_registry = rbind protocol_registry (\<lambda>reg. rbind todo_app_registry
     (\<lambda>app. registry_merge (registry_iter app) reg))"

text \<open>\<open>registry_from_schema_paths\<close>: the protocol, then every file that is named.\<close>

fun merge_files ::
    "(string \<Rightarrow> registry result) \<Rightarrow> string list \<Rightarrow> registry \<Rightarrow> registry result" where
  "merge_files load [] reg = Inr reg"
| "merge_files load (p # ps) reg =
     (if p = [] then merge_files load ps reg
      else rbind (load p) (\<lambda>other. rbind (registry_merge (registry_iter other) reg) (merge_files load ps)))"

definition registry_from_schema_paths ::
    "(string \<Rightarrow> registry result) \<Rightarrow> string list \<Rightarrow> string list \<Rightarrow> registry result" where
  "registry_from_schema_paths load env_paths paths =
     rbind protocol_registry (merge_files load (env_paths @ paths))"

section \<open>Laws\<close>

text \<open>Every entry stands under its own name and is valid.\<close>

definition registry_ok :: "registry \<Rightarrow> bool" where
  "registry_ok reg = (bt_ok reg \<and> (\<forall>(n, s) \<in> set reg. os_name s = n \<and> schema_validate s = Inr ()))"

lemma registry_ok_new [simp]: "registry_ok registry_new"
  by (simp add: registry_ok_def registry_new_def)

lemma registry_ok_insert:
  assumes "registry_ok reg" "registry_insert s reg = Inr reg'"
  shows "registry_ok reg' \<and> registry_get reg' = (registry_get reg)(os_name s \<mapsto> s)"
  using assms bt_insert_set [of "os_name s" s reg]
  by (fastforce simp: registry_ok_def registry_insert_def rbind_Inr_iff registry_get_def [abs_def]
      bt_ok_insert bt_lookup_insert)

lemma registry_ok_get: "registry_ok reg \<Longrightarrow> registry_get reg n = Some s \<Longrightarrow> os_name s = n \<and> schema_validate s = Inr ()"
  by (auto simp: registry_ok_def registry_get_def dest: map_of_SomeD)

lemma registry_ok_merge:
  "registry_ok reg \<Longrightarrow> registry_merge ss reg = Inr reg' \<Longrightarrow>
     registry_ok reg' \<and> (\<forall>n s. registry_get reg n = Some s \<longrightarrow> registry_get reg' n = Some s)"
proof (induction ss reg rule: registry_merge.induct)
  case (2 s others reg)
  then obtain mid where mid: "registry_insert s reg = Inr mid" "registry_merge others mid = Inr reg'"
    "map_of reg (os_name s) = None" by (auto simp: rbind_Inr_iff split: if_splits)
  have ok: "registry_ok mid" "registry_get mid = (registry_get reg)(os_name s \<mapsto> s)"
    using registry_ok_insert [OF 2(2) mid(1)] by simp_all
  have "registry_get mid n = Some t" if "registry_get reg n = Some t" for n t
    using that mid(3) by (auto simp: ok(2) registry_get_def)
  then show ?case using 2(1) [OF _ mid(1) ok(1) mid(2)] mid(3) by blast
qed auto

lemma registry_ok_insert_all:
  "registry_ok reg \<Longrightarrow> insert_all ss reg = Inr reg' \<Longrightarrow> registry_ok reg'"
  by (induction ss arbitrary: reg) (auto simp: rbind_Inr_iff dest: registry_ok_insert)

end
