(* ===== verification/Recipe.thy ===== *)
theory Recipe
  imports Registry Keybinding
begin

text \<open>
  \<open>crates/gpui-agent-recipe/src/recipe.rs\<close>: recipes, the line-based \<open>.wants\<close> form, the
  \<open>$param\<close> placeholders and the validation.  \<open>serde_json\<close> is an argument where it reads JSON.
  A set of names is the sorted list of a \<open>BTreeSet\<close>.
\<close>

definition RECIPE_FORMAT_VERSION :: u32 where "RECIPE_FORMAT_VERSION = 1"
definition MAX_RECIPE_STEPS :: nat where "MAX_RECIPE_STEPS = 256"

record recipe_step =
  rp_id :: string
  rp_needs :: "string list"
  rp_screenshot :: bool
  rp_op :: op

record recipe =
  rc_v :: u32
  rc_name :: string
  rc_app :: "string option"
  rc_params :: "string list"
  rc_steps :: "recipe_step list"

definition recipe_from_json :: "(string \<Rightarrow> recipe result) \<Rightarrow> string \<Rightarrow> recipe result" where
  "recipe_from_json parse txt = (case parse txt of Inl err \<Rightarrow> Inl (''recipe json: '' @ err) | Inr r \<Rightarrow> Inr r)"

definition uses_explicit_needs :: "recipe \<Rightarrow> bool" where
  "uses_explicit_needs r = list_ex (\<lambda>s. rp_needs s \<noteq> []) (rc_steps r)"

section \<open>Placeholders\<close>

definition is_ident_start :: "char \<Rightarrow> bool" where
  "is_ident_start c = (is_ascii_alpha c \<or> c = CHR ''_'')"

definition is_ident_char :: "char \<Rightarrow> bool" where
  "is_ident_char c = (is_ascii_alnum c \<or> c = CHR ''_'')"

fun is_ident :: "string \<Rightarrow> bool" where
  "is_ident [] = False"
| "is_ident (c # s) = (is_ident_start c \<and> list_all is_ident_char s)"

text \<open>What follows a \<open>$\<close>: the name, and the input after the placeholder.\<close>

definition parse_placeholder :: "string \<Rightarrow> (string \<times> string) option" where
  "parse_placeholder s =
     (case s of
        [] \<Rightarrow> None
      | c # t \<Rightarrow>
          if c = CHR ''{'' then
            (let name = takeWhile (\<lambda>c. c \<noteq> CHR ''}'') t; rest = dropWhile (\<lambda>c. c \<noteq> CHR ''}'') t in
             if rest = [] then None
             else if is_ident name then Some (name, tl rest) else None)
          else
            (let name = takeWhile is_ident_char s in
             if name = [] then None
             else if is_ident name then Some (name, dropWhile is_ident_char s) else None))"

lemma parse_placeholder_shrinks: "parse_placeholder s = Some (name, rest) \<Longrightarrow> length rest < Suc (length s)"
  by (auto simp: parse_placeholder_def Let_def length_dropWhile_le less_Suc_eq_le le_SucI
      le_trans [OF diff_le_self length_dropWhile_le] split: list.splits if_splits)

text \<open>
  The loops over the bytes of a string; a byte that starts no placeholder is passed over,
  or copied.  (\<open>$\<close> is never inside an encoded character, so copying byte by byte copies the
  characters.)
\<close>

function collect_placeholders :: "string \<Rightarrow> string list \<Rightarrow> string list" where
  "collect_placeholders [] out = out"
| "collect_placeholders (c # s) out =
     (case (if c = CHR ''$'' then parse_placeholder s else None) of
        Some (name, rest) \<Rightarrow> collect_placeholders rest (insort_insert name out)
      | None \<Rightarrow> collect_placeholders s out)"
  by pat_completeness auto
termination
  by (relation "measure (\<lambda>(s, out). length s)") (auto split: if_splits dest: parse_placeholder_shrinks)

definition missing_set :: "string \<Rightarrow> string" where
  "missing_set name = ''missing --set '' @ name @ ''='' @ ellipsis"

function subst_loop :: "(string \<Rightarrow> string option) \<Rightarrow> string \<Rightarrow> string result" where
  "subst_loop env [] = Inr []"
| "subst_loop env (c # s) =
     (case (if c = CHR ''$'' then parse_placeholder s else None) of
        Some (name, rest) \<Rightarrow>
          (case env name of
             None \<Rightarrow> Inl (missing_set name)
           | Some v \<Rightarrow> rmap (\<lambda>t. v @ t) (subst_loop env rest))
      | None \<Rightarrow> rmap (\<lambda>t. c # t) (subst_loop env s))"
  by pat_completeness auto
termination
  by (relation "measure (\<lambda>(env, s). length s)") (auto split: if_splits dest: parse_placeholder_shrinks)

definition substitute_string :: "(string \<Rightarrow> string option) \<Rightarrow> string \<Rightarrow> string result" where
  "substitute_string env s = (if CHR ''$'' \<in> set s then subst_loop env s else Inr s)"

definition string_has_placeholder :: "string \<Rightarrow> bool" where
  "string_has_placeholder s = (collect_placeholders s [] \<noteq> [])"

definition collect_opt :: "string option \<Rightarrow> string list \<Rightarrow> string list" where
  "collect_opt v out = (case v of Some s \<Rightarrow> collect_placeholders s out | None \<Rightarrow> out)"

definition substitute_opt :: "(string \<Rightarrow> string option) \<Rightarrow> string option \<Rightarrow> string option result" where
  "substitute_opt env v = (case v of Some s \<Rightarrow> rmap Some (substitute_string env s) | None \<Rightarrow> Inr None)"

text \<open>The values of a JSON document, not the keys of its objects.\<close>

fun collect_placeholders_in_value :: "json \<Rightarrow> string list \<Rightarrow> string list" where
  "collect_placeholders_in_value (JStr s) out = collect_placeholders s out"
| "collect_placeholders_in_value (JArr xs) out = fold collect_placeholders_in_value xs out"
| "collect_placeholders_in_value (JObj m) out = fold (\<lambda>(k, v). collect_placeholders_in_value v) m out"
| "collect_placeholders_in_value _ out = out"

fun substitute_value :: "(string \<Rightarrow> string option) \<Rightarrow> json \<Rightarrow> json result" where
  "substitute_value env (JStr s) = rmap JStr (substitute_string env s)"
| "substitute_value env (JArr xs) = rmap JArr (rmap_list (substitute_value env) xs)"
| "substitute_value env (JObj m) =
     rmap JObj (rmap_list (\<lambda>(k, v). rmap (\<lambda>v. (k, v)) (substitute_value env v)) m)"
| "substitute_value env v = Inr v"

definition collect_in_spec :: "assert_spec \<Rightarrow> string list \<Rightarrow> string list" where
  "collect_in_spec spec out =
     collect_opt (spec_role spec) (collect_opt (spec_value spec) (collect_opt (spec_name spec)
       (collect_placeholders (spec_target spec) out)))"

definition substitute_spec :: "(string \<Rightarrow> string option) \<Rightarrow> assert_spec \<Rightarrow> assert_spec result" where
  "substitute_spec env spec =
     rbind (substitute_string env (spec_target spec)) (\<lambda>target.
     rbind (substitute_opt env (spec_name spec)) (\<lambda>name.
     rbind (substitute_opt env (spec_value spec)) (\<lambda>v.
     rbind (substitute_opt env (spec_role spec)) (\<lambda>role.
       Inr (spec\<lparr>spec_target := target, spec_name := name, spec_value := v, spec_role := role\<rparr>)))))"

fun collect_placeholders_in_op :: "op \<Rightarrow> string list \<Rightarrow> string list" where
  "collect_placeholders_in_op (OpWaitUntil _ spec) out = collect_in_spec spec out"
| "collect_placeholders_in_op (OpAssert spec) out = collect_in_spec spec out"
| "collect_placeholders_in_op (OpClick target _ _) out = collect_placeholders target out"
| "collect_placeholders_in_op (OpType target txt _ _) out =
     collect_placeholders txt (collect_placeholders target out)"
| "collect_placeholders_in_op (OpSetValue target v _) out =
     collect_placeholders v (collect_placeholders target out)"
| "collect_placeholders_in_op (OpKey target key _ _) out =
     collect_placeholders key (collect_placeholders target out)"
| "collect_placeholders_in_op (OpKeybinding binding chord _ _ _) out =
     collect_opt chord (collect_placeholders binding out)"
| "collect_placeholders_in_op (OpInvoke name args) out =
     collect_placeholders_in_value args (collect_placeholders name out)"
| "collect_placeholders_in_op (OpScreenshot path _ target _) out =
     collect_opt target (collect_opt path out)"
| "collect_placeholders_in_op _ out = out"

fun substitute_op :: "(string \<Rightarrow> string option) \<Rightarrow> op \<Rightarrow> op result" where
  "substitute_op env (OpWaitUntil ms spec) = rmap (OpWaitUntil ms) (substitute_spec env spec)"
| "substitute_op env (OpAssert spec) = rmap OpAssert (substitute_spec env spec)"
| "substitute_op env (OpClick target d fp) = rmap (\<lambda>t. OpClick t d fp) (substitute_string env target)"
| "substitute_op env (OpType target txt d fp) =
     rbind (substitute_string env target) (\<lambda>t. rmap (\<lambda>x. OpType t x d fp) (substitute_string env txt))"
| "substitute_op env (OpSetValue target v fp) =
     rbind (substitute_string env target) (\<lambda>t. rmap (\<lambda>x. OpSetValue t x fp) (substitute_string env v))"
| "substitute_op env (OpKey target key d fp) =
     rbind (substitute_string env target) (\<lambda>t. rmap (\<lambda>x. OpKey t x d fp) (substitute_string env key))"
| "substitute_op env (OpKeybinding binding chord sc cf ac) =
     rbind (substitute_string env binding) (\<lambda>b. rmap (\<lambda>c. OpKeybinding b c sc cf ac) (substitute_opt env chord))"
| "substitute_op env (OpInvoke name args) =
     rbind (substitute_string env name) (\<lambda>n. rmap (OpInvoke n) (substitute_value env args))"
| "substitute_op env (OpScreenshot path mode target h) =
     rbind (substitute_opt env path) (\<lambda>p. rmap (\<lambda>t. OpScreenshot p mode t h) (substitute_opt env target))"
| "substitute_op env op = Inr op"

definition apply_params :: "recipe \<Rightarrow> (string \<Rightarrow> string option) \<Rightarrow> recipe result" where
  "apply_params r env =
     (case List.find (\<lambda>name. env name = None) (rc_params r) of
        Some name \<Rightarrow> Inl (missing_set name)
      | None \<Rightarrow> rmap (\<lambda>steps. r\<lparr>rc_steps := steps\<rparr>)
          (rmap_list (\<lambda>s. rmap (\<lambda>op. s\<lparr>rp_op := op\<rparr>) (substitute_op env (rp_op s))) (rc_steps r)))"

section \<open>Validation\<close>

definition validate_placeholders_declared :: "op \<Rightarrow> string list \<Rightarrow> unit result" where
  "validate_placeholders_declared op params =
     (case List.find (\<lambda>name. name \<notin> set params) (collect_placeholders_in_op op []) of
        Some name \<Rightarrow> Inl (''placeholder $'' @ name @ '' is not declared in recipe.params'')
      | None \<Rightarrow> Inr ())"

definition not_substitutable :: string where
  "not_substitutable = '' cannot contain $params (graph identity is not substitutable)''"

fun validate_ids :: "recipe_step list \<Rightarrow> string list \<Rightarrow> string list result" where
  "validate_ids [] ids = Inr ids"
| "validate_ids (s # steps) ids =
     (if trim (rp_id s) = [] then Inl ''step id cannot be empty''
      else if string_has_placeholder (rp_id s) then Inl (''step id `'' @ rp_id s @ ''`'' @ not_substitutable)
      else if rp_id s \<in> set ids then Inl (''duplicate step id `'' @ rp_id s @ ''`'')
      else validate_ids steps (insort_insert (rp_id s) ids))"

fun validate_needs :: "string \<Rightarrow> string list \<Rightarrow> string list \<Rightarrow> unit result" where
  "validate_needs sid ids [] = Inr ()"
| "validate_needs sid ids (need # needs) =
     (if string_has_placeholder need then Inl (''step `'' @ sid @ ''` needs `'' @ need @ ''`'' @ not_substitutable)
      else if need \<notin> set ids then Inl (''step `'' @ sid @ ''` needs unknown `'' @ need @ ''`'')
      else if need = sid then Inl (''step `'' @ sid @ ''` cannot need itself'')
      else validate_needs sid ids needs)"

fun validate_op :: "registry \<Rightarrow> op \<Rightarrow> unit result" where
  "validate_op reg (OpKeybinding binding _ _ confirm _) =
     (if is_quit_binding binding \<and> \<not> confirm
      then Inl (''dangerous keybinding `'' @ binding @ ''` requires confirm=true'') else Inr ())"
| "validate_op reg (OpInvoke name _) =
     (case registry_get reg name of
        Some schema \<Rightarrow> if os_kind schema = KindInvoke then Inr ()
          else Inl (''invoke `'' @ name @ ''` is registered but is not an invoke schema'')
      | None \<Rightarrow> Inl (''unknown invoke `'' @ name @ ''` (not in schema registry; fail closed)''))"
| "validate_op reg _ = Inr ()"

fun validate_steps :: "registry \<Rightarrow> string list \<Rightarrow> string list \<Rightarrow> recipe_step list \<Rightarrow> unit result" where
  "validate_steps reg params ids [] = Inr ()"
| "validate_steps reg params ids (s # steps) =
     rbind (validate_needs (rp_id s) ids (rp_needs s)) (\<lambda>_.
     rbind (validate_placeholders_declared (rp_op s) params) (\<lambda>_.
     rbind (validate_op reg (rp_op s)) (\<lambda>_. validate_steps reg params ids steps)))"

definition validate_recipe :: "recipe \<Rightarrow> registry \<Rightarrow> unit result" where
  "validate_recipe r reg =
     (if rc_v r \<noteq> RECIPE_FORMAT_VERSION then
        Inl (''unsupported recipe version '' @ dec (unat (rc_v r)) @ '' (want '' @ dec (unat RECIPE_FORMAT_VERSION) @ '')'')
      else if trim (rc_name r) = [] then Inl ''recipe name cannot be empty''
      else if rc_steps r = [] then Inl ''recipe has no steps''
      else if MAX_RECIPE_STEPS < length (rc_steps r) then
        Inl (''recipe has '' @ dec (length (rc_steps r)) @ '' steps (max '' @ dec MAX_RECIPE_STEPS @ '')'')
      else rbind (validate_ids (rc_steps r) []) (\<lambda>ids. validate_steps reg (rc_params r) ids (rc_steps r)))"

end
