(* ===== verification/Wants.thy ===== *)
theory Wants
  imports Recipe Virtual_Input
begin

text \<open>
  The line-based \<open>.wants\<close> form of a recipe (\<open>crates/gpui-agent-recipe/src/recipe.rs\<close>): the
  tokenizer, the parser of one line for every operation, and the parser of a file.  The JSON
  values of \<open>invoke\<close> arguments are read by the argument \<open>parse_json\<close> (\<open>serde_json::from_str\<close>).
\<close>

section \<open>Tokens\<close>

abbreviation quote_chars :: "string list" where
  "quote_chars \<equiv> [[CHR 0x22], [CHR 0x27]]"

definition is_ws_char :: "string \<Rightarrow> bool" where
  "is_ws_char ch = (ch \<in> set ws_chars)"

text \<open>The inner loop, after an opening quote: the buffer and what follows the closing one.\<close>

fun quoted :: "string \<Rightarrow> string list \<Rightarrow> string \<Rightarrow> (string \<times> string list) option" where
  "quoted q [] buf = None"
| "quoted q (ch # chs) buf =
     (if ch = q then Some (buf, chs)
      else if ch = [CHR 0x5C] then (case chs of [] \<Rightarrow> None | n # rest \<Rightarrow> quoted q rest (buf @ n))
      else quoted q chs (buf @ ch))"

lemma quoted_shrinks: "quoted q chs buf = Some (buf', rest) \<Longrightarrow> length rest < length chs"
  by (induction q chs buf rule: quoted.induct) (fastforce split: if_splits list.splits)+

function tokenize_loop :: "string list \<Rightarrow> string \<Rightarrow> string list result" where
  "tokenize_loop [] buf = Inr (if buf = [] then [] else [buf])"
| "tokenize_loop (ch # chs) buf =
     (if ch \<in> set quote_chars then
        (case quoted ch chs buf of
           None \<Rightarrow> Inl ''unterminated quote''
         | Some (buf, rest) \<Rightarrow>
             if (case rest of [] \<Rightarrow> True | n # _ \<Rightarrow> is_ws_char n)
             then rmap (Cons buf) (tokenize_loop rest []) else tokenize_loop rest buf)
      else if is_ws_char ch then
        (if buf = [] then tokenize_loop chs [] else rmap (Cons buf) (tokenize_loop chs []))
      else tokenize_loop chs (buf @ ch))"
  by pat_completeness auto
termination
  by (relation "measure (\<lambda>(chs, buf). length chs)") (auto dest: quoted_shrinks)

definition tokenize :: "string \<Rightarrow> string list result" where
  "tokenize line = tokenize_loop (chars_of line) []"

text \<open>\<open>split_once('=')\<close>.\<close>

fun split_once_eq :: "string \<Rightarrow> (string \<times> string) option" where
  "split_once_eq [] = None"
| "split_once_eq (c # s) = (if c = CHR ''='' then Some ([], s) else map_option (\<lambda>(k, v). (c # k, v)) (split_once_eq s))"

section \<open>The operations with options\<close>

record kb_args =
  kb_binding :: "string option"
  kb_chord :: "string option"
  kb_scope :: "keybinding_scope option"
  kb_confirm :: bool
  kb_activate :: bool

fun keybinding_loop :: "string list \<Rightarrow> kb_args \<Rightarrow> kb_args result" where
  "keybinding_loop [] kb = Inr kb"
| "keybinding_loop (token # ts) kb =
     (if token = ''--id'' \<or> token = ''--binding'' then
        (case ts of [] \<Rightarrow> Inl ''keybinding needs --id'' | v # rest \<Rightarrow> keybinding_loop rest (kb\<lparr>kb_binding := Some v\<rparr>))
      else if token = ''--scope'' then
        (case ts of [] \<Rightarrow> Inl ''--scope needs focused or global''
         | v # rest \<Rightarrow> rbind (scope_from_str v) (\<lambda>sc. keybinding_loop rest (kb\<lparr>kb_scope := Some sc\<rparr>)))
      else if token = ''--chord'' then
        (case ts of [] \<Rightarrow> Inl ''--chord needs a value'' | v # rest \<Rightarrow> keybinding_loop rest (kb\<lparr>kb_chord := Some v\<rparr>))
      else if token = ''--confirm'' then
        (case ts of [] \<Rightarrow> keybinding_loop [] (kb\<lparr>kb_confirm := True\<rparr>)
         | v # rest \<Rightarrow> if v = ''true'' then keybinding_loop rest (kb\<lparr>kb_confirm := True\<rparr>)
             else if v = ''false'' then keybinding_loop rest (kb\<lparr>kb_confirm := False\<rparr>)
             else keybinding_loop (v # rest) (kb\<lparr>kb_confirm := True\<rparr>))
      else if token = ''--activate'' then
        (case ts of [] \<Rightarrow> keybinding_loop [] (kb\<lparr>kb_activate := True\<rparr>)
         | v # rest \<Rightarrow> if v = ''false'' then keybinding_loop rest (kb\<lparr>kb_activate := False\<rparr>)
             else if v = ''true'' then keybinding_loop rest (kb\<lparr>kb_activate := True\<rparr>)
             else keybinding_loop (v # rest) (kb\<lparr>kb_activate := True\<rparr>))
      else if \<not> starts_with token ''-'' \<and> kb_binding kb = None then keybinding_loop ts (kb\<lparr>kb_binding := Some token\<rparr>)
      else Inl (''bad keybinding token `'' @ token @ ''`''))"

definition parse_keybinding_wants :: "string list \<Rightarrow> op result" where
  "parse_keybinding_wants tokens =
     rbind (keybinding_loop tokens \<lparr>kb_binding = None, kb_chord = None, kb_scope = None, kb_confirm = False, kb_activate = False\<rparr>)
       (\<lambda>kb. case kb_binding kb of
          None \<Rightarrow> Inl ''keybinding needs --id''
        | Some b \<Rightarrow> (case kb_scope kb of
            None \<Rightarrow> Inl ''keybinding needs --scope focused|global''
          | Some sc \<Rightarrow> Inr (OpKeybinding b (kb_chord kb) sc (kb_confirm kb) (kb_activate kb))))"

record shot_args =
  sa_path :: "string option"
  sa_mode :: screenshot_mode
  sa_target :: "string option"
  sa_max_height :: "u32 option"

fun screenshot_loop :: "string list \<Rightarrow> shot_args \<Rightarrow> shot_args result" where
  "screenshot_loop [] sa = Inr sa"
| "screenshot_loop (token # ts) sa =
     (if token = ''--out'' then
        (case ts of [] \<Rightarrow> Inl ''--out needs a path'' | v # rest \<Rightarrow> screenshot_loop rest (sa\<lparr>sa_path := Some v\<rparr>))
      else if token = ''--mode'' then
        (case ts of [] \<Rightarrow> Inl ''--mode needs viewport or scrolled''
         | v # rest \<Rightarrow> rbind (mode_from_str v) (\<lambda>m. screenshot_loop rest (sa\<lparr>sa_mode := m\<rparr>)))
      else if token = ''--target'' then
        (case ts of [] \<Rightarrow> Inl ''--target needs a scroll-view id'' | v # rest \<Rightarrow> screenshot_loop rest (sa\<lparr>sa_target := Some v\<rparr>))
      else if token = ''--max-height-px'' then
        (case ts of [] \<Rightarrow> Inl ''--max-height-px needs a number''
         | v # rest \<Rightarrow> (case parse_unsigned (2 ^ 32) v of
             None \<Rightarrow> Inl (''bad max_height_px `'' @ v @ ''`'')
           | Some n \<Rightarrow> screenshot_loop rest (sa\<lparr>sa_max_height := Some (of_nat n)\<rparr>)))
      else if starts_with token ''-'' then Inl (''bad screenshot token `'' @ token @ ''`'')
      else if sa_path sa = None then screenshot_loop ts (sa\<lparr>sa_path := Some token\<rparr>)
      else Inl (''bad screenshot token `'' @ token @ ''`''))"

definition parse_screenshot_op :: "string list \<Rightarrow> op result" where
  "parse_screenshot_op tokens =
     rbind (screenshot_loop tokens \<lparr>sa_path = None, sa_mode = Viewport, sa_target = None, sa_max_height = None\<rparr>)
       (\<lambda>sa. if is_scrolled (sa_mode sa) \<and> (case sa_target sa of Some t \<Rightarrow> trim t = [] | None \<Rightarrow> True)
          then Inl ''screenshot mode=scrolled requires --target''
          else Inr (OpScreenshot (sa_path sa) (sa_mode sa) (sa_target sa) (sa_max_height sa)))"

definition take_delivery :: "string list \<Rightarrow> (delivery_mode \<times> string list) result" where
  "take_delivery tokens =
     (case tokens of
        [] \<Rightarrow> Inr (Semantic, tokens)
      | t # ts \<Rightarrow>
          if t = ''--delivery'' then
            (case ts of [] \<Rightarrow> Inl ''--delivery needs semantic or virtual''
             | raw # rest \<Rightarrow> rbind (delivery_from_str raw) (\<lambda>d. Inr (d, rest)))
          else Inr (Semantic, tokens))"

section \<open>Assertions\<close>

definition parse_bool :: "string \<Rightarrow> bool result" where
  "parse_bool raw =
     (if raw = ''true'' then Inr True else if raw = ''false'' then Inr False
      else Inl (''expected true/false, got '' @ raw))"

definition apply_assert_kv :: "assert_spec \<Rightarrow> string \<Rightarrow> string \<Rightarrow> assert_spec result" where
  "apply_assert_kv spec key raw =
     (if key = ''name'' then Inr (spec\<lparr>spec_name := Some raw\<rparr>)
      else if key = ''value'' then Inr (spec\<lparr>spec_value := Some raw\<rparr>)
      else if key = ''role'' then Inr (spec\<lparr>spec_role := Some raw\<rparr>)
      else if key = ''checked'' then rmap (\<lambda>b. spec\<lparr>spec_checked := Some b\<rparr>) (parse_bool raw)
      else if key = ''exists'' then rmap (\<lambda>b. spec\<lparr>spec_exists := Some b\<rparr>) (parse_bool raw)
      else if key = ''visible'' then rmap (\<lambda>b. spec\<lparr>spec_visible := Some b\<rparr>) (parse_bool raw)
      else if key = ''in_viewport'' \<or> key = ''in-viewport'' then rmap (\<lambda>b. spec\<lparr>spec_in_viewport := Some b\<rparr>) (parse_bool raw)
      else if key = ''target'' \<or> key = ''id'' then Inr (spec\<lparr>spec_target := raw\<rparr>)
      else Inl (''unknown assert field `'' @ key @ ''`''))"

text \<open>\<open>parse_optional_bool_flag\<close>: the flag's value and the tokens after it.\<close>

definition parse_optional_bool_flag :: "string list \<Rightarrow> bool \<times> string list" where
  "parse_optional_bool_flag ts =
     (case ts of
        [] \<Rightarrow> (True, [])
      | v # rest \<Rightarrow> if v = ''true'' then (True, rest) else if v = ''false'' then (False, rest) else (True, ts))"

lemma parse_optional_bool_flag_le: "length (snd (parse_optional_bool_flag ts)) \<le> length ts"
  by (auto simp: parse_optional_bool_flag_def split: list.splits)

text \<open>\<open>--checked\<close> and \<open>--exists\<close> read their value as \<open>parse_optional_bool_flag\<close> does.\<close>

function assert_loop :: "string list \<Rightarrow> assert_spec \<Rightarrow> assert_spec result" where
  "assert_loop [] spec = Inr spec"
| "assert_loop (token # ts) spec =
     (if token = ''--id'' \<or> token = ''--target'' then
        (case ts of [] \<Rightarrow> Inl ''missing assert target'' | v # rest \<Rightarrow> assert_loop rest (spec\<lparr>spec_target := v\<rparr>))
      else if token = ''--name'' then
        (case ts of [] \<Rightarrow> Inl ''missing --name'' | v # rest \<Rightarrow> assert_loop rest (spec\<lparr>spec_name := Some v\<rparr>))
      else if token = ''--value'' then
        (case ts of [] \<Rightarrow> Inl ''missing --value'' | v # rest \<Rightarrow> assert_loop rest (spec\<lparr>spec_value := Some v\<rparr>))
      else if token = ''--role'' then
        (case ts of [] \<Rightarrow> Inl ''missing --role'' | v # rest \<Rightarrow> assert_loop rest (spec\<lparr>spec_role := Some v\<rparr>))
      else if token = ''--checked'' then
        assert_loop (snd (parse_optional_bool_flag ts)) (spec\<lparr>spec_checked := Some (fst (parse_optional_bool_flag ts))\<rparr>)
      else if token = ''--exists'' then
        assert_loop (snd (parse_optional_bool_flag ts)) (spec\<lparr>spec_exists := Some (fst (parse_optional_bool_flag ts))\<rparr>)
      else if token = ''--absent'' then assert_loop ts (spec\<lparr>spec_exists := Some False\<rparr>)
      else if token = ''--visible'' then
        assert_loop (snd (parse_optional_bool_flag ts)) (spec\<lparr>spec_visible := Some (fst (parse_optional_bool_flag ts))\<rparr>)
      else if token = ''--in-viewport'' \<or> token = ''--in_viewport'' then
        assert_loop (snd (parse_optional_bool_flag ts)) (spec\<lparr>spec_in_viewport := Some (fst (parse_optional_bool_flag ts))\<rparr>)
      else case split_once_eq token of
        Some (key, raw) \<Rightarrow> rbind (apply_assert_kv spec key raw) (assert_loop ts)
      | None \<Rightarrow>
          if spec_target spec = [] \<and> \<not> starts_with token ''-'' then assert_loop ts (spec\<lparr>spec_target := token\<rparr>)
          else Inl (''bad assert token `'' @ token @ ''`''))"
  by pat_completeness auto
termination
  using parse_optional_bool_flag_le
  by (relation "measure (\<lambda>(ts, spec). length ts)") (auto simp: le_imp_less_Suc)

definition parse_assert_spec :: "string list \<Rightarrow> assert_spec result" where
  "parse_assert_spec tokens =
     rbind (assert_loop tokens default_spec) (\<lambda>spec.
       if spec_target spec = [] then Inl ''assert needs a target'' else Inr spec)"

definition parse_timeout :: "string \<Rightarrow> u64 result" where
  "parse_timeout raw = (case parse_unsigned (2 ^ 64) raw of
     None \<Rightarrow> Inl (''bad timeout_ms `'' @ raw @ ''`'') | Some n \<Rightarrow> Inr (of_nat n))"

fun wait_until_loop :: "string list \<Rightarrow> u64 option \<Rightarrow> string list \<Rightarrow> (u64 option \<times> string list) result" where
  "wait_until_loop [] timeout rest = Inr (timeout, rest)"
| "wait_until_loop (token # ts) timeout rest =
     (if token = ''--timeout-ms'' \<or> token = ''--timeout_ms'' then
        (case ts of [] \<Rightarrow> Inl ''wait_until --timeout-ms needs a number''
         | raw # ts' \<Rightarrow> rbind (parse_timeout raw) (\<lambda>ms. wait_until_loop ts' (Some ms) rest))
      else case strip_prefix ''timeout_ms='' token of
        Some raw \<Rightarrow> rbind (parse_timeout raw) (\<lambda>ms. wait_until_loop ts (Some ms) rest)
      | None \<Rightarrow> wait_until_loop ts timeout (rest @ [token]))"

definition parse_wait_until_op :: "string list \<Rightarrow> op result" where
  "parse_wait_until_op tokens =
     rbind (wait_until_loop tokens None []) (\<lambda>(timeout, rest).
       case timeout of
         None \<Rightarrow> Inl ''wait_until needs --timeout-ms''
       | Some ms \<Rightarrow> rmap (OpWaitUntil ms) (parse_assert_spec rest))"

section \<open>A line\<close>

fun replace_char :: "char \<Rightarrow> char \<Rightarrow> string \<Rightarrow> string" where
  "replace_char a b [] = []"
| "replace_char a b (c # s) = (if c = a then b else c) # replace_char a b s"

text \<open>The arguments of \<open>invoke\<close>: a JSON value, or the text where it is none.\<close>

fun invoke_args ::
    "(string \<Rightarrow> json option) \<Rightarrow> string list \<Rightarrow> (string, json) btmap \<Rightarrow> (string, json) btmap result" where
  "invoke_args parse_json [] m = Inr m"
| "invoke_args parse_json (token # ts) m =
     (case split_once_eq token of
        None \<Rightarrow> Inl (''expected KEY=VALUE, got '' @ token)
      | Some (key, raw) \<Rightarrow>
          invoke_args parse_json ts (bt_insert key (case parse_json raw of Some v \<Rightarrow> v | None \<Rightarrow> JStr raw) m))"

definition parse_op ::
    "(string \<Rightarrow> json option) \<Rightarrow> string \<Rightarrow> string list \<Rightarrow> op result" where
  "parse_op parse_json op_name args =
     (if op_name = ''wait'' then Inr (OpWait None)
      else if op_name = ''wait_until'' then parse_wait_until_op args
      else if op_name = ''hello'' then Inr OpHello
      else if op_name = ''snapshot'' then Inr op_snapshot
      else if op_name = ''revision'' then Inr OpRevision
      else if op_name = ''shutdown'' then Inr OpShutdown
      else if op_name = ''click'' then
        rbind (take_delivery args) (\<lambda>(d, rest).
          case rest of [] \<Rightarrow> Inl ''click needs a target'' | target # _ \<Rightarrow> Inr (OpClick target d None))
      else if op_name = ''type'' then
        rbind (take_delivery args) (\<lambda>(d, rest).
          case rest of target # txt # _ \<Rightarrow> Inr (OpType target txt d None) | _ \<Rightarrow> Inl ''type needs target and text'')
      else if op_name = ''set_value'' then
        (case args of target # v # _ \<Rightarrow> Inr (OpSetValue target v None) | _ \<Rightarrow> Inl ''set-value needs target and value'')
      else if op_name = ''key'' then
        rbind (take_delivery args) (\<lambda>(d, rest).
          case rest of target # k # _ \<Rightarrow> Inr (OpKey target k d None) | _ \<Rightarrow> Inl ''key needs target and key name'')
      else if op_name = ''keybindings'' \<or> op_name = ''keybinding.list'' then Inr OpKeybindings
      else if op_name = ''keybinding'' then parse_keybinding_wants args
      else if op_name = ''assert'' then rmap OpAssert (parse_assert_spec args)
      else if op_name = ''screenshot'' then parse_screenshot_op args
      else if op_name = ''invoke'' then
        (case args of
           [] \<Rightarrow> Inl ''invoke needs a name''
         | name # kvs \<Rightarrow> rmap (\<lambda>m. OpInvoke name (JObj m)) (invoke_args parse_json kvs []))
      else Inl (''unknown op `'' @ op_name @ ''`''))"

definition parse_wants_step ::
    "(string \<Rightarrow> json option) \<Rightarrow> string list \<Rightarrow> string \<Rightarrow> recipe_step result" where
  "parse_wants_step parse_json tokens ident =
     (let screenshot = list_ex (\<lambda>t. t = ''--screenshot'') tokens;
          tokens = filter (\<lambda>t. t \<noteq> ''--screenshot'') tokens
      in case tokens of
           [] \<Rightarrow> Inl ''missing op''
         | t # args \<Rightarrow> rmap (\<lambda>op. \<lparr>rp_id = ident, rp_needs = [], rp_screenshot = screenshot, rp_op = op\<rparr>)
             (parse_op parse_json (replace_char CHR ''-'' CHR ''_'' t) args))"

section \<open>A file\<close>

text \<open>\<open>str::lines\<close>: the pieces between line feeds, without a final empty piece, each
  without the carriage return before its line feed.\<close>

fun split_nl :: "string \<Rightarrow> string \<Rightarrow> string list" where
  "split_nl acc [] = (if acc = [] then [] else [acc])"
| "split_nl acc (c # s) =
     (if c = CHR 0x0A then (if acc \<noteq> [] \<and> last acc = CHR 0x0D then butlast acc else acc) # split_nl [] s
      else split_nl (acc @ [c]) s)"

definition str_lines :: "string \<Rightarrow> string list" where
  "str_lines s = split_nl [] s"

text \<open>The loop of \<open>parse_wants\<close>: the number of the line, the parameters and the steps so far.\<close>

fun wants_loop ::
    "(string \<Rightarrow> json option) \<Rightarrow> nat \<Rightarrow> string list \<Rightarrow> string list \<Rightarrow> recipe_step list \<Rightarrow>
       (string list \<times> recipe_step list) result" where
  "wants_loop parse_json i [] params steps = Inr (params, steps)"
| "wants_loop parse_json i (raw # raws) params steps =
     (let line = trim raw in
      if line = [] \<or> starts_with line ''#'' then wants_loop parse_json (i + 1) raws params steps
      else rbind (tokenize line) (\<lambda>tokens.
        if tokens = [] then wants_loop parse_json (i + 1) raws params steps
        else case parse_wants_step parse_json tokens (''s'' @ dec (length steps + 1)) of
          Inl err \<Rightarrow> Inl (''line '' @ dec (i + 1) @ '': '' @ err)
        | Inr step \<Rightarrow> wants_loop parse_json (i + 1) raws
            (collect_placeholders_in_op (rp_op step) params) (steps @ [step])))"

definition parse_wants :: "(string \<Rightarrow> json option) \<Rightarrow> string \<Rightarrow> string \<Rightarrow> recipe result" where
  "parse_wants parse_json txt name =
     rbind (wants_loop parse_json 0 (str_lines txt) [] []) (\<lambda>(params, steps).
       if steps = [] then Inl ''recipe has no steps''
       else Inr \<lparr>rc_v = RECIPE_FORMAT_VERSION, rc_name = name, rc_app = None, rc_params = params, rc_steps = steps\<rparr>)"

definition parse_recipe_source ::
    "(string \<Rightarrow> recipe result) \<Rightarrow> (string \<Rightarrow> json option) \<Rightarrow> string \<Rightarrow> string \<Rightarrow> bool \<Rightarrow> recipe result" where
  "parse_recipe_source parse_recipe_json parse_json txt name force_json =
     (let trimmed = trim txt in
      if force_json \<or> starts_with trimmed ''{'' then recipe_from_json parse_recipe_json trimmed
      else parse_wants parse_json trimmed name)"

text \<open>
  \<open>Path::file_stem\<close> and \<open>extension\<close>: the name before and after its last dot; a name without a
  dot, or whose only dot is its first character, has no extension.
\<close>

definition last_dot :: "string \<Rightarrow> (string \<times> string) option" where
  "last_dot name =
     (let ext = rev (takeWhile (\<lambda>c. c \<noteq> CHR ''.'') (rev name));
          stem = butlast (rev (dropWhile (\<lambda>c. c \<noteq> CHR ''.'') (rev name)))
      in if CHR ''.'' \<in> set name \<and> stem \<noteq> [] then Some (stem, ext) else None)"

definition file_stem :: "string \<Rightarrow> string option" where
  "file_stem p = map_option (\<lambda>name. case last_dot name of Some (stem, _) \<Rightarrow> stem | None \<Rightarrow> name) (path_file_name p)"

definition file_extension :: "string \<Rightarrow> string option" where
  "file_extension p = Option.bind (path_file_name p) (\<lambda>name. map_option snd (last_dot name))"

text \<open>\<open>parse_recipe\<close>; reading a file and reading the standard input are arguments.\<close>

definition parse_recipe ::
    "string result \<Rightarrow> (string \<Rightarrow> string result) \<Rightarrow> (string \<Rightarrow> recipe result) \<Rightarrow> (string \<Rightarrow> json option) \<Rightarrow>
       string \<Rightarrow> recipe result" where
  "parse_recipe stdin read_file parse_recipe_json parse_json path =
     rbind (if path = ''-'' then stdin
            else (case read_file path of Inl err \<Rightarrow> Inl (path @ '': '' @ err) | Inr txt \<Rightarrow> Inr txt)) (\<lambda>txt.
       parse_recipe_source parse_recipe_json parse_json txt
         (case file_stem path of Some n \<Rightarrow> n | None \<Rightarrow> ''recipe'')
         (to_ascii_lowercase (case file_extension path of Some e \<Rightarrow> e | None \<Rightarrow> []) = ''json''))"

end
