(* ===== verification/Plan.thy ===== *)
theory Plan
  imports Recipe
begin

text \<open>
  \<open>crates/gpui-agent-recipe/src/plan.rs\<close>: a recipe compiled into waves of independent
  steps.  \<open>schedule\<close> is Kahn's algorithm over the indices of the steps, with the unsigned
  counters of the code: a counter that would go below zero panics, which is \<open>None\<close> here.
  The outer \<open>option\<close> of a function is the panic, the inner \<open>result\<close> the error of the code.
\<close>

record planned_step =
  ps_id :: string
  ps_op :: op
  ps_needs :: "string list"
  ps_screenshot :: bool
  ps_effects :: "effect list"
  ps_schema :: "string option"
  ps_idempotent :: bool

record plan =
  pl_name :: string
  pl_app :: "string option"
  pl_steps :: "planned_step list"
  pl_waves :: "string list list"
  pl_effects :: "effect list"
  pl_requires_yes :: bool
  pl_fingerprint :: string

record order_check_result =
  oc_order_dependent :: bool
  oc_forward_waves :: "string list list"
  oc_reverse_waves :: "string list list"

section \<open>Annotation\<close>

definition lookup :: "string \<Rightarrow> registry \<Rightarrow> string option \<times> effect list \<times> bool" where
  "lookup name reg =
     (case registry_get reg name of
        Some schema \<Rightarrow> (Some (os_name schema), os_effects schema, os_idempotent schema)
      | None \<Rightarrow> (None, [Write], False))"

fun annotate :: "op \<Rightarrow> registry \<Rightarrow> string option \<times> effect list \<times> bool" where
  "annotate (OpHello) reg = lookup ''hello'' reg"
| "annotate (OpWait _) reg = lookup ''wait'' reg"
| "annotate (OpWaitUntil _ _) reg = lookup ''wait_until'' reg"
| "annotate (OpSnapshot _ _ _) reg = lookup ''snapshot'' reg"
| "annotate OpRevision reg = lookup ''revision'' reg"
| "annotate (OpClick _ _ _) reg = lookup ''click'' reg"
| "annotate (OpType _ _ _ _) reg = lookup ''type'' reg"
| "annotate (OpSetValue _ _ _) reg = lookup ''set_value'' reg"
| "annotate (OpKey _ _ _ _) reg = lookup ''key'' reg"
| "annotate (OpKeybinding binding _ _ _ _) reg =
     (let (name, effects, idempotent) = lookup ''keybinding'' reg in
      if is_quit_binding binding then (name, [Exit], idempotent) else (name, effects, idempotent))"
| "annotate OpKeybindings reg = lookup ''keybindings'' reg"
| "annotate (OpEvents _ _) reg = lookup ''events'' reg"
| "annotate (OpAssert _) reg = lookup ''assert'' reg"
| "annotate (OpScreenshot _ _ _ _) reg = lookup ''screenshot'' reg"
| "annotate OpShutdown reg = lookup ''shutdown'' reg"
| "annotate (OpInvoke name _) reg =
     (case registry_get reg name of
        Some schema \<Rightarrow>
          if os_kind schema = KindInvoke then (Some (os_name schema), os_effects schema, os_idempotent schema)
          else lookup ''invoke'' reg
      | None \<Rightarrow> lookup ''invoke'' reg)"

section \<open>Scheduling\<close>

text \<open>The index of every id; of two steps with one id the later wins.\<close>

definition build_index :: "recipe_step list \<Rightarrow> (string, nat) btmap" where
  "build_index steps = fold (\<lambda>(i, s) m. bt_insert (rp_id s) i m) (enumerate 0 steps) []"

fun add_needs :: "(string, nat) btmap \<Rightarrow> nat \<Rightarrow> string list \<Rightarrow> nat list \<times> nat list list \<Rightarrow> (nat list \<times> nat list list) result" where
  "add_needs ix i [] (indegree, adj) = Inr (indegree, adj)"
| "add_needs ix i (need # needs) (indegree, adj) =
     (case map_of ix need of
        None \<Rightarrow> Inl (''unknown need `'' @ need @ ''`'')
      | Some j \<Rightarrow> add_needs ix i needs (indegree[i := indegree ! i + 1], adj[j := adj ! j @ [i]]))"

fun add_edges :: "(string, nat) btmap \<Rightarrow> (nat \<times> recipe_step) list \<Rightarrow> nat list \<times> nat list list \<Rightarrow> (nat list \<times> nat list list) result" where
  "add_edges ix [] g = Inr g"
| "add_edges ix ((i, s) # rest) g = rbind (add_needs ix i (rp_needs s) g) (add_edges ix rest)"

text \<open>The successors of one finished step.\<close>

fun relax :: "nat list \<Rightarrow> nat list \<Rightarrow> nat list \<Rightarrow> (nat list \<times> nat list) option" where
  "relax [] indegree next = Some (indegree, next)"
| "relax (j # js) indegree next =
     (if indegree ! j = 0 then None
      else relax js (indegree[j := indegree ! j - 1]) (if indegree ! j - 1 = 0 then next @ [j] else next))"

fun run_wave ::
    "nat list list \<Rightarrow> nat list \<Rightarrow> nat list \<times> nat \<times> nat list \<times> nat list \<Rightarrow> (nat list \<times> nat \<times> nat list \<times> nat list) option" where
  "run_wave adj [] st = Some st"
| "run_wave adj (i # is) (ordered, remaining, indegree, next) =
     (if remaining = 0 then None
      else case relax (adj ! i) indegree next of
        None \<Rightarrow> None
      | Some (indegree', next') \<Rightarrow> run_wave adj is (ordered @ [i], remaining - 1, indegree', next'))"

lemma run_wave_remaining:
  "run_wave adj w (ord, r, d, nx) = Some (ord', r', d', nx') \<Longrightarrow> r = r' + length w"
  by (induction w arbitrary: ord r d nx) (auto split: if_splits option.splits)

function kahn ::
    "recipe_step list \<Rightarrow> nat list list \<Rightarrow> nat list \<Rightarrow> nat list \<Rightarrow> nat list \<Rightarrow> string list list \<Rightarrow> nat \<Rightarrow>
       (nat list \<times> string list list \<times> nat) option" where
  "kahn steps adj ready indegree ordered waves remaining =
     (if ready = [] then Some (ordered, waves, remaining)
      else let wave = sort_key (\<lambda>i. rp_id (steps ! i)) ready in
        case run_wave adj wave (ordered, remaining, indegree, []) of
          None \<Rightarrow> None
        | Some (ordered', remaining', indegree', next) \<Rightarrow>
            kahn steps adj next indegree' ordered'
              (waves @ [map (\<lambda>i. rp_id (steps ! i)) wave]) remaining')"
  by pat_completeness auto
termination
proof (relation "measure (\<lambda>(steps, adj, ready, indegree, ordered, waves, remaining). remaining)", simp)
  fix steps adj ready indegree ordered remaining waves wave z x y xa ya xb yb
  assume a: "ready \<noteq> []" "wave = sort_key (\<lambda>i. rp_id (steps ! i)) ready"
    "run_wave adj wave (ordered, remaining, indegree, []) = Some z"
    "(x, y) = z" "(xa, ya) = y" "(xb, yb) = ya"
  have "remaining = xa + length wave"
    by (rule run_wave_remaining [of adj wave ordered remaining indegree "[]" x xa xb yb]) (use a in simp)
  moreover have "length wave > 0" using a(1,2) by (metis length_greater_0_conv length_sort)
  ultimately show "((steps, adj, yb, xb, x, waves @ [map (\<lambda>i. rp_id (steps ! i)) wave], xa),
      steps, adj, ready, indegree, ordered, waves, remaining)
     \<in> measure (\<lambda>(steps, adj, ready, indegree, ordered, waves, remaining). remaining)" by simp
qed

declare kahn.simps [simp del]

definition dependency_cycle :: string where
  "dependency_cycle = ''recipe has a dependency cycle''"

definition schedule :: "recipe_step list \<Rightarrow> (nat list \<times> string list list) result option" where
  "schedule steps =
     (if list_all (\<lambda>s. rp_needs s = []) steps then
        Some (Inr ([0..<length steps], map (\<lambda>s. [rp_id s]) steps))
      else case add_edges (build_index steps) (enumerate 0 steps)
                  (replicate (length steps) 0, replicate (length steps) []) of
        Inl e \<Rightarrow> Some (Inl e)
      | Inr (indegree, adj) \<Rightarrow>
          (case kahn steps adj (filter (\<lambda>i. indegree ! i = 0) [0..<length steps]) indegree [] [] (length steps) of
             None \<Rightarrow> None
           | Some (ordered, waves, remaining) \<Rightarrow>
               Some (if remaining \<noteq> 0 then Inl dependency_cycle else Inr (ordered, waves))))"

section \<open>Compilation\<close>

text \<open>
  \<open>fingerprint_plan\<close>: \<open>serde_json\<close> and the standard hasher are one argument, from the JSON
  payload to the 64-bit hash.
\<close>

fun hex_fixed :: "nat \<Rightarrow> nat \<Rightarrow> string" where
  "hex_fixed 0 n = []"
| "hex_fixed (Suc k) n = hex_fixed k (n div 16) @ [hex_digit (n mod 16)]"

type_synonym plan_payload = "string \<times> (string \<times> op \<times> string list) list"

definition fingerprint_plan :: "(plan_payload \<Rightarrow> u64) \<Rightarrow> string \<Rightarrow> planned_step list \<Rightarrow> string" where
  "fingerprint_plan hash name steps =
     hex_fixed 16 (unat (hash (name, map (\<lambda>s. (ps_id s, ps_op s, ps_needs s)) steps)))"

definition planned :: "recipe_step list \<Rightarrow> registry \<Rightarrow> nat \<Rightarrow> planned_step" where
  "planned steps reg i =
     (let step = steps ! i; (schema, effects, idempotent) = annotate (rp_op step) reg;
          needs = (if list_all (\<lambda>s. rp_needs s = []) steps
                   then (if i = 0 then [] else [rp_id (steps ! (i - 1))]) else rp_needs step)
      in \<lparr>ps_id = rp_id step, ps_op = rp_op step, ps_needs = needs, ps_screenshot = rp_screenshot step,
          ps_effects = effects, ps_schema = schema, ps_idempotent = idempotent\<rparr>)"

definition bound_recipe :: "recipe \<Rightarrow> (string \<Rightarrow> string option) \<Rightarrow> recipe result" where
  "bound_recipe r env = (if rc_params r = [] then Inr r else apply_params r env)"

definition compile_plan ::
    "(plan_payload \<Rightarrow> u64) \<Rightarrow> recipe \<Rightarrow> (string \<Rightarrow> string option) \<Rightarrow> registry \<Rightarrow> plan result option" where
  "compile_plan hash r env reg =
     (case rbind (validate_recipe r reg) (\<lambda>_. bound_recipe r env) of
        Inl e \<Rightarrow> Some (Inl e)
      | Inr b \<Rightarrow> (case schedule (rc_steps b) of
          None \<Rightarrow> None
        | Some (Inl e) \<Rightarrow> Some (Inl e)
        | Some (Inr (ordered, waves)) \<Rightarrow>
            let ps = map (planned (rc_steps b) reg) ordered;
                effects = fold insort_insert (concat (map ps_effects ps)) [] in
            Some (Inr \<lparr>pl_name = rc_name b, pl_app = rc_app b, pl_steps = ps, pl_waves = waves,
              pl_effects = effects, pl_requires_yes = (Exit \<in> set effects),
              pl_fingerprint = fingerprint_plan hash (rc_name b) ps\<rparr>)))"

text \<open>\<open>order_check\<close>: a wave is compared as a set, the sorted list of its ids.\<close>

definition wave_set :: "string list \<Rightarrow> string list" where
  "wave_set w = fold insort_insert w []"

definition order_check ::
    "(plan_payload \<Rightarrow> u64) \<Rightarrow> recipe \<Rightarrow> (string \<Rightarrow> string option) \<Rightarrow> registry \<Rightarrow> order_check_result result option" where
  "order_check hash r env reg =
     (case compile_plan hash r env reg of
        None \<Rightarrow> None
      | Some (Inl e) \<Rightarrow> Some (Inl e)
      | Some (Inr forward) \<Rightarrow>
          (case compile_plan hash (r\<lparr>rc_steps := rev (rc_steps r)\<rparr>) env reg of
             None \<Rightarrow> None
           | Some (Inl e) \<Rightarrow> Some (Inl e)
           | Some (Inr reverse) \<Rightarrow> Some (Inr \<lparr>
               oc_order_dependent = (map wave_set (pl_waves forward) \<noteq> map wave_set (pl_waves reverse)),
               oc_forward_waves = pl_waves forward, oc_reverse_waves = pl_waves reverse\<rparr>)))"

end
