(* ===== verification/Plan_Laws.thy ===== *)
theory Plan_Laws
  imports Plan
begin

text \<open>
  The scheduler against its specification: \<open>topo_layers\<close> takes, over and over, every step
  whose needs are all done.  Then what validation gives the scheduler, and the plan that
  comes out.
\<close>

section \<open>The specification\<close>

definition ready_steps :: "recipe_step list \<Rightarrow> string list \<Rightarrow> recipe_step list" where
  "ready_steps steps finished =
     filter (\<lambda>s. rp_id s \<notin> set finished \<and> set (rp_needs s) \<subseteq> set finished) steps"

function topo_layers :: "recipe_step list \<Rightarrow> string list \<Rightarrow> string list list" where
  "topo_layers steps finished =
     (let layer = sort (map rp_id (ready_steps steps finished)) in
      if layer = [] then [] else layer # topo_layers steps (finished @ layer))"
  by pat_completeness auto
termination
proof (relation "measure (\<lambda>(steps, finished). length (filter (\<lambda>s. rp_id s \<notin> set finished) steps))", simp)
  fix steps :: "recipe_step list" and finished layer
  assume l: "layer = sort (map rp_id (ready_steps steps finished))" "layer \<noteq> []"
  then have "ready_steps steps finished \<noteq> []" by auto
  then have r: "hd (ready_steps steps finished) \<in> set (ready_steps steps finished)" by simp
  define s where "s = hd (ready_steps steps finished)"
  note r = r [folded s_def]
  from r have s: "s \<in> set steps" "rp_id s \<notin> set finished" "rp_id s \<in> set layer"
    by (auto simp: l(1) ready_steps_def)
  have "length (filter (\<lambda>s. rp_id s \<notin> set (finished @ layer)) steps)
      < length (filter (\<lambda>s. rp_id s \<notin> set finished) steps)"
    using s(1)
  proof (induction steps)
    case (Cons t ts)
    have le: "length (filter (\<lambda>s. rp_id s \<notin> set (finished @ layer)) ts)
        \<le> length (filter (\<lambda>s. rp_id s \<notin> set finished) ts)"
      by (induction ts) auto
    show ?case using Cons s(2,3) le by (cases "s = t") auto
  qed simp
  then show "((steps, finished @ layer), steps, finished)
      \<in> measure (\<lambda>(steps, finished). length (filter (\<lambda>s. rp_id s \<notin> set finished) steps))" by simp
qed

declare topo_layers.simps [simp del]

section \<open>The counters\<close>

lemma relax_spec:
  assumes "\<And>j. j \<in> set js \<Longrightarrow> j < length d" "\<And>j. count_list js j \<le> d ! j \<or> j \<notin> set js"
    and "distinct nx" "\<And>j. j \<in> set nx \<Longrightarrow> d ! j = 0 \<and> j < length d"
  shows "\<exists>d' nx'. relax js d nx = Some (d', nx') \<and> length d' = length d
     \<and> (\<forall>k < length d. d' ! k = d ! k - count_list js k)
     \<and> distinct nx' \<and> set nx' = set nx \<union> {k \<in> set js. d' ! k = 0}"
  using assms
proof (induction js arbitrary: d nx)
  case (Cons j js)
  have j: "j < length d" "count_list (j # js) j \<le> d ! j" using Cons.prems(1,2) [of j] by auto
  then have pos: "d ! j \<noteq> 0" by auto
  let ?d = "d[j := d ! j - 1]"
  let ?nx = "if d ! j - 1 = 0 then nx @ [j] else nx"
  have jn: "j \<notin> set nx" using Cons.prems(4) [of j] pos by auto
  have 1: "k < length ?d" if "k \<in> set js" for k using Cons.prems(1) that by simp
  have 2: "count_list js k \<le> ?d ! k \<or> k \<notin> set js" for k
    using Cons.prems(2) [of k] j by (cases "k = j") (auto simp: nth_list_update)
  have 3: "distinct ?nx" using Cons.prems(3) jn by simp
  have 4: "?d ! k = 0 \<and> k < length ?d" if "k \<in> set ?nx" for k
    using Cons.prems(4) [of k] that jn j by (cases "k = j") (auto split: if_splits)
  from Cons.IH [OF 1 2 3 4] obtain d' nx' where ih: "relax js ?d ?nx = Some (d', nx')" "length d' = length d"
    "\<forall>k < length d. d' ! k = ?d ! k - count_list js k" "distinct nx'"
    "set nx' = set ?nx \<union> {k \<in> set js. d' ! k = 0}" by auto
  have val: "d' ! k = d ! k - count_list (j # js) k" if "k < length d" for k
    using ih(3) that j by (cases "k = j") auto
  have "set nx' = set nx \<union> {k \<in> set (j # js). d' ! k = 0}"
  proof (cases "d ! j - 1 = 0")
    case True
    then have "d' ! j = 0" using val [OF j(1)] j(2) by simp
    then show ?thesis using ih(5) True by auto
  next
    case False
    have "count_list js j = 0" if "j \<notin> set js" using that by (simp add: count_list_0_iff)
    then have "d' ! j \<noteq> 0 \<or> j \<in> set js" using val [OF j(1)] False by fastforce
    then show ?thesis unfolding ih(5) if_not_P [OF False] by auto
  qed
  moreover have "relax (j # js) d nx = Some (d', nx')" using ih(1) pos by simp
  ultimately show ?case using ih(2,4) val by (intro exI conjI) simp_all
qed simp

section \<open>The graph\<close>

text \<open>
  Steps with distinct ids, every need of which is one of the ids: what \<open>validate_recipe\<close>
  hands to the scheduler.
\<close>

definition graph_ok :: "recipe_step list \<Rightarrow> bool" where
  "graph_ok steps = (distinct (map rp_id steps) \<and> (\<forall>s \<in> set steps. set (rp_needs s) \<subseteq> rp_id ` set steps))"

lemma fold_bt_insert:
  "bt_ok m \<Longrightarrow> distinct (map rp_id ss) \<Longrightarrow>
     bt_ok (fold (\<lambda>(i, s) m. bt_insert (rp_id s) i m) (enumerate k ss) m) \<and>
     (\<forall>i < length ss. map_of (fold (\<lambda>(i, s) m. bt_insert (rp_id s) i m) (enumerate k ss) m) (rp_id (ss ! i)) = Some (k + i)) \<and>
     (\<forall>x. x \<notin> rp_id ` set ss \<longrightarrow>
        map_of (fold (\<lambda>(i, s) m. bt_insert (rp_id s) i m) (enumerate k ss) m) x = map_of m x)"
proof (induction ss arbitrary: m k)
  case (Cons s ss)
  have ok: "bt_ok (bt_insert (rp_id s) k m)" using Cons.prems(1) by (rule bt_ok_insert)
  note ih = Cons.IH [OF ok, of "Suc k"]
  show ?case using ih Cons.prems
    by (auto simp: bt_lookup_insert nth_Cons split: nat.splits)
qed simp

lemma build_index_nth:
  "distinct (map rp_id steps) \<Longrightarrow> i < length steps \<Longrightarrow> map_of (build_index steps) (rp_id (steps ! i)) = Some i"
  using fold_bt_insert [of "[]" steps 0] by (simp add: build_index_def)

definition idx :: "recipe_step list \<Rightarrow> string \<Rightarrow> nat" where
  "idx steps n = the (map_of (build_index steps) n)"

lemma idx_nth: "graph_ok steps \<Longrightarrow> i < length steps \<Longrightarrow> idx steps (rp_id (steps ! i)) = i"
  by (simp add: graph_ok_def idx_def build_index_nth)

lemma need_index:
  assumes "graph_ok steps" "i < length steps" "n \<in> set (rp_needs (steps ! i))"
  shows "idx steps n < length steps \<and> map_of (build_index steps) n = Some (idx steps n)
     \<and> rp_id (steps ! idx steps n) = n"
proof -
  have "n \<in> rp_id ` set steps" using assms by (fastforce simp: graph_ok_def)
  then obtain k where "k < length steps" "n = rp_id (steps ! k)" by (metis imageE in_set_conv_nth)
  then show ?thesis using assms(1) by (auto simp: graph_ok_def idx_def build_index_nth)
qed

text \<open>How often step \<open>i\<close> needs step \<open>j\<close>, and how many of its needs lie outside a set.\<close>

definition need_count :: "recipe_step list \<Rightarrow> nat \<Rightarrow> nat \<Rightarrow> nat" where
  "need_count steps j i = length (filter (\<lambda>n. idx steps n = j) (rp_needs (steps ! i)))"

definition pending :: "recipe_step list \<Rightarrow> nat set \<Rightarrow> nat \<Rightarrow> nat" where
  "pending steps D i = length (filter (\<lambda>n. idx steps n \<notin> D) (rp_needs (steps ! i)))"

lemma pending_insert: "j \<notin> D \<Longrightarrow> pending steps (insert j D) i = pending steps D i - need_count steps j i
    \<and> need_count steps j i \<le> pending steps D i"
proof -
  assume j: "j \<notin> D"
  have "length (filter (\<lambda>n. idx steps n \<notin> D) ns)
      = length (filter (\<lambda>n. idx steps n = j) ns) + length (filter (\<lambda>n. idx steps n \<notin> insert j D) ns)" for ns
    using j by (induction ns) auto
  then show ?thesis by (simp add: pending_def need_count_def)
qed

definition step_id :: "recipe_step list \<Rightarrow> nat \<Rightarrow> string" where
  "step_id steps i = rp_id (steps ! i)"

lemma step_id_inj: "graph_ok steps \<Longrightarrow> inj_on (step_id steps) {..<length steps}"
  by (rule inj_on_inverseI [of _ "idx steps"]) (simp add: step_id_def idx_nth)

lemma layer_eq:
  assumes g: "graph_ok steps" and "set ord \<subseteq> {..<length steps}" "distinct ready"
    and ready: "set ready = {i. i < length steps \<and> i \<notin> set ord \<and> pending steps (set ord) i = 0}"
  shows "map (step_id steps) (sort_key (step_id steps) ready) = sort (map rp_id (ready_steps steps (map (step_id steps) ord)))"
    (is "?l = sort ?r")
proof (rule sorted_distinct_set_unique)
  have inj: "inj_on (step_id steps) (set ready)"
    by (rule inj_on_subset [OF step_id_inj [OF g]]) (use ready in auto)
  show "sorted ?l" by simp
  show "distinct ?l" using inj assms(3) by (simp add: distinct_map)
  have "distinct ?r"
    using g distinct_map_filter [of rp_id steps] by (simp add: graph_ok_def ready_steps_def)
  then show "distinct (sort ?r)" by simp
  show "sorted (sort ?r)" by simp
  have mem: "step_id steps i \<in> step_id steps ` set ord \<longleftrightarrow> i \<in> set ord" if "i < length steps" for i
    using inj_on_image_mem_iff [OF step_id_inj [OF g], of i "set ord"] that assms(2) by auto
  have needs: "pending steps (set ord) i = 0 \<longleftrightarrow> set (rp_needs (steps ! i)) \<subseteq> step_id steps ` set ord"
    if i: "i < length steps" for i
  proof -
    have "idx steps n \<in> set ord \<longleftrightarrow> n \<in> step_id steps ` set ord" if "n \<in> set (rp_needs (steps ! i))" for n
      using need_index [OF g i that] mem [of "idx steps n"] by (simp add: step_id_def)
    then show ?thesis by (auto simp: pending_def filter_empty_conv)
  qed
  have "step_id steps ` set ready = rp_id ` set (ready_steps steps (map (step_id steps) ord))"
    (is "?A = ?B")
  proof (rule set_eqI)
    fix x
    have "x \<in> ?A \<longleftrightarrow> (\<exists>i < length steps. x = step_id steps i \<and> i \<notin> set ord \<and> pending steps (set ord) i = 0)"
      by (auto simp: ready)
    also have "\<dots> \<longleftrightarrow> (\<exists>i < length steps. x = step_id steps i \<and> step_id steps i \<notin> step_id steps ` set ord
        \<and> set (rp_needs (steps ! i)) \<subseteq> step_id steps ` set ord)"
      by (intro ex_cong1 conj_cong refl) (simp_all add: mem needs)
    also have "\<dots> \<longleftrightarrow> x \<in> ?B"
      by (auto simp: ready_steps_def step_id_def in_set_conv_nth)
    finally show "x \<in> ?A \<longleftrightarrow> x \<in> ?B" .
  qed
  then show "set ?l = set (sort ?r)" by simp
qed

section \<open>The loop\<close>

text \<open>What the loop keeps: the counters and the adjacency lists describe the graph.\<close>

definition counters_ok :: "recipe_step list \<Rightarrow> nat set \<Rightarrow> nat list \<Rightarrow> bool" where
  "counters_ok steps D d = (length d = length steps \<and> (\<forall>i < length steps. d ! i = pending steps D i))"

definition adj_ok :: "recipe_step list \<Rightarrow> nat list list \<Rightarrow> bool" where
  "adj_ok steps adj = (length adj = length steps \<and> (\<forall>j < length steps.
     set (adj ! j) \<subseteq> {..<length steps} \<and> (\<forall>i < length steps. count_list (adj ! j) i = need_count steps j i)))"

lemma run_wave_spec:
  assumes "adj_ok steps adj" "counters_ok steps D d" "set w \<inter> D = {}" "distinct w"
    and "set w \<subseteq> {..<length steps}" "length w \<le> r" "distinct nx" "\<And>j. j \<in> set nx \<Longrightarrow> d ! j = 0 \<and> j < length d"
  shows "\<exists>d' nx'. run_wave adj w (ord, r, d, nx) = Some (ord @ w, r - length w, d', nx')
     \<and> counters_ok steps (D \<union> set w) d' \<and> distinct nx'
     \<and> set nx' = set nx \<union> {i. i < length steps \<and> d' ! i = 0 \<and> d ! i \<noteq> 0}"
  using assms(2-)
proof (induction w arbitrary: D ord r d nx)
  case Nil
  then show ?case by auto
next
  case (Cons j w)
  have j: "j < length steps" "j \<notin> D" using Cons.prems by auto
  have len: "length d = length steps" and d: "\<And>i. i < length steps \<Longrightarrow> d ! i = pending steps D i"
    using Cons.prems(1) by (auto simp: counters_ok_def)
  have adj: "set (adj ! j) \<subseteq> {..<length steps}"
    "\<And>i. i < length steps \<Longrightarrow> count_list (adj ! j) i = need_count steps j i"
    using assms(1) j(1) by (auto simp: adj_ok_def)
  have 1: "k < length d" if "k \<in> set (adj ! j)" for k using adj(1) that len by auto
  have 2: "count_list (adj ! j) k \<le> d ! k \<or> k \<notin> set (adj ! j)" for k
    using adj d pending_insert [OF j(2)] by (cases "k \<in> set (adj ! j)") auto
  from relax_spec [OF 1 2 Cons.prems(6,7)] obtain d1 nx1 where r: "relax (adj ! j) d nx = Some (d1, nx1)"
    "length d1 = length d" "\<And>k. k < length d \<Longrightarrow> d1 ! k = d ! k - count_list (adj ! j) k" "distinct nx1"
    "set nx1 = set nx \<union> {k \<in> set (adj ! j). d1 ! k = 0}" by blast
  have val: "d1 ! k = pending steps (insert j D) k" if "k < length steps" for k
    using r(3) [of k] adj(2) [OF that] d [OF that] pending_insert [OF j(2), of steps k] that len by simp
  have new: "k \<in> set (adj ! j) \<and> d1 ! k = 0 \<longleftrightarrow> k < length steps \<and> d1 ! k = 0 \<and> d ! k \<noteq> 0" for k
    using 1 [of k] 2 [of k] r(3) [of k] len
    by (cases "k \<in> set (adj ! j)") (auto simp: count_list_0_iff, metis count_list_0_iff gr_zeroI le_zero_eq)
  have ok: "counters_ok steps (insert j D) d1" using val r(2) len by (simp add: counters_ok_def)
  have zero: "d1 ! k = 0 \<and> k < length d1" if "k \<in> set nx1" for k
    using that r(2,3,5) Cons.prems(7) 1 by auto
  have prems: "set w \<inter> insert j D = {}" "distinct w" "set w \<subseteq> {..<length steps}" "length w \<le> r - 1"
    using Cons.prems by auto
  from Cons.IH [OF ok prems r(4) zero, of "ord @ [j]"] obtain d' nx' where
    "run_wave adj w (ord @ [j], r - 1, d1, nx1) = Some ((ord @ [j]) @ w, r - 1 - length w, d', nx')"
    "counters_ok steps (insert j D \<union> set w) d'" "distinct nx'"
    "set nx' = set nx1 \<union> {i. i < length steps \<and> d' ! i = 0 \<and> d1 ! i \<noteq> 0}" by blast
  note ih = this
  have mono: "d' ! i = 0" if "d1 ! i = 0" "i < length steps" for i
    using that ih(2) val [OF that(2)] by (auto simp: counters_ok_def pending_def filter_empty_conv)
  have mono': "d1 ! i = 0" if "d ! i = 0" "i < length steps" for i
    using that r(3) [of i] len by simp
  have "set nx1 = set nx \<union> {k. k < length steps \<and> d1 ! k = 0 \<and> d ! k \<noteq> 0}"
    unfolding r(5) using new by blast
  then have "set nx' = set nx \<union> {i. i < length steps \<and> d' ! i = 0 \<and> d ! i \<noteq> 0}"
    unfolding ih(4) using mono mono' by auto
  moreover have "run_wave adj (j # w) (ord, r, d, nx) = Some (ord @ j # w, r - length (j # w), d', nx')"
    using ih(1) r(1) Cons.prems(5) by auto
  moreover have "insert j D \<union> set w = D \<union> set (j # w)" by simp
  ultimately show ?case using ih(2,3) by (intro exI conjI) simp_all
qed

lemma kahn_spec:
  assumes g: "graph_ok steps" and a: "adj_ok steps adj"
    and "counters_ok steps (set ord) d" "distinct ord" "set ord \<subseteq> {..<length steps}"
    and "\<And>i. i \<in> set ord \<Longrightarrow> d ! i = 0"
    and "distinct ready" "set ready = {i. i < length steps \<and> i \<notin> set ord \<and> d ! i = 0}"
  shows "\<exists>ord'. kahn steps adj ready d ord waves (length steps - length ord)
       = Some (ord', waves @ topo_layers steps (map (step_id steps) ord), length steps - length ord')
     \<and> distinct ord' \<and> set ord' \<subseteq> {..<length steps}
     \<and> map (step_id steps) ord' = map (step_id steps) ord @ concat (topo_layers steps (map (step_id steps) ord))"
  using assms(3-)
proof (induction "length steps - length ord" arbitrary: ord d ready waves rule: less_induct)
  case less
  have d: "d ! i = pending steps (set ord) i" if "i < length steps" for i
    using less.prems(1) that by (simp add: counters_ok_def)
  have ready: "set ready = {i. i < length steps \<and> i \<notin> set ord \<and> pending steps (set ord) i = 0}"
    using less.prems(6) d by auto
  define w where "w = sort_key (step_id steps) ready"
  have w: "set w = set ready" "distinct w" using less.prems(5) by (simp_all add: w_def)
  note layer = layer_eq [OF g less.prems(3,5) ready, folded w_def]
  show ?case
  proof (cases "ready = []")
    case True
    then have "ready_steps steps (map (step_id steps) ord) = []"
      using layer by (metis length_0_conv length_map length_sort w_def)
    then have "topo_layers steps (map (step_id steps) ord) = []"
      by (subst topo_layers.simps) simp
    then show ?thesis using True less.prems by (subst kahn.simps) simp
  next
    case False
    then have ne: "w \<noteq> []" using w(1) by auto
    have disj: "set w \<inter> set ord = {}" and sub: "set w \<subseteq> {..<length steps}" using w(1) ready by auto
    have card: "length ord + length w \<le> length steps"
    proof -
      have "length (ord @ w) = card (set (ord @ w))"
        using less.prems(2) w(2) disj by (metis distinct_append distinct_card inf_commute)
      also have "\<dots> \<le> card {..<length steps}"
        by (rule card_mono) (use less.prems(3) sub in auto)
      finally show ?thesis by simp
    qed
    have le: "length w \<le> length steps - length ord" using card by simp
    obtain d' nx where run: "run_wave adj w (ord, length steps - length ord, d, [])
        = Some (ord @ w, length steps - length ord - length w, d', nx)"
      "counters_ok steps (set ord \<union> set w) d'" "distinct nx"
      "set nx = {i. i < length steps \<and> d' ! i = 0 \<and> d ! i \<noteq> 0}"
      using run_wave_spec [OF a less.prems(1) disj w(2) sub le, of "[]" ord]
      by auto
    have d'0: "d' ! i = 0" if "d ! i = 0" "i < length steps" for i
      using that run(2) d [OF that(2)] by (auto simp: counters_ok_def pending_def filter_empty_conv)
    have 1: "length steps - length (ord @ w) < length steps - length ord"
      using ne card by (cases w) auto
    have 2: "counters_ok steps (set (ord @ w)) d'" using run(2) by simp
    have 3: "distinct (ord @ w)" using less.prems(2) w(2) disj by auto
    have 4: "set (ord @ w) \<subseteq> {..<length steps}" using less.prems(3) sub by simp
    have 5: "d' ! i = 0" if "i \<in> set (ord @ w)" for i
      using that d'0 less.prems(3,4,6) w(1) by auto
    have 6: "set nx = {i. i < length steps \<and> i \<notin> set (ord @ w) \<and> d' ! i = 0}"
      unfolding run(4) using less.prems(4,6) w(1) by auto
    let ?layer = "map (step_id steps) w"
    have topo: "topo_layers steps (map (step_id steps) ord) = ?layer # topo_layers steps (map (step_id steps) (ord @ w))"
      by (subst topo_layers.simps)
        (simp only: Let_def layer [symmetric] map_is_Nil_conv ne if_False map_append)
    have step: "kahn steps adj ready d ord waves (length steps - length ord)
        = kahn steps adj nx d' (ord @ w) (waves @ [?layer]) (length steps - length (ord @ w))"
      using False run(1) by (subst kahn.simps) (simp add: w_def step_id_def [abs_def] Let_def)
    show ?thesis
      unfolding step topo using less.hyps [OF 1 2 3 4 5 run(3) 6, of "waves @ [?layer]"] by simp
  qed
qed

section \<open>The edges\<close>

lemma count_list_snoc: "count_list (xs @ [y]) x = count_list xs x + (if x = y then 1 else 0)"
  by (induction xs) auto

lemma add_needs_spec:
  assumes "\<And>n. n \<in> set ns \<Longrightarrow> map_of ix n = Some (f n) \<and> f n < length adj" "i < length d"
  shows "\<exists>adj'. add_needs ix i ns (d, adj) = Inr (d[i := d ! i + length ns], adj') \<and> length adj' = length adj
     \<and> (\<forall>j < length adj. set (adj' ! j) \<subseteq> insert i (set (adj ! j)) \<and> (\<forall>x. count_list (adj' ! j) x
          = count_list (adj ! j) x + (if x = i then length (filter (\<lambda>n. f n = j) ns) else 0)))"
  using assms
proof (induction ns arbitrary: d adj)
  case (Cons n ns)
  let ?d = "d[i := d ! i + 1]" and ?adj = "adj[f n := adj ! f n @ [i]]"
  have n: "map_of ix n = Some (f n)" "f n < length adj" using Cons.prems(1) [of n] by simp_all
  have 1: "map_of ix m = Some (f m) \<and> f m < length ?adj" if "m \<in> set ns" for m
    using Cons.prems(1) [of m] that by simp
  have 2: "i < length ?d" using Cons.prems(2) by simp
  from Cons.IH [OF 1 2] obtain adj' where ih: "add_needs ix i ns (?d, ?adj) = Inr (?d[i := ?d ! i + length ns], adj')"
    "length adj' = length ?adj" "\<And>j. j < length ?adj \<Longrightarrow> set (adj' ! j) \<subseteq> insert i (set (?adj ! j))"
    "\<And>j x. j < length ?adj \<Longrightarrow> count_list (adj' ! j) x
        = count_list (?adj ! j) x + (if x = i then length (filter (\<lambda>n. f n = j) ns) else 0)" by blast
  have "set (adj' ! j) \<subseteq> insert i (set (adj ! j)) \<and> count_list (adj' ! j) x
      = count_list (adj ! j) x + (if x = i then length (filter (\<lambda>m. f m = j) (n # ns)) else 0)"
    if j: "j < length adj" for j x
    using ih(3,4) [of j] j by (cases "j = f n") (auto simp: count_list_snoc)
  moreover have "add_needs ix i (n # ns) (d, adj) = Inr (d[i := d ! i + length (n # ns)], adj')"
    using ih(1) n(1) Cons.prems(2) by simp
  moreover have "length adj' = length adj" using ih(2) by simp
  ultimately show ?case by blast
qed auto

lemma add_edges_spec:
  assumes g: "graph_ok (pre @ ss)" and "length d = length (pre @ ss)" "length adj = length (pre @ ss)"
    and "\<And>i. i < length (pre @ ss) \<Longrightarrow> d ! i = (if i < length pre then length (rp_needs ((pre @ ss) ! i)) else 0)"
    and "\<And>j. j < length (pre @ ss) \<Longrightarrow> set (adj ! j) \<subseteq> {..<length pre}"
    and "\<And>i j. j < length (pre @ ss) \<Longrightarrow> i < length pre \<Longrightarrow> count_list (adj ! j) i = need_count (pre @ ss) j i"
  shows "\<exists>d' adj'. add_edges (build_index (pre @ ss)) (enumerate (length pre) ss) (d, adj) = Inr (d', adj')
     \<and> counters_ok (pre @ ss) {} d' \<and> adj_ok (pre @ ss) adj'"
  using assms
proof (induction ss arbitrary: pre d adj)
  case Nil
  then show ?case by (auto simp: counters_ok_def adj_ok_def pending_def)
next
  case (Cons s ss)
  let ?steps = "pre @ s # ss" and ?i = "length pre"
  have s: "?steps ! ?i = s" by simp
  have needs: "map_of (build_index ?steps) n = Some (idx ?steps n) \<and> idx ?steps n < length adj"
    if "n \<in> set (rp_needs s)" for n
    using need_index [OF Cons.prems(1), of ?i n] that Cons.prems(3) by simp
  have i: "?i < length d" using Cons.prems(2) by simp
  from add_needs_spec [OF needs i] obtain adj1 where a: "add_needs (build_index ?steps) ?i (rp_needs s) (d, adj)
      = Inr (d[?i := d ! ?i + length (rp_needs s)], adj1)" "length adj1 = length adj"
    "\<And>j. j < length adj \<Longrightarrow> set (adj1 ! j) \<subseteq> insert ?i (set (adj ! j))"
    "\<And>j x. j < length adj \<Longrightarrow> count_list (adj1 ! j) x
       = count_list (adj ! j) x + (if x = ?i then length (filter (\<lambda>n. idx ?steps n = j) (rp_needs s)) else 0)"
    by blast
  let ?d = "d[?i := d ! ?i + length (rp_needs s)]"
  have split: "(pre @ [s]) @ ss = ?steps" by simp
  have "\<exists>d' adj'. add_edges (build_index ((pre @ [s]) @ ss)) (enumerate (length (pre @ [s])) ss) (?d, adj1) = Inr (d', adj')
     \<and> counters_ok ((pre @ [s]) @ ss) {} d' \<and> adj_ok ((pre @ [s]) @ ss) adj'"
  proof (rule Cons.IH)
    show "?d ! i = (if i < length (pre @ [s]) then length (rp_needs (((pre @ [s]) @ ss) ! i)) else 0)"
      if "i < length ((pre @ [s]) @ ss)" for i
      using Cons.prems(2) Cons.prems(4) [of i] that by (auto simp: nth_list_update nth_append less_Suc_eq)
    show "set (adj1 ! j) \<subseteq> {..<length (pre @ [s])}" if "j < length ((pre @ [s]) @ ss)" for j
      using a(3) [of j] Cons.prems(3) Cons.prems(5) [of j] that by fastforce
    show "count_list (adj1 ! j) i = need_count ((pre @ [s]) @ ss) j i"
      if "j < length ((pre @ [s]) @ ss)" "i < length (pre @ [s])" for i j
    proof (cases "i = ?i")
      case True
      have "count_list (adj ! j) ?i = 0"
        using Cons.prems(5) [of j] that by (auto simp: count_list_0_iff)
      then show ?thesis using a(4) [of j i] Cons.prems(3) that True by (simp add: need_count_def)
    next
      case False
      then show ?thesis using a(4) [of j i] Cons.prems(3) Cons.prems(6) [of j i] that by simp
    qed
  qed (use Cons.prems a(2) in simp_all)
  then show ?case using a(1) by simp
qed

lemma graph_edges:
  assumes "graph_ok steps"
  shows "\<exists>d adj. add_edges (build_index steps) (enumerate 0 steps)
      (replicate (length steps) 0, replicate (length steps) []) = Inr (d, adj)
     \<and> counters_ok steps {} d \<and> adj_ok steps adj"
  using add_edges_spec [of "[]" steps "replicate (length steps) 0" "replicate (length steps) []"] assms
  by (simp add: nth_replicate)

section \<open>The scheduler\<close>

definition implicit_order :: "recipe_step list \<Rightarrow> bool" where
  "implicit_order steps = list_all (\<lambda>s. rp_needs s = []) steps"

lemma schedule_layers:
  assumes g: "graph_ok steps" and "\<not> implicit_order steps"
  shows "\<exists>ord. schedule steps = Some (if length (concat (topo_layers steps [])) = length steps
           then Inr (ord, topo_layers steps []) else Inl dependency_cycle)
     \<and> map (step_id steps) ord = concat (topo_layers steps []) \<and> distinct ord \<and> set ord \<subseteq> {..<length steps}"
proof -
  obtain d adj where e: "add_edges (build_index steps) (enumerate 0 steps)
      (replicate (length steps) 0, replicate (length steps) []) = Inr (d, adj)"
    "counters_ok steps {} d" "adj_ok steps adj"
    using graph_edges [OF g] by blast
  let ?ready = "filter (\<lambda>i. d ! i = 0) [0..<length steps]"
  have "\<exists>ord'. kahn steps adj ?ready d [] [] (length steps - length ([] :: nat list))
       = Some (ord', [] @ topo_layers steps (map (step_id steps) []), length steps - length ord')
     \<and> distinct ord' \<and> set ord' \<subseteq> {..<length steps}
     \<and> map (step_id steps) ord' = map (step_id steps) [] @ concat (topo_layers steps (map (step_id steps) []))"
    by (rule kahn_spec [OF g e(3)]) (use e(2) in auto)
  then obtain ord where k: "kahn steps adj ?ready d [] [] (length steps) = Some (ord, topo_layers steps [], length steps - length ord)"
    "distinct ord" "set ord \<subseteq> {..<length steps}" "map (step_id steps) ord = concat (topo_layers steps [])"
    by auto
  have len: "length (concat (topo_layers steps [])) = length ord"
    unfolding k(4) [symmetric] by simp
  have "length ord = card (set ord)" using k(2) by (simp add: distinct_card)
  also have "\<dots> \<le> card {..<length steps}" by (rule card_mono) (use k(3) in auto)
  finally have le: "length ord \<le> length steps" by simp
  have "schedule steps = Some (if length (concat (topo_layers steps [])) = length steps
           then Inr (ord, topo_layers steps []) else Inl dependency_cycle)"
    using assms(2) e(1) k(1) len le
    by (cases "length ord = length steps") (simp_all add: schedule_def implicit_order_def)
  then show ?thesis using k(2-4) by blast
qed

section \<open>The layers\<close>

lemma topo_layer_needs:
  "topo_layers steps fin = pre @ l # post \<Longrightarrow> x \<in> set l \<Longrightarrow>
     (\<exists>s \<in> set steps. rp_id s = x \<and> set (rp_needs s) \<subseteq> set fin \<union> set (concat pre)) \<and> x \<notin> set fin \<union> set (concat pre)"
proof (induction steps fin arbitrary: pre rule: topo_layers.induct)
  case (1 steps fin)
  define layer where "layer = sort (map rp_id (ready_steps steps fin))"
  have unf: "topo_layers steps fin = (if layer = [] then [] else layer # topo_layers steps (fin @ layer))"
    by (subst topo_layers.simps) (simp add: layer_def Let_def)
  with 1(2) have ne: "layer \<noteq> []" by (cases "layer = []") auto
  show ?case
  proof (cases pre)
    case Nil
    then have "l = layer" using 1(2) unf ne by simp
    then show ?thesis using 1(3) Nil by (auto simp: layer_def ready_steps_def)
  next
    case (Cons p pre')
    have "layer # topo_layers steps (fin @ layer) = p # pre' @ l # post"
      using 1(2) unfolding unf if_not_P [OF ne] Cons append_Cons .
    then have "p = layer" "topo_layers steps (fin @ layer) = pre' @ l # post" by (metis list.inject)+
    then show ?thesis using 1(1) [OF layer_def ne _ 1(3)] Cons by (simp add: Un_assoc)
  qed
qed

lemma topo_distinct:
  "distinct (map rp_id steps) \<Longrightarrow> distinct (concat (topo_layers steps fin)) \<and> set (concat (topo_layers steps fin)) \<inter> set fin = {}
     \<and> set (concat (topo_layers steps fin)) \<subseteq> rp_id ` set steps \<and> [] \<notin> set (topo_layers steps fin)"
proof (induction steps fin rule: topo_layers.induct)
  case (1 steps fin)
  define layer where "layer = sort (map rp_id (ready_steps steps fin))"
  have unf: "topo_layers steps fin = (if layer = [] then [] else layer # topo_layers steps (fin @ layer))"
    by (subst topo_layers.simps) (simp add: layer_def Let_def)
  have l: "distinct layer" "set layer \<inter> set fin = {}" "set layer \<subseteq> rp_id ` set steps"
    using distinct_map_filter [OF 1(2)] by (auto simp: layer_def ready_steps_def)
  show ?case
  proof (cases "layer = []")
    case False
    then show ?thesis using 1(1) [OF layer_def False 1(2)] l unf by auto
  qed (simp add: unf)
qed

lemma topo_stuck: "ready_steps steps (fin @ concat (topo_layers steps fin)) = []"
proof (induction steps fin rule: topo_layers.induct)
  case (1 steps fin)
  define layer where "layer = sort (map rp_id (ready_steps steps fin))"
  have unf: "topo_layers steps fin = (if layer = [] then [] else layer # topo_layers steps (fin @ layer))"
    by (subst topo_layers.simps) (simp add: layer_def Let_def)
  show ?case
  proof (cases "layer = []")
    case True
    then have "length (map rp_id (ready_steps steps fin)) = 0"
      unfolding layer_def by (metis length_sort list.size(3))
    then show ?thesis using True unf by simp
  next
    case False
    then show ?thesis using 1 [OF layer_def False] unf by simp
  qed
qed

text \<open>The needs as a relation: all steps are layered exactly when it has no cycle.\<close>

definition needs_rel :: "recipe_step list \<Rightarrow> (string \<times> string) set" where
  "needs_rel steps = (\<Union>s \<in> set steps. (\<lambda>n. (n, rp_id s)) ` set (rp_needs s))"

lemma layered_iff:
  assumes "graph_ok steps"
  shows "length (concat (topo_layers steps [])) = length steps \<longleftrightarrow>
     rp_id ` set steps = set (concat (topo_layers steps []))"
proof -
  have d: "distinct (map rp_id steps)" using assms by (simp add: graph_ok_def)
  note t = topo_distinct [OF d, of "[]"]
  have "length steps = card (rp_id ` set steps)"
    using distinct_card [OF d] by simp
  moreover have "length (concat (topo_layers steps [])) = card (set (concat (topo_layers steps [])))"
    using t distinct_card by metis
  moreover have "set (concat (topo_layers steps [])) \<subseteq> rp_id ` set steps" using t by blast
  ultimately show ?thesis by (metis card_subset_eq finite_imageI List.finite_set)
qed

lemma layered_acyclic:
  assumes g: "graph_ok steps"
  shows "length (concat (topo_layers steps [])) = length steps \<longleftrightarrow> acyclic (needs_rel steps)"
proof
  assume "length (concat (topo_layers steps [])) = length steps"
  then have all: "rp_id ` set steps = set (concat (topo_layers steps []))" using layered_iff [OF g] by simp
  let ?L = "topo_layers steps []"
  have d: "distinct (map rp_id steps)" using g by (simp add: graph_ok_def)
  define lvl where "lvl x = length (takeWhile (\<lambda>l. x \<notin> set l) ?L)" for x
  have "lvl n < lvl (rp_id s)" if s: "s \<in> set steps" "n \<in> set (rp_needs s)" for n s
  proof -
    obtain l where "l \<in> set ?L" "rp_id s \<in> set l" using all s(1) by auto
    then have "\<exists>k \<in> set ?L. rp_id s \<in> set k" by blast
    then obtain pre post l' where p: "?L = pre @ l' # post" "rp_id s \<in> set l'" "\<forall>k \<in> set pre. rp_id s \<notin> set k"
      using split_list_first_prop [of ?L "\<lambda>k. rp_id s \<in> set k"] by blast
    obtain t where "t \<in> set steps" "rp_id t = rp_id s" "set (rp_needs t) \<subseteq> set (concat pre)"
      using topo_layer_needs [OF p(1,2)] by auto
    moreover have "t = s" using \<open>t \<in> set steps\<close> \<open>rp_id t = rp_id s\<close> s(1) d by (auto simp: distinct_map dest: inj_onD)
    ultimately have "n \<in> set (concat pre)" using s(2) by auto
    then obtain k where k: "k \<in> set pre" "n \<in> set k" by auto
    have "lvl (rp_id s) = length pre"
      unfolding lvl_def p(1) using p(2,3) by (simp add: takeWhile_append2)
    moreover have "lvl n < length pre"
    proof -
      have "lvl n = length (takeWhile (\<lambda>l. n \<notin> set l) pre)"
        unfolding lvl_def p(1) using k by (subst takeWhile_append1) auto
      also have "\<dots> < length pre" using k by (induction pre) auto
      finally show ?thesis .
    qed
    ultimately show ?thesis by simp
  qed
  then have "acyclic ((needs_rel steps)\<inverse>)"
    by (intro acyclicI_order [of _ lvl]) (auto simp: needs_rel_def)
  then show "acyclic (needs_rel steps)" by simp
next
  assume "acyclic (needs_rel steps)"
  then have wf: "wf (needs_rel steps)" by (rule finite_acyclic_wf [rotated]) (simp add: needs_rel_def)
  let ?F = "set (concat (topo_layers steps []))"
  have "rp_id ` set steps - ?F = {}"
  proof (rule ccontr)
    assume "rp_id ` set steps - ?F \<noteq> {}"
    then obtain m where m: "m \<in> rp_id ` set steps - ?F"
      "\<And>y. (y, m) \<in> needs_rel steps \<Longrightarrow> y \<notin> rp_id ` set steps - ?F"
      using wf by (metis wfE_min')
    then obtain s where s: "s \<in> set steps" "rp_id s = m" by auto
    have "set (rp_needs s) \<subseteq> ?F"
    proof
      fix n assume "n \<in> set (rp_needs s)"
      then have "(n, m) \<in> needs_rel steps" "n \<in> rp_id ` set steps"
        using s g by (auto simp: needs_rel_def graph_ok_def)
      then show "n \<in> ?F" using m(2) by blast
    qed
    then have "s \<in> set (ready_steps steps ([] @ concat (topo_layers steps [])))"
      using s m(1) by (simp add: ready_steps_def)
    then show False unfolding topo_stuck by simp
  qed
  then have "rp_id ` set steps = ?F"
    using topo_distinct [of steps "[]"] g by (auto simp: graph_ok_def)
  then show "length (concat (topo_layers steps [])) = length steps" using layered_iff [OF g] by simp
qed

section \<open>What validation gives the scheduler\<close>

lemma validate_ids_ok:
  "validate_ids ss ids = Inr ids' \<Longrightarrow>
     distinct (map rp_id ss) \<and> rp_id ` set ss \<inter> set ids = {} \<and> set ids' = set ids \<union> rp_id ` set ss"
proof (induction ss arbitrary: ids)
  case (Cons s ss)
  then have v: "validate_ids ss (insort_insert (rp_id s) ids) = Inr ids'" "rp_id s \<notin> set ids"
    by (auto split: if_splits)
  then show ?case using Cons.IH [OF v(1)] by (auto simp: set_insort_insert)
qed simp

lemma validate_needs_ok: "validate_needs sid ids ns = Inr () \<longleftrightarrow>
    (\<forall>n \<in> set ns. \<not> string_has_placeholder n \<and> n \<in> set ids \<and> n \<noteq> sid)"
  by (induction ns) auto

lemma validate_steps_ok:
  "validate_steps reg params ids ss = Inr () \<longleftrightarrow>
     (\<forall>s \<in> set ss. validate_needs (rp_id s) ids (rp_needs s) = Inr ()
        \<and> validate_placeholders_declared (rp_op s) params = Inr () \<and> validate_op reg (rp_op s) = Inr ())"
  by (induction ss) (auto simp: rbind_Inr_iff)

lemma validate_recipe_ok:
  assumes "validate_recipe r reg = Inr ()"
  shows "rc_v r = RECIPE_FORMAT_VERSION \<and> rc_steps r \<noteq> [] \<and> length (rc_steps r) \<le> MAX_RECIPE_STEPS
     \<and> graph_ok (rc_steps r)
     \<and> (\<forall>s \<in> set (rc_steps r). validate_placeholders_declared (rp_op s) (rc_params r) = Inr ()
          \<and> validate_op reg (rp_op s) = Inr () \<and> rp_id s \<notin> set (rp_needs s))"
proof -
  obtain ids where ids: "validate_ids (rc_steps r) [] = Inr ids" "validate_steps reg (rc_params r) ids (rc_steps r) = Inr ()"
    "rc_v r = RECIPE_FORMAT_VERSION" "rc_steps r \<noteq> []" "length (rc_steps r) \<le> MAX_RECIPE_STEPS"
    using assms by (auto simp: validate_recipe_def rbind_Inr_iff split: if_splits)
  then show ?thesis using validate_ids_ok [OF ids(1)]
    by (fastforce simp: validate_steps_ok validate_needs_ok graph_ok_def)
qed

text \<open>Binding the parameters changes the operations and nothing else.\<close>

definition skeleton :: "recipe_step list \<Rightarrow> (string \<times> string list) list" where
  "skeleton steps = map (\<lambda>s. (rp_id s, rp_needs s)) steps"

lemma graph_ok_skeleton:
  "graph_ok steps = (distinct (map fst (skeleton steps)) \<and> (\<forall>(i, ns) \<in> set (skeleton steps). set ns \<subseteq> fst ` set (skeleton steps)))"
  by (auto simp: graph_ok_def skeleton_def comp_def image_image)

lemma apply_params_skeleton:
  assumes "apply_params r env = Inr b"
  shows "skeleton (rc_steps b) = skeleton (rc_steps r) \<and> rc_name b = rc_name r \<and> rc_app b = rc_app r
     \<and> rc_params b = rc_params r \<and> rc_v b = rc_v r
     \<and> (\<forall>i < length (rc_steps r). substitute_op env (rp_op (rc_steps r ! i)) = Inr (rp_op (rc_steps b ! i))
          \<and> rp_screenshot (rc_steps b ! i) = rp_screenshot (rc_steps r ! i))"
proof -
  let ?f = "\<lambda>s. rmap (\<lambda>op. s\<lparr>rp_op := op\<rparr>) (substitute_op env (rp_op s))"
  obtain steps where s: "rmap_list ?f (rc_steps r) = Inr steps" "b = r\<lparr>rc_steps := steps\<rparr>"
    using assms by (auto simp: apply_params_def rmap_Inr_iff split: option.splits)
  have len: "length steps = length (rc_steps r)" using rmap_list_Inr_length [OF s(1)] .
  have nth: "\<exists>op. substitute_op env (rp_op (rc_steps r ! i)) = Inr op \<and> steps ! i = (rc_steps r ! i)\<lparr>rp_op := op\<rparr>"
    if "i < length (rc_steps r)" for i
    using rmap_list_Inr_nth [OF s(1) that] by (auto simp: rmap_Inr_iff)
  have "skeleton steps = skeleton (rc_steps r)"
    unfolding skeleton_def
  proof (rule nth_equalityI)
    fix i assume "i < length (map (\<lambda>s. (rp_id s, rp_needs s)) steps)"
    then show "map (\<lambda>s. (rp_id s, rp_needs s)) steps ! i = map (\<lambda>s. (rp_id s, rp_needs s)) (rc_steps r) ! i"
      using nth [of i] len by auto
  qed (simp add: len)
  then show ?thesis using s(2) nth by fastforce
qed

lemma bound_recipe_skeleton:
  "bound_recipe r env = Inr b \<Longrightarrow> skeleton (rc_steps b) = skeleton (rc_steps r) \<and> rc_name b = rc_name r \<and> rc_app b = rc_app r"
  using apply_params_skeleton [of r env b] by (auto simp: bound_recipe_def split: if_splits)

lemma implicit_order_skeleton: "implicit_order steps = list_all (\<lambda>(i, ns). ns = []) (skeleton steps)"
  by (simp add: implicit_order_def skeleton_def list_all_iff)

lemma topo_layers_skeleton:
  "skeleton steps = skeleton steps' \<Longrightarrow> topo_layers steps fin = topo_layers steps' fin"
proof (induction steps fin rule: topo_layers.induct)
  case (1 steps fin)
  have ids: "map rp_id (ready_steps ss fin) = map fst (filter (\<lambda>(i, ns). i \<notin> set fin \<and> set ns \<subseteq> set fin) (skeleton ss))" for ss
    by (induction ss) (auto simp: ready_steps_def skeleton_def)
  then have eq: "map rp_id (ready_steps steps' fin) = map rp_id (ready_steps steps fin)" using 1(2) by simp
  show ?case
    using 1(1) [OF refl _ 1(2)] by (subst (1 2) topo_layers.simps) (simp add: eq Let_def)
qed

section \<open>The plan\<close>

definition plan_waves :: "recipe_step list \<Rightarrow> string list list" where
  "plan_waves steps = (if implicit_order steps then map (\<lambda>s. [rp_id s]) steps else topo_layers steps [])"

definition all_layered :: "recipe_step list \<Rightarrow> bool" where
  "all_layered steps = (length (concat (plan_waves steps)) = length steps)"

lemma concat_singletons: "concat (map (\<lambda>x. [f x]) xs) = map f xs"
  by (induction xs) simp_all

lemma all_layered_acyclic: "graph_ok steps \<Longrightarrow> all_layered steps \<longleftrightarrow> acyclic (needs_rel steps)"
proof (cases "implicit_order steps")
  case True
  then have "needs_rel steps = {}" by (auto simp: needs_rel_def implicit_order_def list_all_iff)
  then show ?thesis using True by (simp add: all_layered_def plan_waves_def concat_singletons acyclic_def)
qed (simp add: all_layered_def plan_waves_def layered_acyclic)

lemma plan_waves_skeleton:
  assumes "skeleton steps = skeleton steps'"
  shows "plan_waves steps = plan_waves steps' \<and> all_layered steps = all_layered steps'"
proof -
  have singles: "map (\<lambda>s. [rp_id s]) ss = map (\<lambda>(i, ns). [i]) (skeleton ss)" for ss
    by (simp add: skeleton_def)
  have "length steps = length steps'" using assms by (metis length_map skeleton_def)
  then show ?thesis using assms topo_layers_skeleton [OF assms]
    by (simp add: plan_waves_def all_layered_def implicit_order_skeleton singles)
qed

lemma schedule_spec:
  assumes g: "graph_ok steps"
  shows "\<exists>ord. schedule steps = Some (if all_layered steps then Inr (ord, plan_waves steps) else Inl dependency_cycle)
     \<and> map (step_id steps) ord = concat (plan_waves steps) \<and> distinct ord \<and> set ord \<subseteq> {..<length steps}
     \<and> (implicit_order steps \<longrightarrow> ord = [0..<length steps])"
proof (cases "implicit_order steps")
  case True
  then have "schedule steps = Some (Inr ([0..<length steps], map (\<lambda>s. [rp_id s]) steps))"
    by (simp add: schedule_def implicit_order_def)
  moreover have "map (step_id steps) [0..<length steps] = map rp_id steps"
    by (rule nth_equalityI) (simp_all add: step_id_def)
  ultimately show ?thesis using True
    by (intro exI [of _ "[0..<length steps]"]) (auto simp: all_layered_def plan_waves_def concat_singletons)
next
  case False
  obtain ord where "schedule steps = Some (if length (concat (topo_layers steps [])) = length steps
           then Inr (ord, topo_layers steps []) else Inl dependency_cycle)"
    "map (step_id steps) ord = concat (topo_layers steps [])" "distinct ord" "set ord \<subseteq> {..<length steps}"
    using schedule_layers [OF g False] by blast
  then show ?thesis using False
    by (intro exI [of _ ord]) (simp add: all_layered_def plan_waves_def)
qed

lemma planned_simps [simp]:
  "ps_id (planned steps reg i) = step_id steps i" "ps_op (planned steps reg i) = rp_op (steps ! i)"
  "ps_needs (planned steps reg i) = (if implicit_order steps then (if i = 0 then [] else [step_id steps (i - 1)])
     else rp_needs (steps ! i))"
  "ps_screenshot (planned steps reg i) = rp_screenshot (steps ! i)"
  "ps_effects (planned steps reg i) = fst (snd (annotate (rp_op (steps ! i)) reg))"
  by (simp_all add: planned_def Let_def step_id_def implicit_order_def split: prod.splits)

lemma insort_insert_fold_set: "set (fold insort_insert xs ys) = set xs \<union> set ys"
  by (induction xs arbitrary: ys) (auto simp: set_insort_insert)

lemma compile_plan_spec:
  assumes v: "validate_recipe r reg = Inr ()" and b: "bound_recipe r env = Inr b"
  shows "\<exists>ord p. compile_plan hash r env reg = Some (if all_layered (rc_steps r) then Inr p else Inl dependency_cycle)
     \<and> pl_waves p = plan_waves (rc_steps r) \<and> pl_name p = rc_name r
     \<and> pl_steps p = map (planned (rc_steps b) reg) ord
     \<and> map (step_id (rc_steps b)) ord = concat (plan_waves (rc_steps r)) \<and> distinct ord \<and> set ord \<subseteq> {..<length (rc_steps b)}
     \<and> (implicit_order (rc_steps b) \<longrightarrow> ord = [0..<length (rc_steps b)])
     \<and> pl_requires_yes p = (Exit \<in> set (concat (map ps_effects (pl_steps p))))
     \<and> set (pl_effects p) = set (concat (map ps_effects (pl_steps p)))"
proof -
  note sk = bound_recipe_skeleton [OF b]
  have g: "graph_ok (rc_steps b)"
    using validate_recipe_ok [OF v] sk by (simp add: graph_ok_skeleton)
  have w: "plan_waves (rc_steps b) = plan_waves (rc_steps r)" "all_layered (rc_steps b) = all_layered (rc_steps r)"
    using plan_waves_skeleton sk by blast+
  obtain ord where ord: "schedule (rc_steps b) = Some (if all_layered (rc_steps b) then Inr (ord, plan_waves (rc_steps b)) else Inl dependency_cycle)"
    "map (step_id (rc_steps b)) ord = concat (plan_waves (rc_steps b))" "distinct ord" "set ord \<subseteq> {..<length (rc_steps b)}"
    "implicit_order (rc_steps b) \<longrightarrow> ord = [0..<length (rc_steps b)]"
    using schedule_spec [OF g] by blast
  let ?ps = "map (planned (rc_steps b) reg) ord"
  let ?e = "fold insort_insert (concat (map ps_effects ?ps)) []"
  let ?p = "\<lparr>pl_name = rc_name b, pl_app = rc_app b, pl_steps = ?ps, pl_waves = plan_waves (rc_steps b),
     pl_effects = ?e, pl_requires_yes = (Exit \<in> set ?e), pl_fingerprint = fingerprint_plan hash (rc_name b) ?ps\<rparr>"
  have "compile_plan hash r env reg = Some (if all_layered (rc_steps r) then Inr ?p else Inl dependency_cycle)"
    using v b ord(1) w by (simp add: compile_plan_def Let_def)
  then show ?thesis
    using ord(2-5) w sk
    by (intro exI [of _ ord] exI [of _ ?p]) (simp add: insort_insert_fold_set)
qed

lemma compile_plan_Inr:
  assumes "compile_plan hash r env reg = Some (Inr p)"
  shows "validate_recipe r reg = Inr () \<and> (\<exists>b. bound_recipe r env = Inr b)"
proof (cases "validate_recipe r reg")
  case (Inr u)
  then show ?thesis using assms by (cases "bound_recipe r env") (auto simp: compile_plan_def)
qed (use assms in \<open>simp add: compile_plan_def\<close>)

end
