(* ===== verification/Recipe_Laws.thy ===== *)
theory Recipe_Laws
  imports Plan_Laws
begin

text \<open>
  Recipes and plans: the placeholder walk and the substitution agree, so a validated recipe
  binds exactly when its parameters are set; and the properties of compiled plans.
\<close>

section \<open>Placeholders\<close>

lemma collect_placeholders_acc: "set (collect_placeholders s out) = set out \<union> set (collect_placeholders s [])"
proof (induction "length s" arbitrary: s out rule: less_induct)
  case less
  show ?case
  proof (cases s)
    case (Cons c t)
    show ?thesis
    proof (cases "if c = CHR ''$'' then parse_placeholder t else None")
      case None
      then show ?thesis using less [of t out] Cons by simp
    next
      case (Some nr)
      obtain name rest where nr: "nr = (name, rest)" by (cases nr)
      then have "length rest < length s" using Some Cons
        by (auto split: if_splits dest: parse_placeholder_shrinks)
      then show ?thesis
        using less [of rest "insort_insert name out"] less [of rest "insort_insert name []"] Some nr Cons
        by (simp add: set_insort_insert)
    qed
  qed simp
qed

text \<open>The names in a string, an optional string, a JSON value, an assertion, an operation.\<close>

definition string_names :: "string \<Rightarrow> string set" where
  "string_names s = set (collect_placeholders s [])"

definition opt_names :: "string option \<Rightarrow> string set" where
  "opt_names v = (case v of Some s \<Rightarrow> string_names s | None \<Rightarrow> {})"

definition value_names :: "json \<Rightarrow> string set" where
  "value_names v = set (collect_placeholders_in_value v [])"

definition spec_names :: "assert_spec \<Rightarrow> string set" where
  "spec_names spec = string_names (spec_target spec) \<union> opt_names (spec_name spec)
     \<union> opt_names (spec_value spec) \<union> opt_names (spec_role spec)"

definition op_names :: "op \<Rightarrow> string set" where
  "op_names op = set (collect_placeholders_in_op op [])"

definition bound_in :: "(string \<Rightarrow> string option) \<Rightarrow> string set \<Rightarrow> bool" where
  "bound_in env X = (\<forall>n \<in> X. env n \<noteq> None)"

lemma bound_in_simps [simp]:
  "bound_in env {}" "bound_in env (insert n X) \<longleftrightarrow> env n \<noteq> None \<and> bound_in env X"
  "bound_in env (X \<union> Y) \<longleftrightarrow> bound_in env X \<and> bound_in env Y"
  "bound_in env (\<Union>x \<in> A. F x) \<longleftrightarrow> (\<forall>x \<in> A. bound_in env (F x))"
  by (auto simp: bound_in_def)

lemma is_ok_rmap [simp]: "is_ok (rmap f r) = is_ok r"
  by (cases r) simp_all

lemma is_ok_rbind: "(\<And>x. is_ok (f x) = b) \<Longrightarrow> is_ok (rbind r f) \<longleftrightarrow> is_ok r \<and> b"
  by (cases r) simp_all

lemma is_ok_rmap_list: "is_ok (rmap_list f xs) \<longleftrightarrow> (\<forall>x \<in> set xs. is_ok (f x))"
proof (induction xs)
  case (Cons x xs)
  have "is_ok (rbind (f x) (\<lambda>y. rbind (rmap_list f xs) (\<lambda>ys. Inr (y # ys)))) \<longleftrightarrow> is_ok (f x) \<and> is_ok (rmap_list f xs)"
    by (intro is_ok_rbind) (cases "rmap_list f xs"; simp)
  then show ?case using Cons by simp
qed simp

lemma string_acc: "set (collect_placeholders s out) = set out \<union> string_names s"
  unfolding string_names_def by (rule collect_placeholders_acc)

lemma opt_acc: "set (collect_opt v out) = set out \<union> opt_names v"
  by (simp add: collect_opt_def opt_names_def string_acc split: option.splits)

lemma string_names_rest:
  "(if c = CHR ''$'' then parse_placeholder s else None) = Some (name, rest) \<Longrightarrow>
     string_names (c # s) = insert name (string_names rest)"
  by (simp add: string_names_def [of "c # s"] string_acc set_insort_insert)

lemma string_names_skip:
  "(if c = CHR ''$'' then parse_placeholder s else None) = None \<Longrightarrow> string_names (c # s) = string_names s"
  by (simp add: string_names_def)

lemma subst_loop_ok: "is_ok (subst_loop env s) \<longleftrightarrow> bound_in env (string_names s)"
proof (induction env s rule: subst_loop.induct)
  case (2 env c s)
  show ?case
  proof (cases "if c = CHR ''$'' then parse_placeholder s else None")
    case None
    then show ?thesis using 2(1) by (simp add: string_names_skip)
  next
    case (Some nr)
    obtain name rest where nr: "nr = (name, rest)" by (cases nr)
    then show ?thesis
      using 2(2) [OF Some nr [symmetric]] string_names_rest [of c s name rest] Some
      by (cases "env name") simp_all
  qed
qed (simp add: string_names_def)

lemma no_dollar: "CHR ''$'' \<notin> set s \<Longrightarrow> string_names s = {}"
  by (induction s) (auto simp: string_names_def)

lemma substitute_string_ok: "is_ok (substitute_string env s) \<longleftrightarrow> bound_in env (string_names s)"
  by (simp add: substitute_string_def subst_loop_ok no_dollar)

lemma substitute_opt_ok: "is_ok (substitute_opt env v) \<longleftrightarrow> bound_in env (opt_names v)"
  by (cases v) (simp_all add: substitute_opt_def opt_names_def substitute_string_ok)

lemma fold_collect:
  assumes "\<And>x out. x \<in> set xs \<Longrightarrow> set (f x out) = set out \<union> g x"
  shows "set (fold f xs out) = set out \<union> (\<Union>x \<in> set xs. g x)"
  using assms by (induction xs arbitrary: out) auto

lemma value_acc: "set (collect_placeholders_in_value v out) = set out \<union> value_names v"
proof (induction v arbitrary: out)
  case (JStr s)
  show ?case by (simp add: value_names_def string_acc)
next
  case (JArr xs)
  show ?case using fold_collect [OF JArr, of xs] by (simp add: value_names_def [of "JArr xs"])
next
  case (JObj m)
  have "set ((\<lambda>(k, v). collect_placeholders_in_value v) x out) = set out \<union> value_names (snd x)"
    if "x \<in> set m" for x out
    using JObj [of x "snd x"] that by (cases x) simp
  note fold_collect [OF this, of m]
  then show ?case by (simp add: value_names_def [of "JObj m"])
qed (simp_all add: value_names_def)

lemma value_names_simps [simp]:
  "value_names (JStr s) = string_names s"
  "value_names (JArr xs) = (\<Union>x \<in> set xs. value_names x)"
  "value_names (JObj m) = (\<Union>x \<in> set m. value_names (snd x))"
proof -
  show "value_names (JStr s) = string_names s" by (simp add: value_names_def string_names_def)
  show "value_names (JArr xs) = (\<Union>x \<in> set xs. value_names x)"
    using fold_collect [of xs collect_placeholders_in_value value_names "[]"]
    by (simp add: value_names_def [of "JArr xs"] value_acc)
  show "value_names (JObj m) = (\<Union>x \<in> set m. value_names (snd x))"
    using fold_collect [of m "\<lambda>(k, v). collect_placeholders_in_value v" "\<lambda>x. value_names (snd x)" "[]"]
    by (simp add: value_names_def [of "JObj m"] value_acc case_prod_beta)
qed

lemma substitute_value_ok: "is_ok (substitute_value env v) \<longleftrightarrow> bound_in env (value_names v)"
proof (induction v)
  case (JStr s)
  then show ?case by (simp add: substitute_string_ok)
next
  case (JArr xs)
  then show ?case by (simp add: is_ok_rmap_list)
next
  case (JObj m)
  have "is_ok (substitute_value env (snd x)) \<longleftrightarrow> bound_in env (value_names (snd x))" if "x \<in> set m" for x
    using JObj [of x "snd x"] that by (cases x) simp
  then show ?case by (simp add: is_ok_rmap_list case_prod_beta)
qed (simp_all add: value_names_def)

lemmas substitute_ok = substitute_string_ok substitute_opt_ok substitute_value_ok
lemmas names_acc = string_acc opt_acc value_acc

lemma substitute_spec_ok: "is_ok (substitute_spec env spec) \<longleftrightarrow> bound_in env (spec_names spec)"
  unfolding substitute_spec_def spec_names_def
  by (simp add: is_ok_rbind [OF is_ok_rbind [OF is_ok_rbind [OF is_ok_rbind [of _ True]]]] substitute_ok)

lemma spec_acc: "set (collect_in_spec spec out) = set out \<union> spec_names spec"
  by (auto simp: collect_in_spec_def spec_names_def names_acc)

lemma substitute_op_ok: "is_ok (substitute_op env op) \<longleftrightarrow> bound_in env (op_names op)"
  by (cases op) (auto simp: op_names_def names_acc spec_acc substitute_ok substitute_spec_ok is_ok_rbind)

section \<open>A sample recipe\<close>

definition sample_step :: "string \<Rightarrow> string list \<Rightarrow> op \<Rightarrow> recipe_step" where
  "sample_step i needs op = \<lparr>rp_id = i, rp_needs = needs, rp_screenshot = False, rp_op = op\<rparr>"

definition sample_recipe :: recipe where
  "sample_recipe = \<lparr>rc_v = 1, rc_name = ''dag'', rc_app = None, rc_params = [''t''],
     rc_steps = [sample_step ''c'' [''a'', ''b''] (OpClick ''$t'' Semantic None),
       sample_step ''a'' [] OpHello, sample_step ''b'' [] OpRevision,
       sample_step ''d'' [''c''] OpShutdown]\<rparr>"

definition sample_env :: "string \<Rightarrow> string option" where
  "sample_env n = (if n = ''t'' then Some ''todo-add'' else None)"

definition sample_registry :: registry where
  "sample_registry = (case protocol_registry of Inr reg \<Rightarrow> reg | Inl e \<Rightarrow> registry_new)"

definition sample_hash :: "plan_payload \<Rightarrow> u64" where
  "sample_hash p = of_nat (length (snd p))"

definition sample_plan :: plan where
  "sample_plan = (case compile_plan sample_hash sample_recipe sample_env sample_registry of
     Some (Inr p) \<Rightarrow> p | _ \<Rightarrow> undefined)"

lemma sample_registry_paths: "registry_from_schema_paths Inl [] [] = Inr sample_registry"
  by code_simp

lemma sample_valid: "validate_recipe sample_recipe sample_registry = Inr ()"
  by code_simp

lemma sample_bound: "is_ok (bound_recipe sample_recipe sample_env)"
  by code_simp

lemma sample_compiles: "compile_plan sample_hash sample_recipe sample_env sample_registry = Some (Inr sample_plan)"
proof -
  have "is_ok (the (compile_plan sample_hash sample_recipe sample_env sample_registry))
      \<and> compile_plan sample_hash sample_recipe sample_env sample_registry \<noteq> None" by code_simp
  then show ?thesis by (auto simp: sample_plan_def is_ok_iff)
qed

section \<open>Properties\<close>

lemma declared_names:
  "validate_placeholders_declared op params = Inr () \<longleftrightarrow> op_names op \<subseteq> set params"
  by (auto simp: validate_placeholders_declared_def op_names_def find_None_iff find_Some_iff subset_iff
      split: option.splits) (metis nth_mem)

lemma binds_iff:
  assumes "validate_recipe r reg = Inr ()"
  shows "is_ok (bound_recipe r env) = list_all (\<lambda>n. env n \<noteq> None) (rc_params r)"
proof (cases "list_all (\<lambda>n. env n \<noteq> None) (rc_params r)")
  case True
  have "is_ok (substitute_op env (rp_op s))" if "s \<in> set (rc_steps r)" for s
    using validate_recipe_ok [OF assms] that True
    by (auto simp: substitute_op_ok declared_names bound_in_def list_all_iff subset_iff)
  moreover have "List.find (\<lambda>n. env n = None) (rc_params r) = None"
    using True by (auto simp: find_None_iff list_all_iff)
  ultimately show ?thesis using True
    by (simp add: bound_recipe_def apply_params_def is_ok_rmap_list)
next
  case False
  then have "List.find (\<lambda>n. env n = None) (rc_params r) \<noteq> None" "rc_params r \<noteq> []"
    by (auto simp: find_None_iff list_all_iff)
  then show ?thesis using False by (auto simp: bound_recipe_def apply_params_def)
qed

text \<open>
  A recipe that passed validation binds, in every step, exactly when each of its declared
  parameters has a value: no placeholder is left that nobody declared.
\<close>
theorem params_bind:
  assumes "validate_recipe r reg = Inr ()"
  shows "is_ok (bound_recipe r env) = list_all (\<lambda>n. env n \<noteq> None) (rc_params r)"
  using assms by (rule binds_iff)

theorem params_bind_witness:
  "validate_recipe sample_recipe sample_registry = Inr () \<and>
     is_ok (bound_recipe sample_recipe sample_env) = list_all (\<lambda>n. sample_env n \<noteq> None) (rc_params sample_recipe)"
  using params_bind [OF sample_valid, of sample_env] sample_valid by blast

text \<open>
  The scheduler never panics: the in-degree of a step and the count of the steps left are
  never decremented at zero, and the loop ends, whatever the recipe and its parameters.
\<close>
theorem compile_never_panics: "compile_plan hash r env reg \<noteq> None"
proof (cases "validate_recipe r reg")
  case (Inr u)
  show ?thesis
  proof (cases "bound_recipe r env")
    case (Inr b)
    have "validate_recipe r reg = Inr ()" using \<open>validate_recipe r reg = Inr u\<close> by simp
    from compile_plan_spec [OF this Inr, of hash] show ?thesis by auto
  qed (simp add: compile_plan_def Inr)
qed (simp add: compile_plan_def)

text \<open>
  C4. Compilation refines its specification: when the needs have no cycle the waves are the
  layers of the graph (or, when no step names a need, the steps one by one in their order),
  and when they have one the recipe is refused with the cycle error.
\<close>
theorem compile_refines_layers:
  assumes "validate_recipe r reg = Inr ()" and "bound_recipe r env = Inr b"
  shows "map_option (map_sum id pl_waves) (compile_plan hash r env reg)
     = Some (if acyclic (needs_rel (rc_steps r)) then Inr (plan_waves (rc_steps r)) else Inl dependency_cycle)"
  using compile_plan_spec [OF assms, of hash] validate_recipe_ok [OF assms(1)]
  by (auto simp: all_layered_acyclic)

lemma sample_binds: "\<exists>b. bound_recipe sample_recipe sample_env = Inr b"
  using sample_bound by (simp add: is_ok_iff)

theorem compile_refines_layers_witness:
  "\<exists>b. bound_recipe sample_recipe sample_env = Inr b \<and>
     map_option (map_sum id pl_waves) (compile_plan sample_hash sample_recipe sample_env sample_registry)
     = Some (if acyclic (needs_rel (rc_steps sample_recipe)) then Inr (plan_waves (rc_steps sample_recipe)) else Inl dependency_cycle)"
  using sample_binds compile_refines_layers [OF sample_valid, of sample_env _ sample_hash] by blast

lemma waves_needs_earlier:
  assumes g: "graph_ok steps" and i: "i < length steps" and w: "plan_waves steps = pre @ w # post" "step_id steps i \<in> set w"
  shows "set (ps_needs (planned steps reg i)) \<subseteq> set (concat pre)"
proof (cases "implicit_order steps")
  case True
  then have waves: "map (\<lambda>s. [rp_id s]) steps = pre @ w # post" using w(1) by (simp add: plan_waves_def)
  then have len: "length pre < length steps" by (metis length_append length_map length_Cons less_add_Suc1 add_Suc_right)
  have nth: "(pre @ w # post) ! k = [step_id steps k]" if "k < length steps" for k
    unfolding waves [symmetric] using that by (simp add: step_id_def)
  have "w = [step_id steps (length pre)]" using nth [OF len] by simp
  then have ik: "i = length pre" using w(2) i len inj_onD [OF step_id_inj [OF g], of i "length pre"] by simp
  show ?thesis
  proof (cases "i = 0")
    case False
    then have "pre ! (i - 1) = [step_id steps (i - 1)]"
      using nth [of "i - 1"] ik i by (simp add: nth_append)
    then have "[step_id steps (i - 1)] \<in> set pre" using ik False by (metis One_nat_def diff_less gr0I lessI nth_mem)
    then show ?thesis using True False by (auto intro!: bexI [of _ "[step_id steps (i - 1)]"])
  qed (simp add: True)
next
  case False
  then have "topo_layers steps [] = pre @ w # post" using w(1) by (simp add: plan_waves_def)
  from topo_layer_needs [OF this w(2)] obtain t where t: "t \<in> set steps" "rp_id t = step_id steps i"
    "set (rp_needs t) \<subseteq> set (concat pre)" by auto
  have "t = steps ! i" using t(1,2) i g by (auto simp: graph_ok_def distinct_map step_id_def dest: inj_onD)
  then show ?thesis using t(3) False by simp
qed

lemma waves_perm:
  assumes "graph_ok steps" "all_layered steps"
  shows "distinct (concat (plan_waves steps)) \<and> set (concat (plan_waves steps)) = rp_id ` set steps \<and> [] \<notin> set (plan_waves steps)"
proof (cases "implicit_order steps")
  case True
  then show ?thesis using assms(1) by (auto simp: plan_waves_def concat_singletons graph_ok_def)
next
  case False
  have "distinct (map rp_id steps)" using assms(1) by (simp add: graph_ok_def)
  then show ?thesis
    using False assms(2) topo_distinct [of steps "[]"] layered_iff [OF assms(1)]
    by (simp add: plan_waves_def all_layered_def)
qed

text \<open>
  C19. The waves of a compiled plan hold every step exactly once, no wave is empty, the steps
  of the plan stand in the order of the waves, and whatever a step needs is in an earlier wave.
\<close>
theorem plan_order:
  assumes "compile_plan hash r env reg = Some (Inr p)"
  shows "map ps_id (pl_steps p) = concat (pl_waves p) \<and> distinct (concat (pl_waves p))
     \<and> set (concat (pl_waves p)) = rp_id ` set (rc_steps r) \<and> [] \<notin> set (pl_waves p)
     \<and> (\<forall>pre w post s. pl_waves p = pre @ w # post \<and> s \<in> set (pl_steps p) \<and> ps_id s \<in> set w
          \<longrightarrow> set (ps_needs s) \<subseteq> set (concat pre))"
proof -
  obtain b where v: "validate_recipe r reg = Inr ()" and b: "bound_recipe r env = Inr b"
    using compile_plan_Inr [OF assms] by blast
  let ?steps = "rc_steps b"
  note sk = bound_recipe_skeleton [OF b]
  have g: "graph_ok ?steps" using validate_recipe_ok [OF v] sk by (simp add: graph_ok_skeleton)
  have w: "plan_waves ?steps = plan_waves (rc_steps r)" "all_layered ?steps = all_layered (rc_steps r)"
    using plan_waves_skeleton sk by blast+
  have ids: "rp_id ` set (rc_steps r) = rp_id ` set ?steps"
  proof -
    have "set (map fst (skeleton (rc_steps r))) = set (map fst (skeleton ?steps))" using sk by simp
    then show ?thesis by (simp add: skeleton_def image_image)
  qed
  obtain ord where o: "pl_waves p = plan_waves ?steps" "pl_steps p = map (planned ?steps reg) ord"
    "map (step_id ?steps) ord = concat (plan_waves ?steps)" "set ord \<subseteq> {..<length ?steps}" "all_layered ?steps"
    using compile_plan_spec [OF v b, of hash] assms w by (auto split: if_splits)
  have ids_eq: "map ps_id (pl_steps p) = concat (pl_waves p)"
    unfolding o(1,2) o(3) [symmetric] by simp
  have needs: "set (ps_needs s) \<subseteq> set (concat pre)"
    if d: "pl_waves p = pre @ w # post \<and> s \<in> set (pl_steps p) \<and> ps_id s \<in> set w" for pre w post s
  proof -
    obtain i where "i \<in> set ord" and s: "s = planned ?steps reg i" using d o(2) by auto
    then have i: "i < length ?steps" using o(4) by auto
    show ?thesis unfolding s
      by (rule waves_needs_earlier [OF g i]) (use d [unfolded s] o(1) in auto)
  qed
  note perm = waves_perm [OF g o(5), folded o(1) ids]
  show ?thesis by (intro conjI allI impI) (use ids_eq perm needs in blast)+
qed

theorem plan_order_witness:
  "\<exists>p. compile_plan sample_hash sample_recipe sample_env sample_registry = Some (Inr p)
     \<and> map ps_id (pl_steps p) = concat (pl_waves p) \<and> set (concat (pl_waves p)) = rp_id ` set (rc_steps sample_recipe)"
  using sample_compiles plan_order [OF sample_compiles] by blast

section \<open>The order check\<close>

lemma validate_ids_total:
  "is_ok (validate_ids ss xs) \<longleftrightarrow> distinct (map rp_id ss) \<and> rp_id ` set ss \<inter> set xs = {}
     \<and> (\<forall>s \<in> set ss. trim (rp_id s) \<noteq> [] \<and> \<not> string_has_placeholder (rp_id s))"
  by (induction ss arbitrary: xs) (auto simp: set_insort_insert)

lemma validate_recipe_rev:
  assumes "validate_recipe r reg = Inr ()"
  shows "validate_recipe (r\<lparr>rc_steps := rev (rc_steps r)\<rparr>) reg = Inr ()"
proof -
  obtain ids where ids: "validate_ids (rc_steps r) [] = Inr ids" "validate_steps reg (rc_params r) ids (rc_steps r) = Inr ()"
    using assms by (auto simp: validate_recipe_def rbind_Inr_iff split: if_splits)
  have "is_ok (validate_ids (rev (rc_steps r)) [])"
    using ids(1) validate_ids_total [of "rc_steps r" "[]"] validate_ids_total [of "rev (rc_steps r)" "[]"] by (simp add: rev_map [symmetric])
  then obtain ids' where ids': "validate_ids (rev (rc_steps r)) [] = Inr ids'" by (auto simp: is_ok_iff)
  have "set ids' = set ids" using validate_ids_ok [OF ids(1)] validate_ids_ok [OF ids'] by simp
  then have "validate_steps reg (rc_params r) ids' (rev (rc_steps r)) = Inr ()"
    using ids(2) by (simp add: validate_steps_ok validate_needs_ok)
  then show ?thesis using assms ids' by (simp add: validate_recipe_def split: if_splits)
qed

lemma topo_layers_rev:
  "graph_ok steps \<Longrightarrow> topo_layers (rev steps) fin = topo_layers steps fin"
proof (induction steps fin rule: topo_layers.induct)
  case (1 steps fin)
  have "sort (map rp_id (ready_steps (rev steps) fin)) = sort (map rp_id (ready_steps steps fin))"
  proof (rule sorted_distinct_set_unique)
    have "distinct (map rp_id (ready_steps steps fin))" "distinct (map rp_id (ready_steps (rev steps) fin))"
      using 1(2) by (auto simp: ready_steps_def graph_ok_def rev_map [symmetric] intro!: distinct_map_filter)
    then show "distinct (sort (map rp_id (ready_steps (rev steps) fin)))" "distinct (sort (map rp_id (ready_steps steps fin)))"
      by simp_all
  qed (simp_all add: ready_steps_def)
  then show ?case
    using 1(1) [OF refl _ 1(2)] by (subst (1 2) topo_layers.simps) (simp add: Let_def)
qed

lemma palindrome_short:
  assumes "distinct xs"
  shows "xs = rev xs \<longleftrightarrow> length xs \<le> 1"
proof
  assume eq: "xs = rev xs"
  show "length xs \<le> 1"
  proof (rule ccontr)
    assume "\<not> length xs \<le> 1"
    then have l: "0 < length xs" "length xs - 1 < length xs" "length xs - 1 \<noteq> 0" by auto
    have "xs ! 0 = xs ! (length xs - 1)" using eq l(1) by (metis One_nat_def rev_nth)
    then show False using assms l by (metis nth_eq_iff_index_eq)
  qed
next
  assume "length xs \<le> 1"
  then show "xs = rev xs" by (cases xs; cases "tl xs") auto
qed

lemma plan_waves_rev:
  assumes g: "graph_ok steps"
  shows "graph_ok (rev steps) \<and> all_layered (rev steps) = all_layered steps
     \<and> (map wave_set (plan_waves steps) \<noteq> map wave_set (plan_waves (rev steps)) \<longleftrightarrow> implicit_order steps \<and> 1 < length steps)"
proof (intro conjI)
  show gr: "graph_ok (rev steps)" using g by (simp add: graph_ok_def rev_map [symmetric])
  have "needs_rel (rev steps) = needs_rel steps" by (simp add: needs_rel_def)
  then show "all_layered (rev steps) = all_layered steps"
    using all_layered_acyclic g gr by simp
  have imp: "implicit_order (rev steps) = implicit_order steps" by (simp add: implicit_order_def)
  show "map wave_set (plan_waves steps) \<noteq> map wave_set (plan_waves (rev steps)) \<longleftrightarrow> implicit_order steps \<and> 1 < length steps"
  proof (cases "implicit_order steps")
    case True
    have singles: "map wave_set (map (\<lambda>s. [rp_id s]) ss) = map (\<lambda>x. [x]) (map rp_id ss)" for ss
      by (simp add: wave_set_def insort_insert_key_def)
    have inj: "map (\<lambda>x. [x]) xs = map (\<lambda>x. [x]) ys \<longleftrightarrow> xs = ys" for xs ys :: "string list"
      by (simp add: inj_map_eq_map inj_on_def)
    have "map wave_set (plan_waves steps) = map wave_set (plan_waves (rev steps)) \<longleftrightarrow> map rp_id steps = rev (map rp_id steps)"
      using True imp by (simp only: plan_waves_def if_True singles inj rev_map)
    also have "\<dots> \<longleftrightarrow> length steps \<le> 1"
      using palindrome_short [of "map rp_id steps"] g by (simp add: graph_ok_def)
    finally show ?thesis using True by auto
  next
    case False
    then show ?thesis using topo_layers_rev [OF g] imp by (simp add: plan_waves_def)
  qed
qed

text \<open>
  The order check succeeds whenever the recipe compiles, reports the waves of the plan,
  and calls a recipe order-dependent exactly when no step names a need and there are at
  least two steps: explicit needs make the waves independent of the order of the file.
\<close>
theorem order_check_verdict:
  assumes "compile_plan hash r env reg = Some (Inr p)"
  shows "\<exists>oc. order_check hash r env reg = Some (Inr oc) \<and> oc_forward_waves oc = pl_waves p
     \<and> (oc_order_dependent oc \<longleftrightarrow> implicit_order (rc_steps r) \<and> 1 < length (rc_steps r))"
proof -
  obtain b where v: "validate_recipe r reg = Inr ()" and b: "bound_recipe r env = Inr b"
    using compile_plan_Inr [OF assms] by blast
  let ?r = "r\<lparr>rc_steps := rev (rc_steps r)\<rparr>"
  have g: "graph_ok (rc_steps r)" using validate_recipe_ok [OF v] by simp
  note rev_facts = plan_waves_rev [OF g]
  have vr: "validate_recipe ?r reg = Inr ()" using v by (rule validate_recipe_rev)
  have "is_ok (bound_recipe ?r env)"
    using binds_iff [OF vr, of env] binds_iff [OF v, of env] b by simp
  then obtain br where br: "bound_recipe ?r env = Inr br" by (auto simp: is_ok_iff)
  have w: "all_layered (rc_steps r)" "pl_waves p = plan_waves (rc_steps r)"
    using compile_plan_spec [OF v b, of hash] assms by (auto split: if_splits)
  obtain q where q: "compile_plan hash ?r env reg = Some (Inr q)" "pl_waves q = plan_waves (rev (rc_steps r))"
    using compile_plan_spec [OF vr br, of hash] rev_facts w(1) by auto
  show ?thesis using assms q w(2) rev_facts by (simp add: order_check_def)
qed

theorem order_check_verdict_witness:
  "\<exists>oc. order_check sample_hash sample_recipe sample_env sample_registry = Some (Inr oc)
     \<and> oc_forward_waves oc = pl_waves sample_plan \<and> \<not> oc_order_dependent oc"
proof -
  have "\<not> implicit_order (rc_steps sample_recipe)" by (simp add: implicit_order_def sample_recipe_def sample_step_def)
  then show ?thesis using order_check_verdict [OF sample_compiles] by blast
qed

section \<open>Exits need a yes\<close>

text \<open>A schema file cannot replace a protocol operation.\<close>

lemma merge_files_keeps:
  "registry_ok reg \<Longrightarrow> merge_files load ps reg = Inr reg' \<Longrightarrow>
     registry_ok reg' \<and> (\<forall>n s. registry_get reg n = Some s \<longrightarrow> registry_get reg' n = Some s)"
proof (induction load ps reg rule: merge_files.induct)
  case (2 load p ps reg)
  show ?case
  proof (cases "p = []")
    case True
    then show ?thesis using 2(1) [OF True 2(3)] 2(4) by simp
  next
    case False
    then obtain other mid where m: "load p = Inr other" "registry_merge (registry_iter other) reg = Inr mid"
      "merge_files load ps mid = Inr reg'" using 2(4) by (auto simp: rbind_Inr_iff)
    note ok = registry_ok_merge [OF 2(3) m(2)]
    then show ?thesis using 2(2) [OF False m(1,2) _ m(3)] by blast
  qed
qed simp

lemma sample_registry_ok: "registry_ok sample_registry"
proof -
  have "insert_all protocol_ops registry_new = Inr sample_registry" by code_simp
  then show ?thesis using registry_ok_insert_all [OF registry_ok_new] by blast
qed

end
