(* ===== verification/Wants_Laws.thy ===== *)
theory Wants_Laws
  imports Wants Recipe_Laws
begin

text \<open>
  The \<open>.wants\<close> form: quoting and the tokenizer are inverse, and what a parsed file satisfies.
\<close>

section \<open>Quoting\<close>

definition quote_char :: "string \<Rightarrow> string" where
  "quote_char ch = (if ch = [CHR 0x22] \<or> ch = [CHR 0x5C] then CHR 0x5C # ch else ch)"

definition quote_token :: "string \<Rightarrow> string" where
  "quote_token t = CHR 0x22 # concat (map quote_char (chars_of t)) @ [CHR 0x22]"

definition quote_chars_of :: "string list \<Rightarrow> string list" where
  "quote_chars_of chs = concat (map (\<lambda>ch. if ch = [CHR 0x22] \<or> ch = [CHR 0x5C] then [[CHR 0x5C], ch] else [ch]) chs)"

definition well_started :: "string \<Rightarrow> bool" where
  "well_started t = (case t of [] \<Rightarrow> True | c # _ \<Rightarrow> \<not> is_cont c)"

lemma quoted_back: "quoted [CHR 0x22] (quote_chars_of chs @ [CHR 0x22] # rest) buf = Some (buf @ concat chs, rest)"
  by (induction chs arbitrary: buf) (auto simp: quote_chars_of_def)

lemma ascii_start: "\<not> is_cont (CHR 0x22)" "\<not> is_cont (CHR 0x5C)" "\<not> is_cont (CHR 0x20)"
  by (code_simp, code_simp, code_simp)

lemma chars_of_quoted:
  assumes "\<And>ch. ch \<in> set chs \<Longrightarrow> chars_of ch = [ch] \<and> \<not> is_cont (hd ch) \<and> ch \<noteq> []"
    and "s = [] \<or> \<not> is_cont (hd s)"
  shows "chars_of (concat (map quote_char chs) @ s) = quote_chars_of chs @ chars_of s
     \<and> (concat (map quote_char chs) @ s = [] \<or> \<not> is_cont (hd (concat (map quote_char chs) @ s)))"
  using assms(1)
proof (induction chs)
  case Nil
  then show ?case using assms(2) by (simp add: quote_chars_of_def)
next
  case (Cons ch chs)
  let ?tail = "concat (map quote_char chs) @ s"
  have ih: "chars_of ?tail = quote_chars_of chs @ chars_of s" "?tail = [] \<or> \<not> is_cont (hd ?tail)"
    using Cons by auto
  have ch: "chars_of ch = [ch]" "\<not> is_cont (hd ch)" "ch \<noteq> []" using Cons.prems [of ch] by auto
  have one: "chars_of (ch @ ?tail) = ch # chars_of ?tail" using chars_of_app [OF ih(2), of ch] ch(1) by simp
  have two: "chars_of ([CHR 0x5C] @ ch @ ?tail) = [CHR 0x5C] # ch # chars_of ?tail"
    using chars_of_app [of "ch @ ?tail" "[CHR 0x5C]"] ch(2,3) one by simp
  show ?case
  proof (cases "ch = [CHR 0x22] \<or> ch = [CHR 0x5C]")
    case True
    then have "concat (map quote_char (ch # chs)) @ s = [CHR 0x5C] @ ch @ ?tail"
      "quote_chars_of (ch # chs) = [CHR 0x5C] # ch # quote_chars_of chs"
      by (simp_all add: quote_char_def quote_chars_of_def)
    then show ?thesis using two ih(1) ascii_start by (simp del: chars_of.simps)
  next
    case False
    then have "concat (map quote_char (ch # chs)) @ s = ch @ ?tail"
      "quote_chars_of (ch # chs) = ch # quote_chars_of chs"
      by (simp_all add: quote_char_def quote_chars_of_def)
    then show ?thesis using one ih(1) ch(2,3) by (simp del: chars_of.simps)
  qed
qed

lemma chars_of_quote_token:
  assumes "well_started t" "s = [] \<or> \<not> is_cont (hd s)"
  shows "chars_of (quote_token t @ s) = [CHR 0x22] # quote_chars_of (chars_of t) @ [CHR 0x22] # chars_of s"
proof -
  have chs: "chars_of ch = [ch] \<and> \<not> is_cont (hd ch) \<and> ch \<noteq> []" if "ch \<in> set (chars_of t)" for ch
    using chars_of_char [OF that] chars_of_ne [OF that] assms(1) by (auto simp: well_started_def split: list.splits)
  have end_q: "chars_of ([CHR 0x22] @ s) = [CHR 0x22] # chars_of s"
    using chars_of_app [OF assms(2), of "[CHR 0x22]"] by simp
  let ?body = "concat (map quote_char (chars_of t)) @ [CHR 0x22] @ s"
  have body: "chars_of ?body = quote_chars_of (chars_of t) @ [CHR 0x22] # chars_of s" "\<not> is_cont (hd ?body)"
    using chars_of_quoted [OF chs, of "chars_of t" "[CHR 0x22] @ s"] ascii_start end_q by auto
  have "chars_of ([CHR 0x22] @ ?body) = [CHR 0x22] # chars_of ?body"
    using chars_of_app [of ?body "[CHR 0x22]"] body(2) by simp
  then show ?thesis using body(1) by (simp add: quote_token_def)
qed

lemma space_is_ws: "is_ws_char '' ''"
  by code_simp

lemma tokenize_loop_quoted:
  "tokenize_loop ([CHR 0x22] # quote_chars_of chs @ [CHR 0x22] # []) [] = Inr [concat chs]"
  "tokenize_loop ([CHR 0x22] # quote_chars_of chs @ [CHR 0x22] # '' '' # rest) [] = rmap (Cons (concat chs)) (tokenize_loop rest [])"
  using quoted_back [of chs "[]" "[]"] quoted_back [of chs "'' '' # rest" "[]"] space_is_ws by simp_all

lemma tokenize_quoted:
  "list_all well_started ts \<Longrightarrow> tokenize_loop (chars_of (join '' '' (map quote_token ts))) [] = Inr ts"
proof (induction ts rule: induct_list012)
  case (2 t)
  then show ?case using chars_of_quote_token [of t "[]"] by (simp add: tokenize_loop_quoted(1) del: tokenize_loop.simps)
next
  case (3 t u ts)
  have "\<not> is_cont (CHR 0x20)" by (rule ascii_start)
  have hd_q: "\<not> is_cont (hd (join '' '' (map quote_token (u # ts))))"
    by (cases ts) (simp_all add: quote_token_def ascii_start)
  have "chars_of (quote_token t @ '' '' @ join '' '' (map quote_token (u # ts)))
      = [CHR 0x22] # quote_chars_of (chars_of t) @ [CHR 0x22] # chars_of ('' '' @ join '' '' (map quote_token (u # ts)))"
    by (rule chars_of_quote_token) (use 3 ascii_start in simp_all)
  also have "chars_of ('' '' @ join '' '' (map quote_token (u # ts))) = '' '' # chars_of (join '' '' (map quote_token (u # ts)))"
    using chars_of_app [of "join '' '' (map quote_token (u # ts))" "'' ''"] hd_q by simp
  finally show ?case using 3 by (simp add: tokenize_loop_quoted(2) del: tokenize_loop.simps)
qed simp

section \<open>What a parsed file satisfies\<close>

lemma op_acc: "set (collect_placeholders_in_op op out) = set out \<union> op_names op"
  by (cases op) (auto simp: op_names_def names_acc spec_acc)

definition wants_ok :: "string list \<Rightarrow> recipe_step list \<Rightarrow> bool" where
  "wants_ok params steps =
     (map rp_id steps = map (\<lambda>k. ''s'' @ dec (k + 1)) [0..<length steps] \<and> implicit_order steps
      \<and> set params = (\<Union>s \<in> set steps. op_names (rp_op s)))"

lemma wants_ok_snoc:
  assumes "wants_ok params steps" "parse_wants_step pj tokens (''s'' @ dec (length steps + 1)) = Inr step"
  shows "wants_ok (collect_placeholders_in_op (rp_op step) params) (steps @ [step])"
proof -
  have "rp_id step = ''s'' @ dec (length steps + 1)" "rp_needs step = []"
    using assms(2) by (auto simp: parse_wants_step_def Let_def rmap_Inr_iff split: list.splits)
  then show ?thesis using assms(1) by (auto simp: wants_ok_def implicit_order_def op_acc)
qed

lemma wants_loop_ok:
  "wants_loop pj i raws params steps = Inr (params', steps') \<Longrightarrow> wants_ok params steps \<Longrightarrow> wants_ok params' steps'"
proof (induction raws arbitrary: i params steps)
  case (Cons raw raws)
  show ?case
  proof (cases "trim raw = [] \<or> starts_with (trim raw) ''#''")
    case True
    then show ?thesis using Cons.prems Cons.IH by (simp add: Let_def)
  next
    case False
    then obtain tokens where t: "tokenize (trim raw) = Inr tokens"
      "(if tokens = [] then wants_loop pj (i + 1) raws params steps
        else case parse_wants_step pj tokens (''s'' @ dec (length steps + 1)) of
          Inl err \<Rightarrow> Inl (''line '' @ dec (i + 1) @ '': '' @ err)
        | Inr step \<Rightarrow> wants_loop pj (i + 1) raws (collect_placeholders_in_op (rp_op step) params) (steps @ [step]))
        = Inr (params', steps')"
      using Cons.prems(1) by (auto simp: Let_def rbind_Inr_iff)
    show ?thesis
    proof (cases "tokens = []")
      case True
      then show ?thesis using t(2) Cons.IH Cons.prems(2) by simp
    next
      case False
      then obtain step where s: "parse_wants_step pj tokens (''s'' @ dec (length steps + 1)) = Inr step"
        "wants_loop pj (i + 1) raws (collect_placeholders_in_op (rp_op step) params) (steps @ [step]) = Inr (params', steps')"
        using t(2) by (auto split: sum.splits)
      show ?thesis by (rule Cons.IH [OF s(2) wants_ok_snoc [OF Cons.prems(2) s(1)]])
    qed
  qed
qed simp

lemma parse_wants_ok:
  "parse_wants pj txt name = Inr r \<Longrightarrow> wants_ok (rc_params r) (rc_steps r) \<and> rc_steps r \<noteq> [] \<and> rc_name r = name
     \<and> rc_v r = RECIPE_FORMAT_VERSION"
  using wants_loop_ok [of pj 0 "str_lines txt" "[]" "[]"]
  by (fastforce simp: parse_wants_def rbind_Inr_iff wants_ok_def implicit_order_def split: if_splits)

lemma step_name_ok: "trim (''s'' @ dec k) \<noteq> [] \<and> \<not> string_has_placeholder (''s'' @ dec k)"
proof -
  have d: "\<forall>c \<in> set (''s'' @ dec k). is_graph c \<and> c \<noteq> CHR ''$''"
    using dec_digits [of k] by (auto simp: is_ascii_digit_def is_graph_def Let_def)
  then have "trim (''s'' @ dec k) = ''s'' @ dec k" by (intro trim_graph) blast
  moreover have "string_names (''s'' @ dec k) = {}" by (rule no_dollar) (use d in blast)
  ultimately show ?thesis by (simp add: string_has_placeholder_def string_names_def)
qed

lemma wants_validate:
  assumes w: "wants_ok (rc_params r) (rc_steps r)" and "rc_steps r \<noteq> []" and v: "rc_v r = RECIPE_FORMAT_VERSION"
  shows "validate_recipe r reg = Inr () \<longleftrightarrow> trim (rc_name r) \<noteq> [] \<and> length (rc_steps r) \<le> MAX_RECIPE_STEPS
     \<and> list_all (\<lambda>s. validate_op reg (rp_op s) = Inr ()) (rc_steps r)"
proof -
  let ?ss = "rc_steps r"
  have ids: "map rp_id ?ss = map (\<lambda>k. ''s'' @ dec (k + 1)) [0..<length ?ss]" using w by (simp add: wants_ok_def)
  have "distinct (map rp_id ?ss)" unfolding ids by (simp add: distinct_map inj_on_def dec_inj)
  moreover have good: "trim (rp_id s) \<noteq> [] \<and> \<not> string_has_placeholder (rp_id s)" if "s \<in> set ?ss" for s
  proof -
    have "rp_id s \<in> set (map rp_id ?ss)" using that by simp
    then obtain k where "rp_id s = ''s'' @ dec k" unfolding ids by auto
    then show ?thesis using step_name_ok [of k] by simp
  qed
  ultimately obtain ids' where ids': "validate_ids ?ss [] = Inr ids'"
    using validate_ids_total [of ?ss "[]"] by (auto simp: is_ok_iff)
  have "validate_steps reg (rc_params r) ids' ?ss = Inr () \<longleftrightarrow> list_all (\<lambda>s. validate_op reg (rp_op s) = Inr ()) ?ss"
    using w by (auto simp: validate_steps_ok validate_needs_ok declared_names wants_ok_def implicit_order_def list_all_iff)
  then show ?thesis using ids' assms(2) v by (auto simp: validate_recipe_def)
qed

section \<open>Properties\<close>

text \<open>
  Quoting and tokenizing are inverse: a line made of any arguments, each in double quotes
  with its quotes and backslashes escaped, is read back as exactly these arguments, empty
  ones and ones with white space, quotes or \<open>#\<close> included.  (Every argument is a string: it does
  not start inside a character.)
\<close>
theorem tokens_round_trip:
  assumes "list_all well_started ts"
  shows "tokenize (join '' '' (map quote_token ts)) = Inr ts"
  unfolding tokenize_def using assms by (rule tokenize_quoted)

theorem tokens_round_trip_witness:
  "tokenize (join '' '' (map quote_token [''a b'', [], [CHR 0x5C, CHR 0x22], [CHR 0xC3, CHR 0xA9]]))
     = Inr [''a b'', [], [CHR 0x5C, CHR 0x22], [CHR 0xC3, CHR 0xA9]]"
  by (rule tokens_round_trip) code_simp

text \<open>
  A file in the \<open>.wants\<close> form that parses is a linear recipe with the ids \<open>s1\<close>, \<open>s2\<close>, ... and
  declares every placeholder it uses; it passes validation exactly when its name is not
  blank, it has at most 256 steps, and every invoke is registered and every quit confirmed.
\<close>
theorem wants_recipe_valid:
  assumes "parse_wants pj txt name = Inr r"
  shows "map rp_id (rc_steps r) = map (\<lambda>k. ''s'' @ dec (k + 1)) [0..<length (rc_steps r)]
     \<and> implicit_order (rc_steps r)
     \<and> (validate_recipe r reg = Inr () \<longleftrightarrow> trim name \<noteq> [] \<and> length (rc_steps r) \<le> MAX_RECIPE_STEPS
          \<and> list_all (\<lambda>s. validate_op reg (rp_op s) = Inr ()) (rc_steps r))"
  using parse_wants_ok [OF assms] wants_validate [of r reg] by (auto simp: wants_ok_def)

theorem wants_recipe_valid_witness:
  "\<exists>r. parse_wants (\<lambda>_. None) (''hello'' @ CHR 0x0A # ''click $t'') ''lin'' = Inr r \<and>
     (validate_recipe r sample_registry = Inr () \<longleftrightarrow> trim ''lin'' \<noteq> [] \<and> length (rc_steps r) \<le> MAX_RECIPE_STEPS
          \<and> list_all (\<lambda>s. validate_op sample_registry (rp_op s) = Inr ()) (rc_steps r))"
proof -
  have "is_ok (parse_wants (\<lambda>_. None) (''hello'' @ CHR 0x0A # ''click $t'') ''lin'')" by code_simp
  then obtain r where r: "parse_wants (\<lambda>_. None) (''hello'' @ CHR 0x0A # ''click $t'') ''lin'' = Inr r"
    by (auto simp: is_ok_iff)
  show ?thesis using r wants_recipe_valid [OF r] by blast
qed

end
