(* ===== verification/Client.thy ===== *)
theory Client
  imports Server
begin

text \<open>
  \<open>crates/gpui-agent/src/client.rs\<close>: the blocking client, its session, the retry loops and the
  pipeline.  The socket, the clock and \<open>serde_json\<close> are the fields of a \<open>transport\<close>, over a
  world of its own type; a call of it may fail with the text of the I/O error.  A loop
  that waits for a deadline is \<open>partial_function (option)\<close>: \<open>None\<close> would be a call that never
  returns.  Durations are in milliseconds.
\<close>

record ('c, 'w) transport =
  tp_connect :: "'w \<Rightarrow> 'c result \<times> 'w"
  tp_set_timeout :: "nat \<Rightarrow> 'c \<Rightarrow> 'w \<Rightarrow> unit result \<times> 'w"
  tp_write :: "string \<Rightarrow> 'c \<Rightarrow> 'w \<Rightarrow> unit result \<times> 'w"
  tp_flush :: "'c \<Rightarrow> 'w \<Rightarrow> unit result \<times> 'w"
  tp_read :: "'c \<Rightarrow> 'w \<Rightarrow> string option result \<times> 'w" \<comment> \<open>\<open>None\<close>: end of file\<close>
  tp_now :: "'w \<Rightarrow> nat"
  tp_sleep :: "nat \<Rightarrow> 'w \<Rightarrow> 'w"
  tp_encode :: "request \<Rightarrow> string"
  tp_decode :: "string \<Rightarrow> response result"
  tp_challenge :: "string \<Rightarrow> string result" \<comment> \<open>\<open>parse_challenge_line\<close>: the nonce\<close>
  tp_hmac :: "string \<Rightarrow> string \<Rightarrow> string"

definition then_io :: "('e + 'a) \<times> 'w \<Rightarrow> ('a \<Rightarrow> 'w \<Rightarrow> ('e + 'b) \<times> 'w) \<Rightarrow> ('e + 'b) \<times> 'w" where
  "then_io r f = (case r of (Inl e, w) \<Rightarrow> (Inl e, w) | (Inr x, w) \<Rightarrow> f x w)"

lemma then_io_simps [simp]: "then_io (Inl e, w) f = (Inl e, w)" "then_io (Inr x, w) f = f x w"
  by (simp_all add: then_io_def)

section \<open>The session\<close>

record 'c live_session =
  ls_conn :: 'c
  ls_auth :: "string option"

definition session_open ::
    "('c, 'w) transport \<Rightarrow> nat \<Rightarrow> string option \<Rightarrow> 'w \<Rightarrow> 'c live_session result \<times> 'w" where
  "session_open tp timeout token w =
     then_io (tp_connect tp w) (\<lambda>c w.
     then_io (tp_set_timeout tp timeout c w) (\<lambda>_ w.
       case token of
         None \<Rightarrow> (Inr \<lparr>ls_conn = c, ls_auth = None\<rparr>, w)
       | Some t \<Rightarrow> then_io (tp_read tp c w) (\<lambda>line w.
           case line of
             None \<Rightarrow> (Inl ''connection closed before challenge'', w)
           | Some l \<Rightarrow> (rbind (tp_challenge tp l) (\<lambda>nonce. rbind (hmac_hex (tp_hmac tp) t nonce)
               (\<lambda>a. Inr \<lparr>ls_conn = c, ls_auth = Some a\<rparr>)), w))))"

definition wire_request :: "string \<Rightarrow> string option \<Rightarrow> op \<Rightarrow> request" where
  "wire_request ident auth op = \<lparr>req_v = PROTOCOL_VERSION, req_id = ident, req_token = None, req_auth = auth, req_op = op\<rparr>"

definition request_line :: "('c, 'w) transport \<Rightarrow> string \<Rightarrow> string option \<Rightarrow> op \<Rightarrow> string" where
  "request_line tp ident auth op = write_json_line (tp_encode tp) (wire_request ident auth op)"

definition parse_response_line :: "('c, 'w) transport \<Rightarrow> string \<Rightarrow> response result" where
  "parse_response_line tp line =
     (if is_ok (tp_challenge tp line) then Inl ''automation token required''
      else case tp_decode tp line of Inl err \<Rightarrow> Inl (''bad response: '' @ err) | Inr r \<Rightarrow> Inr r)"

definition exchange_wire ::
    "('c, 'w) transport \<Rightarrow> string \<Rightarrow> op \<Rightarrow> 'c live_session \<Rightarrow> 'w \<Rightarrow> response result \<times> 'w" where
  "exchange_wire tp ident op s w =
     then_io (tp_write tp (request_line tp ident (ls_auth s) op) (ls_conn s) w) (\<lambda>_ w.
     then_io (tp_flush tp (ls_conn s) w) (\<lambda>_ w.
     then_io (tp_read tp (ls_conn s) w) (\<lambda>line w.
       case line of None \<Rightarrow> (Inl ''connection closed'', w) | Some l \<Rightarrow> (parse_response_line tp l, w))))"

text \<open>\<open>fmt_u64\<close>: the digits, from the last, into the front of the buffer.\<close>

function fmt_loop :: "nat \<Rightarrow> string \<Rightarrow> string" where
  "fmt_loop n buf = (if n = 0 then buf else fmt_loop (n div 10) (char_of (48 + n mod 10) # buf))"
  by pat_completeness auto
termination by (relation "measure fst") auto

declare fmt_loop.simps [simp del]

definition fmt_u64 :: "u64 \<Rightarrow> string" where
  "fmt_u64 n = (if n = 0 then ''0'' else fmt_loop (unat n) [])"

section \<open>The pipeline\<close>

datatype pipeline_error = Retryable string | Fatal string

definition pipeline_eof :: "response list \<Rightarrow> pipeline_error" where
  "pipeline_eof partial =
     (case List.find (\<lambda>r. \<not> rs_ok r) partial of
        Some r \<Rightarrow> Fatal (case rs_error r of Some e \<Rightarrow> e | None \<Rightarrow> ''connection closed'')
      | None \<Rightarrow> Fatal ''connection closed'')"

fun pipe_write ::
    "('c, 'w) transport \<Rightarrow> 'c live_session \<Rightarrow> u64 \<Rightarrow> bool \<Rightarrow> op list \<Rightarrow> 'w \<Rightarrow> (pipeline_error + unit) \<times> 'w" where
  "pipe_write tp s num wrote [] w = (Inr (), w)"
| "pipe_write tp s num wrote (op # ops) w =
     (case tp_write tp (request_line tp (fmt_u64 num) (ls_auth s) op) (ls_conn s) w of
        (Inl err, w) \<Rightarrow> (Inl (if wrote then Fatal err else Retryable err), w)
      | (Inr _, w) \<Rightarrow> pipe_write tp s (num + 1) True ops w)"

fun pipe_read ::
    "('c, 'w) transport \<Rightarrow> 'c live_session \<Rightarrow> nat \<Rightarrow> response list \<Rightarrow> 'w \<Rightarrow> (pipeline_error + response list) \<times> 'w" where
  "pipe_read tp s 0 out w = (Inr out, w)"
| "pipe_read tp s (Suc n) out w =
     (case tp_read tp (ls_conn s) w of
        (Inl err, w) \<Rightarrow> (Inl (Fatal err), w)
      | (Inr None, w) \<Rightarrow> (Inl (pipeline_eof out), w)
      | (Inr (Some line), w) \<Rightarrow>
          (case parse_response_line tp line of
             Inl err \<Rightarrow> (Inl (Fatal err), w)
           | Inr r \<Rightarrow> pipe_read tp s n (out @ [r]) w))"

definition exchange_pipeline ::
    "('c, 'w) transport \<Rightarrow> u64 \<Rightarrow> op list \<Rightarrow> 'c live_session \<Rightarrow> 'w \<Rightarrow> (pipeline_error + response list) \<times> 'w" where
  "exchange_pipeline tp start ops s w =
     then_io (pipe_write tp s start False ops w) (\<lambda>_ w.
     then_io (case tp_flush tp (ls_conn s) w of (Inl err, w) \<Rightarrow> (Inl (Fatal err), w) | (Inr u, w) \<Rightarrow> (Inr u, w)) (\<lambda>_ w.
       pipe_read tp s (length ops) [] w))"

section \<open>The client\<close>

record 'c agent_client =
  ac_addr :: string
  ac_token :: "string option"
  ac_timeout :: nat
  ac_next_id :: u64
  ac_session :: "'c live_session option"

definition client_connect :: "string \<Rightarrow> 'c agent_client" where
  "client_connect addr = \<lparr>ac_addr = addr, ac_token = None, ac_timeout = 8000, ac_next_id = 1, ac_session = None\<rparr>"

definition client_with_token :: "string \<Rightarrow> 'c agent_client \<Rightarrow> 'c agent_client" where
  "client_with_token token c = c\<lparr>ac_token := Some token\<rparr>"

definition client_with_timeout :: "nat \<Rightarrow> 'c agent_client \<Rightarrow> 'c agent_client" where
  "client_with_timeout timeout c = c\<lparr>ac_timeout := timeout\<rparr>"

definition has_session :: "'c agent_client \<Rightarrow> bool" where
  "has_session c = (ac_session c \<noteq> None)"

definition close_session :: "'c agent_client \<Rightarrow> 'c agent_client" where
  "close_session c = c\<lparr>ac_session := None\<rparr>"

definition saturating_add_u64 :: "u64 \<Rightarrow> nat \<Rightarrow> nat" where
  "saturating_add_u64 a b = min (unat a + b) (2 ^ 64 - 1)"

fun timeout_for :: "'c agent_client \<Rightarrow> op \<Rightarrow> nat" where
  "timeout_for c (OpScreenshot _ mode _ _) = (if is_scrolled mode then max (ac_timeout c) 30000 else ac_timeout c)"
| "timeout_for c (OpWaitUntil ms _) = max (ac_timeout c) (saturating_add_u64 ms 2000)"
| "timeout_for c (OpWait (Some ms)) = max (ac_timeout c) (saturating_add_u64 ms 2000)"
| "timeout_for c _ = ac_timeout c"

text \<open>The session of a round trip: a new one, or the live one with its timeout set.\<close>

definition roundtrip_session ::
    "('c, 'w) transport \<Rightarrow> nat \<Rightarrow> 'c agent_client \<Rightarrow> 'w \<Rightarrow> 'c live_session result \<times> 'w" where
  "roundtrip_session tp timeout c w =
     (case ac_session c of
        None \<Rightarrow> session_open tp timeout (ac_token c) w
      | Some s \<Rightarrow> then_io (tp_set_timeout tp timeout (ls_conn s) w) (\<lambda>_ w. (Inr s, w)))"

definition roundtrip_wire ::
    "('c, 'w) transport \<Rightarrow> string \<Rightarrow> op \<Rightarrow> nat \<Rightarrow> 'c agent_client \<Rightarrow> 'w \<Rightarrow> response result \<times> 'c agent_client \<times> 'w" where
  "roundtrip_wire tp ident op timeout c w =
     (case roundtrip_session tp timeout c w of
        (Inl e, w) \<Rightarrow> (Inl e, c, w)
      | (Inr s, w) \<Rightarrow>
          (case exchange_wire tp ident op s w of
             (Inl e, w) \<Rightarrow> (Inl e, c\<lparr>ac_session := None\<rparr>, w)
           | (Inr resp, w) \<Rightarrow> (Inr resp, c\<lparr>ac_session := Some s\<rparr>, w)))"

definition gave_up :: "'c agent_client \<Rightarrow> string \<Rightarrow> string" where
  "gave_up c last_err = ''connect '' @ ac_addr c @ '' failed: '' @ last_err"

partial_function (option) roundtrip_loop ::
    "('c, 'w) transport \<Rightarrow> string \<Rightarrow> op \<Rightarrow> nat \<Rightarrow> nat \<Rightarrow> string \<Rightarrow> 'c agent_client \<Rightarrow> 'w \<Rightarrow>
       (response result \<times> 'c agent_client \<times> 'w) option" where
  "roundtrip_loop tp ident op timeout deadline last_err c w =
     (if tp_now tp w < deadline then
        (case roundtrip_wire tp ident op timeout c w of
           (Inr resp, c, w) \<Rightarrow> Some (Inr resp, c, w)
         | (Inl err, c, w) \<Rightarrow>
             roundtrip_loop tp ident op timeout deadline err (c\<lparr>ac_session := None\<rparr>) (tp_sleep tp 50 w))
      else Some (Inl (gave_up c last_err), c, w))"

definition roundtrip_retry ::
    "('c, 'w) transport \<Rightarrow> op \<Rightarrow> 'c agent_client \<Rightarrow> 'w \<Rightarrow> (response result \<times> 'c agent_client \<times> 'w) option" where
  "roundtrip_retry tp op c w =
     (let ident = fmt_u64 (ac_next_id c); timeout = timeout_for c op in
      roundtrip_loop tp ident op timeout (tp_now tp w + timeout) [] (c\<lparr>ac_next_id := ac_next_id c + 1\<rparr>) w)"

definition rpc_op ::
    "('c, 'w) transport \<Rightarrow> op \<Rightarrow> 'c agent_client \<Rightarrow> 'w \<Rightarrow> (response result \<times> 'c agent_client \<times> 'w) option" where
  "rpc_op tp op c w = roundtrip_retry tp op c w"

definition rpc_once ::
    "('c, 'w) transport \<Rightarrow> op \<Rightarrow> 'c agent_client \<Rightarrow> 'w \<Rightarrow> (response result \<times> 'c agent_client \<times> 'w) option" where
  "rpc_once tp op c w =
     (case roundtrip_retry tp op (close_session c) w of
        Some (Inr resp, c, w) \<Rightarrow> Some (Inr resp, close_session c, w)
      | r \<Rightarrow> r)"

definition pipeline_session ::
    "('c, 'w) transport \<Rightarrow> 'c agent_client \<Rightarrow> 'w \<Rightarrow> (pipeline_error + 'c live_session) \<times> 'w" where
  "pipeline_session tp c w =
     (case ac_session c of
        None \<Rightarrow> (case session_open tp (ac_timeout c) (ac_token c) w of
          (Inl e, w) \<Rightarrow> (Inl (Retryable e), w) | (Inr s, w) \<Rightarrow> (Inr s, w))
      | Some s \<Rightarrow> (Inr s, w))"

definition pipeline_once ::
    "('c, 'w) transport \<Rightarrow> u64 \<Rightarrow> op list \<Rightarrow> 'c agent_client \<Rightarrow> 'w \<Rightarrow>
       (pipeline_error + response list) \<times> 'c agent_client \<times> 'w" where
  "pipeline_once tp start ops c w =
     (case pipeline_session tp c w of
        (Inl e, w) \<Rightarrow> (Inl e, c, w)
      | (Inr s, w) \<Rightarrow>
          (case exchange_pipeline tp start ops s w of
             (Inl e, w) \<Rightarrow> (Inl e, c\<lparr>ac_session := None\<rparr>, w)
           | (Inr rs, w) \<Rightarrow> (Inr rs, c\<lparr>ac_session := Some s\<rparr>, w)))"

partial_function (option) pipeline_loop ::
    "('c, 'w) transport \<Rightarrow> u64 \<Rightarrow> op list \<Rightarrow> nat \<Rightarrow> string \<Rightarrow> 'c agent_client \<Rightarrow> 'w \<Rightarrow>
       (response list result \<times> 'c agent_client \<times> 'w) option" where
  "pipeline_loop tp start ops deadline last_err c w =
     (if tp_now tp w < deadline then
        (case pipeline_once tp start ops c w of
           (Inr rs, c, w) \<Rightarrow> Some (Inr rs, c, w)
         | (Inl (Retryable err), c, w) \<Rightarrow>
             pipeline_loop tp start ops deadline err (c\<lparr>ac_session := None\<rparr>) (tp_sleep tp 50 w)
         | (Inl (Fatal err), c, w) \<Rightarrow> Some (Inl err, c\<lparr>ac_session := None\<rparr>, w))
      else Some (Inl (gave_up c last_err), c, w))"

definition pipeline_retry ::
    "('c, 'w) transport \<Rightarrow> op list \<Rightarrow> 'c agent_client \<Rightarrow> 'w \<Rightarrow> (response list result \<times> 'c agent_client \<times> 'w) option" where
  "pipeline_retry tp ops c w =
     pipeline_loop tp (ac_next_id c) ops (tp_now tp w + ac_timeout c) []
       (c\<lparr>ac_next_id := ac_next_id c + of_nat (length ops)\<rparr>) w"

text \<open>\<open>slice::chunks\<close>, and \<open>rpc_pipeline\<close>: its recursion is on chunks that need no other split.\<close>

function chunks :: "nat \<Rightarrow> 'a list \<Rightarrow> 'a list list" where
  "chunks k xs = (if xs = [] \<or> k = 0 then [] else take k xs # chunks k (drop k xs))"
  by pat_completeness auto
termination by (relation "measure (\<lambda>(k, xs). length xs)") auto

declare chunks.simps [simp del]

definition rpc_chunk ::
    "('c, 'w) transport \<Rightarrow> op list \<Rightarrow> 'c agent_client \<Rightarrow> 'w \<Rightarrow> (response list result \<times> 'c agent_client \<times> 'w) option" where
  "rpc_chunk tp ops c w =
     (case ops of
        [] \<Rightarrow> Some (Inr [], c, w)
      | [op] \<Rightarrow> map_option (\<lambda>(r, st). (rmap (\<lambda>x. [x]) r, st)) (rpc_op tp op c w)
      | _ \<Rightarrow> pipeline_retry tp ops c w)"

fun rpc_chunks ::
    "('c, 'w) transport \<Rightarrow> op list list \<Rightarrow> response list \<Rightarrow> 'c agent_client \<Rightarrow> 'w \<Rightarrow>
       (response list result \<times> 'c agent_client \<times> 'w) option" where
  "rpc_chunks tp [] out c w = Some (Inr out, c, w)"
| "rpc_chunks tp (ch # chs) out c w =
     (case rpc_chunk tp ch c w of
        None \<Rightarrow> None
      | Some (Inl e, c, w) \<Rightarrow> Some (Inl e, c, w)
      | Some (Inr rs, c, w) \<Rightarrow> rpc_chunks tp chs (out @ rs) c w)"

definition rpc_pipeline ::
    "('c, 'w) transport \<Rightarrow> op list \<Rightarrow> 'c agent_client \<Rightarrow> 'w \<Rightarrow> (response list result \<times> 'c agent_client \<times> 'w) option" where
  "rpc_pipeline tp ops c w =
     (if MAX_MAILBOX_DEPTH < length ops then rpc_chunks tp (chunks MAX_MAILBOX_DEPTH ops) [] c w
      else rpc_chunk tp ops c w)"

definition expect_ok ::
    "('c, 'w) transport \<Rightarrow> op \<Rightarrow> 'c agent_client \<Rightarrow> 'w \<Rightarrow> (response result \<times> 'c agent_client \<times> 'w) option" where
  "expect_ok tp op c w =
     map_option (\<lambda>(r, st). (rbind r (\<lambda>resp. if rs_ok resp then Inr resp
        else Inl (case rs_error resp of Some e \<Rightarrow> e | None \<Rightarrow> ''request failed'')), st)) (rpc_op tp op c w)"

definition client_keybinding_catalog ::
    "(json \<Rightarrow> string) \<Rightarrow> ('c, 'w) transport \<Rightarrow> 'c agent_client \<Rightarrow> 'w \<Rightarrow>
       (keybinding_info list result \<times> 'c agent_client \<times> 'w) option" where
  "client_keybinding_catalog bad tp c w =
     map_option (\<lambda>(r, st). (rbind r (\<lambda>resp. catalog_from bad (rs_result resp)), st)) (expect_ok tp OpKeybindings c w)"

section \<open>The operations of the client\<close>

type_synonym ('c, 'w) client_call = "'c agent_client \<Rightarrow> 'w \<Rightarrow> (response result \<times> 'c agent_client \<times> 'w) option"

definition client_snapshot :: "('c, 'w) transport \<Rightarrow> ('c, 'w) client_call" where
  "client_snapshot tp = expect_ok tp op_snapshot"

definition client_snapshot_with ::
    "('c, 'w) transport \<Rightarrow> u64 option \<Rightarrow> snapshot_format option \<Rightarrow> ('c, 'w) client_call" where
  "client_snapshot_with tp since fmt = expect_ok tp (OpSnapshot since fmt None)"

definition client_screenshot :: "('c, 'w) transport \<Rightarrow> string \<Rightarrow> ('c, 'w) client_call" where
  "client_screenshot tp path = expect_ok tp (op_screenshot path)"

definition client_screenshot_scrolled ::
    "('c, 'w) transport \<Rightarrow> string \<Rightarrow> string \<Rightarrow> u32 option \<Rightarrow> ('c, 'w) client_call" where
  "client_screenshot_scrolled tp path target h = expect_ok tp (op_screenshot_scrolled path target h)"

definition client_screenshot_with ::
    "('c, 'w) transport \<Rightarrow> string \<Rightarrow> screenshot_mode \<Rightarrow> string option \<Rightarrow> u32 option \<Rightarrow> ('c, 'w) client_call" where
  "client_screenshot_with tp path mode target h = expect_ok tp (OpScreenshot (Some path) mode target h)"

definition client_click_with_delivery ::
    "('c, 'w) transport \<Rightarrow> string \<Rightarrow> delivery_mode \<Rightarrow> ('c, 'w) client_call" where
  "client_click_with_delivery tp target d = expect_ok tp (OpClick target d None)"

definition client_click :: "('c, 'w) transport \<Rightarrow> string \<Rightarrow> ('c, 'w) client_call" where
  "client_click tp target = client_click_with_delivery tp target Semantic"

definition client_type_with_delivery ::
    "('c, 'w) transport \<Rightarrow> string \<Rightarrow> string \<Rightarrow> delivery_mode \<Rightarrow> ('c, 'w) client_call" where
  "client_type_with_delivery tp target txt d = expect_ok tp (OpType target txt d None)"

definition client_type_text :: "('c, 'w) transport \<Rightarrow> string \<Rightarrow> string \<Rightarrow> ('c, 'w) client_call" where
  "client_type_text tp target txt = client_type_with_delivery tp target txt Semantic"

definition client_key_with_delivery ::
    "('c, 'w) transport \<Rightarrow> string \<Rightarrow> string \<Rightarrow> delivery_mode \<Rightarrow> ('c, 'w) client_call" where
  "client_key_with_delivery tp target k d = expect_ok tp (OpKey target k d None)"

definition client_key :: "('c, 'w) transport \<Rightarrow> string \<Rightarrow> string \<Rightarrow> ('c, 'w) client_call" where
  "client_key tp target k = client_key_with_delivery tp target k Semantic"

definition client_set_value :: "('c, 'w) transport \<Rightarrow> string \<Rightarrow> string \<Rightarrow> ('c, 'w) client_call" where
  "client_set_value tp target v = expect_ok tp (OpSetValue target v None)"

definition client_assert :: "('c, 'w) transport \<Rightarrow> assert_spec \<Rightarrow> ('c, 'w) client_call" where
  "client_assert tp spec = expect_ok tp (OpAssert spec)"

definition client_invoke :: "('c, 'w) transport \<Rightarrow> string \<Rightarrow> json \<Rightarrow> ('c, 'w) client_call" where
  "client_invoke tp name args = expect_ok tp (OpInvoke name args)"

definition client_wait_ready :: "('c, 'w) transport \<Rightarrow> ('c, 'w) client_call" where
  "client_wait_ready tp = expect_ok tp (OpWait None)"

definition client_wait_until :: "('c, 'w) transport \<Rightarrow> assert_spec \<Rightarrow> u64 \<Rightarrow> ('c, 'w) client_call" where
  "client_wait_until tp spec ms = expect_ok tp (OpWaitUntil ms spec)"

definition client_keybindings :: "('c, 'w) transport \<Rightarrow> ('c, 'w) client_call" where
  "client_keybindings tp = expect_ok tp OpKeybindings"

text \<open>\<open>events\<close>: the poll is read from the result by \<open>serde_json::from_value\<close>, an argument.\<close>

definition client_events ::
    "(json \<Rightarrow> event_poll result) \<Rightarrow> ('c, 'w) transport \<Rightarrow> u64 option \<Rightarrow> u32 option \<Rightarrow> 'c agent_client \<Rightarrow> 'w \<Rightarrow>
       (event_poll result \<times> 'c agent_client \<times> 'w) option" where
  "client_events from_value tp since limit c w =
     map_option (\<lambda>(r, st). (rbind r (\<lambda>resp.
        case from_value (case rs_result resp of Some v \<Rightarrow> v | None \<Rightarrow> JNull) of
          Inl err \<Rightarrow> Inl (''bad events response: '' @ err)
        | Inr poll \<Rightarrow> Inr poll), st)) (expect_ok tp (OpEvents since limit) c w)"

definition client_keybinding ::
    "('c, 'w) transport \<Rightarrow> string \<Rightarrow> keybinding_scope \<Rightarrow> string option \<Rightarrow> bool \<Rightarrow> bool \<Rightarrow> ('c, 'w) client_call" where
  "client_keybinding tp binding sc chord cf ac = expect_ok tp (OpKeybinding binding chord sc cf ac)"

end
