(* ===== verification/Client_Laws.thy ===== *)
theory Client_Laws
  imports Client
begin

text \<open>
  The client: its loops end on a clock that moves, a pipeline answers every operation and
  never sends one twice, and a single operation may be sent twice.
\<close>

section \<open>Numbers\<close>

lemma fmt_loop_dec: "0 < n \<Longrightarrow> fmt_loop n buf = dec n @ buf"
proof (induction n arbitrary: buf rule: less_induct)
  case (less n)
  show ?case
  proof (cases "n < 10")
    case True
    then have "fmt_loop (n div 10) (char_of (48 + n mod 10) # buf) = char_of (48 + n) # buf"
      by (subst fmt_loop.simps) simp
    then show ?thesis using less.prems True by (subst fmt_loop.simps) (simp add: dec.simps [of n])
  next
    case False
    then have "fmt_loop (n div 10) (char_of (48 + n mod 10) # buf) = dec (n div 10) @ char_of (48 + n mod 10) # buf"
      by (intro less.IH) auto
    then show ?thesis using less.prems False by (subst fmt_loop.simps) (simp add: dec.simps [of n])
  qed
qed

lemma fmt_u64_dec: "fmt_u64 n = dec (unat n)"
proof (cases "n = 0")
  case True
  have "CHR ''0'' = char_of (48 :: nat)" by code_simp
  with True show ?thesis by (simp add: fmt_u64_def dec.simps)
next
  case False
  then have "0 < unat n" by (simp add: unat_gt_0)
  then show ?thesis using False fmt_loop_dec [of "unat n" "[]"] by (simp add: fmt_u64_def)
qed

lemma dec_length: "n < 10 ^ k \<Longrightarrow> 0 < k \<Longrightarrow> length (dec n) \<le> k"
proof (induction k arbitrary: n)
  case (Suc k)
  show ?case
  proof (cases "n < 10")
    case False
    then have "0 < k" using Suc.prems by (cases k) auto
    moreover have "n div 10 < 10 ^ k" using Suc.prems(1) by (simp add: less_mult_imp_div_less mult.commute)
    ultimately have "length (dec (n div 10)) \<le> k" by (intro Suc.IH) simp_all
    then show ?thesis using False by (subst dec.simps) simp
  qed (subst dec.simps, simp)
qed simp

section \<open>Time\<close>

text \<open>No call turns the clock back, and \<open>sleep\<close> sleeps at least as long as it is told.\<close>

definition clock_ok :: "('c, 'w) transport \<Rightarrow> bool" where
  "clock_ok tp =
     ((\<forall>w. tp_now tp w \<le> tp_now tp (snd (tp_connect tp w)))
    \<and> (\<forall>d c w. tp_now tp w \<le> tp_now tp (snd (tp_set_timeout tp d c w)))
    \<and> (\<forall>s c w. tp_now tp w \<le> tp_now tp (snd (tp_write tp s c w)))
    \<and> (\<forall>c w. tp_now tp w \<le> tp_now tp (snd (tp_flush tp c w)))
    \<and> (\<forall>c w. tp_now tp w \<le> tp_now tp (snd (tp_read tp c w)))
    \<and> (\<forall>d w. tp_now tp w + d \<le> tp_now tp (tp_sleep tp d w)))"

lemma clock_okD:
  assumes "clock_ok tp"
  shows "tp_connect tp w = (r1, w1) \<Longrightarrow> tp_now tp w \<le> tp_now tp w1"
    "tp_set_timeout tp d c w = (r2, w1) \<Longrightarrow> tp_now tp w \<le> tp_now tp w1"
    "tp_write tp s c w = (r2, w1) \<Longrightarrow> tp_now tp w \<le> tp_now tp w1"
    "tp_flush tp c w = (r2, w1) \<Longrightarrow> tp_now tp w \<le> tp_now tp w1"
    "tp_read tp c w = (r3, w1) \<Longrightarrow> tp_now tp w \<le> tp_now tp w1"
    "tp_now tp w + d \<le> tp_now tp (tp_sleep tp d w)"
  using assms unfolding clock_ok_def by (metis snd_conv)+

lemma then_io_time:
  assumes "then_io p f = (r, w')" and "\<And>x w1. p = (x, w1) \<Longrightarrow> now w \<le> (now w1 :: nat)"
    and "\<And>x w1. p = (Inr x, w1) \<Longrightarrow> f x w1 = (r, w') \<Longrightarrow> now w1 \<le> now w'"
  shows "now w \<le> now w'"
proof -
  obtain x w1 where p: "p = (x, w1)" by (cases p)
  show ?thesis
  proof (cases x)
    case (Inl e)
    then show ?thesis using assms(1,2) p by auto
  next
    case (Inr y)
    then have "f y w1 = (r, w')" using assms(1) p by simp
    then show ?thesis using assms(2) [OF p] assms(3) [of y w1] p Inr by simp
  qed
qed

lemma then_io_Inr_iff: "then_io p f = (Inr y, w') \<longleftrightarrow> (\<exists>x w. p = (Inr x, w) \<and> f x w = (Inr y, w'))"
  by (auto simp: then_io_def split: prod.splits sum.splits)

lemma session_open_time:
  "clock_ok tp \<Longrightarrow> session_open tp timeout token w = (r, w') \<Longrightarrow> tp_now tp w \<le> tp_now tp w'"
  unfolding session_open_def
  by (erule then_io_time, erule (1) clock_okD, erule then_io_time, erule (1) clock_okD)
    (auto split: option.splits elim!: then_io_time dest: clock_okD)

lemma exchange_wire_time:
  "clock_ok tp \<Longrightarrow> exchange_wire tp ident op s w = (r, w') \<Longrightarrow> tp_now tp w \<le> tp_now tp w'"
  unfolding exchange_wire_def
  by (erule then_io_time, erule (1) clock_okD, erule then_io_time, erule (1) clock_okD,
      erule then_io_time, erule (1) clock_okD) (auto split: option.splits)

lemma roundtrip_session_time:
  "clock_ok tp \<Longrightarrow> roundtrip_session tp timeout c w = (r, w') \<Longrightarrow> tp_now tp w \<le> tp_now tp w'"
  by (auto simp: roundtrip_session_def dest: session_open_time clock_okD(2) elim!: then_io_time split: option.splits)

lemma roundtrip_wire_time:
  assumes "clock_ok tp" "roundtrip_wire tp ident op timeout c w = (r, c', w')"
  shows "tp_now tp w \<le> tp_now tp w'"
proof -
  obtain x w1 where x: "roundtrip_session tp timeout c w = (x, w1)" by fastforce
  have "tp_now tp w1 \<le> tp_now tp w'"
    using assms(2) x exchange_wire_time [OF assms(1)]
    by (auto simp: roundtrip_wire_def split: sum.splits prod.splits)
  then show ?thesis using roundtrip_session_time [OF assms(1) x] by simp
qed

lemma roundtrip_loop_returns:
  assumes "clock_ok tp"
  shows "roundtrip_loop tp ident op timeout deadline last_err c w \<noteq> None"
proof (induction "deadline - tp_now tp w" arbitrary: last_err c w rule: less_induct)
  case less
  show ?case
  proof (cases "tp_now tp w < deadline")
    case True
    obtain r c' w' where wire: "roundtrip_wire tp ident op timeout c w = (r, c', w')"
      by (cases "roundtrip_wire tp ident op timeout c w") auto
    have "tp_now tp w \<le> tp_now tp w'" by (rule roundtrip_wire_time [OF assms wire])
    also have "\<dots> + 50 \<le> tp_now tp (tp_sleep tp 50 w')" using clock_okD(6) [OF assms] .
    finally have "deadline - tp_now tp (tp_sleep tp 50 w') < deadline - tp_now tp w" using True by simp
    from less.hyps [OF this] show ?thesis
      using wire True by (cases r) (simp_all add: roundtrip_loop.simps [of tp ident op timeout deadline last_err])
  qed (simp add: roundtrip_loop.simps)
qed

lemma pipe_write_time:
  "clock_ok tp \<Longrightarrow> pipe_write tp s num wrote ops w = (r, w') \<Longrightarrow> tp_now tp w \<le> tp_now tp w'"
proof (induction tp s num wrote ops w rule: pipe_write.induct)
  case (2 tp s num wrote op ops w)
  obtain x w1 where x: "tp_write tp (request_line tp (fmt_u64 num) (ls_auth s) op) (ls_conn s) w = (x, w1)"
    by fastforce
  note t = clock_okD(3) [OF 2(2) x]
  show ?case
  proof (cases x)
    case (Inl e)
    then show ?thesis using 2(3) x t by simp
  next
    case (Inr u)
    then have "pipe_write tp s (num + 1) True ops w1 = (r, w')" using 2(3) x by simp
    then show ?thesis using 2(1) [OF x [symmetric] Inr 2(2)] t by simp
  qed
qed simp

lemma pipe_read_time:
  "clock_ok tp \<Longrightarrow> pipe_read tp s n out w = (r, w') \<Longrightarrow> tp_now tp w \<le> tp_now tp w'"
proof (induction n arbitrary: out w)
  case (Suc n)
  obtain x w1 where x: "tp_read tp (ls_conn s) w = (x, w1)" by fastforce
  note t = clock_okD(5) [OF Suc(2) x]
  show ?case using Suc.prems(2) x t Suc.IH [OF Suc(2)]
    by (fastforce split: sum.splits option.splits)
qed simp

lemma pipeline_session_time:
  "clock_ok tp \<Longrightarrow> pipeline_session tp c w = (r, w') \<Longrightarrow> tp_now tp w \<le> tp_now tp w'"
  by (auto simp: pipeline_session_def dest: session_open_time split: option.splits prod.splits sum.splits)

lemma exchange_pipeline_time:
  "clock_ok tp \<Longrightarrow> exchange_pipeline tp start ops s w = (r, w') \<Longrightarrow> tp_now tp w \<le> tp_now tp w'"
  unfolding exchange_pipeline_def
  by (elim then_io_time)
    (auto split: prod.splits sum.splits dest: clock_okD(1-5) pipe_write_time pipe_read_time)

lemma pipeline_once_time:
  assumes ok: "clock_ok tp" and "pipeline_once tp start ops c w = (r, c', w')"
  shows "tp_now tp w \<le> tp_now tp w'"
proof -
  obtain x w1 where x: "pipeline_session tp c w = (x, w1)" by fastforce
  have "tp_now tp w1 \<le> tp_now tp w'"
    using assms(2) x exchange_pipeline_time [OF ok]
    by (auto simp: pipeline_once_def split: sum.splits prod.splits)
  then show ?thesis using pipeline_session_time [OF ok x] by simp
qed

lemma pipeline_loop_returns:
  assumes "clock_ok tp"
  shows "pipeline_loop tp start ops deadline last_err c w \<noteq> None"
proof (induction "deadline - tp_now tp w" arbitrary: last_err c w rule: less_induct)
  case less
  show ?case
  proof (cases "tp_now tp w < deadline")
    case True
    obtain r c' w' where once: "pipeline_once tp start ops c w = (r, c', w')"
      by (cases "pipeline_once tp start ops c w") auto
    have "tp_now tp w \<le> tp_now tp w'" by (rule pipeline_once_time [OF assms once])
    also have "\<dots> + 50 \<le> tp_now tp (tp_sleep tp 50 w')" using clock_okD(6) [OF assms] .
    finally have "deadline - tp_now tp (tp_sleep tp 50 w') < deadline - tp_now tp w" using True by simp
    from less.hyps [OF this] show ?thesis
      using once True
      by (simp add: pipeline_loop.simps [of tp start ops deadline last_err] split: sum.splits pipeline_error.splits)
  qed (simp add: pipeline_loop.simps)
qed

lemma rpc_op_returns: "clock_ok tp \<Longrightarrow> rpc_op tp op c w \<noteq> None"
  by (simp add: rpc_op_def roundtrip_retry_def Let_def roundtrip_loop_returns)

lemma rpc_chunk_returns: "clock_ok tp \<Longrightarrow> rpc_chunk tp ops c w \<noteq> None"
  by (auto simp: rpc_chunk_def pipeline_retry_def pipeline_loop_returns rpc_op_returns simp del: not_None_eq split: list.splits)

lemma rpc_chunks_returns: "clock_ok tp \<Longrightarrow> rpc_chunks tp chs out c w \<noteq> None"
proof (induction chs arbitrary: out c w)
  case (Cons ch chs)
  obtain r c' w' where "rpc_chunk tp ch c w = Some (r, c', w')"
    using rpc_chunk_returns [OF Cons(2), of ch c w] by (cases "rpc_chunk tp ch c w") auto
  then show ?case using Cons by (cases r) simp_all
qed simp

lemma rpc_pipeline_returns: "clock_ok tp \<Longrightarrow> rpc_pipeline tp ops c w \<noteq> None"
  by (simp add: rpc_pipeline_def rpc_chunk_returns rpc_chunks_returns del: not_None_eq)

section \<open>What the loops end with\<close>

text \<open>An invariant of the rounds that failed holds where the loop stops, for one of three reasons.\<close>

lemma pipeline_loop_inv:
  assumes "pipeline_loop tp start ops deadline e c w = Some y" "P c w"
    and "\<And>c w err c1 w1. P c w \<Longrightarrow> pipeline_once tp start ops c w = (Inl (Retryable err), c1, w1) \<Longrightarrow>
       P (c1\<lparr>ac_session := None\<rparr>) (tp_sleep tp 50 w1)"
  shows "\<exists>c0 w0. P c0 w0 \<and> ((\<exists>rs c' w'. y = (Inr rs, c', w') \<and> pipeline_once tp start ops c0 w0 = (Inr rs, c', w'))
     \<or> (\<exists>err c1 w'. y = (Inl err, c1\<lparr>ac_session := None\<rparr>, w') \<and> pipeline_once tp start ops c0 w0 = (Inl (Fatal err), c1, w'))
     \<or> (\<exists>err. y = (Inl err, c0, w0)))"
  using assms
proof (induction rule: pipeline_loop.raw_induct [rotated, consumes 1, case_names 1])
  case (1 loop tp start ops deadline e c w y)
  show ?case
  proof (cases "tp_now tp w < deadline")
    case True
    obtain r c1 w1 where once: "pipeline_once tp start ops c w = (r, c1, w1)"
      by (cases "pipeline_once tp start ops c w") auto
    consider (ok) rs where "r = Inr rs" | (again) err where "r = Inl (Retryable err)" | (bad) err where "r = Inl (Fatal err)"
      by (metis pipeline_error.exhaust sum.exhaust)
    then show ?thesis
    proof cases
      case again
      then have "loop tp start ops deadline err (c1\<lparr>ac_session := None\<rparr>) (tp_sleep tp 50 w1) = Some y"
        using 1(2) True once by simp
      moreover have "P (c1\<lparr>ac_session := None\<rparr>) (tp_sleep tp 50 w1)"
        using 1(4) [OF 1(3)] once again by blast
      ultimately show ?thesis using 1(1,4) by blast
    qed (intro exI [of _ c] exI [of _ w], use 1(2,3) True once in auto)+
  qed (intro exI [of _ c] exI [of _ w], use 1(2,3) in auto)
qed

lemma roundtrip_loop_inv:
  assumes "roundtrip_loop tp ident op timeout deadline e c w = Some y" "P c w"
    and "\<And>c w err c1 w1. P c w \<Longrightarrow> roundtrip_wire tp ident op timeout c w = (Inl err, c1, w1) \<Longrightarrow>
       P (c1\<lparr>ac_session := None\<rparr>) (tp_sleep tp 50 w1)"
  shows "\<exists>c0 w0. P c0 w0 \<and> ((\<exists>r c' w'. y = (Inr r, c', w') \<and> roundtrip_wire tp ident op timeout c0 w0 = (Inr r, c', w'))
     \<or> (\<exists>err. y = (Inl err, c0, w0)))"
  using assms
proof (induction rule: roundtrip_loop.raw_induct [rotated, consumes 1, case_names 1])
  case (1 loop tp ident op timeout deadline e c w y)
  show ?case
  proof (cases "tp_now tp w < deadline")
    case True
    obtain r c1 w1 where wire: "roundtrip_wire tp ident op timeout c w = (r, c1, w1)"
      by (cases "roundtrip_wire tp ident op timeout c w") auto
    show ?thesis
    proof (cases r)
      case (Inl err)
      then have "loop tp ident op timeout deadline err (c1\<lparr>ac_session := None\<rparr>) (tp_sleep tp 50 w1) = Some y"
        using 1(2) True wire by simp
      moreover have "P (c1\<lparr>ac_session := None\<rparr>) (tp_sleep tp 50 w1)"
        using 1(4) [OF 1(3)] wire Inl by blast
      ultimately show ?thesis using 1(1,4) by blast
    qed (intro exI [of _ c] exI [of _ w], use 1(2,3) True wire in auto)
  qed (use 1(2,3) in auto)
qed

section \<open>One answer for every operation\<close>

lemma pipe_read_length: "pipe_read tp s n out w = (Inr rs, w') \<Longrightarrow> length rs = length out + n"
proof (induction n arbitrary: out w)
  case (Suc n)
  then show ?case
    by (auto split: prod.splits sum.splits option.splits dest!: Suc.IH)
qed simp

lemma pipeline_once_length:
  assumes "pipeline_once tp start ops c w = (Inr rs, c', w')"
  shows "length rs = length ops"
proof -
  obtain s w1 where "exchange_pipeline tp start ops s w1 = (Inr rs, w')"
    using assms by (auto simp: pipeline_once_def split: prod.splits sum.splits)
  then have "then_io (pipe_write tp s start False ops w1) (\<lambda>_ w. then_io (case tp_flush tp (ls_conn s) w of
      (Inl err, w) \<Rightarrow> (Inl (Fatal err), w) | (Inr u, w) \<Rightarrow> (Inr u, w)) (\<lambda>_. pipe_read tp s (length ops) [])) = (Inr rs, w')"
    by (simp add: exchange_pipeline_def)
  then obtain w2 where "pipe_read tp s (length ops) [] w2 = (Inr rs, w')"
    by (auto simp: then_io_Inr_iff)
  then show ?thesis using pipe_read_length by fastforce
qed

lemma rpc_chunk_length: "rpc_chunk tp ops c w = Some (Inr rs, c', w') \<Longrightarrow> length rs = length ops"
proof -
  assume a: "rpc_chunk tp ops c w = Some (Inr rs, c', w')"
  show ?thesis
  proof (cases "length ops < 2")
    case True
    then consider "ops = []" | op where "ops = [op]" by (cases ops; cases "tl ops") auto
    then show ?thesis using a by cases (auto simp: rpc_chunk_def rmap_Inr_iff)
  next
    case False
    then obtain o1 o2 os where "ops = o1 # o2 # os" by (cases ops; cases "tl ops") auto
    then have "pipeline_retry tp ops c w = Some (Inr rs, c', w')" using a by (simp add: rpc_chunk_def)
    from pipeline_loop_inv [OF this [unfolded pipeline_retry_def], of "\<lambda>_ _. True"]
    show ?thesis using pipeline_once_length by fastforce
  qed
qed

lemma concat_chunks: "0 < k \<Longrightarrow> concat (chunks k xs) = xs"
  by (induction k xs rule: chunks.induct) (subst chunks.simps, simp)

lemma rpc_chunks_length:
  "rpc_chunks tp chs out c w = Some (Inr rs, c', w') \<Longrightarrow> length rs = length out + length (concat chs)"
proof (induction chs arbitrary: out c w)
  case (Cons ch chs)
  then obtain r c1 w1 where r: "rpc_chunk tp ch c w = Some (Inr r, c1, w1)" "rpc_chunks tp chs (out @ r) c1 w1 = Some (Inr rs, c', w')"
    by (auto split: option.splits sum.splits)
  then show ?case using Cons.IH [OF r(2)] rpc_chunk_length [OF r(1)] by simp
qed simp

lemma rpc_pipeline_length: "rpc_pipeline tp ops c w = Some (Inr rs, c', w') \<Longrightarrow> length rs = length ops"
  by (auto simp: rpc_pipeline_def concat_chunks MAX_MAILBOX_DEPTH_def dest: rpc_chunk_length rpc_chunks_length split: if_splits)

section \<open>What was sent\<close>

text \<open>A world that keeps the lines written to its sockets: only a successful write adds one.\<close>

definition log_ok :: "('c, 'w) transport \<Rightarrow> ('w \<Rightarrow> string list) \<Rightarrow> bool" where
  "log_ok tp sent =
     ((\<forall>w. sent (snd (tp_connect tp w)) = sent w)
    \<and> (\<forall>d c w. sent (snd (tp_set_timeout tp d c w)) = sent w)
    \<and> (\<forall>s c w. sent (snd (tp_write tp s c w)) = (if is_ok (fst (tp_write tp s c w)) then sent w @ [s] else sent w))
    \<and> (\<forall>c w. sent (snd (tp_flush tp c w)) = sent w)
    \<and> (\<forall>c w. sent (snd (tp_read tp c w)) = sent w)
    \<and> (\<forall>d w. sent (tp_sleep tp d w) = sent w))"

lemma log_okD:
  assumes "log_ok tp sent"
  shows "tp_connect tp w = (r1, w1) \<Longrightarrow> sent w1 = sent w"
    "tp_set_timeout tp d c w = (r2, w1) \<Longrightarrow> sent w1 = sent w"
    "tp_write tp s c w = (r2, w1) \<Longrightarrow> sent w1 = (if is_ok r2 then sent w @ [s] else sent w)"
    "tp_flush tp c w = (r2, w1) \<Longrightarrow> sent w1 = sent w"
    "tp_read tp c w = (r3, w1) \<Longrightarrow> sent w1 = sent w"
    "sent (tp_sleep tp d w) = sent w"
  using assms unfolding log_ok_def by (metis fst_conv snd_conv)+

lemma then_io_keeps:
  assumes "then_io p f = (r, w')" and "\<And>x w1. p = (x, w1) \<Longrightarrow> g w1 = g w"
    and "\<And>x w1. p = (Inr x, w1) \<Longrightarrow> f x w1 = (r, w') \<Longrightarrow> g w' = g w1"
  shows "g w' = g w"
proof -
  obtain x w1 where p: "p = (x, w1)" by (cases p)
  then show ?thesis using assms by (cases x) auto
qed

lemma session_open_log:
  "log_ok tp sent \<Longrightarrow> session_open tp timeout token w = (r, w') \<Longrightarrow> sent w' = sent w"
  unfolding session_open_def
  by (erule then_io_keeps, erule (1) log_okD, erule then_io_keeps, erule (1) log_okD)
    (auto split: option.splits elim!: then_io_keeps [where g = sent] dest: log_okD(5))

lemma pipeline_session_log: "log_ok tp sent \<Longrightarrow> pipeline_session tp c w = (r, w') \<Longrightarrow> sent w' = sent w"
  by (auto simp: pipeline_session_def dest: session_open_log split: option.splits prod.splits sum.splits)

lemma pipe_read_log: "log_ok tp sent \<Longrightarrow> pipe_read tp s n out w = (r, w') \<Longrightarrow> sent w' = sent w"
proof (induction n arbitrary: out w)
  case (Suc n)
  obtain x w1 where x: "tp_read tp (ls_conn s) w = (x, w1)" by fastforce
  show ?case using Suc.prems(2) x log_okD(5) [OF Suc(2) x] Suc.IH [OF Suc(2)]
    by (fastforce split: sum.splits option.splits)
qed simp

definition pipeline_lines :: "('c, 'w) transport \<Rightarrow> u64 \<Rightarrow> string option \<Rightarrow> op list \<Rightarrow> string list" where
  "pipeline_lines tp start auth ops =
     map (\<lambda>(i, op). request_line tp (fmt_u64 (start + of_nat i)) auth op) (enumerate 0 ops)"

lemma pipeline_lines_Cons:
  "pipeline_lines tp start auth (op # ops) = request_line tp (fmt_u64 start) auth op # pipeline_lines tp (start + 1) auth ops"
  unfolding pipeline_lines_def
  by (rule nth_equalityI) (auto simp: nth_enumerate_eq nth_Cons ac_simps split: nat.splits)

lemma pipe_write_log:
  assumes "log_ok tp sent" "pipe_write tp s num wrote ops w = (r, w')"
  shows "(r = Inr () \<and> sent w' = sent w @ pipeline_lines tp num (ls_auth s) ops)
    \<or> (\<exists>err. r = Inl (Retryable err) \<and> \<not> wrote \<and> sent w' = sent w)
    \<or> (\<exists>err k. r = Inl (Fatal err) \<and> sent w' = sent w @ take k (pipeline_lines tp num (ls_auth s) ops))"
  using assms
proof (induction ops arbitrary: num wrote w)
  case Nil
  then show ?case by (simp add: pipeline_lines_def)
next
  case (Cons op ops)
  obtain x w1 where x: "tp_write tp (request_line tp (fmt_u64 num) (ls_auth s) op) (ls_conn s) w = (x, w1)" by fastforce
  note sent = log_okD(3) [OF Cons.prems(1) x]
  show ?case
  proof (cases x)
    case (Inl e)
    have "sent w' = sent w @ take 0 (pipeline_lines tp num (ls_auth s) (op # ops))"
      using Inl Cons.prems(2) x sent by simp
    then show ?thesis using Cons.prems(2) x Inl by (cases wrote) auto
  next
    case (Inr u)
    then have "pipe_write tp s (num + 1) True ops w1 = (r, w')" using Cons.prems(2) x by simp
    note ih = Cons.IH [OF Cons.prems(1) this]
    have take_Suc: "sent w1 @ take k (pipeline_lines tp (num + 1) (ls_auth s) ops)
        = sent w @ take (Suc k) (pipeline_lines tp num (ls_auth s) (op # ops))" for k
      using sent Inr by (simp add: pipeline_lines_Cons)
    show ?thesis using ih
    proof (elim disjE exE conjE)
      fix err k assume "r = Inl (Fatal err)" "sent w' = sent w1 @ take k (pipeline_lines tp (num + 1) (ls_auth s) ops)"
      then show ?thesis unfolding take_Suc by blast
    qed (use sent Inr in \<open>simp_all add: pipeline_lines_Cons\<close>)
  qed
qed

lemma pipeline_once_log:
  assumes "log_ok tp sent" "pipeline_once tp start ops c w = (r, c', w')"
  shows "(\<exists>err. r = Inl (Retryable err) \<and> sent w' = sent w)
    \<or> (\<exists>err k auth. r = Inl (Fatal err) \<and> sent w' = sent w @ take k (pipeline_lines tp start auth ops))
    \<or> (\<exists>rs auth. r = Inr rs \<and> sent w' = sent w @ pipeline_lines tp start auth ops)"
proof -
  obtain x w1 where x: "pipeline_session tp c w = (x, w1)" by fastforce
  note w1 = pipeline_session_log [OF assms(1) x]
  show ?thesis
  proof (cases x)
    case (Inl e)
    then obtain err where "e = Retryable err" using x
      by (auto simp: pipeline_session_def split: option.splits prod.splits sum.splits)
    then show ?thesis using Inl assms(2) x w1 by (auto simp: pipeline_once_def)
  next
    case (Inr s)
    obtain y w2 where y: "pipe_write tp s start False ops w1 = (y, w2)" by fastforce
    note wr = pipe_write_log [OF assms(1) y]
    have r: "exchange_pipeline tp start ops s w1 = (r, w')"
      using assms(2) x Inr by (auto simp: pipeline_once_def split: prod.splits sum.splits)
    show ?thesis
    proof (cases y)
      case (Inl e)
      then have "r = Inl e" "w' = w2" using r y by (simp_all add: exchange_pipeline_def)
      then show ?thesis using wr Inl w1 by auto
    next
      case (Inr u)
      have all: "sent w2 = sent w @ pipeline_lines tp start (ls_auth s) ops" using wr Inr w1 by simp
      obtain z w3 where z: "tp_flush tp (ls_conn s) w2 = (z, w3)" by fastforce
      have w3: "sent w3 = sent w2" using log_okD(4) [OF assms(1) z] .
      have "sent w' = sent w2 \<and> (\<forall>e. r = Inl e \<longrightarrow> (\<exists>err. e = Fatal err))"
      proof (cases z)
        case (Inl err)
        then show ?thesis using r y Inr z w3 by (auto simp: exchange_pipeline_def)
      next
        case (Inr u')
        then have rd: "pipe_read tp s (length ops) [] w3 = (r, w')"
          using r y \<open>y = Inr u\<close> z by (simp add: exchange_pipeline_def)
        have fatal: "\<exists>err. e = Fatal err" if "pipe_read tp s n out w = (Inl e, w')" for n out w e
          using that
          by (induction n arbitrary: out w)
            (auto simp: pipeline_eof_def split: prod.splits sum.splits option.splits)
        show ?thesis using pipe_read_log [OF assms(1) rd] w3 rd fatal [of "length ops" "[]" w3] by auto
      qed
      then have sent: "sent w' = sent w @ pipeline_lines tp start (ls_auth s) ops"
        and fatal: "\<And>e. r = Inl e \<Longrightarrow> \<exists>err. e = Fatal err" using all by simp_all
      show ?thesis
      proof (cases r)
        case (Inl e)
        then obtain err where "r = Inl (Fatal err)" using fatal by blast
        moreover have "sent w' = sent w @ take (length (pipeline_lines tp start (ls_auth s) ops)) (pipeline_lines tp start (ls_auth s) ops)"
          using sent by simp
        ultimately show ?thesis by blast
      next
        case (Inr rs)
        then show ?thesis using sent by blast
      qed
    qed
  qed
qed

lemma pipeline_loop_log:
  assumes l: "log_ok tp sent" and "pipeline_loop tp start ops deadline e c w = Some (r, c', w')"
  shows "\<exists>k auth. sent w' = sent w @ take k (pipeline_lines tp start auth ops) \<and> (is_ok r \<longrightarrow> k = length ops)"
proof -
  have len: "length (pipeline_lines tp start auth ops) = length ops" for auth by (simp add: pipeline_lines_def)
  have keep: "sent (tp_sleep tp 50 w1) = sent w" if "sent w0 = sent w" "pipeline_once tp start ops c w0 = (Inl (Retryable err), c1, w1)"
    for c w0 err c1 w1
    using pipeline_once_log [OF l that(2)] that(1) log_okD(6) [OF l] by auto
  from pipeline_loop_inv [OF assms(2), of "\<lambda>_ w0. sent w0 = sent w"] keep
  obtain c0 w0 where w0: "sent w0 = sent w" and
    e: "(\<exists>rs. r = Inr rs \<and> pipeline_once tp start ops c0 w0 = (Inr rs, c', w'))
     \<or> (\<exists>err c1. r = Inl err \<and> pipeline_once tp start ops c0 w0 = (Inl (Fatal err), c1, w'))
     \<or> (\<exists>err. r = Inl err \<and> w' = w0)" by auto
  show ?thesis using e
  proof (elim disjE exE conjE)
    fix rs assume "r = Inr rs" "pipeline_once tp start ops c0 w0 = (Inr rs, c', w')"
    with pipeline_once_log [OF l this(2)] w0 show ?thesis
      by (auto intro!: exI [of _ "length ops"] simp: len)
  next
    fix err c1 assume "r = Inl err" "pipeline_once tp start ops c0 w0 = (Inl (Fatal err), c1, w')"
    with pipeline_once_log [OF l this(2)] w0 show ?thesis by auto
  next
    fix err assume "r = Inl err" "w' = w0"
    then show ?thesis using w0 by (intro exI [of _ 0]) simp
  qed
qed

section \<open>A sample transport\<close>

text \<open>The clock, the lines sent, and what the reads will give; every call takes a millisecond.\<close>

type_synonym sample_world = "nat \<times> string list \<times> string option result list"

definition tick :: "'a \<Rightarrow> sample_world \<Rightarrow> 'a \<times> sample_world" where
  "tick r w = (r, fst w + 1, snd w)"

definition sample_tp :: "(unit, sample_world) transport" where
  "sample_tp = \<lparr>tp_connect = tick (Inr ()), tp_set_timeout = (\<lambda>_ _. tick (Inr ())),
     tp_write = (\<lambda>s _ w. (Inr (), fst w + 1, fst (snd w) @ [s], snd (snd w))),
     tp_flush = (\<lambda>_. tick (Inr ())),
     tp_read = (\<lambda>_ w. case snd (snd w) of
        [] \<Rightarrow> (Inl ''timed out'', fst w + 1, snd w)
      | r # rs \<Rightarrow> (r, fst w + 1, fst (snd w), rs)),
     tp_now = fst, tp_sleep = (\<lambda>d w. (fst w + d, snd w)),
     tp_encode = req_id, tp_decode = (\<lambda>l. Inr (response_ok l)),
     tp_challenge = (\<lambda>_. Inl ''not a challenge''), tp_hmac = (\<lambda>_ _. [])\<rparr>"

definition sample_sent :: "sample_world \<Rightarrow> string list" where
  "sample_sent w = fst (snd w)"

lemma sample_clock: "clock_ok sample_tp"
  by (simp add: clock_ok_def sample_tp_def tick_def split: list.splits)

lemma sample_log: "log_ok sample_tp sample_sent"
  by (simp add: log_ok_def sample_tp_def sample_sent_def tick_def split: list.splits)

section \<open>Properties\<close>

text \<open>
  C29. A call of the client returns: with a clock that never runs backwards and a sleep that
  sleeps, no retry loop goes on for ever, however the socket behaves.
\<close>
theorem client_returns:
  assumes "clock_ok tp"
  shows "rpc_op tp op c w \<noteq> None \<and> rpc_pipeline tp ops c w \<noteq> None"
  using rpc_op_returns [OF assms] rpc_pipeline_returns [OF assms] by blast

theorem client_returns_witness:
  "clock_ok sample_tp \<and> rpc_op sample_tp OpHello (client_connect ''a'') (0, [], []) \<noteq> None
     \<and> rpc_pipeline sample_tp [OpHello, OpRevision] (client_connect ''a'') (0, [], []) \<noteq> None"
  using client_returns [OF sample_clock] sample_clock by blast

text \<open>
  C16. A pipeline of 2 to 128 operations, which is one chunk, never sends an operation twice: whatever fails and
  however often the client reconnects, the lines written are the requests of the operations in their
  order, each once, up to some point; and when the pipeline succeeds all were sent and each has its answer.
  (One operation, and a last chunk of one, goes through the retry of a single operation instead.)
\<close>
theorem pipeline_no_replay:
  assumes "log_ok tp sent" and "rpc_pipeline tp ops c w = Some (r, c', w')"
    and "2 \<le> length ops" and "length ops \<le> MAX_MAILBOX_DEPTH"
  shows "(\<exists>k auth. sent w' = sent w @ take k (pipeline_lines tp (ac_next_id c) auth ops) \<and> (is_ok r \<longrightarrow> k = length ops))
     \<and> (case r of Inr rs \<Rightarrow> length rs = length ops | Inl _ \<Rightarrow> True)"
proof -
  obtain o1 o2 os where "ops = o1 # o2 # os" using assms(3) by (cases ops; cases "tl ops") auto
  then have "pipeline_retry tp ops c w = Some (r, c', w')"
    using assms(2,4) by (simp add: rpc_pipeline_def rpc_chunk_def)
  then have "pipeline_loop tp (ac_next_id c) ops (tp_now tp w + ac_timeout c) []
       (c\<lparr>ac_next_id := ac_next_id c + of_nat (length ops)\<rparr>) w = Some (r, c', w')"
    by (simp add: pipeline_retry_def)
  from pipeline_loop_log [OF assms(1) this] rpc_pipeline_length assms(2)
  show ?thesis by (auto split: sum.splits)
qed

theorem pipeline_no_replay_witness:
  "\<exists>r c' w' k auth. rpc_pipeline sample_tp [OpHello, OpRevision] (client_connect ''a'') (0, [], []) = Some (r, c', w')
     \<and> sample_sent w' = take k (pipeline_lines sample_tp 1 auth [OpHello, OpRevision])"
proof -
  obtain r c' w' where "rpc_pipeline sample_tp [OpHello, OpRevision] (client_connect ''a'') (0, [], []) = Some (r, c', w')"
    using rpc_pipeline_returns [OF sample_clock] by (metis not_None_eq prod_cases3)
  with pipeline_no_replay [OF sample_log this] show ?thesis
    by (auto simp: MAX_MAILBOX_DEPTH_def sample_sent_def client_connect_def)
qed

lemma exchange_wire_log:
  assumes "log_ok tp sent" "exchange_wire tp ident op s w = (Inr resp, w')"
  shows "sent w' = sent w @ [request_line tp ident (ls_auth s) op]"
proof -
  obtain x w1 where wr: "tp_write tp (request_line tp ident (ls_auth s) op) (ls_conn s) w = (x, w1)" by fastforce
  obtain y w2 where fl: "tp_flush tp (ls_conn s) w1 = (y, w2)" by fastforce
  obtain z w3 where rd: "tp_read tp (ls_conn s) w2 = (z, w3)" by fastforce
  have ok: "is_ok x" "w' = w3"
    using assms(2) wr fl rd by (cases x; cases y; cases z; auto simp: exchange_wire_def split: option.splits)+
  show ?thesis using log_okD(3) [OF assms(1) wr] log_okD(4) [OF assms(1) fl] log_okD(5) [OF assms(1) rd] ok by simp
qed

text \<open>
  C17. A single operation has no such guard.  Over any transport, when the request of an operation, whatever it
  is, was written and flushed and only the answer was lost, by an error or the end of the
  connection, and the deadline has not come, the client opens a session and sends the request again
  under the same id; when that is answered the call succeeds, and the request has been sent twice.
\<close>
theorem rpc_may_replay:
  assumes "log_ok tp sent" "0 < timeout_for c op"
    and "roundtrip_session tp (timeout_for c op) c w = (Inr s1, w1)"
    and "tp_write tp (request_line tp (fmt_u64 (ac_next_id c)) (ls_auth s1) op) (ls_conn s1) w1 = (Inr (), w2)"
    and "tp_flush tp (ls_conn s1) w2 = (Inr (), w3)"
    and "tp_read tp (ls_conn s1) w3 = (lost, w4)" "lost = Inr None \<or> \<not> is_ok lost"
    and "tp_now tp (tp_sleep tp 50 w4) < tp_now tp w + timeout_for c op"
    and "session_open tp (timeout_for c op) (ac_token c) (tp_sleep tp 50 w4) = (Inr s2, w5)"
    and "exchange_wire tp (fmt_u64 (ac_next_id c)) op s2 w5 = (Inr resp, w6)"
  shows "(\<exists>c'. rpc_op tp op c w = Some (Inr resp, c', w6))
     \<and> sent w6 = sent w @ map (\<lambda>s. request_line tp (fmt_u64 (ac_next_id c)) (ls_auth s) op) [s1, s2]"
proof -
  let ?c = "c\<lparr>ac_next_id := ac_next_id c + 1\<rparr>" and ?id = "fmt_u64 (ac_next_id c)" and ?t = "timeout_for c op"
  have session: "roundtrip_session tp ?t ?c w = (Inr s1, w1)"
    using assms(3) by (cases "ac_session c") (simp_all add: roundtrip_session_def)
  obtain e where "exchange_wire tp ?id op s1 w1 = (Inl e, w4)"
    using assms(4-7) by (cases lost) (auto simp: exchange_wire_def is_ok_def)
  then have once: "roundtrip_wire tp ?id op ?t ?c w = (Inl e, ?c\<lparr>ac_session := None\<rparr>, w4)"
    using session by (simp add: roundtrip_wire_def)
  have again: "roundtrip_wire tp ?id op ?t (?c\<lparr>ac_session := None\<rparr>) (tp_sleep tp 50 w4) = (Inr resp, ?c\<lparr>ac_session := Some s2\<rparr>, w6)"
    using assms(9,10) by (simp add: roundtrip_wire_def roundtrip_session_def)
  have run: "rpc_op tp op c w = Some (Inr resp, ?c\<lparr>ac_session := Some s2\<rparr>, w6)"
    using assms(2,8) once again by (simp add: rpc_op_def roundtrip_retry_def Let_def roundtrip_loop.simps)
  have "sent w1 = sent w"
    using assms(3) session_open_log [OF assms(1)] log_okD(2) [OF assms(1)]
    by (auto simp: roundtrip_session_def then_io_def split: option.splits prod.splits sum.splits)
  then have first: "sent (tp_sleep tp 50 w4) = sent w @ [request_line tp ?id (ls_auth s1) op]"
    using log_okD(3) [OF assms(1,4)] log_okD(4) [OF assms(1,5)] log_okD(5) [OF assms(1,6)] log_okD(6) [OF assms(1)] by simp
  show ?thesis
    using run first session_open_log [OF assms(1,9)] exchange_wire_log [OF assms(1,10)] by simp
qed

lemma sample_tp_simps:
  "tp_connect sample_tp = tick (Inr ())" "tp_set_timeout sample_tp d x = tick (Inr ())"
  "tp_write sample_tp l x w = (Inr (), fst w + 1, fst (snd w) @ [l], snd (snd w))" "tp_flush sample_tp x = tick (Inr ())"
  "tp_read sample_tp x (n, out, r # rs) = (r, n + 1, out, rs)" "tp_now sample_tp = fst"
  "tp_sleep sample_tp ms w = (fst w + ms, snd w)" "parse_response_line sample_tp l = Inr (response_ok l)"
  by (simp_all add: sample_tp_def parse_response_line_def is_ok_def)

theorem rpc_may_replay_witness:
  "\<exists>c'. rpc_op sample_tp OpShutdown (client_connect ''a'') (0, [], [Inl ''reset'', Inr (Some ''{}'')])
     = Some (Inr (response_ok ''{}''), c', 60, replicate 2 (request_line sample_tp ''1'' None OpShutdown), [])"
proof -
  let ?l = "request_line sample_tp ''1'' None OpShutdown" and ?s = "\<lparr>ls_conn = (), ls_auth = None\<rparr>"
  have one: "fmt_u64 1 = ''1''" by code_simp
  have "(\<exists>c'. rpc_op sample_tp OpShutdown (client_connect ''a'') (0, [], [Inl ''reset'', Inr (Some ''{}'')]) = Some (Inr (response_ok ''{}''), c',
        60, [?l, ?l], [])) \<and> sample_sent (60, [?l, ?l], []) = sample_sent (0, [], [Inl ''reset'', Inr (Some ''{}'')])
      @ map (\<lambda>s. request_line sample_tp (fmt_u64 (ac_next_id (client_connect ''a'' :: unit agent_client))) (ls_auth s) OpShutdown) [?s, ?s]"
    by (rule rpc_may_replay [OF sample_log, where lost = "Inl ''reset''" and ?s1.0 = ?s and ?s2.0 = ?s
        and ?w1.0 = "(2, [], [Inl ''reset'', Inr (Some ''{}'')])" and ?w2.0 = "(3, [?l], [Inl ''reset'', Inr (Some ''{}'')])"
        and ?w3.0 = "(4, [?l], [Inl ''reset'', Inr (Some ''{}'')])" and ?w4.0 = "(5, [?l], [Inr (Some ''{}'')])"
        and ?w5.0 = "(57, [?l], [Inr (Some ''{}'')])"])
      (simp_all add: one sample_tp_simps client_connect_def roundtrip_session_def session_open_def tick_def exchange_wire_def)
  then show ?thesis by (simp add: eval_nat_numeral)
qed

end
