(* ===== verification/Run.thy ===== *)
theory Run
  imports Plan_Laws Client_Laws Virtual_Input
begin

text \<open>
  \<open>crates/gpui-agent-recipe/src/run.rs\<close> and \<open>receipt.rs\<close>: a plan executed wave by wave on one
  client.  The outer \<open>option\<close> is \<open>None\<close> when a call of the client never returns or a wave names
  no planned step, which is an \<open>expect\<close> of the code.  Creating the screenshot directory is
  the argument \<open>mkdir\<close>.
\<close>

record screenshot_receipt =
  sh_path :: string
  sh_ok :: bool
  sh_error :: "string option"

record step_receipt =
  sr_id :: string
  sr_ok :: bool
  sr_error :: "string option"
  sr_elapsed_ms :: u64
  sr_result :: "json option"
  sr_screenshot :: "screenshot_receipt option"

record receipt =
  rt_ok :: bool
  rt_recipe :: string
  rt_fingerprint :: string
  rt_session_reused :: bool
  rt_steps :: "step_receipt list"
  rt_screenshots :: "screenshot_receipt list"
  rt_elapsed_ms :: u64

datatype run_error = NeedsYes | StepFailed string string receipt \<comment> \<open>\<open>id\<close>, \<open>error\<close>, \<open>receipt\<close>\<close>

section \<open>Screenshots\<close>

record screenshot_capture =
  cap_dir :: string
  cap_flagged_only :: bool

definition safe_id_char :: "string \<Rightarrow> bool" where
  "safe_id_char ch = (case ch of [c] \<Rightarrow> is_ascii_alnum c \<or> c = CHR ''-'' \<or> c = CHR ''_'' | _ \<Rightarrow> False)"

definition sanitize_step_id :: "string \<Rightarrow> string" where
  "sanitize_step_id ident =
     (let out = concat (map (\<lambda>ch. if safe_id_char ch then ch else ''_'') (chars_of ident))
      in if out = [] then ''step'' else out)"

definition pad3 :: "string \<Rightarrow> string" where
  "pad3 s = replicate (3 - length s) CHR ''0'' @ s"

definition shot_name :: "u32 \<Rightarrow> string \<Rightarrow> string" where
  "shot_name n sid = pad3 (dec (unat n)) @ ''-'' @ sanitize_step_id sid @ ''.png''"

text \<open>\<open>Path::join\<close> with a relative name, and the name the host is told (\<open>Path::file_name\<close>).\<close>

definition path_join :: "string \<Rightarrow> string \<Rightarrow> string" where
  "path_join dir name = (if dir = [] \<or> last dir = CHR ''/'' then dir @ name else dir @ ''/'' @ name)"

definition wire_name :: "string \<Rightarrow> string" where
  "wire_name p = (case path_file_name p of Some name \<Rightarrow> name | None \<Rightarrow> ''step.png'')"

definition step_path :: "screenshot_capture \<Rightarrow> u32 \<Rightarrow> string \<Rightarrow> string" where
  "step_path cap n sid = path_join (cap_dir cap) (shot_name n sid)"

definition capture_wants :: "screenshot_capture \<Rightarrow> planned_step \<Rightarrow> bool" where
  "capture_wants cap step = (\<not> cap_flagged_only cap \<or> ps_screenshot step)"

definition capture_screenshot ::
    "('c, 'w) transport \<Rightarrow> screenshot_capture option \<Rightarrow> u32 \<Rightarrow> planned_step \<Rightarrow> 'c agent_client \<Rightarrow> 'w \<Rightarrow>
       (screenshot_receipt option \<times> 'c agent_client \<times> 'w) option" where
  "capture_screenshot tp capture n step c w =
     (case capture of
        None \<Rightarrow> Some (None, c, w)
      | Some cap \<Rightarrow>
          if \<not> capture_wants cap step then Some (None, c, w)
          else let path = step_path cap n (ps_id step) in
            map_option (\<lambda>(r, st).
              (Some (case r of
                 Inr resp \<Rightarrow>
                   if rs_ok resp then \<lparr>sh_path = path, sh_ok = True, sh_error = None\<rparr>
                   else \<lparr>sh_path = path, sh_ok = False,
                     sh_error = (case rs_error resp of None \<Rightarrow> Some ''screenshot failed'' | e \<Rightarrow> e)\<rparr>
               | Inl e \<Rightarrow> \<lparr>sh_path = path, sh_ok = False, sh_error = Some e\<rparr>), st))
              (rpc_op tp (OpScreenshot (Some (wire_name path)) Viewport None None) c w))"

section \<open>Waves\<close>

definition step_is_read_only :: "planned_step \<Rightarrow> bool" where
  "step_is_read_only step = (ps_effects step \<noteq> [] \<and> list_all (\<lambda>e. e = Read) (ps_effects step))"

definition wave_can_pipeline :: "planned_step list \<Rightarrow> screenshot_capture option \<Rightarrow> bool" where
  "wave_can_pipeline steps shots = (shots = None \<and> 1 < length steps \<and> list_all step_is_read_only steps)"

definition elapsed_ms :: "('c, 'w) transport \<Rightarrow> nat \<Rightarrow> 'w \<Rightarrow> u64" where
  "elapsed_ms tp since w = of_nat (tp_now tp w - since)"

definition request_failed :: "string option \<Rightarrow> string" where
  "request_failed e = (case e of Some e \<Rightarrow> e | None \<Rightarrow> ''request failed'')"

definition run_pipelined ::
    "('c, 'w) transport \<Rightarrow> nat \<Rightarrow> planned_step list \<Rightarrow> receipt \<Rightarrow> 'c agent_client \<Rightarrow> 'w \<Rightarrow>
       ((run_error + receipt) \<times> 'c agent_client \<times> 'w) option" where
  "run_pipelined tp started steps rt c w =
     (let step_started = tp_now tp w in
      case rpc_pipeline tp (map ps_op steps) c w of
        None \<Rightarrow> None
      | Some (Inr resps, c, w) \<Rightarrow>
          let elapsed = elapsed_ms tp step_started w;
              rows = zip steps resps;
              rt = rt\<lparr>rt_session_reused := has_session c,
                 rt_steps := rt_steps rt @ map (\<lambda>(step, resp). \<lparr>sr_id = ps_id step, sr_ok = rs_ok resp,
                   sr_error = rs_error resp, sr_elapsed_ms = elapsed, sr_result = rs_result resp,
                   sr_screenshot = None\<rparr>) rows\<rparr>
          in (case List.find (\<lambda>(step, resp). \<not> rs_ok resp) rows of
                Some (step, resp) \<Rightarrow>
                  Some (Inl (StepFailed (ps_id step) (request_failed (rs_error resp))
                    (rt\<lparr>rt_ok := False, rt_elapsed_ms := elapsed_ms tp started w\<rparr>)), c, w)
              | None \<Rightarrow> Some (Inr rt, c, w))
      | Some (Inl error, c, w) \<Rightarrow>
          Some (Inl (StepFailed (ps_id (hd steps)) error
            (rt\<lparr>rt_ok := False, rt_session_reused := has_session c,
               rt_steps := rt_steps rt @ [\<lparr>sr_id = ps_id (hd steps), sr_ok = False, sr_error = Some error,
                 sr_elapsed_ms = elapsed_ms tp step_started w, sr_result = None, sr_screenshot = None\<rparr>],
               rt_elapsed_ms := elapsed_ms tp started w\<rparr>)), c, w))"

definition push_shot :: "screenshot_receipt option \<Rightarrow> receipt \<Rightarrow> receipt" where
  "push_shot shot rt = (case shot of Some s \<Rightarrow> rt\<lparr>rt_screenshots := rt_screenshots rt @ [s]\<rparr> | None \<Rightarrow> rt)"

definition step_row ::
    "planned_step \<Rightarrow> response result \<Rightarrow> screenshot_receipt option \<Rightarrow> u64 \<Rightarrow> step_receipt" where
  "step_row step r shot elapsed =
     \<lparr>sr_id = ps_id step,
      sr_ok = (case r of Inr resp \<Rightarrow> rs_ok resp | Inl _ \<Rightarrow> False),
      sr_error = (case r of Inr resp \<Rightarrow> rs_error resp | Inl e \<Rightarrow> Some e),
      sr_elapsed_ms = elapsed,
      sr_result = (case r of Inr resp \<Rightarrow> rs_result resp | Inl _ \<Rightarrow> None),
      sr_screenshot = shot\<rparr>"

text \<open>The steps of a sequential wave; \<open>n\<close> is \<open>shot_index\<close>, which runs on across waves.\<close>

fun run_steps ::
    "('c, 'w) transport \<Rightarrow> nat \<Rightarrow> screenshot_capture option \<Rightarrow> planned_step list \<Rightarrow> u32 \<Rightarrow> receipt \<Rightarrow>
       'c agent_client \<Rightarrow> 'w \<Rightarrow> ((run_error + u32 \<times> receipt) \<times> 'c agent_client \<times> 'w) option" where
  "run_steps tp started shots [] n rt c w = Some (Inr (n, rt), c, w)"
| "run_steps tp started shots (step # steps) n rt c w =
     (let step_started = tp_now tp w; n = n + 1 in
      case rpc_op tp (ps_op step) c w of
        None \<Rightarrow> None
      | Some (r, c, w) \<Rightarrow>
          let rt = rt\<lparr>rt_session_reused := has_session c\<rparr> in
          (case capture_screenshot tp shots n step c w of
             None \<Rightarrow> None
           | Some (shot, c, w) \<Rightarrow>
               let row = step_row step r shot (elapsed_ms tp step_started w);
                   rt = push_shot shot rt;
                   rt = rt\<lparr>rt_steps := rt_steps rt @ [row]\<rparr>
               in if sr_ok row then run_steps tp started shots steps n rt c w
                  else Some (Inl (StepFailed (ps_id step) (request_failed (sr_error row))
                    (rt\<lparr>rt_ok := False, rt_elapsed_ms := elapsed_ms tp started w\<rparr>)), c, w)))"

definition wave_steps :: "plan \<Rightarrow> string list \<Rightarrow> planned_step list option" where
  "wave_steps p wave = those (map (\<lambda>i. List.find (\<lambda>step. ps_id step = i) (pl_steps p)) wave)"

fun run_waves ::
    "('c, 'w) transport \<Rightarrow> nat \<Rightarrow> plan \<Rightarrow> screenshot_capture option \<Rightarrow> string list list \<Rightarrow> u32 \<Rightarrow> receipt \<Rightarrow>
       'c agent_client \<Rightarrow> 'w \<Rightarrow> ((run_error + receipt) \<times> 'c agent_client \<times> 'w) option" where
  "run_waves tp started p shots [] n rt c w = Some (Inr rt, c, w)"
| "run_waves tp started p shots (wave # waves) n rt c w =
     (case wave_steps p wave of
        None \<Rightarrow> None
      | Some steps \<Rightarrow>
          if wave_can_pipeline steps shots then
            (case run_pipelined tp started steps rt c w of
               Some (Inr rt, c, w) \<Rightarrow> run_waves tp started p shots waves n rt c w
             | r \<Rightarrow> r)
          else
            (case run_steps tp started shots steps n rt c w of
               None \<Rightarrow> None
             | Some (Inr (n, rt), c, w) \<Rightarrow> run_waves tp started p shots waves n rt c w
             | Some (Inl e, c, w) \<Rightarrow> Some (Inl e, c, w)))"

section \<open>Runs\<close>

definition new_receipt :: "plan \<Rightarrow> receipt" where
  "new_receipt p = \<lparr>rt_ok = True, rt_recipe = pl_name p, rt_fingerprint = pl_fingerprint p,
     rt_session_reused = False, rt_steps = [], rt_screenshots = [], rt_elapsed_ms = 0\<rparr>"

definition run_plan_with_screenshots ::
    "('c, 'w) transport \<Rightarrow> (string \<Rightarrow> 'w \<Rightarrow> 'w) \<Rightarrow> plan \<Rightarrow> bool \<Rightarrow> screenshot_capture option \<Rightarrow>
       'c agent_client \<Rightarrow> 'w \<Rightarrow> ((run_error + receipt) \<times> 'c agent_client \<times> 'w) option" where
  "run_plan_with_screenshots tp mkdir p yes shots c w =
     (if pl_requires_yes p \<and> \<not> yes then Some (Inl NeedsYes, c, w)
      else let w = (case shots of Some cap \<Rightarrow> mkdir (cap_dir cap) w | None \<Rightarrow> w);
               started = tp_now tp w in
        case run_waves tp started p shots (pl_waves p) 0 (new_receipt p) c w of
          None \<Rightarrow> None
        | Some (Inl e, c, w) \<Rightarrow> Some (Inl e, c, w)
        | Some (Inr rt, c, w) \<Rightarrow>
            Some (Inr (rt\<lparr>rt_elapsed_ms := elapsed_ms tp started w, rt_session_reused := has_session c\<rparr>), c, w))"

definition run_plan ::
    "('c, 'w) transport \<Rightarrow> plan \<Rightarrow> bool \<Rightarrow> 'c agent_client \<Rightarrow> 'w \<Rightarrow>
       ((run_error + receipt) \<times> 'c agent_client \<times> 'w) option" where
  "run_plan tp p yes c w = run_plan_with_screenshots tp (\<lambda>_ w. w) p yes None c w"

end
