(* ===== verification/Run_Laws.thy ===== *)
theory Run_Laws
  imports Run Recipe_Laws
begin

text \<open>
  Runs of compiled plans: what a receipt says, which operations may be pipelined, when a
  run needs a yes, and where its screenshots land.
\<close>

section \<open>Waves resolve to steps\<close>

lemma find_ps_id:
  assumes "distinct (map ps_id ps)" "s \<in> set ps"
  shows "List.find (\<lambda>step. ps_id step = ps_id s) ps = Some s"
  using assms by (induction ps) (auto simp: image_iff)

lemma wave_steps_found:
  assumes "distinct (map ps_id (pl_steps p))" "set wave \<subseteq> ps_id ` set (pl_steps p)"
  shows "\<exists>steps. wave_steps p wave = Some steps \<and> map ps_id steps = wave \<and> set steps \<subseteq> set (pl_steps p)"
  using assms(2)
proof (induction wave)
  case (Cons i wave)
  then obtain s where s: "s \<in> set (pl_steps p)" "ps_id s = i" by auto
  from Cons obtain steps where "wave_steps p wave = Some steps" "map ps_id steps = wave" "set steps \<subseteq> set (pl_steps p)" by auto
  then show ?case using s find_ps_id [OF assms(1) s(1)] by (auto simp: wave_steps_def)
qed (simp add: wave_steps_def)

section \<open>Receipts\<close>

definition receipt_ids :: "receipt \<Rightarrow> string list" where
  "receipt_ids rt = map sr_id (rt_steps rt)"

text \<open>A failed run: the rows are a first part of the steps, the failed one is the first that is not ok.\<close>

definition failed_within :: "string list \<Rightarrow> run_error \<Rightarrow> bool" where
  "failed_within ids e =
     (case e of
        NeedsYes \<Rightarrow> False
      | StepFailed i err rt \<Rightarrow>
          \<not> rt_ok rt \<and> (\<exists>rest. ids = receipt_ids rt @ rest)
          \<and> map_option sr_id (List.find (\<lambda>s. \<not> sr_ok s) (rt_steps rt)) = Some i)"

definition all_ok :: "receipt \<Rightarrow> bool" where
  "all_ok rt = (rt_ok rt \<and> list_all sr_ok (rt_steps rt))"

lemma find_all_ok: "list_all sr_ok ss \<Longrightarrow> List.find (\<lambda>s. \<not> sr_ok s) ss = None"
  by (simp add: find_None_iff list_all_iff)

lemma failed_within_append: "failed_within ids e \<Longrightarrow> failed_within (ids @ later) e"
  by (auto simp: failed_within_def split: run_error.splits)

lemma run_pipelined_spec:
  assumes "run_pipelined tp started steps rt c w = Some (r, c', w')" "all_ok rt" "steps \<noteq> []"
  shows "case r of Inr rt' \<Rightarrow> all_ok rt' \<and> receipt_ids rt' = receipt_ids rt @ map ps_id steps
     | Inl e \<Rightarrow> failed_within (receipt_ids rt @ map ps_id steps) e"
proof -
  obtain q c1 w1 where q: "rpc_pipeline tp (map ps_op steps) c w = Some (q, c1, w1)"
    using assms(1) by (auto simp: run_pipelined_def Let_def split: option.splits)
  have none: "List.find (\<lambda>s. \<not> sr_ok s) (rt_steps rt) = None" using assms(2) by (simp add: all_ok_def find_all_ok)
  show ?thesis
  proof (cases q)
    case (Inl error)
    then show ?thesis using assms(1,3) q none
      by (cases steps) (auto simp: run_pipelined_def Let_def failed_within_def receipt_ids_def find_in_append)
  next
    case (Inr resps)
    let ?rows = "zip steps resps"
    let ?mk = "\<lambda>(step, resp). \<lparr>sr_id = ps_id step, sr_ok = rs_ok resp, sr_error = rs_error resp,
       sr_elapsed_ms = elapsed_ms tp (tp_now tp w) w1, sr_result = rs_result resp, sr_screenshot = None\<rparr>"
    have len: "length resps = length steps" using rpc_pipeline_length [of tp "map ps_op steps" c w resps c1 w1] q Inr by simp
    have ids: "map sr_id (map ?mk ?rows) = map ps_id steps"
      using len by (intro nth_equalityI) (auto simp: case_prod_beta)
    have find: "List.find (\<lambda>s. \<not> sr_ok s) (map ?mk rows) = map_option ?mk (List.find (\<lambda>(step, resp). \<not> rs_ok resp) rows)" for rows
      by (induction rows) auto
    show ?thesis
    proof (cases "List.find (\<lambda>(step, resp). \<not> rs_ok resp) ?rows")
      case None
      then have "list_all sr_ok (map ?mk ?rows)" by (auto simp: find_None_iff list_all_iff)
      then show ?thesis using assms(1,2) q Inr None ids
        by (auto simp: run_pipelined_def Let_def all_ok_def receipt_ids_def)
    next
      case (Some row)
      obtain step resp where row: "row = (step, resp)" by (cases row)
      show ?thesis using assms(1) q Inr Some row ids none find [of ?rows]
        by (auto simp: run_pipelined_def Let_def failed_within_def receipt_ids_def find_in_append)
    qed
  qed
qed

lemma push_shot_simps [simp]:
  "rt_steps (push_shot shot rt) = rt_steps rt" "rt_ok (push_shot shot rt) = rt_ok rt"
  by (simp_all add: push_shot_def split: option.splits)

lemma run_steps_spec:
  assumes "run_steps tp started shots steps n rt c w = Some (r, c', w')" "all_ok rt"
  shows "case r of Inr (n', rt') \<Rightarrow> all_ok rt' \<and> receipt_ids rt' = receipt_ids rt @ map ps_id steps
     | Inl e \<Rightarrow> failed_within (receipt_ids rt @ map ps_id steps) e"
  using assms
proof (induction steps arbitrary: n rt c w)
  case (Cons step steps)
  obtain q c1 w1 where q: "rpc_op tp (ps_op step) c w = Some (q, c1, w1)"
    using Cons.prems(1) by (auto simp: Let_def split: option.splits)
  obtain shot c2 w2 where shot: "capture_screenshot tp shots (n + 1) step c1 w1 = Some (shot, c2, w2)"
    using Cons.prems(1) q by (auto simp: Let_def split: option.splits)
  define row where "row = step_row step q shot (elapsed_ms tp (tp_now tp w) w2)"
  define rt1 where "rt1 = (push_shot shot (rt\<lparr>rt_session_reused := has_session c1\<rparr>))\<lparr>rt_steps :=
     rt_steps (push_shot shot (rt\<lparr>rt_session_reused := has_session c1\<rparr>)) @ [row]\<rparr>"
  have run: "(if sr_ok row then run_steps tp started shots steps (n + 1) rt1 c2 w2
      else Some (Inl (StepFailed (ps_id step) (request_failed (sr_error row))
        (rt1\<lparr>rt_ok := False, rt_elapsed_ms := elapsed_ms tp started w2\<rparr>)), c2, w2)) = Some (r, c', w')"
    using Cons.prems(1) q shot
    by (cases "sr_ok row") (auto simp: Let_def rt1_def row_def simp del: push_shot_simps)
  have rt1: "rt_steps rt1 = rt_steps rt @ [row]" "rt_ok rt1 = rt_ok rt" "sr_id row = ps_id step"
    by (simp_all add: rt1_def row_def step_row_def)
  show ?case
  proof (cases "sr_ok row")
    case True
    have ok1: "all_ok rt1" using Cons.prems(2) rt1 True by (simp add: all_ok_def)
    have "run_steps tp started shots steps (n + 1) rt1 c2 w2 = Some (r, c', w')" using run True by simp
    from Cons.IH [OF this ok1] show ?thesis
      by (auto simp: receipt_ids_def rt1 split: sum.splits prod.splits)
  next
    case False
    have "List.find (\<lambda>s. \<not> sr_ok s) (rt_steps rt) = None" using Cons.prems(2) by (simp add: all_ok_def find_all_ok)
    then show ?thesis using run False rt1
      by (auto simp: failed_within_def receipt_ids_def find_in_append)
  qed
qed auto

lemma run_waves_spec:
  assumes "run_waves tp started p shots waves n rt c w = Some (r, c', w')" "all_ok rt"
    and "distinct (map ps_id (pl_steps p))" "set (concat waves) \<subseteq> ps_id ` set (pl_steps p)"
  shows "case r of Inr rt' \<Rightarrow> all_ok rt' \<and> receipt_ids rt' = receipt_ids rt @ concat waves
     | Inl e \<Rightarrow> failed_within (receipt_ids rt @ concat waves) e"
  using assms(1,2,4)
proof (induction waves arbitrary: n rt c w)
  case (Cons wave waves)
  obtain steps where s: "wave_steps p wave = Some steps" "map ps_id steps = wave"
    using wave_steps_found [OF assms(3), of wave] Cons.prems(3) by auto
  show ?case
  proof (cases "wave_can_pipeline steps shots")
    case True
    then obtain q c1 w1 where q: "run_pipelined tp started steps rt c w = Some (q, c1, w1)"
      using Cons.prems(1) s(1) by (auto split: option.splits)
    have "steps \<noteq> []" using True by (auto simp: wave_can_pipeline_def)
    note spec = run_pipelined_spec [OF q Cons.prems(2) this]
    show ?thesis
    proof (cases q)
      case (Inl e)
      then show ?thesis using spec Cons.prems(1) s True q failed_within_append by fastforce
    next
      case (Inr rt1)
      then have "run_waves tp started p shots waves n rt1 c1 w1 = Some (r, c', w')"
        using Cons.prems(1) s(1) True q by simp
      from Cons.IH [OF this] spec Inr Cons.prems(3) s(2) show ?thesis by (auto split: sum.splits)
    qed
  next
    case False
    then obtain q c1 w1 where q: "run_steps tp started shots steps n rt c w = Some (q, c1, w1)"
      using Cons.prems(1) s(1) by (auto split: option.splits)
    note spec = run_steps_spec [OF q Cons.prems(2)]
    show ?thesis
    proof (cases q)
      case (Inl e)
      then show ?thesis using spec Cons.prems(1) s False q failed_within_append by fastforce
    next
      case (Inr nrt)
      then obtain n1 rt1 where nrt: "nrt = (n1, rt1)" by (cases nrt)
      then have "run_waves tp started p shots waves n1 rt1 c1 w1 = Some (r, c', w')"
        using Cons.prems(1) s(1) False q Inr by simp
      from Cons.IH [OF this] spec Inr nrt Cons.prems(3) s(2) show ?thesis by (auto split: sum.splits)
    qed
  qed
qed (auto split: sum.splits)

text \<open>A run stops in the wave of the step that failed: what comes after this wave has no influence.\<close>

definition fails_in :: "string list \<Rightarrow> run_error \<Rightarrow> bool" where
  "fails_in ids e = (case e of NeedsYes \<Rightarrow> False | StepFailed i _ _ \<Rightarrow> i \<in> set ids)"

lemma run_steps_fails_in:
  "run_steps tp started shots steps n rt c w = Some (Inl e, c', w') \<Longrightarrow> fails_in (map ps_id steps) e"
proof (induction steps arbitrary: n rt c w)
  case (Cons step steps)
  then show ?case
    by (fastforce simp: Let_def fails_in_def split: option.splits if_splits prod.splits run_error.splits)
qed simp

lemma run_pipelined_fails_in:
  assumes "run_pipelined tp started steps rt c w = Some (Inl e, c', w')" "steps \<noteq> []"
  shows "fails_in (map ps_id steps) e"
proof -
  have row: "step \<in> set steps" if "List.find P (zip steps resps) = Some (step, resp)" for P resps step and resp :: response
    using that by (auto simp: find_Some_iff dest: nth_mem set_zip_leftD)
  obtain q c1 w1 where q: "rpc_pipeline tp (map ps_op steps) c w = Some (q, c1, w1)"
    using assms(1) by (auto simp: run_pipelined_def Let_def split: option.splits)
  show ?thesis
  proof (cases q)
    case (Inl error)
    then show ?thesis using assms q by (cases steps) (auto simp: run_pipelined_def Let_def fails_in_def)
  next
    case (Inr resps)
    show ?thesis
    proof (cases "List.find (\<lambda>(step, resp). \<not> rs_ok resp) (zip steps resps)")
      case (Some x)
      then obtain step resp where found: "List.find (\<lambda>(step, resp). \<not> rs_ok resp) (zip steps resps) = Some (step, resp)"
        by (cases x) simp
      show ?thesis using found row [OF found] assms(1) q Inr by (auto simp: run_pipelined_def Let_def fails_in_def)
    qed (use assms(1) q Inr in \<open>auto simp: run_pipelined_def Let_def\<close>)
  qed
qed

lemma run_waves_stop:
  assumes "run_waves tp started p shots waves n rt c w = Some (Inl e, c', w')"
    and "distinct (map ps_id (pl_steps p))" "set (concat waves) \<subseteq> ps_id ` set (pl_steps p)"
  shows "\<exists>k < length waves. fails_in (waves ! k) e \<and>
     (\<forall>later. run_waves tp started p shots (take (Suc k) waves @ later) n rt c w = Some (Inl e, c', w'))"
  using assms(1,3)
proof (induction waves arbitrary: n rt c w)
  case (Cons wave waves)
  obtain steps where s: "wave_steps p wave = Some steps" "map ps_id steps = wave"
    using wave_steps_found [OF assms(2), of wave] Cons.prems(2) by auto
  have later: ?case if rest: "run_waves tp started p shots waves n1 rt1 c1 w1 = Some (Inl e, c', w')"
    and start: "\<And>later. run_waves tp started p shots (wave # later) n rt c w = run_waves tp started p shots later n1 rt1 c1 w1"
    for n1 rt1 c1 w1
  proof -
    have "set (concat waves) \<subseteq> ps_id ` set (pl_steps p)" using Cons.prems(2) by auto
    then obtain k where "k < length waves" "fails_in (waves ! k) e"
      "\<forall>later. run_waves tp started p shots (take (Suc k) waves @ later) n1 rt1 c1 w1 = Some (Inl e, c', w')"
      using Cons.IH [OF rest] by blast
    then show ?thesis by (intro exI [of _ "Suc k"]) (simp add: start del: run_waves.simps)
  qed
  have here: ?case if "fails_in (map ps_id steps) e"
    "\<And>later. run_waves tp started p shots (wave # later) n rt c w = Some (Inl e, c', w')"
    using that s(2) by (intro exI [of _ 0]) (simp del: run_waves.simps)
  show ?case
  proof (cases "wave_can_pipeline steps shots")
    case True
    then obtain q c1 w1 where q: "run_pipelined tp started steps rt c w = Some (q, c1, w1)"
      using Cons.prems(1) s(1) by (auto split: option.splits)
    have ne: "steps \<noteq> []" using True by (auto simp: wave_can_pipeline_def)
    show ?thesis
    proof (cases q)
      case (Inl e')
      then have run: "run_pipelined tp started steps rt c w = Some (Inl e, c', w')" using Cons.prems(1) s(1) True q by auto
      show ?thesis by (rule here [OF run_pipelined_fails_in [OF run ne]]) (use run s(1) True in simp)
    next
      case (Inr rt1)
      then show ?thesis using later [of n rt1 c1 w1] Cons.prems(1) s(1) True q by simp
    qed
  next
    case False
    then obtain q c1 w1 where q: "run_steps tp started shots steps n rt c w = Some (q, c1, w1)"
      using Cons.prems(1) s(1) by (auto split: option.splits)
    show ?thesis
    proof (cases q)
      case (Inl e')
      then have run: "run_steps tp started shots steps n rt c w = Some (Inl e, c', w')" using Cons.prems(1) s(1) False q by auto
      show ?thesis by (rule here [OF run_steps_fails_in [OF run]]) (use run s(1) False in simp)
    next
      case (Inr nrt)
      then obtain n1 rt1 where "nrt = (n1, rt1)" by (cases nrt)
      then show ?thesis using later [of n1 rt1 c1 w1] Cons.prems(1) s(1) False q Inr by simp
    qed
  qed
qed simp

lemma run_waves_other_plan:
  "run_waves tp started (p\<lparr>pl_waves := ws\<rparr>) shots waves n rt c w = run_waves tp started p shots waves n rt c w"
proof (induction waves arbitrary: n rt c w)
  case (Cons wave waves)
  have "wave_steps (p\<lparr>pl_waves := ws\<rparr>) wave = wave_steps p wave" by (simp add: wave_steps_def)
  then show ?case by (simp add: Cons.IH split: option.split sum.split prod.split)
qed simp

section \<open>Runs end\<close>

lemma capture_returns: "clock_ok tp \<Longrightarrow> capture_screenshot tp shots n step c w \<noteq> None"
  by (auto simp: capture_screenshot_def Let_def rpc_op_returns simp del: not_None_eq split: option.splits)

lemma run_steps_returns: "clock_ok tp \<Longrightarrow> run_steps tp started shots steps n rt c w \<noteq> None"
proof (induction steps arbitrary: n rt c w)
  case (Cons step steps)
  obtain q c1 w1 where q: "rpc_op tp (ps_op step) c w = Some (q, c1, w1)"
    using rpc_op_returns [OF Cons.prems, of "ps_op step" c w] by (metis not_None_eq prod_cases3)
  obtain shot c2 w2 where shot: "capture_screenshot tp shots (n + 1) step c1 w1 = Some (shot, c2, w2)"
    using capture_returns [OF Cons.prems, of shots "n + 1" step c1 w1] by (metis not_None_eq prod_cases3)
  show ?case using q shot Cons by (simp add: Let_def del: not_None_eq)
qed simp

lemma run_pipelined_returns: "clock_ok tp \<Longrightarrow> run_pipelined tp started steps rt c w \<noteq> None"
proof -
  assume "clock_ok tp"
  then obtain q c1 w1 where q: "rpc_pipeline tp (map ps_op steps) c w = Some (q, c1, w1)"
    using rpc_pipeline_returns by (metis not_None_eq prod_cases3)
  show ?thesis
  proof (cases q)
    case (Inr resps)
    show ?thesis
      by (cases "List.find (\<lambda>(step, resp). \<not> rs_ok resp) (zip steps resps)")
        (use q Inr in \<open>auto simp: run_pipelined_def Let_def\<close>)
  qed (use q in \<open>simp add: run_pipelined_def Let_def\<close>)
qed

lemma run_waves_returns:
  assumes "clock_ok tp" "distinct (map ps_id (pl_steps p))"
  shows "set (concat waves) \<subseteq> ps_id ` set (pl_steps p) \<Longrightarrow> run_waves tp started p shots waves n rt c w \<noteq> None"
proof (induction waves arbitrary: n rt c w)
  case (Cons wave waves)
  obtain steps where s: "wave_steps p wave = Some steps"
    using wave_steps_found [OF assms(2), of wave] Cons.prems by auto
  obtain q1 where q1: "run_pipelined tp started steps rt c w = Some q1" using run_pipelined_returns [OF assms(1)] by blast
  obtain q2 where q2: "run_steps tp started shots steps n rt c w = Some q2" using run_steps_returns [OF assms(1)] by blast
  show ?case using Cons s q1 q2
    by (cases q1; cases q2) (auto simp del: not_None_eq split: sum.splits)
qed simp

section \<open>What the protocol's schemas say\<close>

lemma protocol_registry_sample: "protocol_registry = Inr sample_registry"
  by code_simp

definition effects_table :: "registry \<Rightarrow> string list \<Rightarrow> effect list option list" where
  "effects_table reg names = map (\<lambda>n. map_option os_effects (registry_get reg n)) names"

lemma sample_effects_table:
  "effects_table sample_registry [''click'', ''type'', ''set_value'', ''key'', ''keybinding'', ''invoke'', ''shutdown'']
     = [Some [Write], Some [Write], Some [Write], Some [Write], Some [Write], Some [Write], Some [Exit]]"
  by code_simp

lemma sample_effects:
  "map_option os_effects (registry_get sample_registry ''click'') = Some [Write]"
  "map_option os_effects (registry_get sample_registry ''type'') = Some [Write]"
  "map_option os_effects (registry_get sample_registry ''set_value'') = Some [Write]"
  "map_option os_effects (registry_get sample_registry ''key'') = Some [Write]"
  "map_option os_effects (registry_get sample_registry ''keybinding'') = Some [Write]"
  "map_option os_effects (registry_get sample_registry ''invoke'') = Some [Write]"
  "map_option os_effects (registry_get sample_registry ''shutdown'') = Some [Exit]"
  using sample_effects_table by (simp_all add: effects_table_def)

text \<open>A registry that was built from schema files answers for the protocol as the built-in one.\<close>

lemma schema_paths_keep:
  assumes "registry_from_schema_paths load env_paths paths = Inr reg"
    and "map_option os_effects (registry_get sample_registry name) = Some es"
  shows "fst (snd (lookup name reg)) = es"
proof -
  have "merge_files load (env_paths @ paths) sample_registry = Inr reg"
    using assms(1) by (simp add: registry_from_schema_paths_def protocol_registry_sample)
  from merge_files_keeps [OF sample_registry_ok this] assms(2) show ?thesis
    by (auto simp: lookup_def)
qed

lemmas schema_effects = schema_paths_keep [OF _ sample_effects(1)] schema_paths_keep [OF _ sample_effects(2)]
  schema_paths_keep [OF _ sample_effects(3)] schema_paths_keep [OF _ sample_effects(4)]
  schema_paths_keep [OF _ sample_effects(5)] schema_paths_keep [OF _ sample_effects(6)]
  schema_paths_keep [OF _ sample_effects(7)]

lemma compiled_step:
  assumes "compile_plan hash r env reg = Some (Inr p)" "s \<in> set (pl_steps p)"
  shows "ps_effects s = fst (snd (annotate (ps_op s) reg)) \<and> pl_requires_yes p = (\<exists>t \<in> set (pl_steps p). Exit \<in> set (ps_effects t))"
proof -
  obtain b where v: "validate_recipe r reg = Inr ()" and b: "bound_recipe r env = Inr b"
    using compile_plan_Inr [OF assms(1)] by blast
  obtain ord where "pl_steps p = map (planned (rc_steps b) reg) ord"
    "pl_requires_yes p = (Exit \<in> set (concat (map ps_effects (pl_steps p))))"
    using compile_plan_spec [OF v b, of hash] assms(1) by (auto split: if_splits)
  then show ?thesis using assms(2) by auto
qed

section \<open>Properties\<close>

lemma waves_in_plan:
  assumes "compile_plan hash r env reg = Some (Inr p)"
  shows "distinct (map ps_id (pl_steps p)) \<and> set (concat (pl_waves p)) = ps_id ` set (pl_steps p)"
proof -
  obtain b where v: "validate_recipe r reg = Inr ()" and b: "bound_recipe r env = Inr b"
    using compile_plan_Inr [OF assms(1)] by blast
  obtain ord where o: "pl_steps p = map (planned (rc_steps b) reg) ord" "pl_waves p = plan_waves (rc_steps r)"
    "map (step_id (rc_steps b)) ord = concat (plan_waves (rc_steps r))" "all_layered (rc_steps r)"
    using compile_plan_spec [OF v b, of hash] assms(1) by (auto split: if_splits)
  have "map ps_id (pl_steps p) = concat (pl_waves p)" unfolding o(1,2) o(3) [symmetric] by simp
  moreover have "distinct (concat (pl_waves p))"
    using waves_perm [of "rc_steps r"] validate_recipe_ok [OF v] o(2,4) by simp
  ultimately show ?thesis by (metis list.set_map)
qed

text \<open>
  C8. A run of a compiled plan ends and says what happened.  A plan that needs a yes and does
  not get one sends nothing.  A run that succeeds has a row for every step, in the order of
  the waves, all of them ok.  A run that fails names the first row that is not ok, the rows
  are a first part of the steps in that order, and no later wave has been started: the step that
  failed belongs to a wave such that the plan with anything else in the place of the waves after it
  ends with the same result, the same client and the same world.
\<close>
theorem run_outcome:
  assumes "compile_plan hash r env reg = Some (Inr p)" and "clock_ok tp"
  shows "\<exists>res c' w'. run_plan_with_screenshots tp mkdir p yes shots c w = Some (res, c', w')
     \<and> (if pl_requires_yes p \<and> \<not> yes then res = Inl NeedsYes \<and> c' = c \<and> w' = w
        else case res of
          Inr rt \<Rightarrow> all_ok rt \<and> receipt_ids rt = concat (pl_waves p)
        | Inl e \<Rightarrow> failed_within (concat (pl_waves p)) e \<and>
            (\<exists>k < length (pl_waves p). fails_in (pl_waves p ! k) e \<and>
               (\<forall>later. run_plan_with_screenshots tp mkdir (p\<lparr>pl_waves := take (Suc k) (pl_waves p) @ later\<rparr>) yes shots c w
                  = Some (res, c', w'))))"
proof (cases "pl_requires_yes p \<and> \<not> yes")
  case False
  define w1 where "w1 = (case shots of Some cap \<Rightarrow> mkdir (cap_dir cap) w | None \<Rightarrow> w)"
  note waves = waves_in_plan [OF assms(1)]
  then have sub: "set (concat (pl_waves p)) \<subseteq> ps_id ` set (pl_steps p)" by simp
  obtain q c2 w2 where q: "run_waves tp (tp_now tp w1) p shots (pl_waves p) 0 (new_receipt p) c w1 = Some (q, c2, w2)"
    using run_waves_returns [OF assms(2) conjunct1 [OF waves] sub] by (metis not_None_eq prod_cases3)
  have "all_ok (new_receipt p)" "receipt_ids (new_receipt p) = []"
    by (simp_all add: all_ok_def new_receipt_def receipt_ids_def)
  then have spec: "case q of Inr rt \<Rightarrow> all_ok rt \<and> receipt_ids rt = concat (pl_waves p)
     | Inl e \<Rightarrow> failed_within (concat (pl_waves p)) e"
    using run_waves_spec [OF q _ conjunct1 [OF waves] sub] by (cases q) simp_all
  show ?thesis
  proof (cases q)
    case (Inl e)
    have "run_plan_with_screenshots tp mkdir p yes shots c w = Some (Inl e, c2, w2)"
      using False q Inl by (auto simp: run_plan_with_screenshots_def Let_def w1_def)
    moreover obtain k where k: "k < length (pl_waves p)" "fails_in (pl_waves p ! k) e"
      "\<forall>later. run_waves tp (tp_now tp w1) p shots (take (Suc k) (pl_waves p) @ later) 0 (new_receipt p) c w1 = Some (Inl e, c2, w2)"
      using run_waves_stop [OF q [unfolded Inl] conjunct1 [OF waves] sub] by blast
    moreover have "run_plan_with_screenshots tp mkdir (p\<lparr>pl_waves := take (Suc k) (pl_waves p) @ later\<rparr>) yes shots c w
        = Some (Inl e, c2, w2)" for later
      using k(3) False by (auto simp: run_plan_with_screenshots_def Let_def w1_def [symmetric] run_waves_other_plan new_receipt_def)
    ultimately show ?thesis using False spec Inl by auto
  next
    case (Inr rt)
    have "run_plan_with_screenshots tp mkdir p yes shots c w = Some (Inr (rt\<lparr>rt_elapsed_ms := elapsed_ms tp (tp_now tp w1) w2,
        rt_session_reused := has_session c2\<rparr>), c2, w2)"
      using False q Inr by (auto simp: run_plan_with_screenshots_def Let_def w1_def)
    then show ?thesis using False spec Inr by (auto simp: all_ok_def receipt_ids_def)
  qed
qed (simp add: run_plan_with_screenshots_def)

theorem run_outcome_witness:
  "\<exists>res c' w'. run_plan_with_screenshots sample_tp (\<lambda>_ w. w) sample_plan True None (client_connect ''a'') (0, [], [])
       = Some (res, c', w')
     \<and> (case res of Inr rt \<Rightarrow> all_ok rt \<and> receipt_ids rt = concat (pl_waves sample_plan)
        | Inl e \<Rightarrow> failed_within (concat (pl_waves sample_plan)) e)"
proof -
  have weaker: "(case res of Inr rt \<Rightarrow> P rt | Inl e \<Rightarrow> F e \<and> G e) \<Longrightarrow> (case res of Inr rt \<Rightarrow> P rt | Inl e \<Rightarrow> F e)"
    for res :: "run_error + receipt" and P F G by (cases res) simp_all
  show ?thesis
    using run_outcome [OF sample_compiles sample_clock, of "\<lambda>_ w. w" True None "client_connect ''a''" "(0, [], [])"]
    unfolding simp_thms if_False by (elim exE conjE, intro exI conjI) (assumption, rule weaker)
qed

text \<open>
  C30. Only reading operations share a pipeline.  With a registry built from any schema files, a
  wave that may be pipelined consists of steps whose operation leaves the host as it is, or
  of invokes that the registry declares as reads; and no screenshots are taken.
\<close>
theorem pipelined_steps_read:
  assumes "registry_from_schema_paths load env_paths paths = Inr reg"
    and "compile_plan hash r env reg = Some (Inr p)"
    and "set steps \<subseteq> set (pl_steps p)" and "wave_can_pipeline steps shots" and "s \<in> set steps"
  shows "shots = None \<and> (reads_only (ps_op s) \<or> (\<exists>name args schema. ps_op s = OpInvoke name args
     \<and> registry_get reg name = Some schema \<and> os_kind schema = KindInvoke \<and> list_all (\<lambda>e. e = Read) (os_effects schema)))"
proof -
  have ro: "shots = None" "ps_effects s \<noteq> []" "list_all (\<lambda>e. e = Read) (ps_effects s)"
    using assms(4,5) by (auto simp: wave_can_pipeline_def step_is_read_only_def list_all_iff)
  have e: "ps_effects s = fst (snd (annotate (ps_op s) reg))" using compiled_step [OF assms(2)] assms(3,5) by blast
  note eff = schema_effects [OF assms(1)]
  show ?thesis
  proof (cases "ps_op s")
    case (OpInvoke name args)
    then show ?thesis using ro e eff(6) by (auto split: option.splits if_splits)
  qed (use ro e eff in \<open>auto simp: Let_def split: prod.splits if_splits\<close>)
qed

theorem pipelined_steps_read_witness:
  "\<exists>steps. set steps \<subseteq> set (pl_steps sample_plan) \<and> wave_can_pipeline steps None \<and> steps \<noteq> []
     \<and> (\<forall>s \<in> set steps. reads_only (ps_op s) \<or> (\<exists>name args schema. ps_op s = OpInvoke name args
     \<and> registry_get sample_registry name = Some schema \<and> os_kind schema = KindInvoke
     \<and> list_all (\<lambda>e. e = Read) (os_effects schema)))"
proof -
  have w: "wave_can_pipeline (take 2 (pl_steps sample_plan)) None" by code_simp
  then have "take 2 (pl_steps sample_plan) \<noteq> []" by (auto simp: wave_can_pipeline_def)
  then show ?thesis
    using w pipelined_steps_read [OF sample_registry_paths sample_compiles set_take_subset w]
    by (intro exI [of _ "take 2 (pl_steps sample_plan)"]) (auto dest: in_set_takeD)
qed

text \<open>
  C18. No plan leaves the application without a yes.  With a registry built from any schema
  files, a plan with a \<open>shutdown\<close> or with a quit keybinding needs it, also when the binding
  came in through a parameter and so passed validation unseen.
\<close>
theorem exit_needs_yes:
  assumes "registry_from_schema_paths load env_paths paths = Inr reg"
    and "compile_plan hash r env reg = Some (Inr p)" and "s \<in> set (pl_steps p)"
    and "ps_op s = OpShutdown \<or> (\<exists>binding chord scope cf ac. ps_op s = OpKeybinding binding chord scope cf ac \<and> is_quit_binding binding)"
  shows "pl_requires_yes p"
proof -
  have c: "ps_effects s = fst (snd (annotate (ps_op s) reg))"
    "pl_requires_yes p = (\<exists>t \<in> set (pl_steps p). Exit \<in> set (ps_effects t))"
    using compiled_step [OF assms(2,3)] by blast+
  have "Exit \<in> set (ps_effects s)"
    using assms(4) schema_effects(7) [OF assms(1)] by (auto simp: c(1) Let_def split: prod.splits)
  then show ?thesis using c(2) assms(3) by blast
qed

theorem exit_needs_yes_witness: "pl_requires_yes sample_plan"
proof -
  have "list_ex (\<lambda>s. ps_op s = OpShutdown) (pl_steps sample_plan)" by code_simp
  then obtain s where "s \<in> set (pl_steps sample_plan)" "ps_op s = OpShutdown"
    by (auto simp: list_ex_iff)
  then show ?thesis using exit_needs_yes [OF sample_registry_paths sample_compiles] by blast
qed

section \<open>Where the screenshots land\<close>

definition name_char :: "char \<Rightarrow> bool" where
  "name_char c = (is_ascii_alnum c \<or> c = CHR ''-'' \<or> c = CHR ''_'')"

lemma sanitize_chars: "list_all name_char (sanitize_step_id sid) \<and> sanitize_step_id sid \<noteq> []"
proof -
  have part: "list_all name_char (if safe_id_char ch then ch else ''_'')" for ch
    by (auto simp: safe_id_char_def name_char_def split: list.splits)
  have "list_all name_char (concat (map (\<lambda>ch. if safe_id_char ch then ch else ''_'') chs))" for chs
    by (induction chs) (simp_all only: list.map concat.simps list_all_append part list.pred_inject)
  moreover have "list_all name_char ''step''" by code_simp
  ultimately show ?thesis by (simp add: sanitize_step_id_def Let_def)
qed

lemma name_char_graph: "name_char c \<or> c = CHR ''.'' \<Longrightarrow> is_graph c \<and> c \<noteq> CHR ''/'' \<and> c \<noteq> CHR ''~''"
  by (auto simp: name_char_def is_ascii_alnum_def is_ascii_digit_def is_ascii_alpha_def is_graph_def Let_def)

lemma shot_name_chars:
  "(\<forall>c \<in> set (shot_name n sid). name_char c \<or> c = CHR ''.'') \<and> is_ascii_digit (hd (shot_name n sid))
     \<and> shot_name n sid \<noteq> [] \<and> (\<exists>stem. shot_name n sid = stem @ ''.png'' \<and> stem \<noteq> [])"
proof -
  have digits: "\<forall>c \<in> set (pad3 (dec (unat n))). is_ascii_digit c"
    using dec_digits [of "unat n"] by (auto simp: pad3_def is_ascii_digit_def)
  have ne: "pad3 (dec (unat n)) \<noteq> []" by (simp add: pad3_def)
  have png: "\<forall>c \<in> set ''.png''. name_char c \<or> c = CHR ''.''" by code_simp
  have "\<forall>c \<in> set (pad3 (dec (unat n))). name_char c"
    using digits by (simp add: name_char_def is_ascii_alnum_def)
  moreover have "\<forall>c \<in> set (sanitize_step_id sid). name_char c" using sanitize_chars by (simp add: list_all_iff)
  moreover have "name_char CHR ''-''" by (simp add: name_char_def)
  moreover have "hd (shot_name n sid) \<in> set (pad3 (dec (unat n)))" using ne by (simp add: shot_name_def)
  ultimately show ?thesis using digits ne png
    by (auto simp: shot_name_def intro!: exI [of _ "pad3 (dec (unat n)) @ ''-'' @ sanitize_step_id sid"])
qed

lemma split_slash_none: "CHR ''/'' \<notin> set s \<Longrightarrow> split_slash acc s = [acc @ s]"
  by (induction s arbitrary: acc) auto

lemma split_slash_app: "split_slash acc (s @ CHR ''/'' # t) = split_slash acc s @ split_slash [] t"
  by (induction s arbitrary: acc) auto

lemma components_join:
  assumes "CHR ''/'' \<notin> set name" "name \<noteq> []" "name \<noteq> ''.''"
  shows "components (path_join dir name) = components dir @ [name]"
proof -
  have name: "components name = [name]"
    using split_slash_none [OF assms(1), of "[]"] assms(2,3) by (simp add: components_def)
  have app: "components (d @ CHR ''/'' # name) = components d @ [name]" for d
    using name by (simp add: components_def split_slash_app)
  show ?thesis
  proof (cases dir rule: rev_cases)
    case Nil
    then show ?thesis using name by (simp add: path_join_def components_def)
  next
    case (snoc d c)
    have "components (d @ [CHR ''/'']) = components d" by (simp add: components_def split_slash_app)
    then show ?thesis using snoc app [of d] app [of dir]
      by (cases "c = CHR ''/''") (simp_all add: path_join_def)
  qed
qed

text \<open>
  The file a recipe asks the host to write after a step always passes the host's own check,
  whatever the id of the step, and lies directly in the directory of the host.
\<close>
theorem recipe_shots_confined:
  "confine_screenshot_path_in (wire_name (step_path cap n sid)) base = Inr (base @ [shot_name n sid])"
proof -
  let ?s = "shot_name n sid"
  note ch = shot_name_chars [of n sid]
  have slash: "CHR ''/'' \<notin> set ?s" using ch name_char_graph by blast
  have "trim ?s = ?s" by (rule trim_graph) (use ch name_char_graph in blast)
  then have req: "require_screenshot_path (Some ?s) = Inr ?s" using ch by (simp add: require_screenshot_path_def)
  obtain c t where s: "?s = c # t" using ch by (cases ?s) auto
  then have "is_ascii_digit c" using ch by simp
  then have c: "c \<noteq> CHR ''/''" "c \<noteq> CHR ''.''" "c \<noteq> CHR ''~''" "c \<noteq> CHR ''-''"
    by (auto simp: is_ascii_digit_def)
  have parts: "?s \<noteq> []" "?s \<noteq> ''.''" "?s \<noteq> ''..''" using s c by simp_all
  have comp: "components ?s = [?s]"
    using split_slash_none [OF slash, of "[]"] parts by (simp add: components_def)
  have name: "wire_name (step_path cap n sid) = ?s"
    using components_join [OF slash parts(1,2)] parts(3) by (simp add: wire_name_def path_file_name_def step_path_def)
  obtain stem where "?s = stem @ ''.png''" "stem \<noteq> []" using ch by blast
  then have "ends_with ?s ''.png''" "5 \<le> length ?s"
    by (auto simp: ends_with_iff) (cases stem; simp)
  then show ?thesis
    using req comp s c by (simp add: name confine_screenshot_path_in_def)
qed

end
