(* ===== verification/Engine.thy ===== *)
theory Engine
  imports Prelude
begin

text \<open>
  What \<open>crates/gpui-agent-policy\<close> takes from outside the repository.  The crates
  \<open>instinct-core\<close>, \<open>instinct-text\<close> and \<open>instinct-lexicon\<close> are the fields of an \<open>instinct\<close>: a
  \<open>Confidence\<close> is the integer its \<open>get\<close> returns, every other object of the three crates is
  a value of one opaque type.  The tables of Unicode that \<open>char::to_lowercase\<close>,
  \<open>str::to_lowercase\<close> and \<open>char::is_alphanumeric\<close> read are the fields of a \<open>unicode\<close>; a
  character is the list of the bytes that encode it.
\<close>

section \<open>Characters\<close>

record unicode =
  uc_lower :: "string \<Rightarrow> string"      \<comment> \<open>\<open>char::to_lowercase\<close>\<close>
  uc_str_lower :: "string \<Rightarrow> string"  \<comment> \<open>\<open>str::to_lowercase\<close>\<close>
  uc_alnum :: "string \<Rightarrow> bool"        \<comment> \<open>\<open>char::is_alphanumeric\<close>\<close>

text \<open>The tables restricted to ASCII, on which the samples are evaluated.\<close>

definition ascii_unicode :: unicode where
  "ascii_unicode = \<lparr>uc_lower = to_ascii_lowercase, uc_str_lower = to_ascii_lowercase,
     uc_alnum = (\<lambda>ch. case ch of [c] \<Rightarrow> is_ascii_alnum c | _ \<Rightarrow> False)\<rparr>"

text \<open>\<open>char::is_whitespace\<close> and \<open>char::is_control\<close> (the category \<open>Cc\<close>).\<close>

definition char_is_whitespace :: "string \<Rightarrow> bool" where
  "char_is_whitespace ch = (ch \<in> set ws_chars)"

definition char_is_control :: "string \<Rightarrow> bool" where
  "char_is_control ch = (case ch of
      [a] \<Rightarrow> (let n = of_char a :: nat in n < 32 \<or> n = 127)
    | [a, b] \<Rightarrow> a = CHR 0xC2 \<and> (let n = of_char b :: nat in 128 \<le> n \<and> n < 160)
    | _ \<Rightarrow> False)"

text \<open>The typographic double quotes, three bytes each.\<close>

abbreviation left_quote :: string where
  "left_quote \<equiv> [CHR 0xE2, CHR 0x80, CHR 0x9C]"

abbreviation right_quote :: string where
  "right_quote \<equiv> [CHR 0xE2, CHR 0x80, CHR 0x9D]"

abbreviation straight_quote :: string where
  "straight_quote \<equiv> [CHR 0x22]"

definition eq_ignore_ascii_case :: "string \<Rightarrow> string \<Rightarrow> bool" where
  "eq_ignore_ascii_case a b = (to_ascii_lowercase a = to_ascii_lowercase b)"

section \<open>The arbitration library\<close>

datatype answer = AnsChoice nat "nat list" | AnsAbstain string "nat list" | AnsOther string

record 'o arbitration =
  arb_answer :: answer
  arb_urges :: 'o

record 'o instinct =
  ic_saturating :: "int \<Rightarrow> int"
  ic_saturating_add :: "int \<Rightarrow> int \<Rightarrow> int"
  ic_max :: int
  ic_zero :: int
  ic_default_config :: 'o
  ic_config :: "'o \<Rightarrow> 'o"
  ic_normalize :: "string \<Rightarrow> 'o \<Rightarrow> 'o option"
  ic_overlap :: "'o \<Rightarrow> 'o \<Rightarrow> int option"
  ic_default_profile :: 'o   \<comment> \<open>\<open>Profile::default()\<close>\<close>
  ic_standard_profile :: 'o  \<comment> \<open>\<open>Profile::Standard\<close>\<close>
  ic_min_confidence :: "'o \<Rightarrow> int"
  ic_candidate_id :: "string \<Rightarrow> string result"
  ic_candidate_set :: "string list \<Rightarrow> 'o result"
  ic_question :: "'o \<Rightarrow> string \<Rightarrow> 'o result"
  ic_drives :: "(string \<times> int) list \<Rightarrow> 'o result"
  ic_scores :: "'o \<Rightarrow> 'o"
  ic_affinity :: "'o \<Rightarrow> 'o \<Rightarrow> 'o"
  ic_index_of :: "'o \<Rightarrow> string \<Rightarrow> nat option"
  ic_set_score :: "nat \<Rightarrow> int \<Rightarrow> 'o \<Rightarrow> 'o result"
  ic_set_affinity :: "nat \<Rightarrow> nat \<Rightarrow> int \<Rightarrow> 'o \<Rightarrow> 'o result"
  ic_arbitrate :: "'o \<Rightarrow> 'o \<Rightarrow> 'o \<Rightarrow> 'o \<Rightarrow> 'o arbitration result"
  ic_id_at :: "'o \<Rightarrow> nat \<Rightarrow> string option"
  ic_urge :: "'o \<Rightarrow> nat \<Rightarrow> int option"

text \<open>
  What the scoring relies on: a \<open>Confidence\<close> lies in \<open>0..=1000\<close>, \<open>saturating\<close> clamps into
  the range, \<open>saturating_add\<close> adds and clamps, and \<open>overlap\<close> yields a \<open>Confidence\<close>.
\<close>

definition clamp_milli :: "int \<Rightarrow> int" where
  "clamp_milli x = max 0 (min 1000 x)"

definition confidence_laws :: "'o instinct \<Rightarrow> bool" where
  "confidence_laws I \<longleftrightarrow>
     ic_saturating I = clamp_milli \<and> ic_saturating_add I = (\<lambda>a b. clamp_milli (a + b))
     \<and> ic_max I = 1000 \<and> ic_zero I = 0 \<and> (\<forall>a b c. ic_overlap I a b = Some c \<longrightarrow> 0 \<le> c \<and> c \<le> 1000)"

lemma clamp_milli_range [simp]: "0 \<le> clamp_milli x" "clamp_milli x \<le> 1000"
  by (simp_all add: clamp_milli_def)

lemma clamp_milli_id: "0 \<le> x \<Longrightarrow> x \<le> 1000 \<Longrightarrow> clamp_milli x = x"
  by (simp add: clamp_milli_def)

end
