(* ===== verification/Goal.thy ===== *)
theory Goal
  imports Engine
begin

text \<open>
  \<open>crates/gpui-agent-policy/src/goal.rs\<close>: the goal of a run and its split into sequential
  clauses on \<open>then\<close> and \<open>and then\<close> outside quotes.  The characters between \<open>start\<close> and \<open>i\<close>
  are the argument \<open>cur\<close> of the loop, those from \<open>i\<close> on its argument \<open>rest\<close>.
\<close>

section \<open>Goals\<close>

record ui_goal =
  goal_text :: string

definition goal_new :: "string \<Rightarrow> ui_goal" where
  "goal_new text = \<lparr>goal_text = trim text\<rparr>"

definition goal_is_empty :: "ui_goal \<Rightarrow> bool" where
  "goal_is_empty g = (goal_text g = [])"

section \<open>Clauses\<close>

definition connectives :: "(string \<times> nat) list" where
  "connectives = [('' and then '', 10), ('' then '', 6)]"

definition match_connective :: "string list \<Rightarrow> nat option" where
  "match_connective rest =
     (let lower = to_ascii_lowercase (concat rest) in
      map_option snd (List.find (\<lambda>(pat, n). starts_with lower pat) connectives))"

definition push_trimmed :: "string list \<Rightarrow> string list \<Rightarrow> string list" where
  "push_trimmed cur parts = (let t = trim (concat cur) in if t = [] then parts else parts @ [t])"

lemma match_connective_pos: "match_connective rest = Some n \<Longrightarrow> 0 < n"
  by (auto simp: match_connective_def connectives_def Let_def split: if_splits)

function clause_loop :: "string option \<Rightarrow> string list \<Rightarrow> string list \<Rightarrow> string list \<Rightarrow> string list" where
  "clause_loop quote cur [] parts = push_trimmed cur parts"
| "clause_loop quote cur (c # rest) parts =
     (case quote of
        Some q \<Rightarrow> clause_loop (if c = q then None else Some q) (cur @ [c]) rest parts
      | None \<Rightarrow>
          if c \<in> {[CHR 0x22], [CHR 0x27]} then clause_loop (Some c) (cur @ [c]) rest parts
          else case match_connective (c # rest) of
            Some n \<Rightarrow> clause_loop None [] (drop n (c # rest)) (push_trimmed cur parts)
          | None \<Rightarrow> clause_loop None (cur @ [c]) rest parts)"
  by pat_completeness auto
termination
  by (relation "measure (\<lambda>(q, cur, rest, parts). length rest)") (auto dest!: match_connective_pos)

definition split_sequential_clauses :: "string \<Rightarrow> string list" where
  "split_sequential_clauses goal =
     (let parts = clause_loop None [] (chars_of goal) [] in
      if parts = [] then (let t = trim goal in if t = [] then [] else [t]) else parts)"

end
