(* ===== verification/Evidence.thy ===== *)
theory Evidence
  imports Engine "HOL-Library.Signed_Division"
begin

text \<open>
  \<open>crates/gpui-agent-policy/src/evidence.rs\<close>: the integer evidence of a candidate for a goal.
  Scores are the millis of a \<open>Confidence\<close>; the lexical overlap and the arithmetic of
  \<open>Confidence\<close> come from the arbitration library, the case folding from the tables of Unicode.
\<close>

definition NON_EXACT_CAP :: int where "NON_EXACT_CAP = 849"

definition UNNAMED_OPERATION_CAP :: int where "UNNAMED_OPERATION_CAP = 500"

datatype operation_kind =
  OkClick | OkTypeText | OkSelect | OkDone | OkBlocked | OkWait | OkScrollDown | OkScrollUp
| OkSetValue | OkKey | OkKeybinding | OkInvoke

fun operation_as_str :: "operation_kind \<Rightarrow> string" where
  "operation_as_str OkClick = ''click''"
| "operation_as_str OkTypeText = ''type_text''"
| "operation_as_str OkSelect = ''select''"
| "operation_as_str OkDone = ''done''"
| "operation_as_str OkBlocked = ''blocked''"
| "operation_as_str OkWait = ''wait''"
| "operation_as_str OkScrollDown = ''scroll_down''"
| "operation_as_str OkScrollUp = ''scroll_up''"
| "operation_as_str OkSetValue = ''set_value''"
| "operation_as_str OkKey = ''key''"
| "operation_as_str OkKeybinding = ''keybinding''"
| "operation_as_str OkInvoke = ''invoke''"

definition operation_is_control :: "operation_kind \<Rightarrow> bool" where
  "operation_is_control k = (k \<in> {OkDone, OkBlocked, OkWait, OkScrollDown, OkScrollUp})"

record evidence_target =
  et_id :: string
  et_label :: string
  et_role :: "string option"
  et_kind :: operation_kind

record goal_evidence =
  ge_literals :: "string list"
  ge_unplaced :: bool
  ge_verb :: string
  ge_toggle :: bool
  ge_locatives :: "string list"
  ge_nav_locatives :: "string list"
  ge_payload_target :: "string option"
  ge_sole_checkbox :: "string option"
  ge_has_literal :: bool

definition default_evidence :: goal_evidence where
  "default_evidence = \<lparr>ge_literals = [], ge_unplaced = False, ge_verb = [], ge_toggle = False,
     ge_locatives = [], ge_nav_locatives = [], ge_payload_target = None, ge_sole_checkbox = None,
     ge_has_literal = False\<rparr>"

section \<open>Words\<close>

definition fold_text :: "unicode \<Rightarrow> string \<Rightarrow> string" where
  "fold_text U s = concat (filter (\<lambda>ch. \<not> char_is_whitespace ch)
     (concat (map (\<lambda>ch. chars_of (uc_lower U ch)) (chars_of s))))"

definition eq_fold :: "unicode \<Rightarrow> string \<Rightarrow> string \<Rightarrow> bool" where
  "eq_fold U a b = (fold_text U a = fold_text U b)"

fun token_loop :: "unicode \<Rightarrow> string list \<Rightarrow> string \<Rightarrow> string list" where
  "token_loop U [] buf = (if buf = [] then [] else [buf])"
| "token_loop U (ch # chs) buf =
     (if uc_alnum U ch then token_loop U chs (buf @ uc_lower U ch)
      else if buf \<noteq> [] then buf # token_loop U chs []
      else token_loop U chs buf)"

definition tokenize_text :: "unicode \<Rightarrow> string \<Rightarrow> string list" where
  "tokenize_text U text = token_loop U (chars_of text) []"

definition tokens :: "unicode \<Rightarrow> string \<Rightarrow> string list" where
  "tokens U text = tokenize_text U text"

text \<open>\<open>str::split\<close> on a set of ASCII characters.\<close>

fun split_on :: "(char \<Rightarrow> bool) \<Rightarrow> string \<Rightarrow> string \<Rightarrow> string list" where
  "split_on P [] acc = [acc]"
| "split_on P (c # s) acc = (if P c then acc # split_on P s [] else split_on P s (acc @ [c]))"

definition instruction_tokens :: "unicode \<Rightarrow> string \<Rightarrow> string list" where
  "instruction_tokens U goal =
     concat (map (\<lambda>clause. let ts = tokenize_text U clause in
         case ts of [] \<Rightarrow> ts
         | t # _ \<Rightarrow> if t \<in> {''if'', ''unless'', ''otherwise''} then [] else ts)
       (split_on (\<lambda>c. c \<in> {CHR ''.'', CHR '';'', CHR ''!'', CHR ''?'', CHR '','', CHR 0x0A}) goal []))"

text \<open>\<open>slice::windows(n)\<close>; it panics for \<open>n = 0\<close>, and every call gives a positive length.\<close>

fun windows :: "nat \<Rightarrow> 'a list \<Rightarrow> 'a list list" where
  "windows n [] = []"
| "windows n (x # xs) = (if n \<le> Suc (length xs) then take n (x # xs) # windows n xs else [])"

definition matches_instruction_tokens :: "string list \<Rightarrow> string list list \<Rightarrow> bool" where
  "matches_instruction_tokens ts keys =
     list_ex (\<lambda>key. list_ex (\<lambda>w. list_all (\<lambda>(a, b). a = b) (zip w key)) (windows (length key) ts)) keys"

fun control_keys :: "operation_kind \<Rightarrow> string list list" where
  "control_keys OkDone = [[''done''], [''finished''], [''complete''], [''completed'']]"
| "control_keys OkBlocked = [[''blocked''], [''stuck''], [''impossible'']]"
| "control_keys OkWait = [[''wait''], [''pause''], [''loading'']]"
| "control_keys OkScrollDown = [[''scroll'', ''down''], [''scroll'', ''page''], [''page'', ''down''],
     [''scrolldown''], [''pagedown'']]"
| "control_keys OkScrollUp = [[''scroll'', ''up''], [''page'', ''up''], [''scrollup''], [''pageup'']]"
| "control_keys OkClick = [[''click''], [''press''], [''tap'']]"
| "control_keys OkTypeText = [[''type''], [''enter''], [''fill''], [''input'']]"
| "control_keys OkSelect = [[''select''], [''choose''], [''pick'']]"
| "control_keys OkSetValue = [[''set''], [''change''], [''update'']]"
| "control_keys OkKey = [[''press'', ''enter''], [''hit'', ''enter''], [''press'', ''return''],
     [''send'', ''enter''], [''press'', ''tab''], [''press'', ''escape''], [''press'', ''backspace''],
     [''press'', ''space''], [''keypress''], [''submit'']]"
| "control_keys OkKeybinding = [[''shortcut''], [''hotkey''], [''keybinding'']]"
| "control_keys OkInvoke = [[''invoke''], [''run''], [''call''], [''execute''], [''trigger'']]"

definition control_keyword_hit :: "unicode \<Rightarrow> string \<Rightarrow> operation_kind \<Rightarrow> bool" where
  "control_keyword_hit U goal k = matches_instruction_tokens (instruction_tokens U goal) (control_keys k)"

definition named_target_operations :: "unicode \<Rightarrow> string \<Rightarrow> operation_kind list" where
  "named_target_operations U goal = filter (control_keyword_hit U goal)
     [OkClick, OkTypeText, OkSelect, OkSetValue, OkKey, OkKeybinding, OkInvoke]"

definition role_key :: "string \<Rightarrow> string option" where
  "role_key role =
     (if role = ''button'' then Some ''button''
      else if role = ''link'' then Some ''link''
      else if role \<in> {''textbox'', ''field'', ''combobox''} then Some ''text''
      else if role = ''checkbox'' then Some ''checkbox''
      else if role \<in> {''menuitem'', ''option''} then Some ''menu''
      else if role = ''tab'' then Some ''tab''
      else if role = ''dialog'' then Some ''dialog''
      else if role \<in> {''navigation'', ''nav''} then Some ''nav''
      else if role \<in> {''listbox'', ''list''} then Some ''list''
      else None)"

definition role_mentioned :: "unicode \<Rightarrow> string \<Rightarrow> string \<Rightarrow> bool" where
  "role_mentioned U goal role =
     (case role_key role of None \<Rightarrow> False | Some key \<Rightarrow> str_contains (fold_text U goal) key)"

definition done_language :: "unicode \<Rightarrow> string \<Rightarrow> bool" where
  "done_language U goal = matches_instruction_tokens (instruction_tokens U goal)
     [[''done''], [''finish''], [''finished''], [''complete''], [''completed''], [''success''],
      [''successful''], [''submitted'']]"

definition stem_eq :: "string \<Rightarrow> string \<Rightarrow> bool" where
  "stem_eq a b = (a = b \<or> 4 \<le> min (length a) (length b) \<and> (starts_with a b \<or> starts_with b a))"

definition VERB_SYNONYMS :: "(string \<times> string list) list" where
  "VERB_SYNONYMS = [
     (''collapse'', [''hide'', ''collapse'', ''minimize'']),
     (''expand'', [''show'', ''expand'', ''maximize'']),
     (''open'', [''open'', ''show'']),
     (''close'', [''close'', ''hide'', ''dismiss'']),
     (''quit'', [''quit'', ''exit'', ''close'']),
     (''delete'', [''delete'', ''remove'', ''trash'']),
     (''add'', [''add'', ''create'', ''new'']),
     (''mark'', [''mark'', ''check'', ''tick'']),
     (''toggle'', [''toggle'', ''flip'', ''switch''])]"

definition STATE_WORDS :: "string list" where
  "STATE_WORDS = [''done'', ''on'', ''off'', ''checked'', ''unchecked'', ''complete'', ''completed'',
     ''enabled'', ''disabled'', ''open'', ''closed'', ''marked'', ''set'', ''toggled'', ''shown'', ''hidden'']"

definition COVER_STOP :: "string list" where
  "COVER_STOP = [''the'', ''a'', ''an'', ''as'', ''in'', ''on'', ''to'', ''into'', ''from'', ''at'', ''by'',
     ''of'', ''for'', ''and'', ''then'', ''it'', ''them'', ''that'', ''this'', ''with'']"

definition significant_tokens :: "unicode \<Rightarrow> string \<Rightarrow> string list" where
  "significant_tokens U text = filter (\<lambda>t. t \<notin> set COVER_STOP) (tokenize_text U text)"

definition add_new :: "string list \<Rightarrow> string list \<Rightarrow> string list" where
  "add_new ts out = fold (\<lambda>t out. if t \<in> set out then out else out @ [t]) ts out"

definition object_tokens :: "unicode \<Rightarrow> string \<Rightarrow> goal_evidence \<Rightarrow> string list" where
  "object_tokens U goal ctx =
     (let obj = fold (\<lambda>lit. add_new (tokenize_text U lit)) (ge_literals ctx) [];
          obj = add_new (significant_tokens U goal) obj
      in filter (\<lambda>t. \<not> stem_eq t (ge_verb ctx) \<and> t \<notin> set (ge_locatives ctx) \<and> t \<notin> set STATE_WORDS) obj)"

definition object_covered :: "unicode \<Rightarrow> string \<Rightarrow> string \<Rightarrow> goal_evidence \<Rightarrow> bool" where
  "object_covered U goal label ctx =
     (let lts = tokenize_text U label; obj = object_tokens U goal ctx
      in obj \<noteq> [] \<and> list_all (\<lambda>t. list_ex (\<lambda>lt. stem_eq lt t) lts) obj)"

definition verb_matches :: "unicode \<Rightarrow> string \<Rightarrow> string \<Rightarrow> bool" where
  "verb_matches U verb label =
     (let lts = tokenize_text U label in
      list_ex (\<lambda>t. stem_eq t verb) lts
      \<or> list_ex (\<lambda>(key, syns). stem_eq key verb \<and> list_ex (\<lambda>s. s \<in> set lts) syns) VERB_SYNONYMS)"

definition tokens_equal :: "unicode \<Rightarrow> string \<Rightarrow> string \<Rightarrow> bool" where
  "tokens_equal U goal label =
     (let g = significant_tokens U goal; l = significant_tokens U label in
      g \<noteq> [] \<and> l \<noteq> [] \<and> list_all (\<lambda>t. list_ex (\<lambda>lt. stem_eq lt t) l) g
      \<and> list_all (\<lambda>t. list_ex (\<lambda>lt. stem_eq lt t) g) l)"

section \<open>Quoted text and the target phrase\<close>

fun skip_past :: "string \<Rightarrow> string list \<Rightarrow> string list" where
  "skip_past close [] = []"
| "skip_past close (d # ds) = (if d = close then ds else skip_past close ds)"

lemma skip_past_length: "length (skip_past close chs) \<le> length chs"
  by (induction close chs rule: skip_past.induct) auto

definition closing_of :: "string \<Rightarrow> string" where
  "closing_of c = (if c = straight_quote then straight_quote else right_quote)"

text \<open>The loop of \<open>unquoted_text\<close> and of \<open>target_phrase\<close>: a quoted span becomes \<open>mark\<close>.\<close>

function replace_quoted :: "string \<Rightarrow> string list \<Rightarrow> string" where
  "replace_quoted mark [] = []"
| "replace_quoted mark (c # chs) =
     (if c = straight_quote \<or> c = left_quote
      then mark @ replace_quoted mark (skip_past (closing_of c) chs)
      else c @ replace_quoted mark chs)"
  by pat_completeness auto
termination
  by (relation "measure (\<lambda>(m, chs). length chs)") (auto simp: skip_past_length le_imp_less_Suc)

definition unquoted_text :: "string \<Rightarrow> string" where
  "unquoted_text goal = replace_quoted [] (chars_of goal)"

definition LEADING_VERBS :: "string list" where
  "LEADING_VERBS = [''click'', ''press'', ''tap'', ''type'', ''enter'', ''fill'', ''input'', ''select'',
     ''choose'', ''pick'', ''open'']"

definition CONNECTIVES :: "string list" where
  "CONNECTIVES = [''into'', ''in'', ''on'', ''to'', ''the'', ''a'', ''an'', ''from'', ''as'']"

abbreviation quote_mark :: string where
  "quote_mark \<equiv> [CHR 0x00]"

fun phrase_words :: "bool \<Rightarrow> string list \<Rightarrow> string list" where
  "phrase_words after_marker [] = []"
| "phrase_words after_marker (w # ws) =
     (if w = quote_mark then phrase_words True ws
      else if after_marker \<and> list_ex (eq_ignore_ascii_case w) CONNECTIVES then phrase_words after_marker ws
      else w # phrase_words False ws)"

definition target_phrase :: "string \<Rightarrow> string option" where
  "target_phrase goal =
     (let all = split_whitespace (replace_quoted ('' '' @ quote_mark @ '' '') (chars_of goal));
          stripped = (case all of [] \<Rightarrow> False | w # _ \<Rightarrow> list_ex (eq_ignore_ascii_case w) LEADING_VERBS);
          ws = (if stripped then tl all else all);
          first_word = List.find (\<lambda>w. w \<noteq> quote_mark) ws;
          had_marker = (quote_mark \<in> set ws);
          out = phrase_words stripped ws;
          named = (case out of [] \<Rightarrow> False | a # _ \<Rightarrow>
                     (case first_word of None \<Rightarrow> False | Some b \<Rightarrow> eq_ignore_ascii_case a b));
          out = (if had_marker \<and> \<not> stripped \<and> named then tl out else out);
          phrase = join '' '' out
      in if phrase = [] then None else Some phrase)"

text \<open>\<open>quoted_literals\<close>: the scan stops at a quote that is never closed.\<close>

fun until_close :: "string \<Rightarrow> string list \<Rightarrow> (string \<times> string list) option" where
  "until_close close [] = None"
| "until_close close (d # ds) =
     (if d = close then Some ([], ds) else map_option (\<lambda>(s, rest). (d @ s, rest)) (until_close close ds))"

lemma until_close_length: "until_close close chs = Some (s, rest) \<Longrightarrow> length rest < length chs"
  by (induction close chs arbitrary: s rule: until_close.induct) (auto split: if_splits)

function literal_loop :: "string list \<Rightarrow> string list" where
  "literal_loop [] = []"
| "literal_loop (c # chs) =
     (if c = straight_quote \<or> c = left_quote then
        (case until_close (closing_of c) chs of
           None \<Rightarrow> []
         | Some (s, rest) \<Rightarrow> (if s = [] then [] else [s]) @ literal_loop rest)
      else literal_loop chs)"
  by pat_completeness auto
termination
  by (relation "measure length") (auto dest: until_close_length)

definition quoted_literals :: "string \<Rightarrow> string list" where
  "quoted_literals goal = literal_loop (chars_of goal)"

section \<open>Overlap and coverage\<close>

definition overlap_normalized :: "'o instinct \<Rightarrow> 'o \<Rightarrow> string \<Rightarrow> int option" where
  "overlap_normalized I query candidate =
     (case ic_normalize I candidate (ic_config I query) of None \<Rightarrow> None | Some c \<Rightarrow> ic_overlap I query c)"

definition lexical_overlap :: "'o instinct \<Rightarrow> string \<Rightarrow> string \<Rightarrow> int option" where
  "lexical_overlap I goal candidate =
     (case ic_normalize I goal (ic_default_config I) of None \<Rightarrow> None | Some q \<Rightarrow> overlap_normalized I q candidate)"

definition sliver_scaled :: "operation_kind \<Rightarrow> bool" where
  "sliver_scaled k = (k = OkClick)"

definition hits_in :: "string list \<Rightarrow> string list \<Rightarrow> nat" where
  "hits_in goal_tokens label_tokens = length (filter (\<lambda>t. t \<in> set label_tokens) goal_tokens)"

definition scale_by_coverage :: "unicode \<Rightarrow> 'o instinct \<Rightarrow> int \<Rightarrow> string \<Rightarrow> string \<Rightarrow> int" where
  "scale_by_coverage U I conf goal label =
     (let gts = tokenize_text U goal in
      if gts = [] then ic_zero I
      else ic_saturating I ((conf * int (hits_in gts (tokenize_text U label))) sdiv int (length gts)))"

definition covers_most :: "unicode \<Rightarrow> string \<Rightarrow> string \<Rightarrow> bool" where
  "covers_most U goal label =
     (let gts = tokenize_text U goal in
      gts \<noteq> [] \<and> length gts * 2 \<le> hits_in gts (tokenize_text U label) * 3)"

definition phrase_or_clause :: "string \<Rightarrow> string" where
  "phrase_or_clause clause = (case target_phrase clause of None \<Rightarrow> clause | Some p \<Rightarrow> p)"

definition label_covers_target :: "unicode \<Rightarrow> string \<Rightarrow> string \<Rightarrow> bool" where
  "label_covers_target U clause label = covers_most U (phrase_or_clause clause) label"

definition label_names_target :: "unicode \<Rightarrow> string \<Rightarrow> string \<Rightarrow> bool" where
  "label_names_target U clause label =
     (let phrase = phrase_or_clause clause in covers_most U phrase label \<and> covers_most U label phrase)"

section \<open>Scores\<close>

definition done_suppressed :: "operation_kind \<Rightarrow> goal_evidence \<Rightarrow> bool" where
  "done_suppressed k ctx = (k = OkDone \<and> ge_has_literal ctx)"

definition keyword_goal :: "string \<Rightarrow> goal_evidence \<Rightarrow> string" where
  "keyword_goal goal ctx = (if ge_has_literal ctx then unquoted_text goal else goal)"

definition exact_label_ctx :: "unicode \<Rightarrow> string \<Rightarrow> evidence_target \<Rightarrow> goal_evidence \<Rightarrow> bool" where
  "exact_label_ctx U goal t ctx =
     (eq_fold U goal (et_label t)
      \<or> (case target_phrase goal of None \<Rightarrow> False | Some p \<Rightarrow> eq_fold U p (et_label t))
      \<or> operation_is_control (et_kind t) \<and> \<not> done_suppressed (et_kind t) ctx
        \<and> (eq_fold U goal (operation_as_str (et_kind t))
           \<or> control_keyword_hit U (keyword_goal goal ctx) (et_kind t)))"

text \<open>The verb of a clause whose payload is not placed yet is no evidence.\<close>

definition residual_goal :: "unicode \<Rightarrow> string \<Rightarrow> goal_evidence \<Rightarrow> string" where
  "residual_goal U goal ctx =
     (let goal = keyword_goal goal ctx in
      if ge_unplaced ctx then
        (let toks = split_whitespace goal in
         join '' '' (case toks of [] \<Rightarrow> []
                    | t # ts \<Rightarrow> if stem_eq (uc_str_lower U t) (ge_verb ctx) then ts else toks))
      else goal)"

definition overlap_channel :: "unicode \<Rightarrow> 'o instinct \<Rightarrow> operation_kind \<Rightarrow> string \<Rightarrow> string \<Rightarrow> int \<Rightarrow> int" where
  "overlap_channel U I k goal label score =
     (case lexical_overlap I goal label of None \<Rightarrow> score
      | Some ov \<Rightarrow> ic_saturating_add I score
          (if \<not> sliver_scaled k \<or> covers_most U goal label then ov else scale_by_coverage U I ov goal label))"

definition containment_channel :: "unicode \<Rightarrow> 'o instinct \<Rightarrow> operation_kind \<Rightarrow> string \<Rightarrow> string \<Rightarrow> int \<Rightarrow> int" where
  "containment_channel U I k goal label score =
     (let g = fold_text U goal; l = fold_text U label in
      if l \<noteq> [] \<and> str_contains g l \<and> (\<not> sliver_scaled k \<or> covers_most U goal label)
      then ic_saturating_add I score (ic_saturating I 250)
      else if g \<noteq> [] \<and> str_contains l g then ic_saturating_add I score (ic_saturating I 200)
      else score)"

definition token_channel :: "unicode \<Rightarrow> 'o instinct \<Rightarrow> string \<Rightarrow> string \<Rightarrow> int \<Rightarrow> int" where
  "token_channel U I goal label score =
     (let gts = tokenize_text U goal; hits = hits_in gts (tokenize_text U label) in
      if gts = [] then score
      else if hits = length gts \<and> 0 < hits then ic_saturating_add I score (ic_saturating I 300)
      else if 0 < hits then ic_saturating_add I score (ic_saturating I (int (hits * 150 div length gts)))
      else score)"

definition score_action_text_ctx ::
    "unicode \<Rightarrow> 'o instinct \<Rightarrow> string \<Rightarrow> evidence_target \<Rightarrow> goal_evidence \<Rightarrow> int" where
  "score_action_text_ctx U I goal t ctx =
     (let label = et_label t; k = et_kind t in
      if eq_fold U goal label then ic_max I
      else if operation_is_control k \<and> eq_fold U goal (operation_as_str k) then ic_max I
      else
        let goal = residual_goal U goal ctx in
        if operation_is_control k \<and> \<not> done_suppressed k ctx \<and> control_keyword_hit U goal k
        then ic_saturating I 920
        else
          let score = overlap_channel U I k goal label (ic_zero I);
              score = containment_channel U I k goal label score;
              score = token_channel U I goal label score;
              score = (case et_role t of None \<Rightarrow> score
                       | Some role \<Rightarrow> if role_mentioned U goal role
                                     then ic_saturating_add I score (ic_saturating I 80) else score)
          in if k = OkDone \<and> \<not> done_suppressed k ctx \<and> done_language U goal
             then ic_saturating_add I score (ic_saturating I 100) else score)"

definition score_action_best_ctx ::
    "unicode \<Rightarrow> 'o instinct \<Rightarrow> string \<Rightarrow> evidence_target \<Rightarrow> goal_evidence \<Rightarrow> int" where
  "score_action_best_ctx U I goal t ctx =
     (let whole = score_action_text_ctx U I goal t ctx in
      case target_phrase goal of
        Some phrase \<Rightarrow>
          if phrase \<noteq> goal then
            (let p = score_action_text_ctx U I phrase t ctx in if whole < p then p else whole)
          else whole
      | None \<Rightarrow> whole)"

text \<open>\<open>i16::saturating_add\<close>.\<close>

definition i16_saturating_add :: "int \<Rightarrow> int \<Rightarrow> int" where
  "i16_saturating_add a b = max (-32768) (min 32767 (a + b))"

definition soft_bonus :: "'o instinct \<Rightarrow> bool \<Rightarrow> int \<Rightarrow> int \<Rightarrow> int" where
  "soft_bonus I exact bonus best =
     (let lifted = i16_saturating_add best bonus in
      if exact then ic_saturating I lifted else ic_saturating I (min lifted NON_EXACT_CAP))"

definition literal_channel ::
    "unicode \<Rightarrow> 'o instinct \<Rightarrow> evidence_target \<Rightarrow> goal_evidence \<Rightarrow> int \<Rightarrow> int" where
  "literal_channel U I t ctx best =
     fold (\<lambda>literal best.
        let lit = min (score_action_text_ctx U I literal t ctx) NON_EXACT_CAP in
        if best < lit then ic_saturating I lit else best) (ge_literals ctx) best"

definition is_exact :: "unicode \<Rightarrow> string \<Rightarrow> evidence_target \<Rightarrow> goal_evidence \<Rightarrow> bool" where
  "is_exact U goal t ctx =
     (exact_label_ctx U goal t ctx \<or> tokens_equal U goal (et_label t)
      \<or> ge_toggle ctx \<and> et_role t = Some ''checkbox'' \<and> object_covered U goal (et_label t) ctx)"

definition score_action_ctx ::
    "unicode \<Rightarrow> 'o instinct \<Rightarrow> string \<Rightarrow> evidence_target \<Rightarrow> goal_evidence \<Rightarrow> int" where
  "score_action_ctx U I goal t ctx =
     (let best = literal_channel U I t ctx (score_action_best_ctx U I goal t ctx);
          exact = is_exact U goal t ctx;
          covered = object_covered U goal (et_label t) ctx;
          best = (if best = ic_max I \<and> \<not> exact then ic_saturating I NON_EXACT_CAP else best);
          best = (if \<not> ge_unplaced ctx \<and> ge_verb ctx \<noteq> [] \<and> verb_matches U (ge_verb ctx) (et_label t)
                  then soft_bonus I exact (if covered then 650 else 500) best else best);
          best = (if list_ex (\<lambda>w. eq_fold U w (et_label t)) (ge_nav_locatives ctx)
                  then soft_bonus I exact 600 best else best);
          best = (if ge_toggle ctx \<and> et_role t = Some ''checkbox'' then
                    (let bonus = (if ge_sole_checkbox ctx = Some (et_id t) then 700 else 300)
                                 + (if covered then 150 else 0)
                     in if exact then ic_saturating_add I best (ic_saturating I bonus)
                        else soft_bonus I exact bonus best)
                  else best)
      in if et_kind t = OkTypeText \<and> ge_payload_target ctx = Some (et_id t)
         then ic_saturating_add I best (ic_saturating I 850) else best)"

definition score_action :: "unicode \<Rightarrow> 'o instinct \<Rightarrow> string \<Rightarrow> evidence_target \<Rightarrow> int" where
  "score_action U I goal t = score_action_ctx U I goal t default_evidence"

definition score_operation_ctx ::
    "unicode \<Rightarrow> 'o instinct \<Rightarrow> string \<Rightarrow> operation_kind \<Rightarrow> evidence_target option \<Rightarrow> goal_evidence \<Rightarrow> int" where
  "score_operation_ctx U I goal k best_target ctx =
     (let kw = keyword_goal goal ctx;
          score = (if control_keyword_hit U kw k \<and> \<not> done_suppressed k ctx
                   then ic_saturating_add I (ic_zero I) (ic_saturating I 920) else ic_zero I)
      in if eq_fold U goal (operation_as_str k) then ic_max I
         else case best_target of
           Some t \<Rightarrow>
             (let s = score_action_ctx U I goal t ctx;
                  score = (if score < s then s else score);
                  named = named_target_operations U kw
              in if named \<noteq> [] \<and> k \<notin> set named then ic_saturating I (min score UNNAMED_OPERATION_CAP)
                 else score)
         | None \<Rightarrow>
             if operation_is_control k then ic_saturating_add I score (ic_saturating I 50) else score)"

definition score_operation ::
    "unicode \<Rightarrow> 'o instinct \<Rightarrow> string \<Rightarrow> operation_kind \<Rightarrow> evidence_target option \<Rightarrow> int" where
  "score_operation U I goal k best_target = score_operation_ctx U I goal k best_target default_evidence"

section \<open>Names in an intent\<close>

text \<open>
  A slice \<open>s[i..]\<close> panics unless \<open>i\<close> is a character boundary of \<open>s\<close>; the search below
  restarts one byte after a hit, so the model returns \<open>None\<close> where the code panics.
\<close>

definition is_char_boundary :: "string \<Rightarrow> nat \<Rightarrow> bool" where
  "is_char_boundary s i = (i = 0 \<or> i = length s \<or> i < length s \<and> \<not> is_cont (s ! i))"

definition word_boundary :: "char \<Rightarrow> bool" where
  "word_boundary b = (\<not> (is_ascii_alnum b \<or> b = CHR ''_'' \<or> b = CHR ''-''))"

definition is_ascii_upper :: "char \<Rightarrow> bool" where
  "is_ascii_upper c = (let n = of_char c :: nat in 65 \<le> n \<and> n \<le> 90)"

function name_scan :: "string \<Rightarrow> string \<Rightarrow> nat \<Rightarrow> bool option" where
  "name_scan hay name start =
     (if length hay < start \<or> \<not> is_char_boundary hay start then None
      else case str_find (drop start hay) name of
        None \<Rightarrow> Some False
      | Some rel \<Rightarrow>
          (let pos = start + rel; stop = pos + length name in
           if (pos = 0 \<or> word_boundary (hay ! (pos - 1))) \<and> (length hay \<le> stop \<or> word_boundary (hay ! stop))
           then Some True
           else name_scan hay name (pos + 1)))"
  by pat_completeness auto
termination
  by (relation "measure (\<lambda>(hay, name, start). Suc (length hay) - start)") auto

declare name_scan.simps [simp del]

definition name_in_intent_lowered :: "string \<Rightarrow> string \<Rightarrow> bool option" where
  "name_in_intent_lowered intent_lower name =
     name_scan intent_lower (if list_ex is_ascii_upper name then to_ascii_lowercase name else name) 0"

definition name_in_intent :: "string \<Rightarrow> string \<Rightarrow> bool option" where
  "name_in_intent intent name = name_in_intent_lowered (to_ascii_lowercase intent) name"

end
