(* ===== verification/Text_Resolver.thy ===== *)
theory Text_Resolver
  imports Goal Evidence Ui_Tree
begin

text \<open>
  \<open>crates/gpui-agent-policy/src/text.rs\<close>: what to type into a field, taken from the quoted
  literals of the goal or from the patterns \<open>type .. into ..\<close> and \<open>fill .. with ..\<close>.  Byte
  offsets are those of the source; every slice it takes lies on character boundaries, next
  to an ASCII character or a character that was found.
\<close>

record text_context =
  tc_goal :: ui_goal
  tc_field_label :: string
  tc_field_role :: string
  tc_typed :: "string list"
  tc_fingerprint :: u64

definition context_fingerprint :: "text_context \<Rightarrow> u64" where
  "context_fingerprint c =
     (let h = feed FNV_OFF (str_bytes (goal_text (tc_goal c)));
          h = feed h (str_bytes (tc_field_label c))
      in (h XOR tc_fingerprint c) * FNV_PRIME)"

record text_resolution =
  tr_text :: string
  tr_fingerprint :: u64

datatype text_error = TextAmbiguous | TextMissing | TextInvalid string | TextAbstain string

fun text_error_text :: "text_error \<Rightarrow> string" where
  "text_error_text TextAmbiguous = ''text resolution ambiguous''"
| "text_error_text TextMissing = ''no text value found in goal/context''"
| "text_error_text (TextInvalid msg) = ''invalid text: '' @ msg"
| "text_error_text (TextAbstain msg) = ''text resolver abstained: '' @ msg"

section \<open>Quoted literals with their offsets\<close>

text \<open>Unlike in \<open>evidence.rs\<close>, a quote that is never closed is passed over and the scan goes
  on behind it.\<close>

function literals_at :: "nat \<Rightarrow> string list \<Rightarrow> (nat \<times> string) list" where
  "literals_at off [] = []"
| "literals_at off (c # chs) =
     (if c = straight_quote \<or> c = left_quote then
        (let close = closing_of c in
         case until_close close chs of
           None \<Rightarrow> literals_at (off + length c) chs
         | Some (s, rest) \<Rightarrow>
             (if s = [] then [] else [(off, s)])
             @ literals_at (off + length c + length s + length close) rest)
      else literals_at (off + length c) chs)"
  by pat_completeness auto
termination
  by (relation "measure (\<lambda>(off, chs). length chs)") (auto dest: until_close_length)

definition quoted_literals_at :: "string \<Rightarrow> (nat \<times> string) list" where
  "quoted_literals_at goal = literals_at 0 (chars_of goal)"

text \<open>\<open>ascii_words\<close>: the maximal runs of ASCII letters and digits, in lower case.\<close>

fun ascii_word_loop :: "string \<Rightarrow> string \<Rightarrow> string list" where
  "ascii_word_loop [] acc = (if acc = [] then [] else [acc])"
| "ascii_word_loop (c # s) acc =
     (if is_ascii_alnum c then ascii_word_loop s (acc @ [c])
      else (if acc = [] then [] else [acc]) @ ascii_word_loop s [])"

definition ascii_words :: "string \<Rightarrow> string list" where
  "ascii_words text = map to_ascii_lowercase (ascii_word_loop text [])"

fun first_quoted :: "string \<Rightarrow> string option" where
  "first_quoted [] = None"
| "first_quoted (c # s) =
     (if c = CHR 0x22 \<or> c = CHR 0x27
      then (if c \<in> set s then Some (takeWhile (\<lambda>d. d \<noteq> c) s) else None)
      else first_quoted s)"

definition trim_quotes :: "string \<Rightarrow> string" where
  "trim_quotes s = (let q = (\<lambda>c. c = CHR 0x22 \<or> c = CHR 0x27)
     in rev (dropWhile q (rev (dropWhile q s))))"

definition type_into_pattern :: "string \<Rightarrow> string \<Rightarrow> string option" where
  "type_into_pattern goal field =
     (let lower = to_ascii_lowercase goal; field_l = to_ascii_lowercase field in
      case str_find lower ''type '' of None \<Rightarrow> None
      | Some type_idx \<Rightarrow>
        (case str_find lower '' into '' of None \<Rightarrow> None
         | Some into_idx \<Rightarrow>
             if into_idx < type_idx + 5 then None
             else
               let v = trim (take (into_idx - (type_idx + 5)) (drop (type_idx + 5) goal));
                   after = drop (into_idx + 6) lower
               in if \<not> str_contains after field_l \<and> field_l \<noteq> [] \<and> field \<noteq> [] then None
                  else if v = [] then None
                  else Some (trim_quotes v)))"

definition fill_with_pattern :: "string \<Rightarrow> string \<Rightarrow> string option" where
  "fill_with_pattern goal field =
     (let lower = to_ascii_lowercase goal; field_l = to_ascii_lowercase field in
      if field_l \<noteq> [] \<and> \<not> str_contains lower field_l then None
      else case str_find lower '' with '' of None \<Rightarrow> None
      | Some with_idx \<Rightarrow>
          (let v = trim (drop (with_idx + 6) goal) in if v = [] then None else Some (trim_quotes v)))"

section \<open>The resolver\<close>

text \<open>The last 32 characters before the quote, and of those the last three words.\<close>

definition words_before :: "string \<Rightarrow> string list" where
  "words_before before =
     (let chs = chars_of before in take 3 (rev (ascii_words (concat (drop (length chs - 32) chs)))))"

definition resolve_text_det :: "text_context \<Rightarrow> text_error + text_resolution" where
  "resolve_text_det c =
     (let goal = goal_text (tc_goal c); literals = quoted_literals_at goal;
          found = (\<lambda>s. Inr \<lparr>tr_text = s, tr_fingerprint = context_fingerprint c\<rparr>)
      in if literals \<noteq> [] then
           (let untyped = filter (\<lambda>(_, lit). lit \<notin> set (tc_typed c)) literals in
            case untyped of
              [] \<Rightarrow> Inl (TextAbstain ''no quoted literal left for this field'')
            | [(_, lit)] \<Rightarrow> found lit
            | _ \<Rightarrow>
                (let label_words = ascii_words (tc_field_label c) in
                 case List.find (\<lambda>(q, _). list_ex (\<lambda>w. w \<in> set label_words) (words_before (take q goal))) untyped of
                   None \<Rightarrow> Inl TextAmbiguous
                 | Some (_, lit) \<Rightarrow> found lit))
         else case first_quoted goal of
           Some q \<Rightarrow> if q = [] then Inl TextMissing else found q
         | None \<Rightarrow>
             (case type_into_pattern goal (tc_field_label c) of
                Some v \<Rightarrow> found v
              | None \<Rightarrow>
                  (case fill_with_pattern goal (tc_field_label c) of
                     Some v \<Rightarrow> found v
                   | None \<Rightarrow> Inl TextMissing)))"

end
