(* ===== verification/Clause_Laws.thy ===== *)
theory Clause_Laws
  imports Text_Resolver
begin

text \<open>
  Laws of the goal: joining plain clauses with \<open>then\<close> and splitting them again gives the clauses
  back; what the resolver types is a verbatim quoted part of the goal that was not typed before.
\<close>

section \<open>Connectives\<close>

abbreviation then_chars :: "string list" where
  "then_chars \<equiv> chars_of '' then ''"

lemma starts_with_prefix: "length p \<le> length u \<Longrightarrow> starts_with (u @ v) p \<longleftrightarrow> starts_with u p"
  by (induction u p rule: starts_with.induct) auto

lemma lower_append: "to_ascii_lowercase (s @ t) = to_ascii_lowercase s @ to_ascii_lowercase t"
  by (simp add: to_ascii_lowercase_def)

lemma lower_then: "to_ascii_lowercase '' then '' = '' then ''"
  by code_simp

lemma and_then_inside:
  assumes "x \<noteq> []" "starts_with (x @ '' then '' @ y) '' and then ''"
  shows "starts_with (x @ '' then '') '' and then ''"
proof (cases "4 \<le> length x")
  case True
  then show ?thesis using starts_with_prefix [of "'' and then ''" "x @ '' then ''" y] assms(2) by simp
next
  case False
  then consider a where "x = [a]" | a b where "x = [a, b]" | a b c where "x = [a, b, c]"
    using assms(1) by (cases x rule: list.exhaust; cases "tl x"; cases "tl (tl x)"; cases "tl (tl (tl x))") auto
  then show ?thesis using assms(2) by cases auto
qed

lemma match_connective_None_iff:
  "match_connective r = None \<longleftrightarrow> \<not> starts_with (to_ascii_lowercase (concat r)) '' and then ''
     \<and> \<not> starts_with (to_ascii_lowercase (concat r)) '' then ''"
  by (simp add: match_connective_def connectives_def Let_def)

lemma lower_then_chars:
  "to_ascii_lowercase (concat (xs @ then_chars)) = to_ascii_lowercase (concat xs) @ '' then ''"
  "to_ascii_lowercase (concat (xs @ then_chars @ rest)) = to_ascii_lowercase (concat xs) @ '' then '' @ to_ascii_lowercase (concat rest)"
  by (simp_all only: concat_append concat_chars_of lower_append lower_then)

lemma match_connective_more:
  assumes "concat xs \<noteq> []" "match_connective (xs @ then_chars) = None"
  shows "match_connective (xs @ then_chars @ rest) = None"
proof -
  let ?x = "to_ascii_lowercase (concat xs)" and ?y = "to_ascii_lowercase (concat rest)"
  have x: "?x \<noteq> []" using assms(1) by (simp add: to_ascii_lowercase_def)
  then have len: "6 \<le> length (?x @ '' then '')" by (cases ?x) auto
  have no: "\<not> starts_with (?x @ '' then '') '' and then ''" "\<not> starts_with (?x @ '' then '') '' then ''"
    using assms(2) unfolding match_connective_None_iff lower_then_chars by simp_all
  have "\<not> starts_with (?x @ '' then '' @ ?y) '' and then ''" using and_then_inside [OF x] no(1) by blast
  moreover have "\<not> starts_with (?x @ '' then '' @ ?y) '' then ''"
    using starts_with_prefix [of "'' then ''" "?x @ '' then ''" ?y] len no(2) by simp
  ultimately show ?thesis unfolding match_connective_None_iff lower_then_chars by simp
qed

section \<open>Plain clauses\<close>

text \<open>Quotes are closed, and no connective begins outside of them.\<close>

fun plain_scan :: "string option \<Rightarrow> string list \<Rightarrow> bool" where
  "plain_scan q [] = (q = None)"
| "plain_scan (Some q) (c # chs) = plain_scan (if c = q then None else Some q) chs"
| "plain_scan None (c # chs) =
     (if c \<in> {[CHR 0x22], [CHR 0x27]} then plain_scan (Some c) chs
      else match_connective ((c # chs) @ then_chars) = None \<and> plain_scan None chs)"

definition plain_clause :: "string \<Rightarrow> bool" where
  "plain_clause c \<longleftrightarrow> c \<noteq> [] \<and> trim c = c \<and> \<not> is_cont (hd c) \<and> plain_scan None (chars_of c)"

lemma match_then: "match_connective (then_chars @ rest) = Some 6"
proof -
  have "to_ascii_lowercase (concat (then_chars @ rest)) = '' then '' @ to_ascii_lowercase (concat rest)"
    using lower_then_chars(2) [of "[]" rest] by (simp only: append_Nil concat.simps) (simp add: to_ascii_lowercase_def)
  then show ?thesis unfolding match_connective_def Let_def by (simp only:) (simp add: connectives_def)
qed

lemma then_chars_list: "then_chars = [[CHR '' ''], ''t'', ''h'', ''e'', ''n'', [CHR '' '']]"
  by code_simp

lemma clause_loop_then:
  "plain_scan q chs \<Longrightarrow> \<forall>c \<in> set chs. c \<noteq> [] \<Longrightarrow>
   clause_loop q cur (chs @ then_chars @ rest) parts = clause_loop None [] rest (push_trimmed (cur @ chs) parts)"
proof (induction q chs arbitrary: cur rule: plain_scan.induct)
  case (1 q)
  have m: "match_connective ([CHR '' ''] # ''t'' # ''h'' # ''e'' # ''n'' # [CHR '' ''] # rest) = Some 6"
    using match_then [of rest] by (simp add: then_chars_list del: chars_of.simps)
  show ?case using 1 m by (simp add: then_chars_list del: chars_of.simps)
next
  case (3 c chs)
  show ?case
  proof (cases "c \<in> {[CHR 0x22], [CHR 0x27]}")
    case True
    then show ?thesis using 3 by auto
  next
    case False
    then have "match_connective ((c # chs) @ then_chars @ rest) = None"
      using 3(3,4) by (intro match_connective_more) auto
    then show ?thesis using 3(2) [OF False, of "cur @ [c]"] 3(3,4) False by simp
  qed
qed simp

lemma match_connective_tail:
  "match_connective (chs @ then_chars) = None \<Longrightarrow> match_connective chs = None"
  unfolding match_connective_None_iff lower_then_chars by (auto simp: starts_with_iff)

lemma clause_loop_end: "plain_scan q chs \<Longrightarrow> clause_loop q cur chs parts = push_trimmed (cur @ chs) parts"
proof (induction q chs arbitrary: cur rule: plain_scan.induct)
  case (3 c chs)
  show ?case
  proof (cases "c \<in> {[CHR 0x22], [CHR 0x27]}")
    case True
    then show ?thesis using 3 by auto
  next
    case False
    then have "match_connective (c # chs) = None" using 3(3) match_connective_tail [of "c # chs"] by auto
    then show ?thesis using 3(2) [OF False, of "cur @ [c]"] 3(3) False by simp
  qed
qed simp_all

lemma plain_push: "plain_clause c \<Longrightarrow> push_trimmed (chars_of c) parts = parts @ [c]"
  by (simp add: push_trimmed_def plain_clause_def Let_def)

lemma join_then_start: "cs \<noteq> [] \<Longrightarrow> \<forall>c \<in> set cs. plain_clause c \<Longrightarrow> \<not> is_cont (hd (join '' then '' cs))"
  by (cases cs; cases "tl cs") (auto simp: plain_clause_def)

lemma clause_loop_join:
  "cs \<noteq> [] \<Longrightarrow> \<forall>c \<in> set cs. plain_clause c \<Longrightarrow> clause_loop None [] (chars_of (join '' then '' cs)) parts = parts @ cs"
proof (induction "'' then ''" cs arbitrary: parts rule: join.induct)
  case (2 x)
  then show ?case using clause_loop_end [of None "chars_of x" "[]" parts] plain_push by (simp add: plain_clause_def)
next
  case (3 x y ys)
  let ?rest = "join '' then '' (y # ys)"
  have "\<not> is_cont (hd ?rest)" using join_then_start [of "y # ys"] 3(3) by simp
  then have chs: "chars_of (x @ '' then '' @ ?rest) = chars_of x @ then_chars @ chars_of ?rest"
    using chars_of_app [of ?rest "'' then ''"] chars_of_app [of "'' then '' @ ?rest" x]
    by (simp add: is_cont_def del: chars_of.simps)
  have "clause_loop None [] (chars_of x @ then_chars @ chars_of ?rest) parts
      = clause_loop None [] (chars_of ?rest) (push_trimmed ([] @ chars_of x) parts)"
    using 3(3) chars_of_ne by (intro clause_loop_then) (auto simp: plain_clause_def)
  also have "\<dots> = parts @ x # y # ys"
    using 3(1) [of "parts @ [x]"] 3(3) plain_push [of x parts] by simp
  finally show ?case using chs by simp
qed simp

section \<open>Quoted payloads\<close>

lemma until_close_concat: "until_close close chs = Some (s, rest) \<Longrightarrow> concat chs = s @ close @ concat rest"
  by (induction close chs arbitrary: s rest rule: until_close.induct) (auto split: if_splits)

lemma literals_at_slice:
  "(off, s) \<in> set (literals_at k chs) \<Longrightarrow>
   \<exists>pre q post. concat chs = pre @ q @ s @ closing_of q @ post \<and> off = k + length pre \<and> (q = straight_quote \<or> q = left_quote)"
proof (induction k chs rule: literals_at.induct)
  case (2 k c chs)
  have later: ?case if "concat (c # chs) = u @ concat r" "(off, s) \<in> set (literals_at (k + length u) r)"
      "\<exists>pre q post. concat r = pre @ q @ s @ closing_of q @ post \<and> off = k + length u + length pre
         \<and> (q = straight_quote \<or> q = left_quote)" for u r
  proof -
    note facts = that
    obtain pre q post where "concat r = pre @ q @ s @ closing_of q @ post" "off = k + length u + length pre"
      "q = straight_quote \<or> q = left_quote" using facts(3) by blast
    then show ?thesis using facts(1) by (intro exI [of _ "u @ pre"] exI [of _ q] exI [of _ post]) simp
  qed
  show ?case
  proof (cases "c = straight_quote \<or> c = left_quote")
    case False
    then show ?thesis using 2 later [of c chs] by auto
  next
    case True
    show ?thesis
    proof (cases "until_close (closing_of c) chs")
      case None
      then have "(off, s) \<in> set (literals_at (k + length c) chs)" using 2(4) True by auto
      then show ?thesis using 2(1) [OF True refl None] later [of c chs] by simp
    next
      case (Some x)
      then obtain t rest where x: "until_close (closing_of c) chs = Some (t, rest)" by (cases x) auto
      have cat: "concat (c # chs) = (c @ t @ closing_of c) @ concat rest"
        using until_close_concat [OF x] by simp
      consider "off = k" "s = t" | "(off, s) \<in> set (literals_at (k + length (c @ t @ closing_of c)) rest)"
        using 2(4) True x by (auto simp: Let_def add.assoc split: if_splits)
      then show ?thesis
      proof cases
        case 1
        then show ?thesis using until_close_concat [OF x] True
          by (intro exI [of _ "[]"] exI [of _ c] exI [of _ "concat rest"]) simp
      next
        case m: 2
        then show ?thesis using 2(2) [OF True refl x refl] later [OF cat m] by (simp add: add.assoc)
      qed
    qed
  qed
qed simp

lemma quoted_literal_slice:
  "(off, s) \<in> set (quoted_literals_at goal) \<Longrightarrow>
   \<exists>pre q post. goal = pre @ q @ s @ closing_of q @ post \<and> off = length pre \<and> (q = straight_quote \<or> q = left_quote)"
  using literals_at_slice [of off s 0 "chars_of goal"] by (simp add: quoted_literals_at_def)

lemma resolve_untyped:
  assumes "resolve_text_det c = Inr r" "quoted_literals_at (goal_text (tc_goal c)) \<noteq> []"
  shows "\<exists>off. (off, tr_text r) \<in> set (quoted_literals_at (goal_text (tc_goal c))) \<and> tr_text r \<notin> set (tc_typed c)"
proof -
  let ?ls = "quoted_literals_at (goal_text (tc_goal c))"
  let ?un = "filter (\<lambda>(_, lit). lit \<notin> set (tc_typed c)) ?ls"
  have "\<exists>off. (off, tr_text r) \<in> set ?un"
  proof (cases ?un rule: list.exhaust)
    case Nil
    then show ?thesis using assms by (simp add: resolve_text_det_def Let_def)
  next
    case (Cons x xs)
    show ?thesis
    proof (cases xs)
      case Nil
      then show ?thesis using assms Cons by (cases x) (auto simp: resolve_text_det_def Let_def)
    next
      case c2: (Cons y ys)
      then obtain off lit P where f: "List.find P ?un = Some (off, lit)" and r: "tr_text r = lit"
        using assms Cons by (auto simp: resolve_text_det_def Let_def split: option.splits)
      have "(off, lit) \<in> set ?un" using f unfolding find_Some_iff by (metis nth_mem)
      then show ?thesis using r by blast
    qed
  qed
  then show ?thesis by auto
qed

section \<open>Properties\<close>

text \<open>
  C23. Joining clauses with \<open>then\<close> and splitting the goal gives the clauses back, in order, when each of
  them is trimmed and not empty, closes its quotes, and no connective begins outside of the quotes in the clause
  followed by \<open>then\<close>: so it contains none, and none is completed by what is joined to it, as by a clause
  that ends in \<open>and\<close>.
\<close>

theorem clauses_round_trip:
  assumes "cs \<noteq> []" "\<forall>c \<in> set cs. plain_clause c"
  shows "split_sequential_clauses (join '' then '' cs) = cs"
  using clause_loop_join [OF assms, of "[]"] assms(1) by (simp add: split_sequential_clauses_def Let_def)

theorem clauses_round_trip_witness:
  "split_sequential_clauses (join '' then '' [''Type '' @ [CHR 0x22] @ ''a then b'' @ [CHR 0x22], ''click Go'']) =
   [''Type '' @ [CHR 0x22] @ ''a then b'' @ [CHR 0x22], ''click Go'']"
proof -
  have "plain_clause (''Type '' @ [CHR 0x22] @ ''a then b'' @ [CHR 0x22])" "plain_clause ''click Go''" by code_simp+
  then show ?thesis
    using clauses_round_trip [of "[''Type '' @ [CHR 0x22] @ ''a then b'' @ [CHR 0x22], ''click Go'']"] by simp
qed

text \<open>
  C24. When the clause quotes something in double or typographic double quotes, what is typed is a part of the
  clause between such quotes, byte for byte, and nothing that was typed before in the run.  Single quotes are
  not covered: what they enclose may be typed again.
\<close>

theorem quoted_payload:
  assumes "resolve_text_det c = Inr r" "quoted_literals_at (goal_text (tc_goal c)) \<noteq> []"
  shows "tr_text r \<notin> set (tc_typed c) \<and>
    (\<exists>pre q post. goal_text (tc_goal c) = pre @ q @ tr_text r @ closing_of q @ post \<and> (q = straight_quote \<or> q = left_quote))"
  using resolve_untyped [OF assms] quoted_literal_slice by blast

definition sample_context :: text_context where
  "sample_context = \<lparr>tc_goal = \<lparr>goal_text = ''add '' @ [CHR 0x22] @ ''milk'' @ [CHR 0x22]\<rparr>, tc_field_label = ''Draft'',
     tc_field_role = role_textbox, tc_typed = [''tea''], tc_fingerprint = 1\<rparr>"

theorem quoted_payload_witness: "\<exists>r. resolve_text_det sample_context = Inr r \<and> tr_text r \<notin> {''tea''}"
proof -
  have ls: "quoted_literals_at (goal_text (tc_goal sample_context)) = [(4, ''milk'')]" by code_simp
  then obtain r where r: "resolve_text_det sample_context = Inr r"
    by (simp add: resolve_text_det_def Let_def sample_context_def)
  have "tr_text r \<notin> set (tc_typed sample_context)" using quoted_payload [OF r] ls by simp
  then show ?thesis using r by (auto simp: sample_context_def)
qed

text \<open>Between single quotes a payload is typed again, although it was typed before.\<close>

lemma single_quotes_retyped:
  "resolve_text_det \<lparr>tc_goal = \<lparr>goal_text = ''type '' @ [CHR 0x27] @ ''milk'' @ [CHR 0x27] @ '' into Draft''\<rparr>,
      tc_field_label = ''Draft'', tc_field_role = role_textbox, tc_typed = [''milk''], tc_fingerprint = 1\<rparr>
    = Inr \<lparr>tr_text = ''milk'', tr_fingerprint = context_fingerprint \<lparr>tc_goal = \<lparr>goal_text = ''type '' @ [CHR 0x27] @ ''milk'' @ [CHR 0x27] @ '' into Draft''\<rparr>,
      tc_field_label = ''Draft'', tc_field_role = role_textbox, tc_typed = [''milk''], tc_fingerprint = 1\<rparr>\<rparr>"
  by code_simp

text \<open>An apostrophe opens a quote that may never close, and the connective behind it is not seen.\<close>

lemma apostrophe_hides_then: "split_sequential_clauses ''open Bob's list then click Add'' = [''open Bob's list then click Add'']"
  by code_simp

end
