(* ===== verification/Action_Space.thy ===== *)
theory Action_Space
  imports Evidence Keybinding Ui_Tree "HOL-Library.Product_Lexorder"
begin

text \<open>
  \<open>crates/gpui-agent-policy/src/action_space.rs\<close>: the finite set of actions offered for one
  observation of the tree.  The \<open>BTreeMap\<close> of the actions is an association list in the
  order of the ids; the recursion over the tree threads the actions and the texts.
\<close>

datatype action_kind =
  AkClick | AkType | AkSetValue | AkKey | AkKeybinding | AkInvoke | AkDone | AkBlocked | AkWait

fun kind_as_str :: "action_kind \<Rightarrow> string" where
  "kind_as_str AkClick = ''CLICK''"
| "kind_as_str AkType = ''TYPE''"
| "kind_as_str AkSetValue = ''SET_VALUE''"
| "kind_as_str AkKey = ''KEY''"
| "kind_as_str AkKeybinding = ''KEYBINDING''"
| "kind_as_str AkInvoke = ''INVOKE''"
| "kind_as_str AkDone = ''DONE''"
| "kind_as_str AkBlocked = ''BLOCKED''"
| "kind_as_str AkWait = ''WAIT''"

definition kind_parse :: "string \<Rightarrow> action_kind option" where
  "kind_parse raw =
     (if raw \<in> {''CLICK'', ''click''} then Some AkClick
      else if raw \<in> {''TYPE'', ''type'', ''TYPE_TEXT'', ''type_text''} then Some AkType
      else if raw \<in> {''SET_VALUE'', ''set_value''} then Some AkSetValue
      else if raw \<in> {''KEY'', ''key''} then Some AkKey
      else if raw \<in> {''KEYBINDING'', ''keybinding''} then Some AkKeybinding
      else if raw \<in> {''INVOKE'', ''invoke''} then Some AkInvoke
      else if raw \<in> {''DONE'', ''done''} then Some AkDone
      else if raw \<in> {''BLOCKED'', ''blocked''} then Some AkBlocked
      else if raw \<in> {''WAIT'', ''wait''} then Some AkWait
      else None)"

fun kind_operation :: "action_kind \<Rightarrow> operation_kind" where
  "kind_operation AkClick = OkClick"
| "kind_operation AkType = OkTypeText"
| "kind_operation AkSetValue = OkSetValue"
| "kind_operation AkKey = OkKey"
| "kind_operation AkKeybinding = OkKeybinding"
| "kind_operation AkInvoke = OkInvoke"
| "kind_operation AkDone = OkDone"
| "kind_operation AkBlocked = OkBlocked"
| "kind_operation AkWait = OkWait"

definition kind_is_control :: "action_kind \<Rightarrow> bool" where
  "kind_is_control k = operation_is_control (kind_operation k)"

section \<open>Ids\<close>

datatype action_space_error = EmptyId | InvalidId

fun space_error_text :: "action_space_error \<Rightarrow> string" where
  "space_error_text EmptyId = ''action id is empty''"
| "space_error_text InvalidId = ''action id contains whitespace or control chars''"

definition action_id_try_new :: "string \<Rightarrow> action_space_error + string" where
  "action_id_try_new raw =
     (if raw = [] then Inl EmptyId
      else if list_ex (\<lambda>ch. char_is_whitespace ch \<or> char_is_control ch) (chars_of raw) then Inl InvalidId
      else Inr raw)"

definition id_for_target :: "action_kind \<Rightarrow> string \<Rightarrow> string" where
  "id_for_target k node_id = kind_as_str k @ '':'' @ node_id"

definition id_for_key :: "string \<Rightarrow> string \<Rightarrow> string" where
  "id_for_key node_id key = ''KEY:'' @ node_id @ '':'' @ key"

definition id_for_entity :: "action_kind \<Rightarrow> string \<Rightarrow> string" where
  "id_for_entity k name = kind_as_str k @ '':'' @ name"

definition id_for_control :: "action_kind \<Rightarrow> string" where
  "id_for_control k = kind_as_str k"

section \<open>Offered actions\<close>

record offered_invoke =
  oi_name :: string
  oi_description :: string
  oi_dangerous :: bool

record node_state =
  ns_value :: "string option"
  ns_checked :: "bool option"
  ns_states :: "string list"

definition node_state_of :: "ui_node \<Rightarrow> node_state option" where
  "node_state_of n =
     (let s = \<lparr>ns_value = nd_value (data n), ns_checked = nd_checked (data n), ns_states = nd_states (data n)\<rparr>
      in if s \<noteq> \<lparr>ns_value = None, ns_checked = None, ns_states = []\<rparr> then Some s else None)"

definition node_state_json :: "node_state \<Rightarrow> json" where
  "node_state_json s = json_obj
     ((case ns_value s of None \<Rightarrow> [] | Some v \<Rightarrow> [(''value'', JStr v)])
      @ (case ns_checked s of None \<Rightarrow> [] | Some b \<Rightarrow> [(''checked'', JBool b)])
      @ (if ns_states s = [] then [] else [(''states'', JArr (map JStr (ns_states s)))]))"

record offered_action =
  oa_id :: string
  oa_kind :: action_kind
  oa_target :: "string option"
  oa_label :: string
  oa_role :: "string option"
  oa_dangerous :: bool
  oa_fingerprint :: "u64 option"
  oa_state :: "node_state option"

text \<open>\<open>rsplit_once(':')\<close>.\<close>

definition rsplit_once_colon :: "string \<Rightarrow> (string \<times> string) option" where
  "rsplit_once_colon s =
     (if CHR '':'' \<in> set s
      then Some (butlast (rev (dropWhile (\<lambda>c. c \<noteq> CHR '':'') (rev s))),
                 rev (takeWhile (\<lambda>c. c \<noteq> CHR '':'') (rev s)))
      else None)"

definition action_key :: "offered_action \<Rightarrow> string result" where
  "action_key a =
     (case strip_prefix ''KEY:'' (oa_id a) of
        None \<Rightarrow> Inl (''not a key action id: `'' @ oa_id a @ ''`'')
      | Some rest \<Rightarrow>
          (case rsplit_once_colon rest of
             None \<Rightarrow> Inl (''malformed key id: `'' @ oa_id a @ ''`'')
           | Some (_, key) \<Rightarrow> Inr key))"

record node_text =
  nt_label :: "string list"
  nt_value :: "string list"
  nt_role :: string

record action_space =
  as_rev :: "u64 option"
  as_actions :: "(string, offered_action) btmap"
  as_texts :: "node_text list"

section \<open>Building the space\<close>

text \<open>\<open>entry(id).or_insert(action)\<close>: the first action with an id stays.\<close>

definition offer :: "offered_action \<Rightarrow> (string, offered_action) btmap \<Rightarrow> (string, offered_action) btmap" where
  "offer a m = (if map_of m (oa_id a) = None then bt_insert (oa_id a) a m else m)"

definition explode_ident :: "string \<Rightarrow> string" where
  "explode_ident name = map (\<lambda>c. if c \<in> {CHR ''.'', CHR ''-'', CHR ''_'', CHR ''/'', CHR '':''} then CHR '' '' else c) name"

definition contains_run :: "string list \<Rightarrow> string list \<Rightarrow> bool" where
  "contains_run hay needle = (needle \<in> set (windows (length needle) hay))"

definition is_clickable :: "ui_node \<Rightarrow> ui_node option \<Rightarrow> bool" where
  "is_clickable n parent =
     (nrole n \<in> {''button'', ''link'', ''tab'', ''checkbox'', ''switch''}
      \<or> nrole n = role_listitem \<and> map_option nrole parent = Some role_navigation)"

definition node_action :: "ui_node \<Rightarrow> ui_node option \<Rightarrow> string \<Rightarrow> action_kind \<Rightarrow> string \<Rightarrow> offered_action" where
  "node_action n parent ident k label =
     \<lparr>oa_id = ident, oa_kind = k, oa_target = Some (nid n), oa_label = label, oa_role = Some (nrole n),
      oa_dangerous = False, oa_fingerprint = Some (fingerprint n (map_option nid parent)),
      oa_state = node_state_of n\<rparr>"

definition offer_node ::
    "ui_node \<Rightarrow> ui_node option \<Rightarrow> (string, offered_action) btmap \<Rightarrow> (string, offered_action) btmap" where
  "offer_node n parent m =
     (let name = nd_name (data n);
          m = (if is_clickable n parent
               then offer (node_action n parent (id_for_target AkClick (nid n)) AkClick name) m else m)
      in if nrole n = role_textbox then
           (let m = offer (node_action n parent (id_for_target AkType (nid n)) AkType name) m;
                m = offer (node_action n parent (id_for_target AkSetValue (nid n)) AkSetValue name) m
            in offer (node_action n parent (id_for_key (nid n) ''Enter'') AkKey (name @ '' submit'')) m)
         else m)"

definition node_text_of :: "unicode \<Rightarrow> ui_node \<Rightarrow> node_text" where
  "node_text_of U n = \<lparr>nt_label = tokenize_text U (nd_name (data n)),
     nt_value = (case nd_value (data n) of None \<Rightarrow> [] | Some v \<Rightarrow> tokenize_text U v), nt_role = nrole n\<rparr>"

fun collect_node ::
    "unicode \<Rightarrow> ui_node option \<Rightarrow> bool \<Rightarrow> ui_node \<Rightarrow> (string, offered_action) btmap \<times> node_text list
       \<Rightarrow> (string, offered_action) btmap \<times> node_text list" where
  "collect_node U parent ancestors_viable (UiNode d cs) st =
     (let n = UiNode d cs;
          viable = (ancestors_viable \<and> nd_enabled d \<and> nd_visible d);
          st = (if viable then (offer_node n parent (fst st), snd st @ [node_text_of U n]) else st)
      in fold (collect_node U (Some n) viable) cs st)"

definition keybinding_action :: "keybinding_info \<Rightarrow> offered_action" where
  "keybinding_action kb =
     \<lparr>oa_id = id_for_entity AkKeybinding (kb_id kb), oa_kind = AkKeybinding, oa_target = Some (kb_id kb),
      oa_label = explode_ident (kb_id kb) @ '' '' @ kb_chord kb, oa_role = Some ''keybinding'',
      oa_dangerous = binding_is_dangerous kb, oa_fingerprint = None, oa_state = None\<rparr>"

definition invoke_action :: "offered_invoke \<Rightarrow> offered_action" where
  "invoke_action i =
     \<lparr>oa_id = id_for_entity AkInvoke (oi_name i), oa_kind = AkInvoke, oa_target = Some (oi_name i),
      oa_label = explode_ident (oi_name i) @ '' '' @ oi_description i, oa_role = Some ''invoke'',
      oa_dangerous = oi_dangerous i, oa_fingerprint = None, oa_state = None\<rparr>"

definition control_action :: "action_kind \<Rightarrow> offered_action" where
  "control_action k =
     \<lparr>oa_id = id_for_control k, oa_kind = k, oa_target = None,
      oa_label = (case k of
          AkDone \<Rightarrow> ''Every requirement is satisfied''
        | AkBlocked \<Rightarrow> ''No supported operation can progress''
        | AkWait \<Rightarrow> ''Wait briefly for the app to settle''
        | _ \<Rightarrow> kind_as_str k),
      oa_role = None, oa_dangerous = False, oa_fingerprint = None, oa_state = None\<rparr>"

definition from_tree :: "unicode \<Rightarrow> ui_tree \<Rightarrow> keybinding_info list \<Rightarrow> offered_invoke list \<Rightarrow> action_space" where
  "from_tree U t kbs invokes =
     (let (m, texts) = fold (collect_node U None True) (tree_nodes t) ([], []);
          m = fold (\<lambda>kb. offer (keybinding_action kb)) kbs m;
          m = fold (\<lambda>i. offer (invoke_action i)) invokes m;
          m = fold (\<lambda>k. offer (control_action k)) [AkDone, AkBlocked, AkWait] m
      in \<lparr>as_rev = tree_rev t, as_actions = m,
          as_texts = sort_key (\<lambda>x. (nt_label x, nt_value x, nt_role x)) texts\<rparr>)"

section \<open>Questions about a space\<close>

definition literal_placed :: "action_space \<Rightarrow> string list \<Rightarrow> bool" where
  "literal_placed sp lits = (lits \<noteq> [] \<and>
     list_ex (\<lambda>x. contains_run (nt_label x) lits \<or> contains_run (nt_value x) lits) (as_texts sp))"

definition literal_in_label :: "action_space \<Rightarrow> string list \<Rightarrow> bool" where
  "literal_in_label sp lits = (lits \<noteq> [] \<and> list_ex (\<lambda>x. contains_run (nt_label x) lits) (as_texts sp))"

definition location_shown :: "unicode \<Rightarrow> action_space \<Rightarrow> string \<Rightarrow> bool" where
  "location_shown U sp word =
     (let needle = tokenize_text U word in
      needle \<noteq> [] \<and> list_ex (\<lambda>x. nt_role x = ''page'' \<and> contains_run (nt_label x) needle) (as_texts sp))"

definition space_is_empty :: "action_space \<Rightarrow> bool" where
  "space_is_empty sp = (as_actions sp = [])"

definition space_len :: "action_space \<Rightarrow> nat" where
  "space_len sp = length (as_actions sp)"

definition space_get :: "action_space \<Rightarrow> string \<Rightarrow> offered_action option" where
  "space_get sp ident = map_of (as_actions sp) ident"

definition space_get_str :: "action_space \<Rightarrow> string \<Rightarrow> offered_action option" where
  "space_get_str sp ident =
     (case action_id_try_new ident of Inl _ \<Rightarrow> None | Inr i \<Rightarrow> space_get sp i)"

definition space_actions :: "action_space \<Rightarrow> offered_action list" where
  "space_actions sp = map snd (as_actions sp)"

definition space_ids :: "action_space \<Rightarrow> string list" where
  "space_ids sp = map fst (as_actions sp)"

definition targets_of :: "action_space \<Rightarrow> action_kind \<Rightarrow> offered_action list" where
  "targets_of sp k = filter (\<lambda>a. oa_kind a = k \<and> oa_target a \<noteq> None) (space_actions sp)"

definition contains_kind :: "action_space \<Rightarrow> action_kind \<Rightarrow> bool" where
  "contains_kind sp k = list_ex (\<lambda>a. oa_kind a = k) (space_actions sp)"

end
