(* ===== verification/Policy.thy ===== *)
theory Policy
  imports Action_Space Goal
begin

text \<open>
  \<open>crates/gpui-agent-policy/src/arbitration.rs\<close> and \<open>policy.rs\<close>: the gate over scored candidates,
  and the two-headed decision of the local policy, first the operation, then its target.
  \<open>arbitrate\<close> and its data are the library's; what the code makes of an answer is here.
\<close>

definition map_err :: "('e \<Rightarrow> 'f) \<Rightarrow> 'e + 'a \<Rightarrow> 'f + 'a" where
  "map_err f r = (case r of Inl e \<Rightarrow> Inl (f e) | Inr x \<Rightarrow> Inr x)"

definition ok_or :: "'e \<Rightarrow> 'a option \<Rightarrow> 'e + 'a" where
  "ok_or e x = (case x of None \<Rightarrow> Inl e | Some y \<Rightarrow> Inr y)"

lemma map_err_simps [simp]: "map_err f (Inl e) = Inl (f e)" "map_err f (Inr x) = Inr x"
  by (simp_all add: map_err_def)

lemma map_err_Inr_iff [simp]: "map_err f r = Inr x \<longleftrightarrow> r = Inr x"
  by (cases r) simp_all

lemma ok_or_simps [simp]: "ok_or e None = Inl e" "ok_or e (Some y) = Inr y"
  by (simp_all add: ok_or_def)

lemma ok_or_Inr_iff [simp]: "ok_or e x = Inr y \<longleftrightarrow> x = Some y"
  by (cases x) simp_all

fun answer_ranked :: "answer \<Rightarrow> nat list option" where
  "answer_ranked (AnsChoice i ranked) = Some ranked"
| "answer_ranked (AnsAbstain why ranked) = Some ranked"
| "answer_ranked (AnsOther text) = None"

section \<open>The gate of \<open>arbitration.rs\<close>\<close>

record ranked_candidate =
  rc_id :: string
  rc_millis :: int

datatype choice = Chosen string "ranked_candidate list" | Abstained string "ranked_candidate list"

fun chosen_id :: "choice \<Rightarrow> string option" where
  "chosen_id (Chosen ident ranked) = Some ident"
| "chosen_id (Abstained why ranked) = None"

fun choice_ranked :: "choice \<Rightarrow> ranked_candidate list" where
  "choice_ranked (Chosen ident ranked) = ranked"
| "choice_ranked (Abstained why ranked) = ranked"

datatype arbitration_error = ArbCandidates string | ArbInstinct string

definition ranked_from_answer :: "'o instinct \<Rightarrow> 'o \<Rightarrow> answer \<Rightarrow> 'o \<Rightarrow> arbitration_error + ranked_candidate list" where
  "ranked_from_answer I cset ans urges =
     (case answer_ranked ans of None \<Rightarrow> Inr []
      | Some entries \<Rightarrow> rmap_list (\<lambda>i.
          rbind (ok_or (ArbInstinct ''missing ranked option'') (ic_id_at I cset i)) (\<lambda>ident.
          rbind (ok_or (ArbInstinct ''missing urge'') (ic_urge I urges i)) (\<lambda>u.
            Inr \<lparr>rc_id = ident, rc_millis = u\<rparr>))) entries)"

fun load_candidates ::
    "'o instinct \<Rightarrow> 'o \<Rightarrow> (string \<times> int) list \<Rightarrow> 'o \<times> 'o \<Rightarrow> arbitration_error + ('o \<times> 'o)" where
  "load_candidates I cset [] acc = Inr acc"
| "load_candidates I cset ((ident, conf) # cs) (scores, affinity) =
     rbind (ok_or (ArbCandidates (''missing option '' @ ident)) (ic_index_of I cset ident)) (\<lambda>i.
     rbind (map_err ArbInstinct (ic_set_score I i conf scores)) (\<lambda>scores.
     rbind (map_err ArbInstinct (ic_set_affinity I 0 i (ic_max I) affinity)) (\<lambda>affinity.
       load_candidates I cset cs (scores, affinity))))"

definition choose_candidate :: "'o instinct \<Rightarrow> (string \<times> int) list \<Rightarrow> 'o option \<Rightarrow> arbitration_error + choice" where
  "choose_candidate I cands prof =
     (let profile = (case prof of None \<Rightarrow> ic_default_profile I | Some p \<Rightarrow> p) in
      case cands of
        [] \<Rightarrow> Inr (Abstained ''no candidates'' [])
      | [(ident, ev)] \<Rightarrow>
          (let ranked = [\<lparr>rc_id = ident, rc_millis = ev\<rparr>] in
           if ev < ic_min_confidence I profile then Inr (Abstained ''below min_confidence'' ranked)
           else Inr (Chosen ident ranked))
      | _ \<Rightarrow>
          rbind (map_err ArbCandidates (rmap_list (\<lambda>(ident, _). ic_candidate_id I ident) cands)) (\<lambda>ids.
          rbind (map_err ArbCandidates (ic_candidate_set I ids)) (\<lambda>cset.
          rbind (map_err ArbInstinct (ic_question I cset ''candidate'')) (\<lambda>question.
          rbind (map_err ArbInstinct (ic_drives I [(''goal'', ic_max I)])) (\<lambda>drives.
          rbind (load_candidates I cset cands (ic_scores I question, ic_affinity I question drives)) (\<lambda>(scores, affinity).
          rbind (map_err ArbInstinct (ic_arbitrate I scores drives affinity profile)) (\<lambda>arb.
          rbind (ranked_from_answer I cset (arb_answer arb) (arb_urges arb)) (\<lambda>ranked.
            case arb_answer arb of
              AnsChoice i _ \<Rightarrow>
                rbind (ok_or (ArbInstinct ''chosen option missing'') (ic_id_at I cset i)) (\<lambda>ident. Inr (Chosen ident ranked))
            | AnsAbstain why _ \<Rightarrow> Inr (Abstained why ranked)
            | AnsOther text \<Rightarrow> Inl (ArbInstinct (''unexpected answer '' @ text))))))))))"

section \<open>Decisions\<close>

record ranked_action =
  ra_id :: string
  ra_kind :: action_kind
  ra_label :: string
  ra_millis :: int

record policy_decision =
  pd_id :: string
  pd_kind :: action_kind
  pd_label :: string
  pd_millis :: int
  pd_op_ranked :: "ranked_action list"
  pd_target_ranked :: "ranked_action list"

definition is_terminal :: "policy_decision \<Rightarrow> bool" where
  "is_terminal d = (pd_kind d \<in> {AkDone, AkBlocked})"

datatype policy_outcome =
  PoChoice policy_decision | PoAbstain string "ranked_action list" "ranked_action list"
    \<comment> \<open>the reason, the ranked operations, the ranked targets\<close>

fun as_choice :: "policy_outcome \<Rightarrow> policy_decision option" where
  "as_choice (PoChoice d) = Some d"
| "as_choice (PoAbstain reason ops targets) = None"

datatype policy_error = EmptyGoal | EmptyActionSpace | Internal string

fun policy_error_text :: "policy_error \<Rightarrow> string" where
  "policy_error_text EmptyGoal = ''agent goal is empty''"
| "policy_error_text EmptyActionSpace = ''action space has no candidates''"
| "policy_error_text (Internal msg) = ''policy internal: '' @ msg"

record history_entry =
  he_step :: u32
  he_id :: string
  he_kind :: action_kind
  he_label :: string
  he_verification :: string

definition history_json :: "history_entry \<Rightarrow> json" where
  "history_json h = json_obj [(''op'', JStr (kind_as_str (he_kind h))), (''id'', JStr (he_id h)),
     (''effect'', JStr (he_verification h))]"

section \<open>The evidence of a clause\<close>

definition PAYLOAD_VERBS :: "string list" where
  "PAYLOAD_VERBS = [''add'', ''create'', ''new'', ''insert'', ''type'', ''enter'', ''fill'', ''input'', ''submit'']"

definition TOGGLE_WORDS :: "string list" where
  "TOGGLE_WORDS = [''mark'', ''marked'', ''done'', ''check'', ''checked'', ''complete'', ''completed'',
     ''toggle'', ''tick'', ''ticked'']"

definition LOCATIVES :: "string list" where
  "LOCATIVES = [''in'', ''on'', ''inside'', ''under'', ''to'', ''from'', ''into'']"

definition TURN_WORDS :: "string list" where
  "TURN_WORDS = [''turnon'', ''turnedon'', ''turnoff'', ''enable'', ''disable'']"

fun locative_words :: "string list \<Rightarrow> string list" where
  "locative_words (a # b # ts) = (if a \<in> set LOCATIVES then [b] else []) @ locative_words (b # ts)"
| "locative_words ts = []"

definition goal_evidence :: "unicode \<Rightarrow> string \<Rightarrow> action_space \<Rightarrow> goal_evidence" where
  "goal_evidence U goal sp =
     (let literals = quoted_literals goal;
          unplaced = list_ex (\<lambda>lit. \<not> literal_placed sp (tokenize_text U lit)) literals;
          ts = tokenize_text U goal;
          verb = (case ts of [] \<Rightarrow> [] | t # _ \<Rightarrow> t);
          locatives = locative_words ts
      in \<lparr>ge_literals = literals, ge_unplaced = unplaced, ge_verb = verb,
          ge_toggle = (list_ex (\<lambda>t. t \<in> set TOGGLE_WORDS) ts
                       \<or> list_ex (\<lambda>w. str_contains (fold_text U goal) w) TURN_WORDS),
          ge_locatives = locatives,
          ge_nav_locatives = filter (\<lambda>w. \<not> location_shown U sp w) locatives,
          ge_payload_target =
            (if verb \<in> set PAYLOAD_VERBS \<and> unplaced
             then (case targets_of sp AkType of [a] \<Rightarrow> Some (oa_id a) | _ \<Rightarrow> None) else None),
          ge_sole_checkbox =
            (case filter (\<lambda>a. oa_role a = Some ''checkbox'') (targets_of sp AkClick) of
               [a] \<Rightarrow> Some (oa_id a) | _ \<Rightarrow> None),
          ge_has_literal = (literals \<noteq> [])\<rparr>)"

definition evidence_of :: "offered_action \<Rightarrow> evidence_target" where
  "evidence_of a = \<lparr>et_id = oa_id a, et_label = oa_label a, et_role = oa_role a,
     et_kind = kind_operation (oa_kind a)\<rparr>"

definition clause_effect_done :: "unicode \<Rightarrow> string \<Rightarrow> string \<Rightarrow> goal_evidence \<Rightarrow> action_space \<Rightarrow> bool" where
  "clause_effect_done U goal last_label ctx sp =
     (object_covered U goal last_label ctx
      \<or> ge_literals ctx \<noteq> [] \<and> verb_matches U (ge_verb ctx) last_label
        \<and> list_all (\<lambda>lit. literal_in_label sp (tokenize_text U lit)) (ge_literals ctx))"

definition satisfied_entry :: "history_entry \<Rightarrow> bool" where
  "satisfied_entry h = (he_verification h \<in> {''success'', ''state-changed'', ''navigation''})"

definition satisfied_by_history :: "history_entry list \<Rightarrow> string \<Rightarrow> bool" where
  "satisfied_by_history history ident =
     (history \<noteq> [] \<and> he_id (last history) = ident \<and> satisfied_entry (last history))"

definition kind_order :: "action_kind list" where
  "kind_order = [AkClick, AkType, AkSetValue, AkKey, AkKeybinding, AkInvoke, AkDone, AkBlocked, AkWait]"

definition offered_kinds :: "action_space \<Rightarrow> action_kind list" where
  "offered_kinds sp =
     filter (\<lambda>k. contains_kind sp k \<and> (kind_is_control k \<or> targets_of sp k \<noteq> [])) kind_order"

section \<open>Habituation\<close>

definition HABITUATION_STEP :: int where "HABITUATION_STEP = 250"

fun weight_loop :: "string \<Rightarrow> int \<Rightarrow> history_entry list \<Rightarrow> int" where
  "weight_loop ident w [] = w"
| "weight_loop ident w (e # es) =
     (if he_id e \<noteq> ident \<or> he_verification e \<notin> {''no-effect'', ''wrong-effect''} then w
      else (let w = max (-32768) (w - HABITUATION_STEP) in if w = 0 then w else weight_loop ident w es))"

definition habituation_weight :: "'o instinct \<Rightarrow> string \<Rightarrow> history_entry list \<Rightarrow> int" where
  "habituation_weight I ident history = ic_saturating I (weight_loop ident 1000 (rev history))"

definition damped_urge :: "'o instinct \<Rightarrow> int \<Rightarrow> int \<Rightarrow> int" where
  "damped_urge I ev weight = ic_saturating I ((ev * weight) sdiv 1000)"

section \<open>The two heads\<close>

abbreviation internal :: "string + 'a \<Rightarrow> policy_error + 'a" where
  "internal r \<equiv> map_err Internal r"

definition ranked_kind :: "action_kind \<Rightarrow> int \<Rightarrow> policy_error + ranked_action" where
  "ranked_kind k conf =
     rbind (map_err (\<lambda>e. Internal (space_error_text e)) (action_id_try_new (kind_as_str k))) (\<lambda>ident.
       Inr \<lparr>ra_id = ident, ra_kind = k, ra_label = kind_as_str k, ra_millis = conf\<rparr>)"

definition ranked_offer :: "offered_action \<Rightarrow> int \<Rightarrow> ranked_action" where
  "ranked_offer a conf = \<lparr>ra_id = oa_id a, ra_kind = oa_kind a, ra_label = oa_label a, ra_millis = conf\<rparr>"

definition ranked_from_answer_kinds ::
    "'o instinct \<Rightarrow> 'o \<Rightarrow> answer \<Rightarrow> 'o \<Rightarrow> policy_error + ranked_action list" where
  "ranked_from_answer_kinds I cset ans urges =
     (case answer_ranked ans of None \<Rightarrow> Inr []
      | Some entries \<Rightarrow> rmap_list (\<lambda>i.
          rbind (ok_or (Internal ''missing ranked operation'') (ic_id_at I cset i)) (\<lambda>ident.
          rbind (ok_or (Internal (''bad kind '' @ ident)) (kind_parse ident)) (\<lambda>k.
          rbind (ok_or (Internal ''missing operation urge'') (ic_urge I urges i)) (\<lambda>u.
            ranked_kind k u)))) entries)"

definition ranked_from_answer_targets ::
    "'o instinct \<Rightarrow> 'o \<Rightarrow> answer \<Rightarrow> 'o \<Rightarrow> (offered_action \<times> int) list \<Rightarrow> policy_error + ranked_action list" where
  "ranked_from_answer_targets I cset ans urges scored =
     (case answer_ranked ans of None \<Rightarrow> Inr []
      | Some entries \<Rightarrow> rmap_list (\<lambda>i.
          rbind (ok_or (Internal ''missing ranked target'') (ic_id_at I cset i)) (\<lambda>ident.
          rbind (ok_or (Internal ''ranked target not in space'')
            (List.find (\<lambda>(a, _). oa_id a = ident) scored)) (\<lambda>(a, _).
          rbind (ok_or (Internal ''missing target urge'') (ic_urge I urges i)) (\<lambda>u.
            Inr (ranked_offer a u))))) entries)"

text \<open>The row of an operation: its score and the id whose history damps it.\<close>

record op_head =
  oh_kind :: action_kind
  oh_score :: int
  oh_id :: string

fun load_kinds ::
    "'o instinct \<Rightarrow> history_entry list \<Rightarrow> 'o \<Rightarrow> op_head list \<Rightarrow> 'o \<times> 'o \<Rightarrow> policy_error + ('o \<times> 'o)" where
  "load_kinds I history cset [] acc = Inr acc"
| "load_kinds I history cset (h # hs) (scores, affinity) =
     rbind (ok_or (Internal (''missing operation option for '' @ kind_as_str (oh_kind h)))
       (ic_index_of I cset (kind_as_str (oh_kind h)))) (\<lambda>i.
     rbind (internal (ic_set_score I i (oh_score h) scores)) (\<lambda>scores.
     rbind (internal (ic_set_affinity I 0 i (habituation_weight I (oh_id h) history) affinity)) (\<lambda>affinity.
       load_kinds I history cset hs (scores, affinity))))"

definition kind_of_answer ::
    "'o instinct \<Rightarrow> 'o \<Rightarrow> answer \<Rightarrow> ranked_action list \<Rightarrow> policy_error + (action_kind option \<times> ranked_action list)" where
  "kind_of_answer I cset ans ranked =
     (case ans of
        AnsChoice i _ \<Rightarrow>
          rbind (ok_or (Internal ''missing chosen kind'') (ic_id_at I cset i)) (\<lambda>ident.
          rbind (ok_or (Internal (''bad kind '' @ ident)) (kind_parse ident)) (\<lambda>k. Inr (Some k, ranked)))
      | AnsAbstain why _ \<Rightarrow> Inr (None, ranked)
      | AnsOther text \<Rightarrow> Inl (Internal (''unexpected operation answer '' @ text)))"

definition choose_kinds ::
    "'o instinct \<Rightarrow> op_head list \<Rightarrow> history_entry list \<Rightarrow> 'o \<Rightarrow>
       policy_error + (action_kind option \<times> ranked_action list)" where
  "choose_kinds I heads history profile =
     (case heads of
        [] \<Rightarrow> Inr (None, [])
      | [h] \<Rightarrow>
          (let urge = damped_urge I (oh_score h) (habituation_weight I (oh_id h) history) in
           rbind (ranked_kind (oh_kind h) urge) (\<lambda>row.
             Inr (if urge < ic_min_confidence I profile then None else Some (oh_kind h), [row])))
      | _ \<Rightarrow>
          rbind (internal (rmap_list (\<lambda>h. ic_candidate_id I (kind_as_str (oh_kind h))) heads)) (\<lambda>ids.
          rbind (internal (ic_candidate_set I ids)) (\<lambda>cset.
          rbind (internal (ic_question I cset ''operation'')) (\<lambda>question.
          rbind (internal (ic_drives I [(''goal'', ic_max I)])) (\<lambda>drives.
          rbind (load_kinds I history cset heads (ic_scores I question, ic_affinity I question drives)) (\<lambda>(scores, affinity).
          rbind (internal (ic_arbitrate I scores drives affinity profile)) (\<lambda>arb.
          rbind (ranked_from_answer_kinds I cset (arb_answer arb) (arb_urges arb)) (\<lambda>ranked.
            kind_of_answer I cset (arb_answer arb) ranked))))))))"

fun load_targets ::
    "'o instinct \<Rightarrow> history_entry list \<Rightarrow> 'o \<Rightarrow> (offered_action \<times> int) list \<Rightarrow> 'o \<times> 'o \<Rightarrow> policy_error + ('o \<times> 'o)" where
  "load_targets I history cset [] acc = Inr acc"
| "load_targets I history cset ((a, conf) # rest) (scores, affinity) =
     rbind (ok_or (Internal ''missing target option'') (ic_index_of I cset (oa_id a))) (\<lambda>i.
     rbind (internal (ic_set_score I i conf scores)) (\<lambda>scores.
     rbind (internal (ic_set_affinity I 0 i (habituation_weight I (oa_id a) history) affinity)) (\<lambda>affinity.
       load_targets I history cset rest (scores, affinity))))"

definition target_of_answer ::
    "'o instinct \<Rightarrow> 'o \<Rightarrow> (offered_action \<times> int) list \<Rightarrow> answer \<Rightarrow> ranked_action list \<Rightarrow>
       policy_error + (offered_action option \<times> ranked_action list)" where
  "target_of_answer I cset scored ans ranked =
     (case ans of
        AnsChoice i _ \<Rightarrow>
          rbind (ok_or (Internal ''missing chosen target'') (ic_id_at I cset i)) (\<lambda>ident.
          rbind (ok_or (Internal ''chosen target not in space'')
            (List.find (\<lambda>a. oa_id a = ident) (map fst scored))) (\<lambda>a. Inr (Some a, ranked)))
      | AnsAbstain why _ \<Rightarrow> Inr (None, ranked)
      | AnsOther text \<Rightarrow> Inl (Internal (''unexpected target answer '' @ text)))"

definition choose_targets ::
    "'o instinct \<Rightarrow> (offered_action \<times> int) list \<Rightarrow> history_entry list \<Rightarrow> 'o \<Rightarrow>
       policy_error + (offered_action option \<times> ranked_action list)" where
  "choose_targets I scored history profile =
     (case scored of
        [] \<Rightarrow> Inr (None, [])
      | [(a, conf)] \<Rightarrow>
          (let urge = damped_urge I conf (habituation_weight I (oa_id a) history) in
           Inr (if urge < ic_min_confidence I profile then None else Some a, [ranked_offer a urge]))
      | _ \<Rightarrow>
          rbind (internal (rmap_list (\<lambda>(a, _). ic_candidate_id I (oa_id a)) scored)) (\<lambda>ids.
          rbind (internal (ic_candidate_set I ids)) (\<lambda>cset.
          rbind (internal (ic_question I cset ''target'')) (\<lambda>question.
          rbind (internal (ic_drives I [(''goal'', ic_max I)])) (\<lambda>drives.
          rbind (load_targets I history cset scored (ic_scores I question, ic_affinity I question drives)) (\<lambda>(scores, affinity).
          rbind (internal (ic_arbitrate I scores drives affinity profile)) (\<lambda>arb.
          rbind (ranked_from_answer_targets I cset (arb_answer arb) (arb_urges arb) scored) (\<lambda>ranked.
            target_of_answer I cset scored (arb_answer arb) ranked))))))))"

section \<open>The local policy\<close>

text \<open>\<open>max_by_key\<close>: the last of the largest.\<close>

fun max_by_key :: "('a \<Rightarrow> int) \<Rightarrow> 'a list \<Rightarrow> 'a option" where
  "max_by_key f [] = None"
| "max_by_key f (x # xs) = Some (fold (\<lambda>y best. if f best \<le> f y then y else best) xs x)"

definition head_of_kind ::
    "unicode \<Rightarrow> 'o instinct \<Rightarrow> action_space \<Rightarrow> string \<Rightarrow> goal_evidence \<Rightarrow> action_kind \<Rightarrow> policy_error + op_head" where
  "head_of_kind U I sp goal ctx k =
     (let best = max_by_key (\<lambda>a. score_action_ctx U I goal (evidence_of a) ctx) (targets_of sp k) in
      rbind (if kind_is_control k
             then map_err (\<lambda>e. Internal (space_error_text e)) (action_id_try_new (kind_as_str k))
             else ok_or (Internal (''no target for '' @ kind_as_str k)) (map_option oa_id best)) (\<lambda>ident.
        Inr \<lparr>oh_kind = k,
             oh_score = score_operation_ctx U I goal (kind_operation k) (map_option evidence_of best) ctx,
             oh_id = ident\<rparr>))"

definition done_choice ::
    "'o instinct \<Rightarrow> ranked_action list \<Rightarrow> ranked_action list \<Rightarrow> offered_action \<Rightarrow> policy_outcome" where
  "done_choice I ops targets a = PoChoice \<lparr>pd_id = oa_id a, pd_kind = AkDone, pd_label = oa_label a,
     pd_millis = ic_max I, pd_op_ranked = ops, pd_target_ranked = targets\<rparr>"

text \<open>The clause is closed before arbitration when the last action did what it asked for.\<close>

definition clause_closed ::
    "unicode \<Rightarrow> action_space \<Rightarrow> string \<Rightarrow> goal_evidence \<Rightarrow> history_entry list \<Rightarrow> offered_action option" where
  "clause_closed U sp goal ctx history =
     (if history \<noteq> [] \<and> satisfied_entry (last history)
         \<and> (space_get sp (he_id (last history)) = None
            \<or> clause_effect_done U goal (he_label (last history)) ctx sp)
      then space_get_str sp (kind_as_str AkDone) else None)"

definition decide_control ::
    "'o instinct \<Rightarrow> action_space \<Rightarrow> history_entry list \<Rightarrow> action_kind \<Rightarrow> ranked_action list \<Rightarrow> policy_error + policy_outcome" where
  "decide_control I sp history k ops =
     rbind (map_err (\<lambda>e. Internal (space_error_text e)) (action_id_try_new (kind_as_str k))) (\<lambda>ident.
     rbind (ok_or (Internal (''control `'' @ kind_as_str k @ ''` missing from space'')) (space_get sp ident)) (\<lambda>a.
     rbind (ok_or (Internal ''chosen control missing from ranks'')
       (map_option ra_millis (List.find (\<lambda>r. ra_kind r = k) ops))) (\<lambda>millis.
       case (if k \<notin> {AkDone, AkBlocked} \<and> satisfied_by_history history (oa_id a)
             then space_get_str sp (kind_as_str AkDone) else None) of
         Some d \<Rightarrow> Inr (done_choice I ops [] d)
       | None \<Rightarrow> Inr (PoChoice \<lparr>pd_id = oa_id a, pd_kind = k, pd_label = oa_label a, pd_millis = millis,
           pd_op_ranked = ops, pd_target_ranked = []\<rparr>))))"

definition decide_target ::
    "unicode \<Rightarrow> 'o instinct \<Rightarrow> 'o \<Rightarrow> action_space \<Rightarrow> string \<Rightarrow> goal_evidence \<Rightarrow> history_entry list \<Rightarrow>
       action_kind \<Rightarrow> ranked_action list \<Rightarrow> policy_error + policy_outcome" where
  "decide_target U I profile sp goal ctx history k ops =
     (let targets = targets_of sp k in
      if targets = [] then Inr (PoAbstain (''no viable targets for '' @ kind_as_str k) ops [])
      else
        rbind (choose_targets I (map (\<lambda>a. (a, score_action_ctx U I goal (evidence_of a) ctx)) targets) history profile)
          (\<lambda>(chosen, ranked).
        case chosen of None \<Rightarrow> Inr (PoAbstain ''target abstain'' ops ranked)
        | Some a \<Rightarrow>
          rbind (ok_or (Internal ''chosen target missing from ranks'')
            (map_option ra_millis (List.find (\<lambda>r. ra_id r = oa_id a) ranked))) (\<lambda>millis.
          if oa_dangerous a then Inr (PoAbstain ''needs_confirmation'' ops ranked)
          else case (if satisfied_by_history history (oa_id a) \<and> clause_effect_done U goal (oa_label a) ctx sp
                     then space_get_str sp (kind_as_str AkDone) else None) of
            Some d \<Rightarrow> Inr (done_choice I ops ranked d)
          | None \<Rightarrow> Inr (PoChoice \<lparr>pd_id = oa_id a, pd_kind = oa_kind a, pd_label = oa_label a,
              pd_millis = millis, pd_op_ranked = ops, pd_target_ranked = ranked\<rparr>))))"

definition decide_instinct ::
    "unicode \<Rightarrow> 'o instinct \<Rightarrow> 'o \<Rightarrow> action_space \<Rightarrow> ui_goal \<Rightarrow> history_entry list \<Rightarrow> policy_error + policy_outcome" where
  "decide_instinct U I profile sp g history =
     (if goal_is_empty g then Inl EmptyGoal
      else if space_is_empty sp then Inl EmptyActionSpace
      else
        let goal = goal_text g; ctx = goal_evidence U goal sp in
        rbind (rmap_list (head_of_kind U I sp goal ctx) (offered_kinds sp)) (\<lambda>heads.
        case clause_closed U sp goal ctx history of
          Some d \<Rightarrow> Inr (done_choice I [] [] d)
        | None \<Rightarrow>
            rbind (choose_kinds I heads history profile) (\<lambda>(answer, ops).
            case answer of
              None \<Rightarrow> Inr (PoAbstain ''operation abstain'' ops [])
            | Some k \<Rightarrow>
                if kind_is_control k then decide_control I sp history k ops
                else decide_target U I profile sp goal ctx history k ops)))"

end
