(* ===== verification/Escalate.thy ===== *)
theory Escalate
  imports Policy Text_Resolver Server
begin

text \<open>
  \<open>crates/gpui-agent-policy/src/escalate.rs\<close>: the fallback asked after the local policy
  abstained.  The process behind \<open>--escalate-cmd\<close> and \<open>serde_json\<close> are the fields of an
  \<open>endpoint\<close> over a world of its own type; the replies are validated against the offered space.
  A policy is a function of the space, the goal, the history and its own state.
\<close>

type_synonym 'p decider =
  "action_space \<Rightarrow> ui_goal \<Rightarrow> history_entry list \<Rightarrow> 'p \<Rightarrow> (policy_error + policy_outcome) \<times> 'p"

definition ESCALATION_PROTOCOL :: string where "ESCALATION_PROTOCOL = ''escalation:''"

definition STDOUT_CAP :: nat where "STDOUT_CAP = 64 * 1024"

definition TEXT_CAP :: nat where "TEXT_CAP = 256"

definition DEFAULT_TIMEOUT :: nat where "DEFAULT_TIMEOUT = 30000"

definition protocol_error :: "string \<Rightarrow> string" where
  "protocol_error m = ESCALATION_PROTOCOL @ '' '' @ m"

section \<open>Escalating policies\<close>

record abstain_report =
  ab_reason :: string
  ab_ranked :: "ranked_action list"

definition default_report :: abstain_report where
  "default_report = \<lparr>ab_reason = [], ab_ranked = []\<rparr>"

fun report_of :: "policy_outcome \<Rightarrow> abstain_report" where
  "report_of (PoAbstain reason ops targets) =
     \<lparr>ab_reason = reason, ab_ranked = (if targets = [] then ops else targets)\<rparr>"
| "report_of (PoChoice d) = default_report"

fun ambiguous_contenders :: "ranked_action list \<Rightarrow> bool" where
  "ambiguous_contenders [] = False"
| "ambiguous_contenders (r # rs) =
     (list_ex (\<lambda>b. ra_kind r = ra_kind b \<and> ra_label r = ra_label b) rs \<or> ambiguous_contenders rs)"

record ('l, 'h) escalating_policy =
  ep_local :: 'l
  ep_fallback :: "'h option"
  ep_calls :: nat

definition escalating_new :: "'l \<Rightarrow> 'h option \<Rightarrow> ('l, 'h) escalating_policy" where
  "escalating_new local fallback = \<lparr>ep_local = local, ep_fallback = fallback, ep_calls = 0\<rparr>"

definition decide_escalated ::
    "'l decider \<Rightarrow> (abstain_report \<Rightarrow> 'h decider) \<Rightarrow> ('l, 'h) escalating_policy decider" where
  "decide_escalated local fallback sp g history p =
     (case local sp g history (ep_local p) of
        (Inl e, l) \<Rightarrow> (Inl e, p\<lparr>ep_local := l\<rparr>)
      | (Inr first, l) \<Rightarrow>
          (let p = p\<lparr>ep_local := l\<rparr> in
           case first of PoChoice d \<Rightarrow> (Inr first, p)
           | PoAbstain _ _ _ \<Rightarrow>
             (case ep_fallback p of None \<Rightarrow> (Inr first, p)
              | Some h \<Rightarrow>
                  (let report = report_of first in
                   if ambiguous_contenders (ab_ranked report) then (Inr first, p)
                   else (case fallback report sp g history h of
                     (r, h) \<Rightarrow> (r, p\<lparr>ep_calls := ep_calls p + 1, ep_fallback := Some h\<rparr>))))))"

section \<open>The process\<close>

datatype 'a timed = Timely "string + 'a" | TimedOut

record 'w endpoint =
  en_program :: string
  en_timeout :: nat
  en_spawn :: "'w \<Rightarrow> unit result \<times> 'w"
  en_write :: "string \<Rightarrow> nat \<Rightarrow> 'w \<Rightarrow> unit timed \<times> 'w"
  en_read :: "nat \<Rightarrow> nat \<Rightarrow> 'w \<Rightarrow> string timed \<times> 'w"  \<comment> \<open>at most so many bytes, up to the end\<close>
  en_kill :: "'w \<Rightarrow> 'w"
  en_wait :: "'w \<Rightarrow> 'w"
  en_encode :: "json \<Rightarrow> string"
  en_decode :: "string \<Rightarrow> json result"

definition endpoint_fail :: "'w endpoint \<Rightarrow> string \<Rightarrow> 'w \<Rightarrow> string result \<times> 'w" where
  "endpoint_fail en m w = (Inl (protocol_error m), en_wait en (en_kill en w))"

definition endpoint_call :: "'w endpoint \<Rightarrow> json \<Rightarrow> 'w \<Rightarrow> string result \<times> 'w" where
  "endpoint_call en req w =
     (case en_spawn en w of
        (Inl e, w) \<Rightarrow> (Inl (protocol_error (''spawn `'' @ en_program en @ ''`: '' @ e)), w)
      | (Inr _, w) \<Rightarrow>
        (case en_write en (en_encode en req) (en_timeout en) w of
           (Timely (Inl e), w) \<Rightarrow> endpoint_fail en (''write: '' @ e) w
         | (TimedOut, w) \<Rightarrow> endpoint_fail en ''write timeout'' w
         | (Timely (Inr _), w) \<Rightarrow>
           (case en_read en (STDOUT_CAP + 1) (en_timeout en) w of
              (Timely (Inl e), w) \<Rightarrow> endpoint_fail en (''read: '' @ e) w
            | (TimedOut, w) \<Rightarrow> endpoint_fail en ''timeout'' w
            | (Timely (Inr buf), w) \<Rightarrow>
                (if STDOUT_CAP < length buf then Inl (protocol_error ''reply exceeds 64 KiB cap'')
                 else if utf8_ok buf then Inr buf else Inl (protocol_error ''reply is not UTF-8''),
                 en_wait en w))))"

section \<open>Requests and replies\<close>

definition offer_json :: "offered_action \<Rightarrow> json" where
  "offer_json a = json_obj
     ([(''id'', JStr (oa_id a)), (''op'', JStr (kind_as_str (oa_kind a))), (''name'', JStr (oa_label a))]
      @ (case oa_role a of None \<Rightarrow> [] | Some r \<Rightarrow> [(''role'', JStr r)])
      @ (case oa_state a of None \<Rightarrow> [] | Some s \<Rightarrow> [(''state'', node_state_json s)]))"

definition ranked_json :: "ranked_action \<Rightarrow> json" where
  "ranked_json r = json_obj [(''id'', JStr (ra_id r)), (''op'', JStr (kind_as_str (ra_kind r))),
     (''name'', JStr (ra_label r)), (''confidence_millis'', JInt (ra_millis r))]"

definition choose_request :: "action_space \<Rightarrow> ui_goal \<Rightarrow> history_entry list \<Rightarrow> abstain_report \<Rightarrow> json" where
  "choose_request sp g history report = json_obj
     [(''v'', JInt 1), (''kind'', JStr ''choose''), (''goal'', JStr (goal_text g)), (''clause'', JStr (goal_text g)),
      (''actions'', JArr (map offer_json (space_actions sp))),
      (''history'', JArr (map history_json history)),
      (''abstain'', json_obj [(''reason'', JStr (ab_reason report)), (''ranked'', JArr (map ranked_json (ab_ranked report)))])]"

fun as_object :: "json \<Rightarrow> (string \<times> json) list option" where
  "as_object (JObj m) = Some m"
| "as_object _ = None"

definition confirm_or_choose :: "offered_action \<Rightarrow> policy_outcome" where
  "confirm_or_choose a =
     (if oa_dangerous a then PoAbstain ''needs_confirmation'' [] []
      else PoChoice \<lparr>pd_id = oa_id a, pd_kind = oa_kind a, pd_label = oa_label a, pd_millis = 0,
             pd_op_ranked = [], pd_target_ranked = []\<rparr>)"

definition parse_choice :: "action_space \<Rightarrow> (string \<times> json) list \<Rightarrow> policy_outcome result" where
  "parse_choice sp ch =
     (if list_ex (\<lambda>(k, _). k \<noteq> ''id'' \<and> k \<noteq> ''op'') ch
      then Inl (protocol_error ''choice may only carry `id` and `op`'')
      else
        rbind (ok_or (protocol_error ''choice.id missing'') (Option.bind (map_of ch ''id'') as_str)) (\<lambda>ident.
        rbind (ok_or (protocol_error ''choice.op missing'') (Option.bind (map_of ch ''op'') as_str)) (\<lambda>op.
        rbind (ok_or (protocol_error (''off-menu id `'' @ ident @ ''`'')) (space_get_str sp ident)) (\<lambda>a.
          if kind_as_str (oa_kind a) \<noteq> op
          then Inl (protocol_error (''id `'' @ ident @ ''` is '' @ kind_as_str (oa_kind a) @ '' not '' @ op))
          else Inr (confirm_or_choose a)))))"

definition parse_choose_reply :: "(string \<Rightarrow> json result) \<Rightarrow> action_space \<Rightarrow> string \<Rightarrow> policy_outcome result" where
  "parse_choose_reply decode sp reply =
     rbind (map_err protocol_error (decode reply)) (\<lambda>v.
     rbind (ok_or (protocol_error ''reply not an object'') (as_object v)) (\<lambda>obj.
     if length obj \<noteq> 1 then Inl (protocol_error ''expected exactly one of `choice` or `abstain`'')
     else case map_of obj ''abstain'' of
       Some reason \<Rightarrow>
         rbind (ok_or (protocol_error ''abstain must be a string'') (as_str reason)) (\<lambda>r.
           Inr (PoAbstain (''escalated abstain: '' @ r) [] []))
     | None \<Rightarrow>
         rbind (ok_or (protocol_error ''expected `choice` object'') (Option.bind (map_of obj ''choice'') as_object))
           (parse_choice sp)))"

definition parse_text_reply :: "(string \<Rightarrow> json result) \<Rightarrow> string \<Rightarrow> u64 \<Rightarrow> text_error + text_resolution" where
  "parse_text_reply decode reply fp =
     (let bad = (\<lambda>m. TextInvalid (protocol_error m)) in
      rbind (map_err bad (decode reply)) (\<lambda>v.
      rbind (ok_or (bad ''reply not an object'') (as_object v)) (\<lambda>obj.
      if length obj \<noteq> 1 then Inl (bad ''expected exactly one of `text` or `abstain`'')
      else case map_of obj ''abstain'' of
        Some reason \<Rightarrow> Inl (if as_str reason = None then bad ''abstain must be a string'' else TextMissing)
      | None \<Rightarrow>
          rbind (ok_or (bad ''expected `text` string'') (Option.bind (map_of obj ''text'') as_str)) (\<lambda>text.
          if TEXT_CAP < length text then Inl (bad ''text exceeds 256 chars'')
          else if CHR 0x0A \<in> set text \<or> CHR 0x0D \<in> set text then Inl (bad ''text must be a single line'')
          else Inr \<lparr>tr_text = text, tr_fingerprint = fp\<rparr>))))"

section \<open>The command endpoint\<close>

definition command_choose ::
    "'w endpoint \<Rightarrow> abstain_report \<Rightarrow> action_space \<Rightarrow> ui_goal \<Rightarrow> history_entry list \<Rightarrow> 'w \<Rightarrow> policy_outcome result \<times> 'w" where
  "command_choose en report sp g history w =
     (case endpoint_call en (choose_request sp g history report) w of
        (r, w) \<Rightarrow> (rbind r (parse_choose_reply (en_decode en) sp), w))"

definition decide_command :: "'w endpoint \<Rightarrow> abstain_report \<Rightarrow> 'w decider" where
  "decide_command en report sp g history w =
     (if goal_text g = [] then (Inl EmptyGoal, w)
      else case command_choose en report sp g history w of
        (Inr out, w) \<Rightarrow> (Inr out, w)
      | (Inl protocol, w) \<Rightarrow> (Inr (PoAbstain protocol [] []), w))"

definition resolve_text_command ::
    "'w endpoint \<Rightarrow> ui_goal \<Rightarrow> string \<Rightarrow> string \<Rightarrow> u64 \<Rightarrow> 'w \<Rightarrow> (text_error + text_resolution) \<times> 'w" where
  "resolve_text_command en g field_id field_label fp w =
     (case endpoint_call en (json_obj [(''v'', JInt 1), (''kind'', JStr ''text''), (''goal'', JStr (goal_text g)),
         (''clause'', JStr (goal_text g)),
         (''field'', json_obj [(''id'', JStr field_id), (''name'', JStr field_label)])]) w of
        (r, w) \<Rightarrow> (rbind (map_err TextInvalid r) (\<lambda>reply. parse_text_reply (en_decode en) reply fp), w))"

text \<open>\<open>UiPolicy for InstinctPolicy\<close>: it keeps no state, and as a fallback ignores the report.\<close>

definition instinct_decider :: "unicode \<Rightarrow> 'o instinct \<Rightarrow> 'o \<Rightarrow> unit decider" where
  "instinct_decider U I profile sp g history p = (decide_instinct U I profile sp g history, p)"

end
