(* ===== verification/Runner.thy ===== *)
theory Runner
  imports Escalate Client Tree_Diff Dispatch
begin

text \<open>
  \<open>crates/gpui-agent-policy/src/runner.rs\<close>: the loop that observes the tree, asks the policy,
  dispatches the chosen action over the client and verifies its effect.  A computation over
  the state of the run is \<open>None\<close> where the code would not return or would panic.  The policy,
  the reader of \<open>TreeDiff\<close> and the arguments of an invoke are fields of the environment.
\<close>

section \<open>Clauses of a run\<close>

record runner_caps =
  cap_steps :: nat
  cap_no_effect :: nat
  cap_stale :: nat
  cap_wait_ms :: nat

definition default_caps :: runner_caps where
  "default_caps = \<lparr>cap_steps = 20, cap_no_effect = 3, cap_stale = 2, cap_wait_ms = 30000\<rparr>"

definition WAIT_POLL_MS :: nat where "WAIT_POLL_MS = 250"

definition sensitive_field :: "unicode \<Rightarrow> string \<Rightarrow> string \<Rightarrow> bool" where
  "sensitive_field U role label =
     (eq_ignore_ascii_case role ''password'' \<or> str_contains (uc_str_lower U label) ''password'')"

text \<open>\<open>&s[i..]\<close>.\<close>

definition slice_from :: "string \<Rightarrow> nat \<Rightarrow> string option" where
  "slice_from s i = (if is_char_boundary s i then Some (drop i s) else None)"

definition strip_suffix :: "string \<Rightarrow> string \<Rightarrow> string option" where
  "strip_suffix p s = (if ends_with s p then Some (take (length s - length p) s) else None)"

definition wait_suffix :: "string \<Rightarrow> string option" where
  "wait_suffix s = map_option trim
     (case strip_suffix '' appears'' s of Some x \<Rightarrow> Some x
      | None \<Rightarrow> (case strip_suffix '' shows'' s of Some x \<Rightarrow> Some x | None \<Rightarrow> strip_suffix '' in the list'' s))"

lemma trim_start_length: "length (trim_start s) \<le> length s"
proof (induction s rule: trim_start.induct)
  case (1 s)
  show ?case
  proof (cases "ws_len s = 0")
    case True then show ?thesis by (subst trim_start.simps) simp
  next
    case False
    then show ?thesis using 1 [OF False] by (subst trim_start.simps) simp
  qed
qed

lemma trim_end_length: "length (trim_end s) \<le> length s"
proof (induction s rule: trim_end.induct)
  case (1 s)
  show ?case
  proof (cases "ws_len_end s = 0")
    case True then show ?thesis by (subst trim_end.simps) simp
  next
    case False
    then show ?thesis using 1 [OF False] by (subst trim_end.simps) simp
  qed
qed

lemma trim_length: "length (trim s) \<le> length s"
  unfolding trim_def using trim_end_length trim_start_length le_trans by blast

lemma wait_suffix_length: "wait_suffix s = Some t \<Longrightarrow> length t < length s"
proof -
  have strip: "strip_suffix p s = Some x \<Longrightarrow> p \<noteq> [] \<Longrightarrow> length x < length s" for p x
    by (cases p) (auto simp: strip_suffix_def ends_with_iff split: if_splits)
  assume "wait_suffix s = Some t"
  then show "length t < length s"
    using strip trim_length le_less_trans
    by (fastforce simp: wait_suffix_def split: option.splits)
qed

function strip_wait_suffixes :: "string \<Rightarrow> string" where
  "strip_wait_suffixes s =
     (case wait_suffix s of Some next \<Rightarrow> if next \<noteq> s then strip_wait_suffixes next else s | None \<Rightarrow> s)"
  by pat_completeness auto
termination
  by (relation "measure length") (auto dest: wait_suffix_length)

declare strip_wait_suffixes.simps [simp del]

datatype clause_mode = ModeAct | ModeWaitFor string

definition trim_double_quotes :: "string \<Rightarrow> string" where
  "trim_double_quotes s = rev (dropWhile (\<lambda>c. c = CHR 0x22) (rev (dropWhile (\<lambda>c. c = CHR 0x22) s)))"

fun wait_target :: "string \<Rightarrow> string \<Rightarrow> string list \<Rightarrow> string option option" where
  "wait_target trimmed lower [] = Some None"
| "wait_target trimmed lower (p # ps) =
     (if starts_with lower p then
        (case slice_from trimmed (length p) of None \<Rightarrow> None
         | Some tail \<Rightarrow>
             (let target = trim (trim_double_quotes (strip_wait_suffixes (trim tail))) in
              if target \<noteq> [] then Some (Some target) else wait_target trimmed lower ps))
      else wait_target trimmed lower ps)"

definition clause_mode_of :: "unicode \<Rightarrow> string \<Rightarrow> (string \<times> clause_mode) option" where
  "clause_mode_of U clause =
     (let trimmed = trim clause in
      map_option (\<lambda>t. (trimmed, case t of None \<Rightarrow> ModeAct | Some target \<Rightarrow> ModeWaitFor target))
        (wait_target trimmed (uc_str_lower U trimmed) [''wait for '', ''wait until '']))"

definition wait_connectives :: "string list" where
  "wait_connectives = ['' and wait for '', '' and wait until '', '' wait for '', '' wait until '']"

definition trim_end_commas :: "string \<Rightarrow> string" where
  "trim_end_commas s = rev (dropWhile (\<lambda>c. c = CHR '' '' \<or> c = CHR '','') (rev s))"

definition cut_wait :: "string \<Rightarrow> nat \<Rightarrow> string \<Rightarrow> string list option" where
  "cut_wait clause i pat =
     map_option (\<lambda>tail.
        let head = trim_end_commas (take i clause); tail = trim_start tail;
            out = (if head = [] then [] else [head]) @ (if tail = [] then [] else [tail])
        in if 1 < length out then out else [clause])
       (slice_from clause (i + (if starts_with pat '' and'' then 5 else 1)))"

fun split_wait_loop :: "string \<Rightarrow> string \<Rightarrow> nat \<Rightarrow> bool \<Rightarrow> string list \<Rightarrow> string list option" where
  "split_wait_loop clause lower i quote [] = Some [clause]"
| "split_wait_loop clause lower i quote (c # cs) =
     (if c = [CHR 0x22] then split_wait_loop clause lower (i + length c) (\<not> quote) cs
      else if quote then split_wait_loop clause lower (i + length c) quote cs
      else case slice_from lower i of None \<Rightarrow> None
      | Some rest \<Rightarrow>
          (case List.find (starts_with rest) wait_connectives of
             Some pat \<Rightarrow> cut_wait clause i pat
           | None \<Rightarrow> split_wait_loop clause lower (i + length c) quote cs))"

definition split_wait :: "unicode \<Rightarrow> string \<Rightarrow> string list option" where
  "split_wait U clause = split_wait_loop clause (uc_str_lower U clause) 0 False (chars_of clause)"

definition run_clauses :: "unicode \<Rightarrow> string \<Rightarrow> string list option" where
  "run_clauses U goal = map_option concat (those (map (split_wait U) (split_sequential_clauses goal)))"

fun replace_pronoun :: "string \<Rightarrow> string list \<Rightarrow> string list" where
  "replace_pronoun lit [] = []"
| "replace_pronoun lit (w # ws) =
     (if w \<in> {''it'', ''It'', ''them'', ''Them''} then ([CHR 0x22] @ lit @ [CHR 0x22]) # ws
      else w # replace_pronoun lit ws)"

definition substitute_pronouns :: "string \<Rightarrow> string list \<Rightarrow> string" where
  "substitute_pronouns clause typed =
     (if CHR 0x22 \<in> set clause \<or> typed = [] then clause
      else join '' '' (replace_pronoun (last typed) (split_on (\<lambda>c. c = CHR '' '') clause [])))"

section \<open>Outcomes and receipts\<close>

record candidate =
  cd_id :: string
  cd_op :: string
  cd_role :: string
  cd_name :: string
  cd_millis :: int

definition top_candidates :: "action_space \<Rightarrow> ranked_action list \<Rightarrow> nat \<Rightarrow> candidate list" where
  "top_candidates sp ranked k = map (\<lambda>r.
     let offered = space_get sp (ra_id r) in
     \<lparr>cd_id = ra_id r, cd_op = kind_as_str (ra_kind r),
      cd_role = (case Option.bind offered oa_role of None \<Rightarrow> [] | Some role \<Rightarrow> role),
      cd_name = (case offered of None \<Rightarrow> ra_label r | Some a \<Rightarrow> oa_label a),
      cd_millis = ra_millis r\<rparr>) (take k ranked)"

record step_record =
  sc_step :: u32
  sc_clause :: string
  sc_op :: string
  sc_id :: string
  sc_name :: string
  sc_millis :: int
  sc_verification :: string

datatype goal_outcome = GoalDone | GoalBlocked string | GoalAbstained string "candidate list" | GoalCapHit

fun exit_code :: "goal_outcome \<Rightarrow> nat" where
  "exit_code GoalDone = 0"
| "exit_code (GoalBlocked reason) = 2"
| "exit_code (GoalAbstained reason cands) = 2"
| "exit_code GoalCapHit = 2"

fun outcome_label :: "goal_outcome \<Rightarrow> string" where
  "outcome_label GoalDone = ''done''"
| "outcome_label (GoalBlocked reason) = ''blocked''"
| "outcome_label (GoalAbstained reason cands) = ''abstained''"
| "outcome_label GoalCapHit = ''cap_hit''"

record goal_receipt =
  gr_goal :: string
  gr_clauses :: "string list"
  gr_outcome_kind :: goal_outcome
  gr_outcome :: string
  gr_reason :: "string option"
  gr_candidates :: "candidate list"
  gr_steps :: "step_record list"
  gr_final_rev :: "u64 option"
  gr_calls :: nat

section \<open>The wire operation of a decision\<close>

definition gated_op :: "offered_action \<Rightarrow> string \<Rightarrow> op \<Rightarrow> op result" where
  "gated_op a ident op =
     (case oa_fingerprint a of None \<Rightarrow> Inl (ident @ '' has no fingerprint'')
      | Some fp \<Rightarrow> Inr (with_fingerprint op fp))"

definition dispatch_target :: "offered_action \<Rightarrow> string \<Rightarrow> string result" where
  "dispatch_target a ident = ok_or (ident @ '' has no dispatch target'') (oa_target a)"

text \<open>\<open>invoke_args\<close> may keep a state of its own, the world \<open>w\<close>.\<close>

definition op_for_decision ::
    "policy_decision \<Rightarrow> offered_action \<Rightarrow> string option \<Rightarrow> delivery_mode \<Rightarrow> string \<Rightarrow> keybinding_info list \<Rightarrow>
       (string \<Rightarrow> string \<Rightarrow> 'w \<Rightarrow> json result \<times> 'w) \<Rightarrow> 'w \<Rightarrow> op result \<times> 'w" where
  "op_for_decision d a payload deliv clause kbs invoke_args w =
     (let ident = pd_id d; text = (case payload of None \<Rightarrow> [] | Some t \<Rightarrow> t) in
      case pd_kind d of
        AkClick \<Rightarrow> (rbind (dispatch_target a ident) (\<lambda>t. gated_op a ident (OpClick t deliv None)), w)
      | AkType \<Rightarrow> (rbind (dispatch_target a ident) (\<lambda>t. gated_op a ident (OpType t text deliv None)), w)
      | AkSetValue \<Rightarrow> (rbind (dispatch_target a ident) (\<lambda>t. gated_op a ident (OpSetValue t text None)), w)
      | AkKey \<Rightarrow> (rbind (dispatch_target a ident) (\<lambda>t. rbind (action_key a) (\<lambda>key.
          gated_op a ident (OpKey t key deliv None))), w)
      | AkKeybinding \<Rightarrow> (rbind (dispatch_target a ident) (\<lambda>b.
          rbind (ok_or (''keybinding `'' @ b @ ''` not in catalog'') (List.find (\<lambda>kb. kb_id kb = b) kbs)) (\<lambda>kb.
            Inr (OpKeybinding (kb_id kb) (Some (kb_chord kb)) (kb_scope kb) False False))), w)
      | AkInvoke \<Rightarrow>
          (case dispatch_target a ident of Inl e \<Rightarrow> (Inl e, w)
           | Inr name \<Rightarrow> (case invoke_args name clause w of (r, w) \<Rightarrow> (rmap (OpInvoke name) r, w)))
      | other \<Rightarrow> (Inl (''cannot dispatch kind '' @ kind_as_str other), w))"

section \<open>The state of a run\<close>

record ('c, 'w, 'p) runner =
  rn_tp :: "('c, 'w) transport"
  rn_unicode :: unicode
  rn_decide :: "'p decider"
  rn_text :: "'w endpoint option"
  rn_delivery :: delivery_mode
  rn_invokes :: "offered_invoke list"
  rn_invoke_args :: "string \<Rightarrow> string \<Rightarrow> 'w \<Rightarrow> json result \<times> 'w"
  rn_caps :: runner_caps
  rn_poll_ms :: nat
  rn_serde_error :: "json \<Rightarrow> string"
  rn_diff_of_json :: "json \<Rightarrow> tree_diff result"

definition with_wait_poll_ms :: "nat \<Rightarrow> ('c, 'w, 'p) runner \<Rightarrow> ('c, 'w, 'p) runner" where
  "with_wait_poll_ms ms R = R\<lparr>rn_poll_ms := max ms 1\<rparr>"

definition with_caps :: "runner_caps \<Rightarrow> ('c, 'w, 'p) runner \<Rightarrow> ('c, 'w, 'p) runner" where
  "with_caps caps R = R\<lparr>rn_caps := caps\<rparr>"

definition with_text_escalation :: "'w endpoint option \<Rightarrow> ('c, 'w, 'p) runner \<Rightarrow> ('c, 'w, 'p) runner" where
  "with_text_escalation en R = R\<lparr>rn_text := en\<rparr>"

record ('c, 'w, 'p) run_state =
  rw_client :: "'c agent_client"
  rw_world :: 'w
  rw_policy :: 'p
  rw_calls :: nat
  rw_tree :: ui_tree
  rw_rev :: "u64 option"
  rw_history :: "history_entry list"
  rw_typed :: "string list"
  rw_steps :: "step_record list"
  rw_no_effect :: nat
  rw_stale :: nat
  rw_waited :: nat
  rw_clause :: nat

text \<open>A computation may not return (\<open>None\<close>), fail, or give a value.\<close>

definition then_do :: "('a result \<times> 's) option \<Rightarrow> ('a \<Rightarrow> 's \<Rightarrow> ('b result \<times> 's) option) \<Rightarrow> ('b result \<times> 's) option" where
  "then_do m f = (case m of None \<Rightarrow> None | Some (Inl e, s) \<Rightarrow> Some (Inl e, s) | Some (Inr x, s) \<Rightarrow> f x s)"

lemma then_do_simps [simp]:
  "then_do None f = None" "then_do (Some (Inl e, s)) f = Some (Inl e, s)" "then_do (Some (Inr x, s)) f = f x s"
  by (simp_all add: then_do_def)

lemma then_do_Some_iff:
  "then_do m f = Some (r, s') \<longleftrightarrow>
     (\<exists>e. m = Some (Inl e, s') \<and> r = Inl e) \<or> (\<exists>x s. m = Some (Inr x, s) \<and> f x s = Some (r, s'))"
  by (auto simp: then_do_def split: option.splits sum.splits)

type_synonym ('c, 'w, 'p, 'a) run_act = "('c, 'w, 'p) run_state \<Rightarrow> ('a result \<times> ('c, 'w, 'p) run_state) option"

definition runner_rpc :: "('c, 'w, 'p) runner \<Rightarrow> op \<Rightarrow> ('c, 'w, 'p, response) run_act" where
  "runner_rpc R op s =
     map_option (\<lambda>(r, c, w). (r, s\<lparr>rw_calls := rw_calls s + 1, rw_client := c, rw_world := w\<rparr>))
       (expect_ok (rn_tp R) op (rw_client s) (rw_world s))"

definition observe_full :: "('c, 'w, 'p) runner \<Rightarrow> ('c, 'w, 'p, ui_tree) run_act" where
  "observe_full R s = then_do (runner_rpc R op_snapshot s) (\<lambda>resp s.
     Some (ok_or ''host returned no ui tree'' (rs_tree resp), s))"

text \<open>\<open>observe_since\<close> updates the tree; the revision it returns is \<open>rev = next.or(rev)\<close> at every call.\<close>

definition set_observed :: "ui_tree \<Rightarrow> u64 option \<Rightarrow> ('c, 'w, 'p) run_state \<Rightarrow> ('c, 'w, 'p) run_state" where
  "set_observed t next s = s\<lparr>rw_tree := t, rw_rev := (if next = None then rw_rev s else next)\<rparr>"

definition observe_since :: "('c, 'w, 'p) runner \<Rightarrow> ('c, 'w, 'p, unit) run_act" where
  "observe_since R s =
     (case rw_rev s of
        None \<Rightarrow> then_do (observe_full R s) (\<lambda>t s. Some (Inr (), set_observed t (tree_rev t) s))
      | Some since \<Rightarrow>
          then_do (runner_rpc R (OpSnapshot (Some since) None None) s) (\<lambda>resp s.
            let result = (case rs_result resp of None \<Rightarrow> JNull | Some v \<Rightarrow> v) in
            if json_get result ''unchanged'' \<noteq> None then Some (Inr (), set_observed (rw_tree s) (rs_rev resp) s)
            else case json_get result ''diff'' of
              Some v \<Rightarrow>
                (case rn_diff_of_json R v of Inl e \<Rightarrow> Some (Inl e, s)
                 | Inr d \<Rightarrow> Some (Inr (), set_observed (apply_diff (rw_tree s) d) (rs_rev resp) s))
            | None \<Rightarrow>
                (case rs_tree resp of
                   Some t \<Rightarrow> Some (Inr (), set_observed t (rs_rev resp) s)
                 | None \<Rightarrow> Some (Inr (), set_observed (rw_tree s) (rs_rev resp) s))))"

definition diff_is_empty :: "ui_tree \<Rightarrow> ui_tree \<Rightarrow> bool" where
  "diff_is_empty old new = (let d = diff_trees old new in df_added d = [] \<and> df_removed d = [] \<and> df_changed d = [])"

definition runner_catalog :: "('c, 'w, 'p) runner \<Rightarrow> ('c, 'w, 'p, keybinding_info list) run_act" where
  "runner_catalog R s = then_do (runner_rpc R OpKeybindings s) (\<lambda>resp s.
     Some (catalog_from (rn_serde_error R) (rs_result resp), s))"

definition words_cover :: "string \<Rightarrow> string \<Rightarrow> bool" where
  "words_cover hay needle = list_all (\<lambda>w. list_ex (\<lambda>t. eq_ignore_ascii_case t w) (split_whitespace hay)) (split_whitespace needle)"

definition on_screen :: "ui_tree \<Rightarrow> string \<Rightarrow> bool" where
  "on_screen t target = list_ex (\<lambda>n. nd_visible (data n) \<and> words_cover (nd_name (data n)) target) (tree_flatten t)"

definition verify_effect ::
    "policy_decision \<Rightarrow> offered_action \<Rightarrow> string option \<Rightarrow> ui_tree \<Rightarrow> bool \<Rightarrow> string" where
  "verify_effect d a payload t changed =
     (if pd_kind d \<in> {AkType, AkSetValue} then
        (let current = Option.bind (oa_target a) (\<lambda>ident. Option.bind (tree_find t ident) (\<lambda>n. nd_value (data n))) in
         case payload of
           Some want \<Rightarrow> if current = Some want then ''success'' else ''wrong-effect''
         | None \<Rightarrow> if changed then ''state-changed'' else ''no-effect'')
      else if changed then ''state-changed'' else ''no-effect'')"

definition make_receipt :: "string \<Rightarrow> string list \<Rightarrow> goal_outcome \<Rightarrow> ('c, 'w, 'p) run_state \<Rightarrow> goal_receipt" where
  "make_receipt goal clauses out s =
     \<lparr>gr_goal = goal, gr_clauses = clauses, gr_outcome_kind = out, gr_outcome = outcome_label out,
      gr_reason = (case out of GoalBlocked r \<Rightarrow> Some r | GoalAbstained r _ \<Rightarrow> Some r | _ \<Rightarrow> None),
      gr_candidates = (case out of GoalAbstained _ cs \<Rightarrow> cs | _ \<Rightarrow> []),
      gr_steps = rw_steps s, gr_final_rev = rw_rev s, gr_calls = rw_calls s\<rparr>"

section \<open>One turn of the loop\<close>

text \<open>A turn continues (\<open>None\<close>) or ends the run with an outcome.\<close>

definition wait_turn ::
    "('c, 'w, 'p) runner \<Rightarrow> goal_outcome \<Rightarrow> ('c, 'w, 'p, goal_outcome option) run_act" where
  "wait_turn R exceeded s =
     (if cap_wait_ms (rn_caps R) \<le> rw_waited s then Some (Inr (Some exceeded), s)
      else
        (let s = s\<lparr>rw_world := tp_sleep (rn_tp R) (rn_poll_ms R) (rw_world s), rw_waited := rw_waited s + rn_poll_ms R\<rparr>
         in then_do (observe_since R s) (\<lambda>_ s. Some (Inr None, s))))"

definition abstain_outcome :: "action_space \<Rightarrow> string \<Rightarrow> ranked_action list \<Rightarrow> ranked_action list \<Rightarrow> goal_outcome" where
  "abstain_outcome sp reason ops targets =
     (if starts_with reason ESCALATION_PROTOCOL then GoalBlocked reason
      else GoalAbstained reason (top_candidates sp (if targets = [] then ops else targets) 8))"

fun text_reason :: "text_error \<Rightarrow> string" where
  "text_reason TextMissing = ''text_missing''"
| "text_reason TextAmbiguous = ''text_ambiguous''"
| "text_reason (TextInvalid m) = ''text_invalid:'' @ m"
| "text_reason (TextAbstain m) = ''text_abstain:'' @ m"

definition text_outcome :: "action_space \<Rightarrow> policy_decision \<Rightarrow> text_error \<Rightarrow> goal_outcome" where
  "text_outcome sp d e =
     (let reason = text_reason e in
      if str_contains reason ESCALATION_PROTOCOL then GoalBlocked reason
      else GoalAbstained reason (top_candidates sp (pd_target_ranked d) 8))"

definition escalate_text ::
    "('c, 'w, 'p) runner \<Rightarrow> text_context \<Rightarrow> string \<Rightarrow> 'w \<Rightarrow> (text_error + text_resolution) \<times> 'w" where
  "escalate_text R ctx field_id w =
     (case rn_text R of None \<Rightarrow> (Inl TextMissing, w)
      | Some en \<Rightarrow>
          if sensitive_field (rn_unicode R) (tc_field_role ctx) (tc_field_label ctx) then (Inl TextMissing, w)
          else resolve_text_command en (tc_goal ctx) field_id (tc_field_label ctx) (context_fingerprint ctx) w)"

definition resolve_payload ::
    "('c, 'w, 'p) runner \<Rightarrow> string \<Rightarrow> policy_decision \<Rightarrow> offered_action \<Rightarrow> ('c, 'w, 'p) run_state \<Rightarrow>
       (text_error + string option) \<times> 'w" where
  "resolve_payload R gtext d a s =
     (if pd_kind d \<in> {AkType, AkSetValue} then
        (let ctx = \<lparr>tc_goal = goal_new gtext, tc_field_label = oa_label a,
                    tc_field_role = (case oa_role a of None \<Rightarrow> [] | Some r \<Rightarrow> r), tc_typed = rw_typed s,
                    tc_fingerprint = (case rw_rev s of None \<Rightarrow> 0 | Some r \<Rightarrow> r)\<rparr>
         in case resolve_text_det ctx of
              Inr res \<Rightarrow> (Inr (Some (tr_text res)), rw_world s)
            | Inl TextMissing \<Rightarrow>
                (case escalate_text R ctx (pd_id d) (rw_world s) of (r, w) \<Rightarrow> (rmap (\<lambda>res. Some (tr_text res)) r, w))
            | Inl e \<Rightarrow> (Inl e, rw_world s))
      else (Inr None, rw_world s))"

text \<open>After the dispatch: observe, verify and record the step.\<close>

definition record_step ::
    "('c, 'w, 'p) runner \<Rightarrow> string \<Rightarrow> policy_decision \<Rightarrow> offered_action \<Rightarrow> string option \<Rightarrow>
       ('c, 'w, 'p, goal_outcome option) run_act" where
  "record_step R clause d a payload s =
     (let old = rw_tree s in
      then_do (observe_since R s) (\<lambda>_ s.
        let changed = (\<not> diff_is_empty old (rw_tree s));
            v = verify_effect d a payload (rw_tree s) changed;
            no_effect = (if v \<in> {''success'', ''state-changed''} then 0 else rw_no_effect s + 1);
            n = word_of_nat (length (rw_steps s)) + 1;
            s = s\<lparr>rw_no_effect := no_effect,
                  rw_history := rw_history s @ [\<lparr>he_step = n, he_id = pd_id d, he_kind = pd_kind d,
                    he_label = pd_label d, he_verification = v\<rparr>],
                  rw_typed := rw_typed s @ (case payload of None \<Rightarrow> [] | Some t \<Rightarrow> [t]),
                  rw_steps := rw_steps s @ [\<lparr>sc_step = n, sc_clause = clause, sc_op = kind_as_str (pd_kind d),
                    sc_id = pd_id d, sc_name = pd_label d, sc_millis = pd_millis d, sc_verification = v\<rparr>]\<rparr>
        in Some (Inr (if cap_no_effect (rn_caps R) \<le> no_effect
                      then Some (GoalBlocked (dec no_effect @ '' consecutive no-effect/wrong-effect actions (last: ''
                        @ pd_label d @ '')''))
                      else None), s)))"

definition act_turn ::
    "('c, 'w, 'p) runner \<Rightarrow> keybinding_info list \<Rightarrow> action_space \<Rightarrow> string \<Rightarrow> string \<Rightarrow> policy_decision \<Rightarrow>
       ('c, 'w, 'p, goal_outcome option) run_act" where
  "act_turn R kbs sp clause gtext d s =
     (case space_get sp (pd_id d) of
        None \<Rightarrow> Some (Inl ''chosen action left the space'', s)
      | Some a \<Rightarrow>
          (case resolve_payload R gtext d a s of
             (Inl e, w) \<Rightarrow> Some (Inr (Some (text_outcome sp d e)), s\<lparr>rw_world := w\<rparr>)
           | (Inr payload, w) \<Rightarrow>
               (case op_for_decision d a payload (rn_delivery R) clause kbs (rn_invoke_args R) w of
                  (Inl e, w) \<Rightarrow> Some (Inl e, s\<lparr>rw_world := w\<rparr>)
                | (Inr op, w) \<Rightarrow>
                    (case runner_rpc R op (s\<lparr>rw_world := w\<rparr>) of
                       None \<Rightarrow> None
                     | Some (Inr resp, s) \<Rightarrow> record_step R clause d a payload (s\<lparr>rw_stale := 0\<rparr>)
                     | Some (Inl err, s) \<Rightarrow>
                         if is_stale_dispatch_error err then
                           (let s = s\<lparr>rw_stale := rw_stale s + 1\<rparr> in
                            if cap_stale (rn_caps R) < rw_stale s
                            then Some (Inr (Some (GoalAbstained (''stale: '' @ err)
                                   (top_candidates sp (pd_target_ranked d) 8))), s)
                            else then_do (observe_since R s) (\<lambda>_ s. Some (Inr None, s)))
                         else Some (Inl err, s)))))"

definition decide_turn ::
    "('c, 'w, 'p) runner \<Rightarrow> keybinding_info list \<Rightarrow> string list \<Rightarrow> action_space \<Rightarrow> string \<Rightarrow> string \<Rightarrow>
       ('c, 'w, 'p, goal_outcome option) run_act" where
  "decide_turn R kbs clauses sp clause gtext s =
     (case rn_decide R sp (goal_new gtext) (rw_history s) (rw_policy s) of
        (Inl e, p) \<Rightarrow> Some (Inl (policy_error_text e), s\<lparr>rw_policy := p\<rparr>)
      | (Inr out, p) \<Rightarrow>
          (let s = s\<lparr>rw_policy := p\<rparr> in
           case out of
             PoAbstain reason ops targets \<Rightarrow> Some (Inr (Some (abstain_outcome sp reason ops targets)), s)
           | PoChoice d \<Rightarrow>
               (case pd_kind d of
                  AkDone \<Rightarrow>
                    (let s = s\<lparr>rw_clause := rw_clause s + 1\<rparr>
                     in Some (Inr (if length clauses \<le> rw_clause s then Some GoalDone else None), s))
                | AkBlocked \<Rightarrow> Some (Inr (Some (GoalBlocked ''policy chose blocked'')), s)
                | AkWait \<Rightarrow> wait_turn R GoalCapHit s
                | _ \<Rightarrow> act_turn R kbs sp clause gtext d s)))"

definition run_turn ::
    "('c, 'w, 'p) runner \<Rightarrow> keybinding_info list \<Rightarrow> string list \<Rightarrow> ('c, 'w, 'p, goal_outcome option) run_act" where
  "run_turn R kbs clauses s =
     (if length clauses \<le> rw_clause s then Some (Inr (Some GoalDone), s)
      else
        (let clause = substitute_pronouns (clauses ! rw_clause s) (rw_typed s) in
         case clause_mode_of (rn_unicode R) clause of
           None \<Rightarrow> None
         | Some (gtext, ModeWaitFor target) \<Rightarrow>
             if on_screen (rw_tree s) target then Some (Inr None, s\<lparr>rw_clause := rw_clause s + 1\<rparr>)
             else wait_turn R (GoalBlocked (''wait_for `'' @ target @ ''` exceeded wait budget'')) s
         | Some (gtext, ModeAct) \<Rightarrow>
             decide_turn R kbs clauses (from_tree (rn_unicode R) (rw_tree s) kbs (rn_invokes R)) clause gtext s))"

partial_function (option) run_loop ::
    "('c, 'w, 'p) runner \<Rightarrow> keybinding_info list \<Rightarrow> string list \<Rightarrow> ('c, 'w, 'p) run_state \<Rightarrow>
       (goal_outcome result \<times> ('c, 'w, 'p) run_state) option" where
  "run_loop R kbs clauses s =
     (if length (rw_steps s) < cap_steps (rn_caps R) then
        (case run_turn R kbs clauses s of
           None \<Rightarrow> None
         | Some (Inl e, s) \<Rightarrow> Some (Inl e, s)
         | Some (Inr (Some out), s) \<Rightarrow> Some (Inr out, s)
         | Some (Inr None, s) \<Rightarrow> run_loop R kbs clauses s)
      else Some (Inr GoalCapHit, s))"

definition run_goal ::
    "('c, 'w, 'p) runner \<Rightarrow> string \<Rightarrow> 'c agent_client \<Rightarrow> 'w \<Rightarrow> 'p \<Rightarrow> ui_tree \<Rightarrow>
       (goal_receipt result \<times> ('c, 'w, 'p) run_state) option" where
  \<comment> \<open>\<open>t0\<close> stands for the tree before the first observation\<close>
  "run_goal R goal c w p t0 =
     (case run_clauses (rn_unicode R) goal of None \<Rightarrow> None
      | Some clauses \<Rightarrow>
        (let s = \<lparr>rw_client = c, rw_world = w, rw_policy = p, rw_calls = 0, rw_tree = t0, rw_rev = None, rw_history = [],
             rw_typed = [], rw_steps = [], rw_no_effect = 0, rw_stale = 0, rw_waited = 0, rw_clause = 0\<rparr> in
         then_do (observe_full R s) (\<lambda>t s.
         then_do (runner_catalog R (s\<lparr>rw_tree := t, rw_rev := tree_rev t\<rparr>)) (\<lambda>kbs s.
         then_do (run_loop R kbs clauses s) (\<lambda>out s.
           Some (Inr (make_receipt goal clauses out s), s))))))"

end
