(* ===== verification/Space_Laws.thy ===== *)
theory Space_Laws
  imports Action_Space
begin

text \<open>
  Laws of the action space: it is well formed, it offers the actions of exactly the viable nodes
  (enabled and visible, with every ancestor) and its three controls are always there.
\<close>

section \<open>Well-formed spaces\<close>

abbreviation node_kinds :: "action_kind set" where
  "node_kinds \<equiv> {AkClick, AkType, AkSetValue, AkKey}"

text \<open>What the fields of an offered action must agree on.\<close>

definition action_ok :: "offered_action \<Rightarrow> bool" where
  "action_ok a \<longleftrightarrow>
     (kind_is_control (oa_kind a) \<longleftrightarrow> oa_target a = None)
     \<and> (oa_fingerprint a \<noteq> None \<longleftrightarrow> oa_kind a \<in> node_kinds)
     \<and> (oa_dangerous a \<longrightarrow> oa_kind a \<in> {AkKeybinding, AkInvoke})
     \<and> (case oa_target a of
          None \<Rightarrow> oa_id a = kind_as_str (oa_kind a)
        | Some t \<Rightarrow> oa_id a = (if oa_kind a = AkKey then id_for_key t ''Enter'' else kind_as_str (oa_kind a) @ '':'' @ t))"

definition space_ok :: "action_space \<Rightarrow> bool" where
  "space_ok sp \<longleftrightarrow> bt_ok (as_actions sp) \<and>
     (\<forall>(i, a) \<in> set (as_actions sp). oa_id a = i \<and> action_ok a)"

text \<open>A property of every offer is kept by \<open>offer\<close>.\<close>

definition offers_ok :: "(offered_action \<Rightarrow> bool) \<Rightarrow> (string, offered_action) btmap \<Rightarrow> bool" where
  "offers_ok P m \<longleftrightarrow> bt_ok m \<and> (\<forall>(i, a) \<in> set m. oa_id a = i \<and> P a)"

lemma offers_ok_offer: "offers_ok P m \<Longrightarrow> P a \<Longrightarrow> offers_ok P (offer a m)"
  using bt_insert_set [of "oa_id a" a m] by (auto simp: offers_ok_def offer_def bt_ok_insert)

lemma offers_ok_fold: "offers_ok P m \<Longrightarrow> (\<And>x. x \<in> set xs \<Longrightarrow> P (f x)) \<Longrightarrow> offers_ok P (fold (\<lambda>x. offer (f x)) xs m)"
  by (induction xs arbitrary: m) (auto intro: offers_ok_offer)

lemma offers_ok_mono: "offers_ok P m \<Longrightarrow> (\<And>a. P a \<Longrightarrow> Q a) \<Longrightarrow> offers_ok Q m"
  by (auto simp: offers_ok_def)

lemma offer_lookup:
  "bt_ok m \<Longrightarrow> map_of (offer a m) i = (if i = oa_id a \<and> map_of m i = None then Some a else map_of m i)"
  by (auto simp: offer_def bt_lookup_insert)

lemma offer_keys: "set (map fst (offer a m)) = insert (oa_id a) (set (map fst m))"
proof (cases "map_of m (oa_id a)")
  case (Some b)
  then have "oa_id a \<in> set (map fst m)" by (force dest: map_of_SomeD)
  with Some show ?thesis by (auto simp: offer_def)
next
  case None
  then show ?thesis using bt_keys_insert [of "oa_id a" a m] by (simp add: offer_def)
qed

lemma fold_offer_keys: "set (map fst (fold (\<lambda>x. offer (f x)) xs m)) = (oa_id \<circ> f) ` set xs \<union> set (map fst m)"
proof (induction xs arbitrary: m)
  case (Cons x xs)
  show ?case unfolding fold_simps comp_apply Cons.IH offer_keys by auto
qed simp

section \<open>The actions of a node\<close>

definition node_offers :: "ui_node \<Rightarrow> ui_node option \<Rightarrow> offered_action list" where
  "node_offers n parent =
     (let name = nd_name (data n) in
      (if is_clickable n parent then [node_action n parent (id_for_target AkClick (nid n)) AkClick name] else [])
      @ (if nrole n = role_textbox then
           [node_action n parent (id_for_target AkType (nid n)) AkType name,
            node_action n parent (id_for_target AkSetValue (nid n)) AkSetValue name,
            node_action n parent (id_for_key (nid n) ''Enter'') AkKey (name @ '' submit'')]
         else []))"

lemma offer_node_fold: "offer_node n parent m = fold offer (node_offers n parent) m"
  by (simp add: offer_node_def node_offers_def Let_def)

lemma node_offers_ok: "a \<in> set (node_offers n parent) \<Longrightarrow> action_ok a \<and> oa_kind a \<in> node_kinds"
  by (auto simp: node_offers_def Let_def node_action_def action_ok_def id_for_target_def id_for_key_def
      kind_is_control_def operation_is_control_def split: if_splits)

section \<open>The viable nodes\<close>

inductive viable_at :: "ui_tree \<Rightarrow> ui_node \<Rightarrow> ui_node option \<Rightarrow> bool" for t where
  root: "n \<in> set (tree_nodes t) \<Longrightarrow> nd_enabled (data n) \<Longrightarrow> nd_visible (data n) \<Longrightarrow> viable_at t n None"
| child: "viable_at t p gp \<Longrightarrow> c \<in> set (children p) \<Longrightarrow> nd_enabled (data c) \<Longrightarrow> nd_visible (data c)
    \<Longrightarrow> viable_at t c (Some p)"

inductive_cases viable_at_child_cases: "viable_at t c (Some p)"

text \<open>The same nodes, in the order in which the recursion meets them.\<close>

fun viable_list :: "ui_node option \<Rightarrow> bool \<Rightarrow> ui_node \<Rightarrow> (ui_node \<times> ui_node option) list" where
  "viable_list parent ancestors (UiNode d cs) =
     (let v = (ancestors \<and> nd_enabled d \<and> nd_visible d) in
      (if v then [(UiNode d cs, parent)] else [])
      @ concat (map (viable_list (Some (UiNode d cs)) v) cs))"

definition viable_nodes :: "ui_tree \<Rightarrow> (ui_node \<times> ui_node option) list" where
  "viable_nodes t = concat (map (viable_list None True) (tree_nodes t))"

lemma viable_list_False: "viable_list parent False n = []"
  by (induction parent "False" n rule: viable_list.induct) (auto simp: Let_def)

lemma viable_list_sound:
  "(x, p) \<in> set (viable_list parent v n) \<Longrightarrow>
   (v \<and> nd_enabled (data n) \<and> nd_visible (data n) \<Longrightarrow> viable_at t n parent) \<Longrightarrow> viable_at t x p"
proof (induction parent v n rule: viable_list.induct)
  case (1 parent ancestors d cs)
  let ?n = "UiNode d cs" and ?v = "ancestors \<and> nd_enabled d \<and> nd_visible d"
  show ?case
  proof (cases ?v)
    case False
    then show ?thesis using "1.prems"(1) viable_list_False by (auto simp: Let_def)
  next
    case True
    then have n: "viable_at t ?n parent" using "1.prems"(2) by simp
    consider "x = ?n" "p = parent" | c where "c \<in> set cs" "(x, p) \<in> set (viable_list (Some ?n) True c)"
      using "1.prems"(1) True by (auto simp: Let_def)
    then show ?thesis
    proof cases
      case 1 then show ?thesis using n by simp
    next
      case 2
      then show ?thesis using "1.IH" [OF refl, of c] True viable_at.child [OF n, of c] by auto
    qed
  qed
qed

lemma viable_list_self:
  "v \<Longrightarrow> nd_enabled (data n) \<Longrightarrow> nd_visible (data n) \<Longrightarrow> (n, parent) \<in> set (viable_list parent v n)"
  by (cases n) (simp add: Let_def)

lemma viable_list_child:
  "(p, gp) \<in> set (viable_list parent v n) \<Longrightarrow> c \<in> set (children p) \<Longrightarrow> nd_enabled (data c) \<Longrightarrow> nd_visible (data c)
   \<Longrightarrow> (c, Some p) \<in> set (viable_list parent v n)"
proof (induction parent v n rule: viable_list.induct)
  case (1 parent ancestors d cs)
  let ?n = "UiNode d cs" and ?v = "ancestors \<and> nd_enabled d \<and> nd_visible d"
  consider "?v" "p = ?n" | x where "x \<in> set cs" "(p, gp) \<in> set (viable_list (Some ?n) ?v x)"
    using "1.prems"(1) by (auto simp: Let_def split: if_splits)
  then show ?case
  proof cases
    case 1
    have "(c, Some ?n) \<in> set (viable_list (Some ?n) True c)"
      by (rule viable_list_self) (use "1.prems" in simp_all)
    with 1 "1.prems"(2) show ?thesis by (auto simp: Let_def)
  next
    case 2
    then have "(c, Some p) \<in> set (viable_list (Some ?n) ?v x)"
      using "1.IH" [OF refl, of x] "1.prems"(2-) by simp
    then show ?thesis using 2(1) by (auto simp: Let_def)
  qed
qed

lemma viable_nodes_iff: "(n, p) \<in> set (viable_nodes t) \<longleftrightarrow> viable_at t n p"
proof
  assume "(n, p) \<in> set (viable_nodes t)"
  then obtain r where "r \<in> set (tree_nodes t)" "(n, p) \<in> set (viable_list None True r)"
    by (auto simp: viable_nodes_def)
  then show "viable_at t n p" using viable_list_sound viable_at.root by blast
next
  assume "viable_at t n p"
  then show "(n, p) \<in> set (viable_nodes t)"
  proof induction
    case (root n)
    then show ?case using viable_list_self [of True n None] by (auto simp: viable_nodes_def)
  next
    case (child p gp c)
    then show ?case using viable_list_child by (fastforce simp: viable_nodes_def)
  qed
qed

section \<open>What the recursion offers\<close>

definition offers_of :: "(ui_node \<times> ui_node option) list \<Rightarrow> offered_action list" where
  "offers_of ns = concat (map (\<lambda>(n, p). node_offers n p) ns)"

lemma offers_of_append: "offers_of (xs @ ys) = offers_of xs @ offers_of ys"
  by (simp add: offers_of_def)

lemma collect_node_fold:
  "fst (collect_node U parent v n st) = fold offer (offers_of (viable_list parent v n)) (fst st)"
proof (induction U parent v n st rule: collect_node.induct)
  case (1 U parent ancestors d cs st)
  let ?n = "UiNode d cs" and ?v = "ancestors \<and> nd_enabled d \<and> nd_visible d"
  let ?st = "if ?v then (offer_node ?n parent (fst st), snd st @ [node_text_of U ?n]) else st"
  have kids: "fst (fold (collect_node U (Some ?n) ?v) xs s)
      = fold offer (offers_of (concat (map (viable_list (Some ?n) ?v) xs))) (fst s)" if "set xs \<subseteq> set cs" for xs s
    using that
  proof (induction xs arbitrary: s)
    case Nil then show ?case by (simp add: offers_of_def)
  next
    case (Cons x xs)
    then show ?case using "1.IH" [OF refl refl refl, of x s] by (simp add: offers_of_append)
  qed
  have st: "fst ?st = fold offer (offers_of (if ?v then [(?n, parent)] else [])) (fst st)"
    by (simp add: offers_of_def offer_node_fold)
  have "fst (collect_node U parent ancestors ?n st)
      = fold offer (offers_of (concat (map (viable_list (Some ?n) ?v) cs))) (fst ?st)"
    using kids [of cs ?st] by (simp add: Let_def)
  also have "\<dots> = fold offer (offers_of (viable_list parent ancestors ?n)) (fst st)"
    unfolding st by (simp add: Let_def offers_of_append)
  finally show ?case .
qed

section \<open>The whole space\<close>

definition all_offers :: "ui_tree \<Rightarrow> keybinding_info list \<Rightarrow> offered_invoke list \<Rightarrow> offered_action list" where
  "all_offers t kbs invokes = offers_of (viable_nodes t) @ map keybinding_action kbs
     @ map invoke_action invokes @ map control_action [AkDone, AkBlocked, AkWait]"

lemma fold_offer_map: "fold (\<lambda>x. offer (f x)) xs m = fold offer (map f xs) m"
  by (simp add: fold_map comp_def)

lemma collect_forest_fold:
  "fst (fold (collect_node U None True) ns st)
   = fold offer (offers_of (concat (map (viable_list None True) ns))) (fst st)"
proof (induction ns arbitrary: st)
  case Nil
  show ?case by (simp add: offers_of_def)
next
  case (Cons n ns)
  have "fst (fold (collect_node U None True) (n # ns) st)
      = fold offer (offers_of (concat (map (viable_list None True) ns))) (fst (collect_node U None True n st))"
    unfolding fold_simps comp_apply by (rule Cons.IH)
  then show ?case unfolding collect_node_fold list.map concat.simps offers_of_append fold_append comp_apply .
qed

lemma from_tree_offers: "as_actions (from_tree U t kbs invokes) = fold offer (all_offers t kbs invokes) []"
  using collect_forest_fold [of U "tree_nodes t" "([], [])"]
  by (simp add: from_tree_def all_offers_def viable_nodes_def fold_offer_map [of keybinding_action]
      fold_offer_map [of invoke_action] case_prod_unfold)

lemma fold_offer_lookup:
  "bt_ok m \<Longrightarrow> bt_ok (fold offer xs m) \<and> map_of (fold offer xs m) i =
     (case map_of m i of Some a \<Rightarrow> Some a | None \<Rightarrow> List.find (\<lambda>a. oa_id a = i) xs)"
proof (induction xs arbitrary: m)
  case (Cons x xs)
  have "bt_ok (offer x m)" using Cons.prems by (simp add: offer_def bt_ok_insert)
  with Cons show ?case by (auto simp: offer_lookup split: option.splits)
qed (simp split: option.splits)

lemma space_get_find: "space_get (from_tree U t kbs invokes) i = List.find (\<lambda>a. oa_id a = i) (all_offers t kbs invokes)"
  using fold_offer_lookup [of "[]"] by (simp add: space_get_def from_tree_offers)

text \<open>Every offer is well formed and of its kind.\<close>

lemma control_action_ok: "k \<in> {AkDone, AkBlocked, AkWait} \<Longrightarrow> action_ok (control_action k)"
  by (auto simp: control_action_def action_ok_def id_for_control_def kind_is_control_def operation_is_control_def)

lemma keybinding_action_ok: "action_ok (keybinding_action kb)"
  by (simp add: keybinding_action_def action_ok_def id_for_entity_def kind_is_control_def operation_is_control_def)

lemma invoke_action_ok: "action_ok (invoke_action i)"
  by (simp add: invoke_action_def action_ok_def id_for_entity_def kind_is_control_def operation_is_control_def)

lemma offers_ofD: "a \<in> set (offers_of ns) \<Longrightarrow> \<exists>n p. (n, p) \<in> set ns \<and> a \<in> set (node_offers n p)"
  by (auto simp: offers_of_def)

lemma all_offers_ok: "a \<in> set (all_offers t kbs invokes) \<Longrightarrow> action_ok a"
  by (auto simp: all_offers_def keybinding_action_ok invoke_action_ok control_action_ok
      dest!: offers_ofD node_offers_ok)

lemma from_tree_ok: "space_ok (from_tree U t kbs invokes)"
proof -
  have "fold offer xs m = fold (\<lambda>x. offer (id x)) xs m" for xs m by simp
  then have "offers_ok action_ok (fold offer (all_offers t kbs invokes) [])"
    using offers_ok_fold [of action_ok "[]" "all_offers t kbs invokes" id] all_offers_ok
    by (simp add: offers_ok_def)
  then show ?thesis by (simp add: space_ok_def offers_ok_def from_tree_offers)
qed

text \<open>Only a control has an id without a colon, and the first part of the others names the kind.\<close>

lemma action_ok_id:
  assumes "action_ok a"
  shows "oa_id a = kind_as_str (oa_kind a) \<and> kind_is_control (oa_kind a)
       \<or> (\<exists>rest. oa_id a = kind_as_str (oa_kind a) @ '':'' @ rest)"
  using assms by (cases "oa_target a") (auto simp: action_ok_def id_for_key_def split: if_splits)

lemma kind_prefix_inj: "kind_as_str k @ '':'' @ r = kind_as_str k' @ '':'' @ r' \<Longrightarrow> k = k' \<and> r = r'"
  by (cases k; cases k') simp_all

lemma kind_no_colon: "kind_as_str k \<noteq> kind_as_str k' @ '':'' @ r"
  by (cases k; cases k') simp_all

lemma kind_as_str_inj: "kind_as_str k = kind_as_str k' \<longleftrightarrow> k = k'"
  by (cases k; cases k') simp_all

lemma space_getD:
  assumes "space_get (from_tree U t kbs invokes) i = Some a"
  shows "a \<in> set (all_offers t kbs invokes)" "oa_id a = i" "action_ok a"
proof -
  show a: "a \<in> set (all_offers t kbs invokes)" and "oa_id a = i"
    using assms unfolding space_get_find find_Some_iff by auto
  show "action_ok a" using all_offers_ok [OF a] .
qed

lemma space_get_control:
  assumes k: "k \<in> {AkDone, AkBlocked, AkWait}"
  shows "space_get (from_tree U t kbs invokes) (kind_as_str k) = Some (control_action k)"
proof -
  let ?xs = "offers_of (viable_nodes t) @ map keybinding_action kbs @ map invoke_action invokes"
  have "oa_id a \<noteq> kind_as_str k" if "a \<in> set ?xs" for a
  proof
    assume eq: "oa_id a = kind_as_str k"
    have "action_ok a" and nc: "\<not> kind_is_control (oa_kind a)"
      using that by (auto simp: keybinding_action_ok invoke_action_ok dest!: offers_ofD node_offers_ok)
        (auto simp: keybinding_action_def invoke_action_def kind_is_control_def operation_is_control_def)
    then show False using action_ok_id [of a] kind_no_colon eq by metis
  qed
  then have none: "List.find (\<lambda>a. oa_id a = kind_as_str k) ?xs = None"
    unfolding find_None_iff by blast
  have parts: "all_offers t kbs invokes = ?xs @ map control_action [AkDone, AkBlocked, AkWait]"
    by (simp add: all_offers_def)
  have "space_get (from_tree U t kbs invokes) (kind_as_str k)
      = List.find (\<lambda>a. oa_id a = kind_as_str k) (map control_action [AkDone, AkBlocked, AkWait])"
    unfolding space_get_find parts by (subst find_in_append) (simp only: none option.case)
  also have "\<dots> = Some (control_action k)"
  proof -
    have ids: "oa_id (control_action x) = kind_as_str x" for x by (simp add: control_action_def id_for_control_def)
    consider "k = AkDone" | "k = AkBlocked" | "k = AkWait" using k by blast
    then show ?thesis by cases (simp_all only: list.map find.simps ids kind_as_str_inj action_kind.simps simp_thms if_True if_False)
  qed
  finally show ?thesis .
qed

section \<open>Offered exactly when viable\<close>

lemma space_get_iff: "(\<exists>a. space_get (from_tree U t kbs invokes) i = Some a) \<longleftrightarrow> (\<exists>a \<in> set (all_offers t kbs invokes). oa_id a = i)"
proof -
  have "(\<exists>a. List.find P xs = Some a) \<longleftrightarrow> (\<exists>x \<in> set xs. P x)" for P :: "offered_action \<Rightarrow> bool" and xs
    by (induction xs) auto
  then show ?thesis unfolding space_get_find .
qed

lemma node_id_iff:
  assumes "a \<in> set (all_offers t kbs invokes)" "k \<in> node_kinds" "oa_id a = kind_as_str k @ '':'' @ rest"
  shows "\<exists>n p. viable_at t n p \<and> a \<in> set (node_offers n p) \<and> oa_kind a = k"
proof -
  have "action_ok a" using assms(1) by (rule all_offers_ok)
  then have k: "oa_kind a = k" using action_ok_id assms(3) kind_prefix_inj kind_no_colon by metis
  then have "a \<in> set (offers_of (viable_nodes t))"
    using assms(1,2) by (auto simp: all_offers_def keybinding_action_def invoke_action_def control_action_def)
  then obtain n p where "(n, p) \<in> set (viable_nodes t)" "a \<in> set (node_offers n p)" using offers_ofD by blast
  then show ?thesis using k viable_nodes_iff by blast
qed

lemma offer_cases:
  assumes "a \<in> set (all_offers t kbs invokes)"
  obtains n q where "viable_at t n q" "a \<in> set (node_offers n q)"
  | kb where "kb \<in> set kbs" "a = keybinding_action kb"
  | i where "i \<in> set invokes" "a = invoke_action i"
  | k where "k \<in> {AkDone, AkBlocked, AkWait}" "a = control_action k"
proof -
  consider "a \<in> set (offers_of (viable_nodes t))" | "a \<in> keybinding_action ` set kbs" | "a \<in> invoke_action ` set invokes"
    | "a \<in> control_action ` {AkDone, AkBlocked, AkWait}"
    using assms by (auto simp: all_offers_def)
  then show thesis
  proof cases
    case 1 then show thesis using that(1) viable_nodes_iff offers_ofD by metis
  next
    case 2 then show thesis using that(2) by blast
  next
    case 3 then show thesis using that(3) by blast
  next
    case 4 then show thesis using that(4) by blast
  qed
qed

lemma offered_when_viable: "viable_at t n p \<Longrightarrow> a \<in> set (node_offers n p) \<Longrightarrow> a \<in> set (all_offers t kbs invokes)"
  using viable_nodes_iff [of n p t] by (force simp: all_offers_def offers_of_def)

text \<open>An action with a fingerprint is the offer of a viable node.\<close>

lemma node_action_viable:
  assumes "space_get (from_tree U t kbs invokes) i = Some a" "oa_kind a \<in> node_kinds"
  shows "\<exists>n p. viable_at t n p \<and> a \<in> set (node_offers n p)"
proof -
  note a = space_getD [OF assms(1)]
  then have "a \<in> set (offers_of (viable_nodes t))"
    using assms(2) by (auto simp: all_offers_def keybinding_action_def invoke_action_def control_action_def)
  then show ?thesis using offers_ofD viable_nodes_iff by metis
qed

lemma node_offers_fields:
  "a \<in> set (node_offers n p) \<Longrightarrow> oa_target a = Some (nid n) \<and> oa_fingerprint a = Some (fingerprint n (map_option nid p))
     \<and> oa_role a = Some (nrole n) \<and> \<not> oa_dangerous a
     \<and> (oa_kind a = AkClick \<and> is_clickable n p \<or> oa_kind a \<in> {AkType, AkSetValue, AkKey} \<and> nrole n = role_textbox)"
  by (auto simp: node_offers_def Let_def node_action_def split: if_splits)

lemma click_offered_iff:
  "(\<exists>a. space_get (from_tree U t kbs invokes) (id_for_target AkClick i) = Some a)
   \<longleftrightarrow> (\<exists>n p. viable_at t n p \<and> nid n = i \<and> is_clickable n p)"
proof
  assume "\<exists>a. space_get (from_tree U t kbs invokes) (id_for_target AkClick i) = Some a"
  then obtain a where a: "a \<in> set (all_offers t kbs invokes)" "oa_id a = kind_as_str AkClick @ '':'' @ i"
    unfolding space_get_iff id_for_target_def by blast
  then obtain n p where np: "viable_at t n p" "a \<in> set (node_offers n p)" "oa_kind a = AkClick"
    using node_id_iff [OF a(1) _ a(2)] by blast
  have "oa_id a = kind_as_str AkClick @ '':'' @ nid n"
    using node_offers_ok [OF np(2)] node_offers_fields [OF np(2)] np(3) by (simp add: action_ok_def)
  then have "nid n = i" using a(2) by simp
  then show "\<exists>n p. viable_at t n p \<and> nid n = i \<and> is_clickable n p"
    using np node_offers_fields [OF np(2)] by auto
next
  assume "\<exists>n p. viable_at t n p \<and> nid n = i \<and> is_clickable n p"
  then obtain n p where np: "viable_at t n p" "nid n = i" "is_clickable n p" by blast
  let ?a = "node_action n p (id_for_target AkClick (nid n)) AkClick (nd_name (data n))"
  have "?a \<in> set (node_offers n p)" using np(3) by (simp add: node_offers_def Let_def)
  then have "?a \<in> set (all_offers t kbs invokes)" using offered_when_viable np(1) by blast
  then show "\<exists>a. space_get (from_tree U t kbs invokes) (id_for_target AkClick i) = Some a"
    unfolding space_get_iff by (rule rev_bexI) (simp add: node_action_def np(2))
qed

lemma field_offered_iff:
  assumes k: "k \<in> {AkType, AkSetValue}"
  shows "(\<exists>a. space_get (from_tree U t kbs invokes) (id_for_target k i) = Some a)
   \<longleftrightarrow> (\<exists>n p. viable_at t n p \<and> nid n = i \<and> nrole n = role_textbox)"
proof
  assume "\<exists>a. space_get (from_tree U t kbs invokes) (id_for_target k i) = Some a"
  then obtain a where a: "a \<in> set (all_offers t kbs invokes)" "oa_id a = kind_as_str k @ '':'' @ i"
    unfolding space_get_iff id_for_target_def by blast
  then obtain n p where np: "viable_at t n p" "a \<in> set (node_offers n p)" "oa_kind a = k"
    using node_id_iff [OF a(1) _ a(2)] k by blast
  have "oa_id a = kind_as_str k @ '':'' @ nid n"
    using node_offers_ok [OF np(2)] node_offers_fields [OF np(2)] np(3) k by (auto simp: action_ok_def)
  then have "nid n = i" using a(2) by simp
  then show "\<exists>n p. viable_at t n p \<and> nid n = i \<and> nrole n = role_textbox"
    using np k node_offers_fields [OF np(2)] by auto
next
  assume "\<exists>n p. viable_at t n p \<and> nid n = i \<and> nrole n = role_textbox"
  then obtain n p where np: "viable_at t n p" "nid n = i" "nrole n = role_textbox" by blast
  let ?a = "node_action n p (id_for_target k (nid n)) k (nd_name (data n))"
  have "?a \<in> set (node_offers n p)" using np(3) k by (auto simp: node_offers_def Let_def)
  then have "?a \<in> set (all_offers t kbs invokes)" using offered_when_viable np(1) by blast
  then show "\<exists>a. space_get (from_tree U t kbs invokes) (id_for_target k i) = Some a"
    unfolding space_get_iff by (rule rev_bexI) (simp add: node_action_def np(2))
qed

section \<open>Keys and sample\<close>

lemma rsplit_append: "CHR '':'' \<notin> set key \<Longrightarrow> rsplit_once_colon (s @ '':'' @ key) = Some (s, key)"
proof -
  assume c: "CHR '':'' \<notin> set key"
  then have c': "\<And>x. x \<in> set (rev key) \<Longrightarrow> x \<noteq> CHR '':''" by auto
  have "takeWhile (\<lambda>c. c \<noteq> CHR '':'') (rev key @ CHR '':'' # rev s) = rev key"
    using c' by (subst takeWhile_append2) auto
  moreover have "dropWhile (\<lambda>c. c \<noteq> CHR '':'') (rev key @ CHR '':'' # rev s) = CHR '':'' # rev s"
    using c' by (subst dropWhile_append2) auto
  ultimately show ?thesis by (simp add: rsplit_once_colon_def)
qed

lemma action_key_enter: "oa_id a = id_for_key i ''Enter'' \<Longrightarrow> action_key a = Inr ''Enter''"
proof -
  assume a: "oa_id a = id_for_key i ''Enter''"
  have "strip_prefix ''KEY:'' (oa_id a) = Some (i @ '':Enter'')"
    unfolding a id_for_key_def using strip_prefix_append [of "''KEY:''" "i @ '':Enter''"] by simp
  moreover have "rsplit_once_colon (i @ '':Enter'') = Some (i, ''Enter'')"
    using rsplit_append [of "''Enter''" i] by simp
  ultimately show ?thesis by (simp add: action_key_def)
qed

end
