(* ===== verification/Policy_Laws.thy ===== *)
theory Policy_Laws
  imports Space_Laws Escalate
begin

text \<open>
  Safety of the policies: whatever the arbitration library or the endpoint answers, a choice is
  one of the offered actions, of its kind, and not a dangerous one.  The contract is a locale,
  which the local policy, the command endpoint and their composition satisfy.
\<close>

section \<open>The contract of a policy\<close>

definition offered_safe :: "action_space \<Rightarrow> policy_decision \<Rightarrow> bool" where
  "offered_safe sp d \<longleftrightarrow> (\<exists>a. space_get sp (pd_id d) = Some a \<and> oa_kind a = pd_kind d
     \<and> oa_label a = pd_label d \<and> \<not> oa_dangerous a)"

locale safe_policy =
  fixes decide :: "'p decider"
  assumes choice_safe: "space_ok sp \<Longrightarrow> decide sp g h p = (Inr (PoChoice d), p') \<Longrightarrow> offered_safe sp d"
begin

lemma choice_offered:
  assumes "decide (from_tree U t kbs invokes) g h p = (Inr (PoChoice d), p')"
  shows "\<exists>a. a \<in> set (all_offers t kbs invokes) \<and> oa_id a = pd_id d \<and> oa_kind a = pd_kind d \<and> \<not> oa_dangerous a"
proof -
  obtain a where a: "space_get (from_tree U t kbs invokes) (pd_id d) = Some a" "oa_kind a = pd_kind d" "\<not> oa_dangerous a"
    using choice_safe [OF from_tree_ok assms] unfolding offered_safe_def by blast
  then show ?thesis using space_getD [OF a(1)] by blast
qed

end

section \<open>Lookups in a well-formed space\<close>

lemma space_ok_get:
  assumes "space_ok sp" "space_get sp i = Some a"
  shows "oa_id a = i" "action_ok a"
  using assms map_of_SomeD [of "as_actions sp" i a] by (auto simp: space_ok_def space_get_def)

lemma space_ok_target:
  assumes "space_ok sp" "a \<in> set (targets_of sp k)"
  shows "space_get sp (oa_id a) = Some a" "oa_kind a = k" "oa_target a \<noteq> None"
proof -
  obtain i where i: "(i, a) \<in> set (as_actions sp)" and k: "oa_kind a = k" "oa_target a \<noteq> None"
    using assms(2) by (auto simp: targets_of_def space_actions_def)
  then have "oa_id a = i" using assms(1) by (auto simp: space_ok_def)
  moreover have "distinct (map fst (as_actions sp))" using assms(1) by (simp add: space_ok_def bt_ok_def)
  ultimately show "space_get sp (oa_id a) = Some a" using i by (simp add: space_get_def)
  show "oa_kind a = k" "oa_target a \<noteq> None" using k by simp_all
qed

lemma space_ok_control:
  assumes "space_ok sp" "space_get sp (kind_as_str k) = Some a"
  shows "oa_kind a = k"
proof -
  have a: "oa_id a = kind_as_str k" "action_ok a" using space_ok_get [OF assms] by simp_all
  then show ?thesis using action_ok_id [OF a(2)] kind_no_colon kind_as_str_inj by metis
qed

lemma action_id_Inr: "action_id_try_new i = Inr j \<Longrightarrow> j = i"
  by (auto simp: action_id_try_new_def split: if_splits)

lemma space_get_str_get: "space_get_str sp i = Some a \<Longrightarrow> space_get sp i = Some a"
  by (auto simp: space_get_str_def dest: action_id_Inr split: sum.splits)

lemma not_dangerous: "action_ok a \<Longrightarrow> kind_is_control (oa_kind a) \<Longrightarrow> \<not> oa_dangerous a"
  by (auto simp: action_ok_def kind_is_control_def operation_is_control_def)

lemma offered_safeI:
  assumes "space_ok sp" "space_get sp i = Some a" "\<not> oa_dangerous a" "oa_kind a = k"
  shows "offered_safe sp \<lparr>pd_id = oa_id a, pd_kind = k, pd_label = oa_label a, pd_millis = m,
    pd_op_ranked = ops, pd_target_ranked = ts\<rparr>"
  using assms space_ok_get [OF assms(1,2)] by (auto simp: offered_safe_def)

lemma control_safe:
  assumes "space_ok sp" "space_get sp (kind_as_str k) = Some a" "kind_is_control k"
  shows "\<not> oa_dangerous a" "oa_kind a = k"
proof -
  show k: "oa_kind a = k" by (rule space_ok_control [OF assms(1,2)])
  show "\<not> oa_dangerous a" using not_dangerous [of a] space_ok_get [OF assms(1,2)] assms(3) k by simp
qed

lemma done_choice_safe:
  assumes "space_ok sp" "space_get_str sp ''DONE'' = Some a" "done_choice I ops ts a = PoChoice d"
  shows "offered_safe sp d"
proof -
  have a: "space_get sp (kind_as_str AkDone) = Some a" using space_get_str_get [OF assms(2)] by simp
  have "kind_is_control AkDone" by (simp add: kind_is_control_def operation_is_control_def)
  note c = control_safe [OF assms(1) a this]
  then show ?thesis using assms(3) offered_safeI [OF assms(1) a] by (auto simp: done_choice_def)
qed

section \<open>The local policy\<close>

lemma find_fst_member: "List.find P (map fst xs) = Some a \<Longrightarrow> a \<in> fst ` set xs"
  by (induction xs) (auto split: if_splits)

lemma target_of_answer_member:
  "target_of_answer I cset scored ans ranked = Inr (Some a, ranked') \<Longrightarrow> a \<in> fst ` set scored"
  by (auto simp: target_of_answer_def rbind_Inr_iff dest: find_fst_member split: answer.splits)

lemma choose_targets_member:
  assumes "choose_targets I scored h profile = Inr (Some a, ranked)"
  shows "a \<in> fst ` set scored"
proof (cases scored)
  case Nil
  then show ?thesis using assms by (simp add: choose_targets_def)
next
  case x: (Cons x rest)
  show ?thesis
  proof (cases rest)
    case Nil
    then show ?thesis using assms x by (cases x) (auto simp: choose_targets_def Let_def split: if_splits)
  next
    case y: (Cons y r)
    from assms obtain cset ans rs where "target_of_answer I cset scored ans rs = Inr (Some a, ranked)"
      by (auto simp: choose_targets_def x y rbind_Inr_iff split_beta)
    then show ?thesis by (rule target_of_answer_member)
  qed
qed

lemma decide_control_safe:
  assumes ok: "space_ok sp" and r: "decide_control I sp h k ops = Inr (PoChoice d)" and k: "kind_is_control k"
  shows "offered_safe sp d"
  using r control_safe [OF ok _ k]
  by (auto simp: decide_control_def rbind_Inr_iff dest!: action_id_Inr split: option.splits if_splits
      intro: offered_safeI [OF ok] done_choice_safe [OF ok])

lemma decide_target_safe:
  assumes ok: "space_ok sp" and r: "decide_target U I profile sp goal ctx h k ops = Inr (PoChoice d)"
  shows "offered_safe sp d"
proof -
  let ?scored = "map (\<lambda>a. (a, score_action_ctx U I goal (evidence_of a) ctx)) (targets_of sp k)"
  have mem: "space_get sp (oa_id a) = Some a" if "choose_targets I ?scored h profile = Inr (Some a, ranked)" for a ranked
    using choose_targets_member [OF that] space_ok_target [OF ok] by auto
  obtain x where x: "choose_targets I ?scored h profile = Inr x"
    using r by (auto simp: decide_target_def Let_def rbind_Inr_iff split: if_splits)
  obtain a ranked where xa: "x = (Some a, ranked)"
    using r x by (cases x; cases "fst x") (auto simp: decide_target_def Let_def split: if_splits)
  have "space_get sp (oa_id a) = Some a" using mem x xa by simp
  then show ?thesis
    using r x xa
    by (auto simp: decide_target_def Let_def rbind_Inr_iff split: if_splits option.splits
        intro: offered_safeI [OF ok] done_choice_safe [OF ok])
qed

lemma decide_instinct_safe:
  assumes ok: "space_ok sp" and r: "decide_instinct U I profile sp g h = Inr (PoChoice d)"
  shows "offered_safe sp d"
proof -
  let ?goal = "goal_text g" let ?ctx = "goal_evidence U ?goal sp"
  obtain heads where r': "(case clause_closed U sp ?goal ?ctx h of
          Some d \<Rightarrow> Inr (done_choice I [] [] d)
        | None \<Rightarrow>
            rbind (choose_kinds I heads h profile) (\<lambda>(answer, ops).
            case answer of
              None \<Rightarrow> Inr (PoAbstain ''operation abstain'' ops [])
            | Some k \<Rightarrow>
                if kind_is_control k then decide_control I sp h k ops
                else decide_target U I profile sp ?goal ?ctx h k ops)) = Inr (PoChoice d)"
    using r by (auto simp: decide_instinct_def Let_def rbind_Inr_iff split: if_splits)
  show ?thesis
  proof (cases "clause_closed U sp ?goal ?ctx h")
    case (Some a)
    then have a: "space_get_str sp ''DONE'' = Some a" by (auto simp: clause_closed_def split: if_splits)
    have "done_choice I [] [] a = PoChoice d" using r' Some by simp
    then show ?thesis by (rule done_choice_safe [OF ok a])
  next
    case None
    then obtain k ops where "(if kind_is_control k then decide_control I sp h k ops
                else decide_target U I profile sp ?goal ?ctx h k ops) = Inr (PoChoice d)"
      using r' by (auto simp: rbind_Inr_iff split: option.splits)
    then show ?thesis using decide_control_safe [OF ok] decide_target_safe [OF ok] by (auto split: if_splits)
  qed
qed

interpretation local: safe_policy "instinct_decider U I profile"
  by unfold_locales (auto simp: instinct_decider_def intro: decide_instinct_safe)

section \<open>Replies of the endpoint\<close>

lemma parse_choice_safe:
  assumes "space_ok sp" "parse_choice sp ch = Inr (PoChoice d)"
  shows "offered_safe sp d"
  using assms(2) space_get_str_get
  by (auto simp: parse_choice_def rbind_Inr_iff confirm_or_choose_def split: if_splits
      intro: offered_safeI [OF assms(1)])

lemma parse_choose_reply_safe:
  assumes "space_ok sp" "parse_choose_reply decode sp reply = Inr (PoChoice d)"
  shows "offered_safe sp d"
  using assms(2) parse_choice_safe [OF assms(1)]
  by (auto simp: parse_choose_reply_def rbind_Inr_iff split: if_splits option.splits)

lemma decide_command_safe:
  assumes "space_ok sp" "decide_command en report sp g h w = (Inr (PoChoice d), w')"
  shows "offered_safe sp d"
  using assms(2) parse_choose_reply_safe [OF assms(1)]
  by (auto simp: decide_command_def command_choose_def rbind_Inr_iff split: if_splits prod.splits sum.splits)

interpretation command: safe_policy "decide_command en report"
  by unfold_locales (rule decide_command_safe)

section \<open>Escalation\<close>

text \<open>Two safe policies make a safe one; the fallback is asked once, and only after an abstain.\<close>

locale safe_escalation =
  local: safe_policy local + fallback: safe_policy "fallback report" for
    local :: "'l decider" and fallback :: "abstain_report \<Rightarrow> 'h decider" and report +
  assumes every_report: "\<And>r. safe_policy (fallback r)"
begin

lemma escalated_safe:
  assumes "space_ok sp" "decide_escalated local fallback sp g h p = (Inr (PoChoice d), p')"
  shows "offered_safe sp d"
  using assms(2) local.choice_safe [OF assms(1)] safe_policy.choice_safe [OF every_report assms(1)]
  by (auto simp: decide_escalated_def Let_def split: prod.splits sum.splits policy_outcome.splits option.splits if_splits)

sublocale escalated: safe_policy "decide_escalated local fallback"
  by unfold_locales (rule escalated_safe)

end

interpretation command_escalation: safe_escalation "instinct_decider U I profile" "decide_command en" report
  by unfold_locales (rule decide_command_safe)

lemma escalation_accounting:
  assumes "decide_escalated local fallback sp g h p = (r, p')"
  shows "ep_calls p' = ep_calls p \<or>
    ep_calls p' = ep_calls p + 1 \<and> (\<exists>out l fb. local sp g h (ep_local p) = (Inr out, l) \<and> as_choice out = None
      \<and> ep_fallback p = Some fb \<and> \<not> ambiguous_contenders (ab_ranked (report_of out))
      \<and> r = fst (fallback (report_of out) sp g h fb))"
  using assms
  by (auto simp: decide_escalated_def Let_def split: prod.splits sum.splits policy_outcome.splits option.splits if_splits)

section \<open>A concrete arbitration library\<close>

text \<open>
  An instance for the witnesses: confidences clamp to \<open>0..=1000\<close>, the overlap is the fraction of
  the candidate's words in the query, and the best urge wins when it reaches 750 with a margin of 150.
\<close>

datatype sample_obj = SUnit | SWords "string list" | SIds "string list" | SMillis "(nat \<times> int) list"

fun sample_overlap :: "sample_obj \<Rightarrow> sample_obj \<Rightarrow> int option" where
  "sample_overlap (SWords q) (SWords c) =
     (if c = [] then None else Some (int (1000 * length (filter (\<lambda>w. w \<in> set q) c) div length c)))"
| "sample_overlap _ _ = None"

fun sample_index :: "nat \<Rightarrow> string list \<Rightarrow> string \<Rightarrow> nat option" where
  "sample_index n [] x = None"
| "sample_index n (y # ys) x = (if x = y then Some n else sample_index (Suc n) ys x)"

fun sample_ids :: "sample_obj \<Rightarrow> string list" where
  "sample_ids (SIds ids) = ids"
| "sample_ids _ = []"

fun sample_millis :: "sample_obj \<Rightarrow> (nat \<times> int) list" where
  "sample_millis (SMillis m) = m"
| "sample_millis _ = []"

definition sample_set :: "nat \<Rightarrow> int \<Rightarrow> sample_obj \<Rightarrow> sample_obj result" where
  "sample_set i c m = Inr (SMillis ((i, c) # sample_millis m))"

definition sample_arbitrate :: "sample_obj \<Rightarrow> sample_obj \<Rightarrow> sample_obj arbitration result" where
  "sample_arbitrate scores affinity =
     (let urges = map (\<lambda>(i, s). (i, s * (case map_of (sample_millis affinity) i of None \<Rightarrow> 0 | Some w \<Rightarrow> w) div 1000))
                    (sample_millis scores);
          ranked = sort_key (\<lambda>(i, u). - u) urges;
          order = map fst ranked
      in Inr \<lparr>arb_answer = (case ranked of
                (i, u) # (j, v) # _ \<Rightarrow> if 750 \<le> u \<and> 150 \<le> u - v then AnsChoice i order else AnsAbstain ''margin'' order
              | _ \<Rightarrow> AnsAbstain ''empty'' order),
              arb_urges = SMillis urges\<rparr>)"

definition sample_instinct :: "sample_obj instinct" where
  "sample_instinct = \<lparr>ic_saturating = clamp_milli, ic_saturating_add = (\<lambda>a b. clamp_milli (a + b)), ic_max = 1000,
     ic_zero = 0, ic_default_config = SUnit, ic_config = (\<lambda>_. SUnit),
     ic_normalize = (\<lambda>s cfg. Some (SWords (tokenize_text ascii_unicode s))), ic_overlap = sample_overlap,
     ic_default_profile = SUnit, ic_standard_profile = SUnit, ic_min_confidence = (\<lambda>_. 750),
     ic_candidate_id = Inr, ic_candidate_set = (\<lambda>ids. Inr (SIds ids)), ic_question = (\<lambda>s _. Inr s),
     ic_drives = (\<lambda>_. Inr SUnit), ic_scores = (\<lambda>_. SMillis []), ic_affinity = (\<lambda>_ _. SMillis []),
     ic_index_of = (\<lambda>s i. sample_index 0 (sample_ids s) i), ic_set_score = sample_set,
     ic_set_affinity = (\<lambda>_. sample_set), ic_arbitrate = (\<lambda>s d a p. sample_arbitrate s a),
     ic_id_at = (\<lambda>s i. if i < length (sample_ids s) then Some (sample_ids s ! i) else None),
     ic_urge = (\<lambda>u i. map_of (sample_millis u) i)\<rparr>"

lemma sample_confidence: "confidence_laws sample_instinct"
proof -
  have overlap: "0 \<le> c \<and> c \<le> 1000" if "sample_overlap a b = Some c" for a b c
    using that
  proof (cases "(a, b)" rule: sample_overlap.cases)
    case (1 q ws)
    have le: "length (filter (\<lambda>w. w \<in> set q) ws) \<le> length ws" by (rule length_filter_le)
    have "1000 * length (filter (\<lambda>w. w \<in> set q) ws) div length ws \<le> 1000"
      using div_le_mono [OF mult_le_mono2 [OF le, of 1000], of "length ws"] by (cases "ws = []") auto
    then show ?thesis using that 1 by (auto split: if_splits)
  qed auto
  then show ?thesis by (auto simp: confidence_laws_def sample_instinct_def)
qed

definition sample_space :: action_space where
  "sample_space = from_tree ascii_unicode sample_tree [] []"

section \<open>Properties\<close>

text \<open>
  C22. Every action space is well formed: the ids are unique and in order, an action is stored
  under its own id, controls are exactly the actions without a target, exactly the node-bound
  kinds carry a fingerprint, only bindings and invokes can be dangerous, an id is built
  from the kind and the target; and the three controls are always offered.
\<close>

theorem space_well_formed:
  "space_ok (from_tree U t kbs invokes) \<and> as_rev (from_tree U t kbs invokes) = tree_rev t \<and>
   map (\<lambda>k. space_get (from_tree U t kbs invokes) (kind_as_str k)) [AkDone, AkBlocked, AkWait]
   = map (\<lambda>k. Some (control_action k)) [AkDone, AkBlocked, AkWait]"
proof -
  have "as_rev (from_tree U t kbs invokes) = tree_rev t" by (simp add: from_tree_def split_beta Let_def)
  then show ?thesis
    using from_tree_ok space_get_control [of AkDone] space_get_control [of AkBlocked] space_get_control [of AkWait]
    by (simp only: list.map insert_iff) simp
qed

text \<open>
  C11. A click is offered for an id exactly when some node with that id is clickable and it and all
  its ancestors are enabled and visible; typing and setting a value exactly for such text boxes.
\<close>

theorem offered_iff_viable:
  "((\<exists>a. space_get (from_tree U t kbs invokes) (id_for_target AkClick i) = Some a)
      \<longleftrightarrow> (\<exists>n p. viable_at t n p \<and> nid n = i \<and> is_clickable n p)) \<and>
   ((\<exists>a. space_get (from_tree U t kbs invokes) (id_for_target AkType i) = Some a)
      \<longleftrightarrow> (\<exists>n p. viable_at t n p \<and> nid n = i \<and> nrole n = role_textbox)) \<and>
   ((\<exists>a. space_get (from_tree U t kbs invokes) (id_for_target AkSetValue i) = Some a)
      \<longleftrightarrow> (\<exists>n p. viable_at t n p \<and> nid n = i \<and> nrole n = role_textbox))"
  using click_offered_iff field_offered_iff by (intro conjI) auto

text \<open>A policy, the space it sees and its decision, for the witnesses.\<close>

definition go_tree :: ui_tree where
  "go_tree = \<lparr>tree_app = ''t'', tree_platform = Headless, tree_ready = True,
     tree_nodes = [new_node ''b'' role_button ''Go''], tree_rev = Some 1\<rparr>"

definition plain_unicode :: unicode where
  "plain_unicode = \<lparr>uc_lower = (\<lambda>s. s), uc_str_lower = (\<lambda>s. s), uc_alnum = (\<lambda>_. False)\<rparr>"

definition go_decision :: "policy_error + policy_outcome" where
  "go_decision = decide_instinct plain_unicode sample_instinct SUnit (from_tree plain_unicode go_tree [] []) (goal_new ''Go'') []"

lemma go_decision_click:
  "(case go_decision of Inr (PoChoice d) \<Rightarrow> (pd_id d, pd_kind d, pd_millis d) = (''CLICK:b'', AkClick, 1000) | _ \<Rightarrow> False)"
  by code_simp

lemma go_decided:
  obtains d where "go_decision = Inr (PoChoice d)" "pd_id d = ''CLICK:b''" "pd_kind d = AkClick"
  using go_decision_click by (auto split: sum.splits policy_outcome.splits)

text \<open>An endpoint that cannot be started, for the witnesses.\<close>

definition silent_endpoint :: "unit endpoint" where
  "silent_endpoint = \<lparr>en_program = ''e'', en_timeout = 1, en_spawn = (\<lambda>w. (Inl ''no'', w)), en_write = (\<lambda>_ _ w. (TimedOut, w)),
     en_read = (\<lambda>_ _ w. (TimedOut, w)), en_kill = (\<lambda>w. w), en_wait = (\<lambda>w. w), en_encode = (\<lambda>_. []), en_decode = Inl\<rparr>"

text \<open>
  C3. Whatever the arbitration library and the command of \<open>--escalate-cmd\<close> answer, the action that
  the escalated policy chooses is grounded in the observation: a control, a binding or an invoke that
  is not dangerous, or an action on a node that is enabled and visible with all its ancestors.
\<close>

theorem choice_grounded:
  assumes "decide_escalated (instinct_decider U I profile) (decide_command en) (from_tree U t kbs invokes) g h p
    = (Inr (PoChoice d), p')"
  shows "case pd_kind d of
      AkClick \<Rightarrow> \<exists>n q. viable_at t n q \<and> is_clickable n q \<and> pd_id d = id_for_target AkClick (nid n)
    | AkType \<Rightarrow> \<exists>n q. viable_at t n q \<and> nrole n = role_textbox \<and> pd_id d = id_for_target AkType (nid n)
    | AkSetValue \<Rightarrow> \<exists>n q. viable_at t n q \<and> nrole n = role_textbox \<and> pd_id d = id_for_target AkSetValue (nid n)
    | AkKey \<Rightarrow> \<exists>n q. viable_at t n q \<and> nrole n = role_textbox \<and> pd_id d = id_for_key (nid n) ''Enter''
    | AkKeybinding \<Rightarrow> \<exists>kb \<in> set kbs. \<not> binding_is_dangerous kb \<and> pd_id d = id_for_entity AkKeybinding (kb_id kb)
    | AkInvoke \<Rightarrow> \<exists>i \<in> set invokes. \<not> oi_dangerous i \<and> pd_id d = id_for_entity AkInvoke (oi_name i)
    | k \<Rightarrow> pd_id d = kind_as_str k"
proof -
  obtain a where a: "a \<in> set (all_offers t kbs invokes)" "oa_id a = pd_id d" "oa_kind a = pd_kind d" "\<not> oa_dangerous a"
    using command_escalation.escalated.choice_offered [OF assms] by blast
  from a(1) show ?thesis
  proof (cases rule: offer_cases)
    case node: (1 n q)
    have ok: "action_ok a" by (rule all_offers_ok [OF a(1)])
    show ?thesis using node node_offers_fields [OF node(2)] ok a(2,3)
      by (auto simp: action_ok_def id_for_target_def intro!: exI [of _ n] exI [of _ q])
  next
    case kb: (2 kb) then show ?thesis using a(2,3,4) by (auto simp: keybinding_action_def)
  next
    case invoke: (3 i) then show ?thesis using a(2,3,4) by (auto simp: invoke_action_def)
  next
    case control: (4 k) then show ?thesis using a(2,3) by (auto simp: control_action_def id_for_control_def)
  qed
qed

theorem choice_grounded_witness:
  "\<exists>n q. viable_at go_tree n q \<and> is_clickable n q \<and> ''CLICK:b'' = id_for_target AkClick (nid n)"
proof -
  obtain d where d: "go_decision = Inr (PoChoice d)" "pd_id d = ''CLICK:b''" "pd_kind d = AkClick"
    by (rule go_decided)
  have "decide_escalated (instinct_decider plain_unicode sample_instinct SUnit) (decide_command silent_endpoint)
      (from_tree plain_unicode go_tree [] []) (goal_new ''Go'') [] (escalating_new () (Some ()))
    = (Inr (PoChoice d), escalating_new () (Some ()))"
    using d(1) by (simp add: decide_escalated_def instinct_decider_def go_decision_def escalating_new_def)
  then show ?thesis using choice_grounded d by fastforce
qed

end
