(* ===== verification/Evidence_Laws.thy ===== *)
theory Evidence_Laws
  imports Policy_Laws
begin

text \<open>
  Laws of the evidence: the scores are millis, only an exact label reaches the ceiling, and the
  search for a name in an intent finds exactly the whole-token occurrences.
\<close>

section \<open>Ranges\<close>

abbreviation milli :: "int \<Rightarrow> bool" where
  "milli x \<equiv> 0 \<le> x \<and> x \<le> 1000"

lemma confidence_lawsD:
  assumes "confidence_laws I"
  shows "ic_saturating I x = clamp_milli x" "ic_saturating_add I x y = clamp_milli (x + y)"
    "ic_max I = 1000" "ic_zero I = 0" "ic_overlap I a b = Some c \<Longrightarrow> milli c"
  using assms by (auto simp: confidence_laws_def)

lemma milli_clamp [simp]: "milli (clamp_milli x)"
  by simp

lemma lexical_overlap_milli: "confidence_laws I \<Longrightarrow> lexical_overlap I goal label = Some c \<Longrightarrow> milli c"
  by (auto simp: lexical_overlap_def overlap_normalized_def dest: confidence_lawsD(5) split: option.splits)

lemma overlap_channel_milli: "confidence_laws I \<Longrightarrow> milli s \<Longrightarrow> milli (overlap_channel U I k goal label s)"
  by (auto simp: overlap_channel_def confidence_lawsD split: option.splits)

lemma containment_channel_milli: "confidence_laws I \<Longrightarrow> milli s \<Longrightarrow> milli (containment_channel U I k goal label s)"
  by (auto simp: containment_channel_def Let_def confidence_lawsD)

lemma token_channel_milli: "confidence_laws I \<Longrightarrow> milli s \<Longrightarrow> milli (token_channel U I goal label s)"
  by (auto simp: token_channel_def Let_def confidence_lawsD)

lemma score_text_milli:
  assumes I: "confidence_laws I"
  shows "milli (score_action_text_ctx U I goal t ctx)"
proof -
  let ?g = "residual_goal U goal ctx" and ?l = "et_label t" and ?k = "et_kind t"
  have "milli (token_channel U I ?g ?l (containment_channel U I ?k ?g ?l (overlap_channel U I ?k ?g ?l (ic_zero I))))"
    by (intro token_channel_milli containment_channel_milli overlap_channel_milli I) (simp add: confidence_lawsD [OF I])
  then show ?thesis
    by (auto simp: score_action_text_ctx_def Let_def confidence_lawsD [OF I] split: option.splits)
qed

lemma score_best_milli: "confidence_laws I \<Longrightarrow> milli (score_action_best_ctx U I goal t ctx)"
  using score_text_milli [of I U _ t ctx] by (auto simp: score_action_best_ctx_def Let_def split: option.splits)

lemma literal_channel_milli:
  assumes I: "confidence_laws I"
  shows "milli b \<Longrightarrow> milli (literal_channel U I t ctx b)"
proof -
  have "milli b \<Longrightarrow> milli (fold (\<lambda>literal best. let lit = min (score_action_text_ctx U I literal t ctx) NON_EXACT_CAP in
        if best < lit then ic_saturating I lit else best) ls b)" for ls b
    by (induction ls arbitrary: b) (auto simp: Let_def confidence_lawsD [OF I])
  then show "milli b \<Longrightarrow> milli (literal_channel U I t ctx b)" unfolding literal_channel_def .
qed

text \<open>A label that is not exact stays below the ceiling through every channel but the payload's.\<close>

lemma soft_bonus_milli: "confidence_laws I \<Longrightarrow> milli (soft_bonus I exact bonus b)"
  by (simp add: soft_bonus_def Let_def confidence_lawsD)

lemma soft_bonus_below: "confidence_laws I \<Longrightarrow> soft_bonus I False bonus b \<le> 849"
  by (simp add: soft_bonus_def Let_def confidence_lawsD clamp_milli_def NON_EXACT_CAP_def)

definition is_milli :: "int \<Rightarrow> bool" where
  "is_milli x = milli x"

lemma is_milli_if: "is_milli a \<Longrightarrow> is_milli b \<Longrightarrow> is_milli (if c then a else b)"
  by simp

lemma score_action_milli:
  assumes I: "confidence_laws I"
  shows "milli (score_action_ctx U I goal t ctx)"
proof -
  have sat: "is_milli (ic_saturating I x)" "is_milli (ic_saturating_add I x y)" for x y
    by (simp_all add: is_milli_def confidence_lawsD [OF I])
  have soft: "is_milli (soft_bonus I e b x)" for e b x
    using soft_bonus_milli [OF I] by (simp add: is_milli_def)
  have best: "is_milli (literal_channel U I t ctx (score_action_best_ctx U I goal t ctx))"
    unfolding is_milli_def by (rule literal_channel_milli [OF I score_best_milli [OF I]])
  have "is_milli (score_action_ctx U I goal t ctx)"
    unfolding score_action_ctx_def Let_def by (intro is_milli_if sat soft best)
  then show ?thesis by (simp add: is_milli_def)
qed

lemma not_exact_below:
  assumes I: "confidence_laws I" and ne: "\<not> is_exact U goal t ctx"
    and np: "\<not> (et_kind t = OkTypeText \<and> ge_payload_target ctx = Some (et_id t))"
  shows "score_action_ctx U I goal t ctx < 1000"
proof -
  have below: "soft_bonus I False bonus b < 1000" for bonus b
    using soft_bonus_below [OF I, of bonus b] by linarith
  have cap: "clamp_milli NON_EXACT_CAP = 849" by (simp add: clamp_milli_def NON_EXACT_CAP_def)
  have best: "literal_channel U I t ctx (score_action_best_ctx U I goal t ctx) \<le> 1000"
    using literal_channel_milli [OF I score_best_milli [OF I]] by blast
  show ?thesis
    using ne np below best
    by (auto simp: score_action_ctx_def Let_def confidence_lawsD [OF I] cap)
qed

section \<open>Whole-token occurrences\<close>

definition whole_token :: "string \<Rightarrow> string \<Rightarrow> nat \<Rightarrow> bool" where
  "whole_token hay name pos \<longleftrightarrow> pos \<le> length hay \<and> starts_with (drop pos hay) name
     \<and> (pos = 0 \<or> word_boundary (hay ! (pos - 1)))
     \<and> (length hay \<le> pos + length name \<or> word_boundary (hay ! (pos + length name)))"

abbreviation is_ascii :: "char \<Rightarrow> bool" where
  "is_ascii c \<equiv> (of_char c :: nat) < 128"

text \<open>In well-formed text no continuation byte follows an ASCII byte.\<close>

definition ascii_follow :: "string \<Rightarrow> bool" where
  "ascii_follow s \<longleftrightarrow> (\<forall>i. Suc i < length s \<longrightarrow> is_ascii (s ! i) \<longrightarrow> \<not> is_cont (s ! Suc i))"

lemma is_cont_not_ascii: "is_cont c \<Longrightarrow> \<not> is_ascii c"
  by (simp add: is_cont_def Let_def)

lemma in_range_bounds: "in_range lo hi c \<Longrightarrow> lo \<le> (of_char c :: nat) \<and> (of_char c :: nat) \<le> hi"
  by (simp add: in_range_def Let_def)

lemma ascii_follow_Cons: "ascii_follow (c # s) \<longleftrightarrow> (s \<noteq> [] \<longrightarrow> is_ascii c \<longrightarrow> \<not> is_cont (hd s)) \<and> ascii_follow s"
  unfolding ascii_follow_def
proof (intro iffI conjI allI impI, goal_cases)
  case (3 i) then show ?case by (cases i; cases s) auto
qed (use hd_conv_nth in fastforce)+

lemma ascii_follow_append: "\<forall>x \<in> set t. \<not> is_ascii x \<Longrightarrow> ascii_follow s \<Longrightarrow> ascii_follow (t @ s)"
  by (induction t) (auto simp: ascii_follow_Cons)

lemma utf8_ok_lead: "utf8_ok (a # s) \<Longrightarrow> \<not> is_cont a"
  by (auto simp: in_range_def is_cont_def Let_def split: if_splits)

text \<open>A character beyond ASCII: its continuation bytes, then well-formed text again.\<close>

lemma utf8_ok_step:
  assumes "utf8_ok (a # s)" "\<not> in_range 0 0x7F a"
  shows "\<exists>t s'. s = t @ s' \<and> (\<forall>x \<in> set t. \<not> is_ascii x) \<and> utf8_ok s' \<and> length s' < length (a # s)"
proof -
  have hi: "in_range lo h x \<Longrightarrow> 128 \<le> lo \<Longrightarrow> \<not> is_ascii x" for lo h x
    using in_range_bounds [of lo h x] by simp
  consider (two) "in_range 0xC2 0xDF a" | (three) "\<not> in_range 0xC2 0xDF a" "in_range 0xE0 0xEF a"
    | (four) "\<not> in_range 0xC2 0xDF a" "\<not> in_range 0xE0 0xEF a" "in_range 0xF0 0xF4 a"
    using assms by (auto split: if_splits)
  then show ?thesis
  proof cases
    case two
    then obtain b s' where "s = b # s'" "is_cont b" "utf8_ok s'"
      using assms by (auto split: list.splits)
    then show ?thesis using is_cont_not_ascii by (intro exI [of _ "[b]"] exI [of _ s']) auto
  next
    case three
    then obtain b c s' where s: "s = b # c # s'" "is_cont c" "utf8_ok s'"
      and b: "if in_range 0xE0 0xE0 a then in_range 0xA0 0xBF b
            else if in_range 0xED 0xED a then in_range 0x80 0x9F b else is_cont b"
      using assms by (auto split: list.splits)
    have "\<not> is_ascii b" using b hi is_cont_not_ascii by (auto split: if_splits)
    then show ?thesis using s is_cont_not_ascii by (intro exI [of _ "[b, c]"] exI [of _ s']) auto
  next
    case four
    then obtain b c d s' where s: "s = b # c # d # s'" "is_cont c" "is_cont d" "utf8_ok s'"
      and b: "if in_range 0xF0 0xF0 a then in_range 0x90 0xBF b
            else if in_range 0xF4 0xF4 a then in_range 0x80 0x8F b else is_cont b"
      using assms by (auto split: list.splits)
    have "\<not> is_ascii b" using b hi is_cont_not_ascii by (auto split: if_splits)
    then show ?thesis using s is_cont_not_ascii by (intro exI [of _ "[b, c, d]"] exI [of _ s']) auto
  qed
qed

lemma utf8_follow: "utf8_ok s \<Longrightarrow> ascii_follow s"
proof (induction "length s" arbitrary: s rule: less_induct)
  case less
  show ?case
  proof (cases s)
    case Nil then show ?thesis by (simp add: ascii_follow_def)
  next
    case (Cons a r)
    show ?thesis
    proof (cases "in_range 0 0x7F a")
      case True
      then have r: "utf8_ok r" using less.prems Cons by simp
      have "r \<noteq> [] \<longrightarrow> \<not> is_cont (hd r)" using r utf8_ok_lead by (cases r) auto
      moreover have "ascii_follow r" using less.hyps [OF _ r] Cons by simp
      ultimately show ?thesis unfolding Cons ascii_follow_Cons by blast
    next
      case False
      then obtain t s' where t: "r = t @ s'" "\<forall>x \<in> set t. \<not> is_ascii x" "utf8_ok s'" "length s' < length s"
        using utf8_ok_step [of a r] less.prems Cons by auto
      have "ascii_follow s'" using less.hyps [OF t(4,3)] .
      moreover have "\<not> is_ascii a" using False by (simp add: in_range_def Let_def)
      ultimately show ?thesis using ascii_follow_append [of "a # t" s'] t Cons by auto
    qed
  qed
qed

lemma ascii_follow_lower: "ascii_follow s \<Longrightarrow> ascii_follow (to_ascii_lowercase s)"
proof -
  have "is_ascii (lower_byte c) \<longleftrightarrow> is_ascii c" "is_cont (lower_byte c) \<longleftrightarrow> is_cont c" for c
    by (auto simp: lower_byte_def is_cont_def Let_def of_char_of)
  then show "ascii_follow s \<Longrightarrow> ascii_follow (to_ascii_lowercase s)"
    by (simp add: ascii_follow_def to_ascii_lowercase_def)
qed

lemma str_find_Some: "str_find s p = Some k \<Longrightarrow> k \<le> length s \<and> starts_with (drop k s) p \<and> (\<forall>j < k. \<not> starts_with (drop j s) p)"
proof (induction s p arbitrary: k rule: str_find.induct)
  case (2 c s p)
  show ?case
  proof (cases "starts_with (c # s) p")
    case False
    then obtain j where j: "str_find s p = Some j" "k = Suc j" using 2(2) by auto
    show ?thesis
    proof (intro conjI allI impI)
      fix i assume "i < k"
      then show "\<not> starts_with (drop i (c # s)) p" using 2(1) [OF False j(1)] False j(2) by (cases i) auto
    qed (use 2(1) [OF False j(1)] j(2) in auto)
  qed (use 2 in auto)
qed (auto split: if_splits)

lemma str_find_None: "str_find s p = None \<Longrightarrow> j \<le> length s \<Longrightarrow> \<not> starts_with (drop j s) p"
proof (induction s p arbitrary: j rule: str_find.induct)
  case (2 c s p)
  then show ?case by (cases j) (auto split: if_splits)
qed (auto simp: starts_with_iff split: if_splits)

lemma name_scan_spec:
  assumes "ascii_follow hay" "name \<noteq> []" "is_ascii (hd name)" "start \<le> length hay" "is_char_boundary hay start"
  shows "name_scan hay name start = Some (\<exists>pos \<ge> start. whole_token hay name pos)"
  using assms
proof (induction hay name start rule: name_scan.induct)
  case (1 hay name start)
  show ?case
  proof (cases "str_find (drop start hay) name")
    case None
    have "\<not> whole_token hay name pos" if "start \<le> pos" for pos
    proof
      assume w: "whole_token hay name pos"
      then have "pos - start \<le> length (drop start hay)" by (auto simp: whole_token_def intro: diff_le_mono)
      from str_find_None [OF None this] w that show False by (auto simp: whole_token_def)
    qed
    then show ?thesis using None 1(5,6) by (subst name_scan.simps) auto
  next
    case (Some rel)
    let ?pos = "start + rel" and ?stop = "start + rel + length name"
    have f: "?pos \<le> length hay" "starts_with (drop ?pos hay) name" and least: "\<And>j. j < rel \<Longrightarrow> \<not> starts_with (drop (start + j) hay) name"
      using str_find_Some [OF Some] 1(5) by (auto simp: add.commute)
    have "drop ?pos hay \<noteq> []" using f(2) 1(3) by (cases name) auto
    then have lt: "?pos < length hay" by simp
    have hd: "hay ! ?pos = hd name"
      using f(2) lt 1(3) by (cases name) (auto simp: Cons_nth_drop_Suc [symmetric])
    have next_ok: "is_char_boundary hay (?pos + 1)"
      using lt hd 1(2,4) by (auto simp: is_char_boundary_def ascii_follow_def)
    have before: "\<not> whole_token hay name p" if "start \<le> p" "p < ?pos" for p
      using least [of "p - start"] that by (auto simp: whole_token_def)
    show ?thesis
    proof (cases "(?pos = 0 \<or> word_boundary (hay ! (?pos - 1))) \<and> (length hay \<le> ?stop \<or> word_boundary (hay ! ?stop))")
      case True
      then have "whole_token hay name ?pos" using f by (simp add: whole_token_def)
      then show ?thesis using True Some 1(5,6) by (subst name_scan.simps) (auto simp: Let_def intro: exI [of _ ?pos])
    next
      case False
      then have nw: "\<not> whole_token hay name ?pos" by (simp add: whole_token_def)
      have ih: "name_scan hay name (?pos + 1) = Some (\<exists>pos \<ge> ?pos + 1. whole_token hay name pos)"
        using 1(1) [OF _ Some refl refl False] 1(2-6) lt next_ok by auto
      have "(\<exists>pos \<ge> ?pos + 1. whole_token hay name pos) \<longleftrightarrow> (\<exists>pos \<ge> start. whole_token hay name pos)"
      proof
        assume "\<exists>pos \<ge> start. whole_token hay name pos"
        then obtain p where p: "start \<le> p" "whole_token hay name p" by blast
        then have "\<not> p < ?pos" "p \<noteq> ?pos" using before nw by auto
        then show "\<exists>pos \<ge> ?pos + 1. whole_token hay name pos" using p by (intro exI [of _ p]) simp
      qed (meson add_leD1 le_add1 order_trans)
      then show ?thesis using ih False Some 1(5,6) by (subst name_scan.simps) (auto simp: Let_def)
    qed
  qed
qed

lemma lower_no_upper: "\<not> list_ex is_ascii_upper name \<Longrightarrow> to_ascii_lowercase name = name"
  by (induction name) (auto simp: to_ascii_lowercase_def lower_byte_def is_ascii_upper_def Let_def)

section \<open>Properties\<close>

text \<open>
  C31. A score lies between 0 and 1000 millis, and only an exact label reaches 1000; the one exception
  is the field that the clause's payload must go into.
\<close>

theorem only_exact_saturates:
  assumes "confidence_laws I"
  shows "0 \<le> score_action_ctx U I goal t ctx \<and> score_action_ctx U I goal t ctx \<le> 1000 \<and>
    (score_action_ctx U I goal t ctx = 1000 \<longrightarrow>
       is_exact U goal t ctx \<or> et_kind t = OkTypeText \<and> ge_payload_target ctx = Some (et_id t))"
  using score_action_milli [OF assms] not_exact_below [OF assms] by fastforce

theorem only_exact_saturates_witness:
  "score_action_ctx ascii_unicode sample_instinct ''Skip'' \<lparr>et_id = ''b2'', et_label = ''Go'', et_role = None, et_kind = OkClick\<rparr>
     default_evidence \<le> 1000"
  using only_exact_saturates [OF sample_confidence] by blast

text \<open>
  C32. In well-formed text, the search for a name that begins with an ASCII byte never panics, and it
  finds the name exactly when it occurs as a whole token, whatever the case of its letters.
\<close>

theorem name_found_iff:
  assumes "utf8_ok intent" "name \<noteq> []" "is_ascii (hd name)"
  shows "name_in_intent intent name
    = Some (\<exists>pos. whole_token (to_ascii_lowercase intent) (to_ascii_lowercase name) pos)"
proof -
  let ?hay = "to_ascii_lowercase intent" and ?name = "to_ascii_lowercase name"
  have name: "(if list_ex is_ascii_upper name then ?name else name) = ?name" using lower_no_upper by auto
  have "is_ascii (hd ?name)" "?name \<noteq> []"
    using assms(2,3) by (cases name; auto simp: to_ascii_lowercase_def lower_byte_def Let_def of_char_of)+
  then have "name_scan ?hay ?name 0 = Some (\<exists>pos \<ge> 0. whole_token ?hay ?name pos)"
    using name_scan_spec [of ?hay ?name 0] ascii_follow_lower [OF utf8_follow [OF assms(1)]]
    by (simp add: is_char_boundary_def)
  then show ?thesis unfolding name_in_intent_def name_in_intent_lowered_def name by simp
qed

theorem name_found_iff_witness:
  "name_in_intent ''wait_until it'' ''wait'' = Some (\<exists>pos. whole_token ''wait_until it'' ''wait'' pos)"
proof -
  have "utf8_ok ''wait_until it''" "is_ascii (hd ''wait'')" by code_simp+
  moreover have "to_ascii_lowercase ''wait_until it'' = ''wait_until it''" "to_ascii_lowercase ''wait'' = ''wait''"
    by code_simp+
  ultimately show ?thesis using name_found_iff [of "''wait_until it''" "''wait''"] by simp
qed

text \<open>
  A name that begins beyond ASCII makes the same search panic: after a hit inside a word it goes on
  one byte later, in the middle of a character.
\<close>

lemma name_scan_panics: "name_in_intent (''x'' @ [CHR 0xC3, CHR 0xA9] @ ''y'') [CHR 0xC3, CHR 0xA9] = None"
  by code_simp

text \<open>A label that is not exact may still score above \<open>NON_EXACT_CAP\<close>: only the sum 1000 is cut.\<close>

lemma above_non_exact_cap:
  "let t = \<lparr>et_id = ''b'', et_label = ''go up now far out'', et_role = None, et_kind = OkClick\<rparr> in
   \<not> is_exact ascii_unicode ''go up'' t default_evidence
   \<and> NON_EXACT_CAP < score_action ascii_unicode sample_instinct ''go up'' t"
  by code_simp

end
