(* ===== verification/Runner_Laws.thy ===== *)
theory Runner_Laws
  imports Runner Policy_Laws Client_Laws Evidence_Laws
begin

text \<open>
  Laws of the runner: the operation of a decision is gated by the fingerprint of the observed node
  and passes the stale gate of a host that shows the same tree; a run returns within a budget of calls.
\<close>

section \<open>Operations of decisions\<close>

lemma pairs_self: "(n, r) \<in> set (node_pairs r n)"
  by (cases n) simp

lemma pairs_child: "(p, s) \<in> set (node_pairs r m) \<Longrightarrow> c \<in> set (children p) \<Longrightarrow> (c, Some (nid p)) \<in> set (node_pairs r m)"
proof (induction m arbitrary: r)
  case (UiNode d cs)
  consider "p = UiNode d cs" | x where "x \<in> set cs" "(p, s) \<in> set (node_pairs (Some (nd_id d)) x)"
    using UiNode(2) by (auto simp: forest_pairs_def)
  then show ?case
  proof cases
    case 1
    then show ?thesis using UiNode(3) pairs_self [of c "Some (nd_id d)"] by (auto simp: forest_pairs_def)
  next
    case (2 x)
    then show ?thesis using UiNode(1) [OF 2 UiNode(3)] by (auto simp: forest_pairs_def)
  qed
qed

lemma viable_pairs: "viable_at t n q \<Longrightarrow> (n, map_option nid q) \<in> set (tree_pairs t)"
proof (induction rule: viable_at.induct)
  case (root n)
  then show ?case using pairs_self [of n None] by (auto simp: tree_pairs_def forest_pairs_def)
next
  case (child p gp c)
  then obtain m where "m \<in> set (tree_nodes t)" "(p, map_option nid gp) \<in> set (node_pairs None m)"
    by (auto simp: tree_pairs_def forest_pairs_def)
  then show ?case using pairs_child [OF _ child(2)] by (auto simp: tree_pairs_def forest_pairs_def)
qed

lemma viable_fingerprint:
  assumes "ids_are_unique t" "viable_at t n q"
  shows "fingerprint_of t (nid n) = Some (fingerprint n (map_option nid q))"
proof -
  let ?k = "\<lambda>x :: ui_node \<times> string option. nid (fst x)"
  have d: "distinct (map ?k (tree_pairs t))"
    using assms(1) unfolding ids_are_unique_iff tree_pairs_ids [symmetric] by (simp add: comp_def)
  have uniq: "List.find (\<lambda>(m, _). nid m = nid n) xs = Some (n, r)"
    if "distinct (map ?k xs)" "(n, r) \<in> set xs" for xs r
    using that by (induction xs) (auto simp: image_iff)
  show ?thesis using uniq [OF d viable_pairs [OF assms(2)]] by (simp add: fingerprint_of_pairs)
qed

text \<open>What a decision on an offered action is turned into.\<close>

lemma op_for_node:
  assumes "a \<in> set (node_offers n q)" "oa_kind a = pd_kind d" "op_for_decision d a payload deliv clause kbs args w = (r, w')"
  shows "w' = w \<and> (\<exists>op. r = Inr op \<and> fingerprint_gate op = Some (nid n, fingerprint n (map_option nid q)))"
proof -
  note f = node_offers_fields [OF assms(1)] and ok = node_offers_ok [OF assms(1)]
  have key: "oa_kind a = AkKey \<Longrightarrow> action_key a = Inr ''Enter''"
    using f ok by (intro action_key_enter [of _ "nid n"]) (auto simp: action_ok_def)
  show ?thesis using assms(2,3) f ok key
    by (auto simp: op_for_decision_def Let_def dispatch_target_def gated_op_def split: if_splits)
qed

lemma op_for_keybinding:
  assumes "pd_kind d = AkKeybinding" "oa_target a = Some i" "op_for_decision d a payload deliv clause kbs args w = (Inr op, w')"
  shows "\<exists>kb \<in> set kbs. kb_id kb = i \<and> op = OpKeybinding i (Some (kb_chord kb)) (kb_scope kb) False False"
proof -
  obtain kb where kb: "List.find (\<lambda>kb. kb_id kb = i) kbs = Some kb"
    and op: "op = OpKeybinding (kb_id kb) (Some (kb_chord kb)) (kb_scope kb) False False"
    using assms by (auto simp: op_for_decision_def Let_def dispatch_target_def rbind_Inr_iff)
  then show ?thesis unfolding find_Some_iff by (metis nth_mem)
qed

lemma op_for_invoke:
  "pd_kind d = AkInvoke \<Longrightarrow> oa_target a = Some i \<Longrightarrow> op_for_decision d a payload deliv clause kbs args w = (Inr op, w')
   \<Longrightarrow> \<exists>v. op = OpInvoke i v"
  by (auto simp: op_for_decision_def Let_def dispatch_target_def rmap_Inr_iff split: prod.splits)

section \<open>Decisions on an observed tree\<close>

lemma find_map_find: "List.find P (map f xs) = map_option f (List.find (P \<circ> f) xs)"
  by (induction xs) auto

lemma node_id_not_keybinding:
  assumes "a \<in> set (offers_of ns)"
  shows "oa_id a \<noteq> id_for_entity AkKeybinding b"
proof -
  obtain n p where "a \<in> set (node_offers n p)" using offers_ofD [OF assms] by blast
  then show ?thesis
    by (auto simp: node_offers_def Let_def node_action_def id_for_target_def id_for_key_def id_for_entity_def split: if_splits)
qed

text \<open>The binding that the space offers under an id is the one the dispatch finds in the catalog.\<close>

lemma offered_binding:
  assumes "space_get (from_tree U t kbs invokes) (id_for_entity AkKeybinding b) = Some a"
    "List.find (\<lambda>kb. kb_id kb = b) kbs = Some kb"
  shows "a = keybinding_action kb"
proof -
  have eq: "(\<lambda>a. oa_id a = id_for_entity AkKeybinding b) \<circ> keybinding_action = (\<lambda>kb. kb_id kb = b)"
    by (auto simp: keybinding_action_def id_for_entity_def fun_eq_iff)
  have none: "List.find (\<lambda>a. oa_id a = id_for_entity AkKeybinding b) (offers_of (viable_nodes t)) = None"
    unfolding find_None_iff using node_id_not_keybinding by blast
  have "List.find (\<lambda>a. oa_id a = id_for_entity AkKeybinding b) (all_offers t kbs invokes)
      = Some (keybinding_action kb)"
    unfolding all_offers_def find_in_append none find_map_find eq assms(2) by simp
  then show ?thesis using assms(1) by (simp add: space_get_find)
qed

lemma op_of_control: "pd_kind d \<in> {AkDone, AkBlocked, AkWait} \<Longrightarrow> op_for_decision d a payload deliv clause kbs args w \<noteq> (Inr op, w')"
  by (auto simp: op_for_decision_def Let_def)

definition grounded_op :: "ui_tree \<Rightarrow> keybinding_info list \<Rightarrow> offered_invoke list \<Rightarrow> op \<Rightarrow> bool" where
  "grounded_op t kbs invokes op \<longleftrightarrow>
     (\<exists>n q. viable_at t n q \<and> fingerprint_gate op = Some (nid n, fingerprint n (map_option nid q)))
     \<or> (\<exists>kb \<in> set kbs. \<not> binding_is_dangerous kb
          \<and> op = OpKeybinding (kb_id kb) (Some (kb_chord kb)) (kb_scope kb) False False)
     \<or> (\<exists>i \<in> set invokes. \<not> oi_dangerous i \<and> (\<exists>v. op = OpInvoke (oi_name i) v))"

lemma op_grounded:
  assumes "offered_safe (from_tree U t kbs invokes) d" "space_get (from_tree U t kbs invokes) (pd_id d) = Some a"
    "op_for_decision d a payload deliv clause kbs args w = (Inr op, w')"
  shows "grounded_op t kbs invokes op"
proof -
  have k: "oa_kind a = pd_kind d" "\<not> oa_dangerous a" using assms(1,2) by (auto simp: offered_safe_def)
  from space_getD(1) [OF assms(2)] show ?thesis
  proof (cases rule: offer_cases)
    case (1 n q)
    have "\<exists>op'. Inr op = (Inr op' :: op result) \<and> fingerprint_gate op' = Some (nid n, fingerprint n (map_option nid q))"
      using op_for_node [OF 1(2) k(1) assms(3)] by blast
    then show ?thesis using 1(1) unfolding grounded_op_def by blast
  next
    case (2 kb)
    then have t: "oa_target a = Some (kb_id kb)" "pd_kind d = AkKeybinding" using k by (auto simp: keybinding_action_def)
    then obtain kb0 where kb0: "List.find (\<lambda>k. kb_id k = kb_id kb) kbs = Some kb0"
        "op = OpKeybinding (kb_id kb0) (Some (kb_chord kb0)) (kb_scope kb0) False False"
      using assms(3) by (auto simp: op_for_decision_def Let_def dispatch_target_def rbind_Inr_iff)
    have "pd_id d = id_for_entity AkKeybinding (kb_id kb)"
      using space_getD(2) [OF assms(2)] 2 by (simp add: keybinding_action_def)
    then have "a = keybinding_action kb0" using offered_binding [OF _ kb0(1)] assms(2) by simp
    moreover have "kb0 \<in> set kbs" using kb0(1) by (auto simp: find_Some_iff)
    ultimately show ?thesis using k(2) kb0(2) unfolding grounded_op_def by (auto simp: keybinding_action_def)
  next
    case (3 i)
    then show ?thesis using op_for_invoke [OF _ _ assms(3), of "oi_name i"] k
      unfolding grounded_op_def by (auto simp: invoke_action_def)
  next
    case (4 c)
    then have "pd_kind d \<in> {AkDone, AkBlocked, AkWait}" using k by (auto simp: control_action_def)
    then show ?thesis using op_of_control [of d a payload deliv clause kbs args w op w'] assms(3) by simp
  qed
qed

text \<open>
  C5. The operation that the runner dispatches for a decision of the escalated policy is grounded in
  the tree the decision was made on: it carries the stale gate of a node that is enabled and visible
  with all its ancestors, or is a binding of the catalog or an invoke of the descriptor that is not
  dangerous; a binding is dispatched with both confirm and activate false.
\<close>

theorem decision_ops_gated:
  assumes "decide_escalated (instinct_decider U I profile) (decide_command en) (from_tree U t kbs invokes) g h p
      = (Inr (PoChoice d), p')"
    "space_get (from_tree U t kbs invokes) (pd_id d) = Some a"
    "op_for_decision d a payload deliv clause kbs args w = (Inr op, w')"
  shows "grounded_op t kbs invokes op"
  using op_grounded [OF command_escalation.escalated.choice_safe [OF from_tree_ok assms(1)] assms(2,3)] .

lemma go_chosen:
  obtains d a op p p' where
    "decide_escalated (instinct_decider plain_unicode sample_instinct SUnit) (decide_command (en :: 'w endpoint))
      (from_tree plain_unicode go_tree [] []) (goal_new ''Go'') [] p = (Inr (PoChoice d), p')"
    "space_get (from_tree plain_unicode go_tree [] []) (pd_id d) = Some a"
    "op_for_decision d a None Semantic ''Go'' [] args w = (Inr op, w)"
proof -
  obtain d where d: "go_decision = Inr (PoChoice d)" "pd_id d = ''CLICK:b''" "pd_kind d = AkClick"
    by (rule go_decided)
  have e: "decide_escalated (instinct_decider plain_unicode sample_instinct SUnit) (decide_command en)
      (from_tree plain_unicode go_tree [] []) (goal_new ''Go'') [] (escalating_new () fb)
    = (Inr (PoChoice d), escalating_new () fb)" for fb
    using d(1) by (simp add: decide_escalated_def instinct_decider_def go_decision_def escalating_new_def)
  have safe: "offered_safe (from_tree plain_unicode go_tree [] []) d"
    by (rule command_escalation.escalated.choice_safe [OF from_tree_ok e])
  then obtain a where a: "space_get (from_tree plain_unicode go_tree [] []) (pd_id d) = Some a" "oa_kind a = pd_kind d"
    unfolding offered_safe_def by blast
  then obtain n q where n: "a \<in> set (node_offers n q)"
    using node_action_viable [OF a(1)] d(3) by auto
  obtain op where "op_for_decision d a None Semantic ''Go'' [] args w = (Inr op, w)"
    using op_for_node [OF n a(2)] by (metis prod.collapse)
  then show thesis by (rule that [OF e a(1)])
qed

theorem decision_ops_gated_witness:
  "\<exists>op. grounded_op go_tree [] [] op"
  by (rule go_chosen [of "silent_endpoint" "\<lambda>_ _ w. (Inl [], w)" "()"],
      rule exI, rule decision_ops_gated)

text \<open>
  C10. When the ids of the observed tree are unique, a host that still shows that tree lets the
  operation of a decision pass its stale gate and dispatches it.
\<close>

theorem offer_passes_gate:
  assumes "decide_escalated (instinct_decider U I profile) (decide_command en) (from_tree U t kbs invokes) g h p
      = (Inr (PoChoice d), p')"
    "space_get (from_tree U t kbs invokes) (pd_id d) = Some a"
    "op_for_decision d a payload deliv clause kbs args w = (Inr op, w')"
    "ids_are_unique t" "fst (cache_snapshot H host c) = t"
  shows "fst (stale_gate H host op c) = None \<and> snd (snd (handle_other H i op host c)) = snd (ah_dispatch H op host)"
proof -
  have "grounded_op t kbs invokes op"
    using op_grounded [OF command_escalation.escalated.choice_safe [OF from_tree_ok assms(1)] assms(2,3)] .
  then have "fst (stale_gate H host op c) = None"
    unfolding stale_gate_passes grounded_op_def using viable_fingerprint [OF assms(4)] assms(5) by auto
  then show ?thesis by (simp add: handle_other_effect)
qed


definition go_hello :: hello_info where
  "go_hello = \<lparr>he_protocol = 1, he_app = ''t'', he_platform = Headless, he_os = ''linux'', he_ready = True,
     he_deliveries = [Semantic], he_auth = AuthNone, he_bundle_id = None, he_executable = None, he_features = []\<rparr>"

definition go_host :: "unit agent_host" where
  "go_host = \<lparr>ah_hello = (\<lambda>_. go_hello), ah_snapshot = (\<lambda>_. go_tree), ah_dispatch = (\<lambda>_ h. (Inl [], h)),
     ah_screenshot = (\<lambda>_ _. Inl []), ah_keybindings = (\<lambda>_. []), ah_is_app_focused = (\<lambda>_. True),
     ah_revision = (\<lambda>_. Some 1), ah_event_ring = (\<lambda>_. None)\<rparr>"

theorem offer_passes_gate_witness:
  "\<exists>op. grounded_op go_tree [] [] op \<and> fst (stale_gate go_host () op cache_new) = None"
proof (rule go_chosen [of "silent_endpoint" "\<lambda>_ _ w. (Inl [], w)" "()"])
  fix d a op p p'
  assume c: "decide_escalated (instinct_decider plain_unicode sample_instinct SUnit)
      (decide_command (silent_endpoint)) (from_tree plain_unicode go_tree [] []) (goal_new ''Go'') [] p = (Inr (PoChoice d), p')"
    "space_get (from_tree plain_unicode go_tree [] []) (pd_id d) = Some a"
    "op_for_decision d a None Semantic ''Go'' [] (\<lambda>_ _ w. (Inl [], w)) () = (Inr op, ())"
  have "ids_are_unique go_tree" by (simp add: go_tree_def ids_are_unique_iff tree_ids_def forest_ids_def new_node_def)
  moreover have "fst (cache_snapshot go_host () cache_new) = go_tree" by code_simp
  ultimately show ?thesis
    using offer_passes_gate [OF c] op_grounded [OF command_escalation.escalated.choice_safe [OF from_tree_ok c(1)] c(2,3)] by metis
qed

section \<open>One call at a time\<close>

text \<open>What the calls leave alone.\<close>

definition same_progress :: "('c, 'w, 'p) run_state \<Rightarrow> ('c, 'w, 'p) run_state \<Rightarrow> bool" where
  "same_progress s s' \<longleftrightarrow> rw_steps s' = rw_steps s \<and> rw_stale s' = rw_stale s \<and> rw_waited s' = rw_waited s
     \<and> rw_clause s' = rw_clause s \<and> rw_no_effect s' = rw_no_effect s"

lemma same_progress_refl [simp]: "same_progress s s"
  by (simp add: same_progress_def)

lemma runner_rpc_step:
  "runner_rpc R op s = Some (r, s') \<Longrightarrow> same_progress s s' \<and> rw_calls s' = rw_calls s + 1"
  by (auto simp: runner_rpc_def same_progress_def)

lemma runner_rpc_returns: "clock_ok (rn_tp R) \<Longrightarrow> runner_rpc R op s \<noteq> None"
  using rpc_op_returns [of "rn_tp R" op "rw_client s" "rw_world s"]
  by (simp add: runner_rpc_def expect_ok_def del: not_None_eq)

lemma set_observed_progress: "same_progress s s' \<Longrightarrow> same_progress s (set_observed t n s')"
  "rw_calls (set_observed t n s') = rw_calls s'"
  by (simp_all add: same_progress_def set_observed_def)

lemma observe_full_step:
  "observe_full R s = Some (r, s') \<Longrightarrow> same_progress s s' \<and> rw_calls s' = rw_calls s + 1"
  by (auto simp: observe_full_def then_do_Some_iff dest: runner_rpc_step)

lemma observe_full_returns: "clock_ok (rn_tp R) \<Longrightarrow> observe_full R s \<noteq> None"
  using runner_rpc_returns [of R op_snapshot s] by (auto simp: observe_full_def then_do_def split: option.splits sum.splits)

lemma observe_since_step:
  "observe_since R s = Some (r, s') \<Longrightarrow> same_progress s s' \<and> rw_calls s' = rw_calls s + 1"
  by (cases "rw_rev s")
    (auto simp: observe_since_def then_do_Some_iff Let_def set_observed_progress
      split: if_splits option.splits sum.splits dest!: runner_rpc_step observe_full_step)

lemma observe_since_returns:
  assumes "clock_ok (rn_tp R)"
  shows "observe_since R s \<noteq> None"
proof (cases "rw_rev s")
  case None
  obtain x s' where "observe_full R s = Some (x, s')" using observe_full_returns [OF assms, of s] by auto
  then show ?thesis using None by (cases x) (auto simp: observe_since_def)
next
  case (Some since)
  obtain x s' where "runner_rpc R (OpSnapshot (Some since) None None) s = Some (x, s')"
    using runner_rpc_returns [OF assms, of "OpSnapshot (Some since) None None" s] by auto
  then show ?thesis using Some by (cases x) (auto simp: observe_since_def Let_def split: option.splits sum.splits)
qed

section \<open>A run returns\<close>

lemma observe_since_total:
  assumes "clock_ok (rn_tp R)"
  obtains r s' where "observe_since R s = Some (r, s')" "same_progress s s'" "rw_calls s' = rw_calls s + 1"
proof -
  obtain r s' where o: "observe_since R s = Some (r, s')" using observe_since_returns [OF assms, of s] by auto
  show thesis using that [OF o] observe_since_step [OF o] by blast
qed

lemma runner_rpc_total:
  assumes "clock_ok (rn_tp R)"
  obtains r s' where "runner_rpc R op s = Some (r, s')" "same_progress s s'" "rw_calls s' = rw_calls s + 1"
proof -
  obtain r s' where o: "runner_rpc R op s = Some (r, s')" using runner_rpc_returns [OF assms, of op s] by auto
  show thesis using that [OF o] runner_rpc_step [OF o] by blast
qed

text \<open>The dispatches, the waits and the clauses that a run has left.\<close>

definition act_budget :: "('c, 'w, 'p) runner \<Rightarrow> ('c, 'w, 'p) run_state \<Rightarrow> nat" where
  "act_budget R s = (cap_steps (rn_caps R) - length (rw_steps s)) * (cap_stale (rn_caps R) + 1) - rw_stale s"

definition wait_budget :: "('c, 'w, 'p) runner \<Rightarrow> ('c, 'w, 'p) run_state \<Rightarrow> nat" where
  "wait_budget R s = (cap_wait_ms (rn_caps R) - rw_waited s + rn_poll_ms R - 1) div rn_poll_ms R"

definition run_open :: "('c, 'w, 'p) runner \<Rightarrow> ('c, 'w, 'p) run_state \<Rightarrow> bool" where
  "run_open R s \<longleftrightarrow> length (rw_steps s) < cap_steps (rn_caps R) \<and> rw_stale s \<le> cap_stale (rn_caps R)"

definition call_budget :: "('c, 'w, 'p) runner \<Rightarrow> ('c, 'w, 'p) run_state \<Rightarrow> nat" where
  "call_budget R s = rw_calls s + 2 * act_budget R s + wait_budget R s"

definition turns_left :: "('c, 'w, 'p) runner \<Rightarrow> string list \<Rightarrow> ('c, 'w, 'p) run_state \<Rightarrow> nat" where
  "turns_left R clauses s = act_budget R s + wait_budget R s + (length clauses - rw_clause s)"

lemma budgets_same_progress:
  "same_progress s s' \<Longrightarrow> act_budget R s' = act_budget R s \<and> wait_budget R s' = wait_budget R s"
  by (simp add: same_progress_def act_budget_def wait_budget_def)

lemma act_budget_pos: "run_open R s \<Longrightarrow> 1 \<le> act_budget R s"
proof -
  assume o: "run_open R s"
  then obtain k where "cap_steps (rn_caps R) - length (rw_steps s) = Suc k"
    unfolding run_open_def by (metis Suc_diff_Suc)
  moreover have "rw_stale s \<le> cap_stale (rn_caps R)" using o by (simp add: run_open_def)
  ultimately show ?thesis unfolding act_budget_def by auto
qed

lemma act_budget_step:
  assumes "run_open R s" "length (rw_steps s') = Suc (length (rw_steps s))" "rw_stale s' = 0"
  shows "act_budget R s' + 1 \<le> act_budget R s"
proof -
  obtain k where k: "cap_steps (rn_caps R) - length (rw_steps s) = Suc k"
    using assms(1) unfolding run_open_def by (metis Suc_diff_Suc)
  then have "cap_steps (rn_caps R) - length (rw_steps s') = k" using assms(2) by simp
  moreover have "rw_stale s \<le> cap_stale (rn_caps R)" using assms(1) by (simp add: run_open_def)
  ultimately show ?thesis using k assms(3) unfolding act_budget_def by auto
qed

lemma act_budget_stale:
  assumes "run_open R s" "rw_steps s' = rw_steps s" "rw_stale s' = rw_stale s + 1"
  shows "act_budget R s' + 1 \<le> act_budget R s"
  using act_budget_pos [OF assms(1)] assms(2,3) by (simp add: act_budget_def)

lemma wait_budget_step:
  assumes "1 \<le> rn_poll_ms R" "rw_waited s < cap_wait_ms (rn_caps R)" "rw_waited s' = rw_waited s + rn_poll_ms R"
  shows "wait_budget R s' + 1 \<le> wait_budget R s"
proof -
  let ?p = "rn_poll_ms R" and ?x = "cap_wait_ms (rn_caps R) - rw_waited s"
  have "(?x + ?p - 1) div ?p = (?x - 1) div ?p + 1"
    using assms(1,2) by (metis Nat.add_diff_assoc2 add.commute div_add_self1 less_one not_le One_nat_def Suc_leI zero_less_diff)
  moreover have "(?x - ?p + ?p - 1) div ?p \<le> (?x - 1) div ?p"
    using assms(1,2) by (cases "?p \<le> ?x") (auto intro: div_le_mono)
  ultimately show ?thesis using assms(3) by (simp add: wait_budget_def)
qed

text \<open>What a turn may spend, and what it leaves when the run goes on.\<close>

definition turn_fair ::
    "('c, 'w, 'p) runner \<Rightarrow> string list \<Rightarrow> ('c, 'w, 'p) run_state \<Rightarrow> (goal_outcome option result \<times> ('c, 'w, 'p) run_state) option \<Rightarrow> bool" where
  "turn_fair R clauses s m \<longleftrightarrow> (\<exists>r s'. m = Some (r, s') \<and> rw_calls s' \<le> call_budget R s
     \<and> (r = Inr None \<longrightarrow> rw_stale s' \<le> cap_stale (rn_caps R) \<and> call_budget R s' \<le> call_budget R s
          \<and> turns_left R clauses s' < turns_left R clauses s))"

lemma turn_ends: "r \<noteq> Inr None \<Longrightarrow> rw_calls s' \<le> call_budget R s \<Longrightarrow> turn_fair R clauses s (Some (r, s'))"
  by (simp add: turn_fair_def)

lemma wait_turn_fair:
  assumes "clock_ok (rn_tp R)" "1 \<le> rn_poll_ms R" "rw_stale s \<le> cap_stale (rn_caps R)"
  shows "turn_fair R clauses s (wait_turn R out s)"
proof (cases "cap_wait_ms (rn_caps R) \<le> rw_waited s")
  case True
  then show ?thesis by (simp add: wait_turn_def turn_fair_def call_budget_def)
next
  case False
  let ?s = "s\<lparr>rw_world := tp_sleep (rn_tp R) (rn_poll_ms R) (rw_world s), rw_waited := rw_waited s + rn_poll_ms R\<rparr>"
  obtain r s' where o: "observe_since R ?s = Some (r, s')" "same_progress ?s s'" "rw_calls s' = rw_calls ?s + 1"
    by (rule observe_since_total [OF assms(1)])
  have w: "wait_budget R s' + 1 \<le> wait_budget R s"
    using wait_budget_step [OF assms(2), of s s'] False o(2) by (simp add: same_progress_def)
  have a: "act_budget R s' = act_budget R s" "rw_stale s' = rw_stale s" "rw_clause s' = rw_clause s"
    using o(2) by (simp_all add: same_progress_def act_budget_def)
  show ?thesis using False o(1,3) w a assms(3)
    by (cases r) (auto simp: wait_turn_def turn_fair_def call_budget_def turns_left_def)
qed

lemma record_step_fair:
  assumes "clock_ok (rn_tp R)" "run_open R s0" "same_progress (s0\<lparr>rw_stale := 0\<rparr>) s" "rw_calls s = rw_calls s0 + 1"
  shows "turn_fair R clauses s0 (record_step R clause d a payload s)"
proof -
  obtain r s' where o: "observe_since R s = Some (r, s')" "same_progress s s'" "rw_calls s' = rw_calls s + 1"
    by (rule observe_since_total [OF assms(1)])
  note pos = act_budget_pos [OF assms(2)]
  show ?thesis
  proof (cases r)
    case (Inl e)
    then show ?thesis using o assms(4) pos by (simp add: record_step_def turn_fair_def call_budget_def)
  next
    case (Inr u)
    obtain out s2 where r: "record_step R clause d a payload s = Some (Inr out, s2)"
        "length (rw_steps s2) = Suc (length (rw_steps s'))" "rw_stale s2 = rw_stale s'"
        "rw_calls s2 = rw_calls s'" "rw_waited s2 = rw_waited s'" "rw_clause s2 = rw_clause s'"
      using o(1) Inr by (simp add: record_step_def Let_def)
    have p: "rw_steps s' = rw_steps s0" "rw_stale s' = 0" "rw_waited s' = rw_waited s0" "rw_clause s' = rw_clause s0"
      using o(2) assms(3) by (simp_all add: same_progress_def)
    have "act_budget R s2 + 1 \<le> act_budget R s0" using act_budget_step [OF assms(2), of s2] r p by simp
    moreover have "wait_budget R s2 = wait_budget R s0" using r p by (simp add: wait_budget_def)
    ultimately show ?thesis using r p o(3) assms(4) unfolding turn_fair_def call_budget_def turns_left_def by auto
  qed
qed


lemma act_turn_fair:
  assumes "clock_ok (rn_tp R)" "run_open R s"
  shows "turn_fair R clauses s (act_turn R kbs sp clause gtext d s)"
proof (cases "space_get sp (pd_id d)")
  case None
  then show ?thesis by (simp add: act_turn_def turn_fair_def call_budget_def)
next
  case (Some a)
  note pos = act_budget_pos [OF assms(2)]
  obtain rp w where p: "resolve_payload R gtext d a s = (rp, w)" by fastforce
  show ?thesis
  proof (cases rp)
    case (Inl e)
    then show ?thesis using Some p by (simp add: act_turn_def turn_fair_def call_budget_def)
  next
    case payload: (Inr payload)
    obtain ro w2 where op: "op_for_decision d a payload (rn_delivery R) clause kbs (rn_invoke_args R) w = (ro, w2)" by fastforce
    show ?thesis
    proof (cases ro)
      case (Inl e)
      then show ?thesis using Some p payload op by (simp add: act_turn_def turn_fair_def call_budget_def)
    next
      case (Inr wire)
      obtain r s1 where c: "runner_rpc R wire (s\<lparr>rw_world := w2\<rparr>) = Some (r, s1)"
          "same_progress (s\<lparr>rw_world := w2\<rparr>) s1" "rw_calls s1 = rw_calls s + 1"
        using runner_rpc_total [OF assms(1), of wire "s\<lparr>rw_world := w2\<rparr>"] by auto
      note turn = Some p payload op Inr c(1)
      show ?thesis
      proof (cases r)
        case ok: (Inr resp)
        have "same_progress (s\<lparr>rw_stale := 0\<rparr>) (s1\<lparr>rw_stale := 0\<rparr>)" using c(2) by (simp add: same_progress_def)
        then show ?thesis using record_step_fair [OF assms, of "s1\<lparr>rw_stale := 0\<rparr>"] turn ok c(3)
          by (simp add: act_turn_def)
      next
        case err: (Inl err)
        let ?s = "s1\<lparr>rw_stale := rw_stale s1 + 1\<rparr>"
        obtain ro s2 where o: "observe_since R ?s = Some (ro, s2)" "same_progress ?s s2" "rw_calls s2 = rw_calls ?s + 1"
          by (rule observe_since_total [OF assms(1)])
        have a: "act_budget R s2 + 1 \<le> act_budget R s"
          by (rule act_budget_stale [OF assms(2)]) (use o(2) c(2) in \<open>simp_all add: same_progress_def\<close>)
        have b: "wait_budget R s2 = wait_budget R s" "rw_clause s2 = rw_clause s" "rw_stale s2 = rw_stale s1 + 1"
          using o(2) c(2) by (simp_all add: same_progress_def wait_budget_def)
        show ?thesis using turn err o a b c(3) pos
          by (cases ro) (auto simp: act_turn_def turn_fair_def call_budget_def turns_left_def Let_def)
      qed
    qed
  qed
qed

lemma next_clause_fair:
  assumes "rw_clause s < length clauses" "rw_stale s \<le> cap_stale (rn_caps R)"
  shows "turn_fair R clauses s (Some (Inr None, s\<lparr>rw_clause := rw_clause s + 1\<rparr>))"
proof -
  let ?s = "s\<lparr>rw_clause := rw_clause s + 1\<rparr>"
  have b: "act_budget R ?s = act_budget R s" "wait_budget R ?s = wait_budget R s"
    by (simp_all add: act_budget_def wait_budget_def)
  have "length clauses - rw_clause ?s < length clauses - rw_clause s" using assms(1) by simp
  then have "turns_left R clauses ?s < turns_left R clauses s" unfolding turns_left_def b by simp
  moreover have "call_budget R ?s = call_budget R s" unfolding call_budget_def b by simp
  ultimately show ?thesis using assms(2) by (simp add: turn_fair_def call_budget_def)
qed

lemma decide_turn_fair:
  assumes "clock_ok (rn_tp R)" "1 \<le> rn_poll_ms R" "run_open R s" "rw_clause s < length clauses"
  shows "turn_fair R clauses s (decide_turn R kbs clauses sp clause gtext s)"
proof -
  obtain rd p where d: "rn_decide R sp (goal_new gtext) (rw_history s) (rw_policy s) = (rd, p)" by fastforce
  let ?s = "s\<lparr>rw_policy := p\<rparr>"
  have fair: "turn_fair R clauses s m = turn_fair R clauses ?s m" for m
    by (simp add: turn_fair_def call_budget_def turns_left_def act_budget_def wait_budget_def)
  have o: "run_open R ?s" using assms(3) by (simp add: run_open_def)
  then have st: "rw_stale ?s \<le> cap_stale (rn_caps R)" by (simp add: run_open_def)
  have next_clause: "turn_fair R clauses ?s (Some (Inr (if length clauses \<le> rw_clause s + 1 then Some GoalDone else None), ?s\<lparr>rw_clause := rw_clause s + 1\<rparr>))"
    using next_clause_fair [of ?s clauses R] assms(4) st by (auto simp: turn_fair_def call_budget_def)
  have ends: "turn_fair R clauses ?s (Some (Inr (Some out), ?s))" for out
    by (simp add: turn_fair_def call_budget_def)
  show ?thesis
  proof (cases rd)
    case (Inl e)
    then show ?thesis using d by (simp add: decide_turn_def turn_fair_def call_budget_def)
  next
    case (Inr out)
    then show ?thesis
      using d next_clause ends wait_turn_fair [OF assms(1,2) st] act_turn_fair [OF assms(1) o]
      by (simp add: decide_turn_def Let_def fair split: policy_outcome.split action_kind.split)
  qed
qed

lemma run_turn_fair:
  assumes "clock_ok (rn_tp R)" "1 \<le> rn_poll_ms R" "run_open R s"
    and "\<And>i typed. i < length clauses \<Longrightarrow> clause_mode_of (rn_unicode R) (substitute_pronouns (clauses ! i) typed) \<noteq> None"
  shows "turn_fair R clauses s (run_turn R kbs clauses s)"
proof (cases "length clauses \<le> rw_clause s")
  case True
  then show ?thesis by (simp add: run_turn_def turn_fair_def call_budget_def)
next
  case False
  obtain g m where c: "clause_mode_of (rn_unicode R) (substitute_pronouns (clauses ! rw_clause s) (rw_typed s)) = Some (g, m)"
    using assms(4) [of "rw_clause s" "rw_typed s"] False by fastforce
  have st: "rw_stale s \<le> cap_stale (rn_caps R)" using assms(3) by (simp add: run_open_def)
  show ?thesis
  proof (cases m)
    case ModeAct
    then show ?thesis using decide_turn_fair [OF assms(1-3)] False c by (simp add: run_turn_def Let_def)
  next
    case (ModeWaitFor target)
    have "turn_fair R clauses s (Some (Inr None, s\<lparr>rw_clause := rw_clause s + 1\<rparr>))"
      using False st by (intro next_clause_fair) simp_all
    then show ?thesis using wait_turn_fair [OF assms(1,2) st] ModeWaitFor False c by (simp add: run_turn_def Let_def)
  qed
qed

lemma run_loop_returns:
  assumes "clock_ok (rn_tp R)" "1 \<le> rn_poll_ms R"
    and "\<And>i typed. i < length clauses \<Longrightarrow> clause_mode_of (rn_unicode R) (substitute_pronouns (clauses ! i) typed) \<noteq> None"
    and "rw_stale s \<le> cap_stale (rn_caps R)"
  shows "\<exists>r s'. run_loop R kbs clauses s = Some (r, s') \<and> rw_calls s' \<le> call_budget R s"
  using assms(4)
proof (induction "turns_left R clauses s" arbitrary: s rule: less_induct)
  case less
  show ?case
  proof (cases "length (rw_steps s) < cap_steps (rn_caps R)")
    case False
    then show ?thesis by (subst run_loop.simps) (simp add: call_budget_def)
  next
    case True
    then have o: "run_open R s" using less.prems by (simp add: run_open_def)
    obtain r s1 where t: "run_turn R kbs clauses s = Some (r, s1)" "rw_calls s1 \<le> call_budget R s"
        "r = Inr None \<Longrightarrow> rw_stale s1 \<le> cap_stale (rn_caps R) \<and> call_budget R s1 \<le> call_budget R s
          \<and> turns_left R clauses s1 < turns_left R clauses s"
      using run_turn_fair [OF assms(1,2) o assms(3), of kbs] unfolding turn_fair_def by blast
    show ?thesis
    proof (cases "r = Inr None")
      case go: True
      obtain r' s' where "run_loop R kbs clauses s1 = Some (r', s')" "rw_calls s' \<le> call_budget R s1"
        using less.hyps [of s1] t(3) go by blast
      then show ?thesis using t(1) t(3) [OF go] go True by (subst run_loop.simps) simp
    next
      case False
      then show ?thesis using t(1,2) True by (subst run_loop.simps) (auto split: sum.splits option.splits)
    qed
  qed
qed

text \<open>
  C6. A run returns, and within a number of calls that its caps fix: two for the first observation
  and the catalog, two for every dispatch, of which each step has one and \<open>max_stale\<close> repetitions,
  and one for every poll of the wait budget; whatever the policy and the host answer, when the clock
  of the client does not stand still and neither of the slicings by offsets of a lower-cased text panics: the goal
  is split into clauses (\<open>run_clauses\<close>, where a letter as U+0130 can panic in \<open>split_wait\<close>), and each of these clauses, with
  its pronouns replaced by anything typed, has a mode (\<open>clause_mode\<close>).  Two polls are at least a millisecond apart.
\<close>

theorem runner_returns:
  assumes "clock_ok (rn_tp R)" "1 \<le> rn_poll_ms R"
    and "\<And>i typed. i < length clauses \<Longrightarrow> clause_mode_of (rn_unicode R) (substitute_pronouns (clauses ! i) typed) \<noteq> None"
    and "run_clauses (rn_unicode R) goal = Some clauses"
  shows "\<exists>r s'. run_goal R goal c w p t0 = Some (r, s')
     \<and> rw_calls s' \<le> 2 + 2 * (cap_steps (rn_caps R) * (cap_stale (rn_caps R) + 1))
          + (cap_wait_ms (rn_caps R) + rn_poll_ms R - 1) div rn_poll_ms R"
proof -
  let ?s = "\<lparr>rw_client = c, rw_world = w, rw_policy = p, rw_calls = 0, rw_tree = t0, rw_rev = None, rw_history = [],
     rw_typed = [], rw_steps = [], rw_no_effect = 0, rw_stale = 0, rw_waited = 0, rw_clause = 0\<rparr>"
  obtain r1 s1 where o: "observe_full R ?s = Some (r1, s1)" "same_progress ?s s1" "rw_calls s1 = 1"
    using observe_full_returns [OF assms(1), of ?s] observe_full_step [of R ?s] by fastforce
  show ?thesis
  proof (cases r1)
    case (Inl e)
    then show ?thesis using o assms(4) by (simp add: run_goal_def Let_def)
  next
    case (Inr t)
    let ?s1 = "s1\<lparr>rw_tree := t, rw_rev := tree_rev t\<rparr>"
    obtain r2 s2 where k: "runner_rpc R OpKeybindings ?s1 = Some (r2, s2)" "same_progress ?s1 s2" "rw_calls s2 = rw_calls ?s1 + 1"
      by (rule runner_rpc_total [OF assms(1)])
    show ?thesis
    proof (cases "runner_catalog R ?s1")
      case None
      then show ?thesis using k(1) by (simp add: runner_catalog_def then_do_def split: sum.splits)
    next
      case (Some x)
      obtain rk s3 where x: "x = (rk, s3)" by (cases x)
      have s3: "s3 = s2" using Some k(1) unfolding x by (cases r2) (auto simp: runner_catalog_def)
      have p: "rw_steps s2 = []" "rw_stale s2 = 0" "rw_waited s2 = 0" "rw_calls s2 = 2"
        using k o by (simp_all add: same_progress_def)
      then have b: "call_budget R s2 = 2 + 2 * (cap_steps (rn_caps R) * (cap_stale (rn_caps R) + 1))
          + (cap_wait_ms (rn_caps R) + rn_poll_ms R - 1) div rn_poll_ms R"
        by (simp add: call_budget_def act_budget_def wait_budget_def)
      show ?thesis
      proof (cases rk)
        case (Inl e)
        then show ?thesis using o(1) Inr Some x s3 p assms(4) by (simp add: run_goal_def Let_def)
      next
        case kbs: (Inr kbs)
        obtain r4 s4 where l: "run_loop R kbs clauses s2 = Some (r4, s4)" "rw_calls s4 \<le> call_budget R s2"
          using run_loop_returns [OF assms(1-3), of s2] p by fastforce
        then show ?thesis using o(1) Inr Some x s3 kbs assms(4) b
          by (cases r4) (auto simp: run_goal_def Let_def)
      qed
    qed
  qed
qed

text \<open>For the witness: the lower case of the strings that are ASCII.\<close>

definition ascii_only :: unicode where
  "ascii_only = plain_unicode\<lparr>uc_str_lower := (\<lambda>s. if list_all is_ascii s then to_ascii_lowercase s else [])\<rparr>"

definition sample_runner :: "(unit, sample_world, unit) runner" where
  "sample_runner = \<lparr>rn_tp = sample_tp, rn_unicode = ascii_only, rn_decide = instinct_decider ascii_only sample_instinct SUnit,
     rn_text = None, rn_delivery = Semantic, rn_invokes = [], rn_invoke_args = (\<lambda>_ _ w. (Inl [], w)),
     rn_caps = default_caps, rn_poll_ms = WAIT_POLL_MS, rn_serde_error = (\<lambda>_. []), rn_diff_of_json = (\<lambda>_. Inl [])\<rparr>"

lemma ascii_boundary: "list_all is_ascii s \<Longrightarrow> i \<le> length s \<Longrightarrow> is_char_boundary s i"
  by (auto simp: is_char_boundary_def list_all_length dest!: is_cont_not_ascii)

lemma starts_with_length: "starts_with s p \<Longrightarrow> length p \<le> length s"
  by (induction s p rule: starts_with.induct) auto

lemma ascii_clause_mode: "clause_mode_of ascii_only c \<noteq> None"
proof -
  have "wait_target s (uc_str_lower ascii_only s) ps \<noteq> None" if "[] \<notin> set ps" for s ps
    using that
  proof (induction ps)
    case (Cons p ps)
    have "slice_from s (length p) \<noteq> None" if st: "starts_with (uc_str_lower ascii_only s) p"
    proof -
      have a: "list_all is_ascii s" using st Cons.prems by (cases p) (auto simp: ascii_only_def starts_with.simps split: if_splits)
      then have "length p \<le> length s" using starts_with_length [OF st] by (simp add: ascii_only_def to_ascii_lowercase_def)
      then show ?thesis using ascii_boundary [OF a] by (simp add: slice_from_def)
    qed
    then show ?case using Cons by (auto simp: Let_def)
  qed simp
  from this [of "[''wait for '', ''wait until '']" "trim c"] show ?thesis by (simp add: clause_mode_of_def Let_def)
qed

theorem runner_returns_witness:
  "\<exists>r s'. run_goal sample_runner ''Go'' (client_connect ''a'') (0, [], []) () go_tree = Some (r, s') \<and> rw_calls s' \<le> 242"
proof -
  have "run_clauses ascii_only ''Go'' = Some [''Go'']" by code_simp
  then show ?thesis
    using runner_returns [where R = sample_runner and goal = "''Go''" and clauses = "[''Go'']"] ascii_clause_mode sample_clock
    by (simp add: sample_runner_def default_caps_def WAIT_POLL_MS_def)
qed

text \<open>
  The code indexes the lower case of a clause with the offsets of the clause.  The lower case of
  U+0130 is one byte longer, so the slice at the next character is not on a boundary.
\<close>

definition dotted_lower :: unicode where
  "dotted_lower = plain_unicode\<lparr>uc_str_lower := (\<lambda>s. concat (map (\<lambda>ch.
     if ch = [CHR 0xC4, CHR 0xB0] then [CHR 0x69, CHR 0xCC, CHR 0x87] else to_ascii_lowercase ch) (chars_of s)))\<rparr>"

lemma split_wait_panics: "split_wait dotted_lower ([CHR 0xC4, CHR 0xB0] @ '' x'') = None"
  by code_simp

end
