(* ===== verification/Resolve.thy ===== *)
theory Resolve
  imports Registry Recipe Policy "HOL-Library.Product_Lexorder"
begin

text \<open>
  \<open>crates/gpui-agent-recipe/src/resolve.rs\<close>: from a sentence to an operation of the registry.
  Both builds are modelled: the keyword scorer, and the scorer of the feature \<open>instinct\<close> that ends in
  the arbitration of the policy crate.  Sums of scores are \<open>int\<close>: they stay far below the bounds of
  \<open>i32\<close> and \<open>i64\<close>.  Slices behind an ASCII match are \<open>drop\<close>; \<open>marker_boundary\<close> and
  \<open>id_boundary\<close> in the laws show that they cannot panic.
\<close>

section \<open>Results\<close>

record token_fill =
  tf_name :: string
  tf_value :: string
  tf_source :: string

record resolve_result =
  rr_schema :: string
  rr_op :: op
  rr_effects :: "effect list"
  rr_confidence :: f32
  rr_millis :: "nat option"
  rr_fills :: "token_fill list"
  rr_idempotent :: bool

section \<open>Arguments out of prose\<close>

definition trim_matches :: "(char \<Rightarrow> bool) \<Rightarrow> string \<Rightarrow> string" where
  "trim_matches P s = rev (dropWhile P (rev (dropWhile P s)))"

definition extract_id_token :: "string \<Rightarrow> string option" where
  "extract_id_token intent =
     find_map (\<lambda>tok.
        let tok = trim_matches (\<lambda>c. c = CHR '','' \<or> c = CHR ''.'') tok in
        if CHR ''-'' \<in> set tok \<and> list_all (\<lambda>c. is_ascii_alnum c \<or> c = CHR ''-'') tok then Some tok else None)
       (split_whitespace intent)"

fun intent_quoted :: "string \<Rightarrow> string option" where
  "intent_quoted [] = None"
| "intent_quoted (c # s) =
     (if c = CHR 0x22 \<or> c = CHR 0x27
      then (if c \<in> set s then Some (takeWhile (\<lambda>x. x \<noteq> c) s) else None)
      else intent_quoted s)"

definition title_markers :: "string list" where
  "title_markers = [''titled '', ''called '', ''named '']"

definition title_after :: "string \<Rightarrow> string \<Rightarrow> string option" where
  "title_after intent marker =
     (case str_find (to_ascii_lowercase intent) marker of None \<Rightarrow> None
      | Some i \<Rightarrow>
          (let rest = trim (drop (i + length marker) intent) in
           case intent_quoted rest of Some q \<Rightarrow> Some q
           | None \<Rightarrow> if rest \<noteq> [] then Some (trim_matches (\<lambda>c. c = CHR ''.'' \<or> c = CHR '','') rest) else None))"

definition extract_title :: "string \<Rightarrow> string option" where
  "extract_title intent =
     (case intent_quoted intent of Some q \<Rightarrow> Some q
      | None \<Rightarrow> find_map (title_after intent) title_markers)"

definition u64_parse :: "string \<Rightarrow> u64 option" where
  "u64_parse s = map_option word_of_nat (parse_unsigned (2 ^ 64) s)"

definition last_number :: "string \<Rightarrow> u64 option" where
  "last_number intent = find_map (\<lambda>tok. u64_parse (dropWhile (\<lambda>c. c = CHR ''#'') tok)) (rev (split_whitespace intent))"

definition extract_id :: "string \<Rightarrow> u64 option" where
  "extract_id intent =
     (case str_find (to_ascii_lowercase intent) ''id'' of None \<Rightarrow> last_number intent
      | Some i \<Rightarrow>
          (let num = takeWhile is_ascii_digit
                 (dropWhile (\<lambda>c. c \<in> {CHR '' '', CHR ''='', CHR ''#'', CHR '':''}) (drop (i + 2) intent))
           in if num \<noteq> [] then u64_parse num else last_number intent))"

definition fill :: "string \<Rightarrow> string \<Rightarrow> string \<Rightarrow> token_fill" where
  "fill n v src = \<lparr>tf_name = n, tf_value = v, tf_source = src\<rparr>"

definition required_target :: "string \<Rightarrow> string result" where
  "required_target intent = ok_or ''click/assert needs a stable id'' (extract_id_token intent)"

definition title_arg :: "string \<Rightarrow> op_schema \<Rightarrow> ((string \<times> json) list \<times> token_fill list) result" where
  "title_arg intent s =
     (if ''title'' \<in> set (os_required s) then
        rbind (ok_or (os_name s @ '' requires title (quote it or write titled '' @ ellipsis @ '')'') (extract_title intent)) (\<lambda>t.
          Inr (bt_insert ''title'' (JStr t) [], [fill ''title'' t ''quoted_or_titled'']))
      else Inr ([], []))"

definition id_arg ::
    "string \<Rightarrow> op_schema \<Rightarrow> (string \<times> json) list \<times> token_fill list \<Rightarrow> ((string \<times> json) list \<times> token_fill list) result" where
  "id_arg intent s acc =
     (if ''id'' \<in> set (os_required s) then
        rbind (ok_or (os_name s @ '' requires id'') (extract_id intent)) (\<lambda>n.
          Inr (bt_insert ''id'' (json_of_u64 n) (fst acc), snd acc @ [fill ''id'' (dec (unat n)) ''number'']))
      else Inr acc)"

definition invoke_args_from_intent :: "string \<Rightarrow> op_schema \<Rightarrow> ((string \<times> json) list \<times> token_fill list) result" where
  "invoke_args_from_intent intent s = rbind (title_arg intent s) (id_arg intent s)"

definition invoke_args_of :: "op_schema \<Rightarrow> string \<Rightarrow> json result" where
  "invoke_args_of s intent =
     (if os_kind s \<noteq> KindInvoke then Inl (os_name s @ '' is not an invoke schema'')
      else rmap (\<lambda>(args, _). JObj args) (invoke_args_from_intent intent s))"

definition materialize :: "string \<Rightarrow> op_schema \<Rightarrow> (op \<times> token_fill list) result" where
  "materialize intent s =
     (case os_kind s of
        KindProtocol \<Rightarrow>
          (if os_name s = ''hello'' then Inr (OpHello, [])
           else if os_name s = ''wait'' then Inr (OpWait None, [])
           else if os_name s = ''snapshot'' then Inr (op_snapshot, [])
           else if os_name s = ''screenshot'' then Inr (OpScreenshot None Viewport None None, [])
           else if os_name s = ''shutdown'' then Inr (OpShutdown, [])
           else if os_name s = ''click'' then
             rbind (required_target intent) (\<lambda>t. Inr (op_click t, [fill ''target'' t ''token'']))
           else if os_name s = ''set_value'' then
             rbind (required_target intent) (\<lambda>t.
             rbind (ok_or ''set_value needs a quoted value'' (extract_title intent)) (\<lambda>v.
               Inr (OpSetValue t v None, [fill ''target'' t ''token'', fill ''value'' v ''quoted''])))
           else if os_name s = ''assert'' then
             rbind (required_target intent) (\<lambda>t. Inr (OpAssert (default_spec\<lparr>spec_target := t\<rparr>), [fill ''target'' t ''token'']))
           else Inl (''resolved `'' @ os_name s @ ''` but do not know how to materialize it from prose''))
      | KindInvoke \<Rightarrow>
          rbind (invoke_args_from_intent intent s) (\<lambda>(args, fills). Inr (OpInvoke (os_name s) (JObj args), fills))
      | KindId \<Rightarrow> Inr (op_click (os_name s), [fill ''target'' (os_name s) ''schema'']))"

section \<open>The keyword scorer\<close>

definition words_of :: "string \<Rightarrow> string list" where
  "words_of intent = map to_ascii_lowercase
     (filter (\<lambda>w. w \<noteq> []) (split_on (\<lambda>c. \<not> is_ascii_alnum c \<and> c \<noteq> CHR ''.'') intent []))"

definition keyword_score :: "string \<Rightarrow> string list \<Rightarrow> op_schema \<Rightarrow> int" where
  "keyword_score intent ws s =
     (if str_contains (to_ascii_lowercase intent) (to_ascii_lowercase (os_name s)) then 10 else 0)
     + 2 * int (length (filter (\<lambda>k. k \<in> set ws) (os_keywords s)))
     + int (length (filter (\<lambda>w. 2 < length w \<and> w \<in> set ws)
         (map to_ascii_lowercase (split_on (\<lambda>c. \<not> is_ascii_alnum c) (os_description s) []))))"

definition keyword_ranking :: "string \<Rightarrow> registry \<Rightarrow> (string \<times> int) list" where
  "keyword_ranking intent reg =
     sort_key (\<lambda>(n, s). (- s, n))
       (filter (\<lambda>(n, s). 0 < s) (map (\<lambda>s. (os_name s, keyword_score intent (words_of intent) s)) (registry_iter reg)))"

definition unknown_intent :: "string \<Rightarrow> string" where
  "unknown_intent t = ''unknown intent (fail closed): '' @ t"

definition ambiguous_intent :: "string \<Rightarrow> string \<Rightarrow> string \<Rightarrow> string" where
  "ambiguous_intent t a b = ''ambiguous intent (fail closed): `'' @ t @ ''` matches `'' @ a @ ''` and `'' @ b @ ''`''"

text \<open>\<open>None\<close> where \<open>expect\<close> would panic.\<close>

definition keyword_result :: "string \<Rightarrow> registry \<Rightarrow> string \<Rightarrow> int \<Rightarrow> resolve_result result option" where
  "keyword_result intent reg name best =
     map_option (\<lambda>s.
         rbind (materialize intent s) (\<lambda>(op, fills).
           Inr \<lparr>rr_schema = os_name s, rr_op = op, rr_effects = os_effects s,
                rr_confidence = f32_min (f32_div (f32_of_int best) (F32 10)) (F32 1), rr_millis = None,
                rr_fills = fills, rr_idempotent = os_idempotent s\<rparr>))
       (registry_get reg name)"

definition resolve_intent_keywords :: "string \<Rightarrow> registry \<Rightarrow> resolve_result result option" where
  "resolve_intent_keywords intent reg =
     (let trimmed = trim intent in
      if trimmed = [] then Some (Inl ''empty intent'')
      else case keyword_ranking trimmed reg of
        [] \<Rightarrow> Some (Inl (unknown_intent trimmed))
      | (name, best) # rest \<Rightarrow>
          if best < 2 then Some (Inl (unknown_intent trimmed))
          else (case rest of
              (name2, second) # _ \<Rightarrow>
                if best \<le> second then Some (Inl (ambiguous_intent trimmed name name2))
                else keyword_result trimmed reg name best
            | [] \<Rightarrow> keyword_result trimmed reg name best))"

section \<open>The scorer of the feature \<open>instinct\<close>\<close>

definition is_id_like :: "string \<Rightarrow> bool" where
  "is_id_like tok =
     (tok \<noteq> [] \<and> (list_all is_ascii_digit tok
        \<or> CHR ''-'' \<in> set tok \<and> list_all (\<lambda>c. is_ascii_alnum c \<or> c = CHR ''-'') tok))"

definition trim_end_chars :: "char set \<Rightarrow> string \<Rightarrow> string" where
  "trim_end_chars cs s = rev (dropWhile (\<lambda>c. c \<in> cs) (rev s))"

text \<open>The quote that is open after a word, and the word when it belongs to the operation.\<close>

fun operation_words :: "char option \<Rightarrow> string list \<Rightarrow> string list" where
  "operation_words q [] = []"
| "operation_words q (raw # ws) =
     (let tok = trim_end_chars {CHR ''.'', CHR '','', CHR '':'', CHR '';'', CHR '')'', CHR ''(''} raw in
      case q of
        Some c \<Rightarrow> operation_words (if ends_with tok [c] then None else q) ws
      | None \<Rightarrow>
          if starts_with tok [CHR 0x22] \<or> starts_with tok [CHR 0x27] then
            operation_words (if 1 < length tok \<and> ends_with tok [hd tok] then None else Some (hd tok)) ws
          else if is_id_like tok then operation_words None ws
          else tok # operation_words None ws)"

definition operation_text :: "string \<Rightarrow> string" where
  "operation_text intent = join '' '' (operation_words None (split_whitespace intent))"

text \<open>\<open>text.split(|c| !c.is_alphanumeric())\<close> without the empty pieces.\<close>

fun raw_token_loop :: "unicode \<Rightarrow> string list \<Rightarrow> string \<Rightarrow> string list" where
  "raw_token_loop U [] buf = (if buf = [] then [] else [buf])"
| "raw_token_loop U (ch # chs) buf =
     (if uc_alnum U ch then raw_token_loop U chs (buf @ ch)
      else if buf \<noteq> [] then buf # raw_token_loop U chs [] else raw_token_loop U chs [])"

definition tokens_iter :: "unicode \<Rightarrow> string \<Rightarrow> string list" where
  "tokens_iter U text = raw_token_loop U (chars_of text) []"

definition op_has :: "string list \<Rightarrow> string \<Rightarrow> bool" where
  "op_has ops tok = list_ex (\<lambda>t. eq_ignore_ascii_case t tok) ops"

text \<open>How many zones contain a token; the map has an entry only for tokens that occur.\<close>

definition token_df :: "string list list \<Rightarrow> string \<Rightarrow> int option" where
  "token_df zones tok =
     (let n = length (filter (\<lambda>f. tok \<in> set f) zones) in if n = 0 then None else Some (int n))"

definition token_weight :: "string list list \<Rightarrow> string \<Rightarrow> int" where
  "token_weight zones tok = 1000 div max 1 (case token_df zones tok of None \<Rightarrow> 1 | Some n \<Rightarrow> n)"

definition zone_overlap :: "string list \<Rightarrow> string list \<Rightarrow> string list list \<Rightarrow> int \<times> int" where
  "zone_overlap ops zone zones =
     (sum_list (map (token_weight zones) (filter (op_has ops) zone)), sum_list (map (token_weight zones) zone))"

definition names_token :: "unicode \<Rightarrow> op_schema \<Rightarrow> string \<Rightarrow> bool" where
  "names_token U s v =
     (list_ex (\<lambda>t. eq_ignore_ascii_case t v) (tokens_iter U (os_name s))
      \<or> list_ex (\<lambda>k. eq_ignore_ascii_case k v) (os_keywords s))"

definition verb_bonus :: "unicode \<Rightarrow> string option \<Rightarrow> op_schema \<Rightarrow> int" where
  "verb_bonus U verb s = (case verb of None \<Rightarrow> 0 | Some v \<Rightarrow> if names_token U s v then 300 else 0)"

definition hits_score :: "unicode \<Rightarrow> string list \<Rightarrow> op_schema \<Rightarrow> int" where
  "hits_score U ops s =
     (let hits = length (filter (\<lambda>t. names_token U s t
            \<or> list_ex (\<lambda>d. eq_ignore_ascii_case d t) (tokens_iter U (os_description s))) ops)
      in if 0 < hits \<and> hits = length ops then 300 else 150 * int hits div int (max 1 (length ops)))"

definition CLICK_VERBS :: "string list" where
  "CLICK_VERBS = [''click'', ''press'', ''tap'', ''push'', ''activate'']"

definition KEY_NAMES :: "string list" where
  "KEY_NAMES = [''key'', ''enter'', ''backspace'', ''return'', ''escape'', ''tab'', ''space'']"

definition RAW_MIN :: int where "RAW_MIN = 500"

text \<open>A staged schema: its raw evidence and whether its name or a keyword was hit.\<close>

definition stage_one ::
    "unicode \<Rightarrow> string list \<Rightarrow> op_schema list \<Rightarrow> op_schema \<Rightarrow> op_schema \<times> int \<times> bool" where
  "stage_one U ops schemas s =
     (let (mn, tn) = zone_overlap ops (tokens_iter U (os_name s)) (map (\<lambda>s. tokens_iter U (os_name s)) schemas);
          (mk, tk) = zone_overlap ops (os_keywords s) (map os_keywords schemas)
      in (s, 1000 * mn div max 1 tn + 1000 * mk div max 1 tk
            + verb_bonus U (case ops of [] \<Rightarrow> None | v # _ \<Rightarrow> Some v) s, 0 < mn + mk))"

definition stage_two ::
    "unicode \<Rightarrow> 'o instinct \<Rightarrow> string list \<Rightarrow> 'o option \<Rightarrow> op_schema \<times> int \<times> bool \<Rightarrow> op_schema \<times> int \<times> bool" where
  "stage_two U I ops query st =
     (case st of (s, raw, hit) \<Rightarrow>
        if \<not> hit then st
        else (s, raw + hits_score U ops s
               + (case query of None \<Rightarrow> 0
                  | Some q \<Rightarrow> (case overlap_normalized I q (os_name s @ '' '' @ join '' '' (os_keywords s)) of
                                None \<Rightarrow> 0 | Some c \<Rightarrow> c)), hit))"

definition stage_schemas :: "unicode \<Rightarrow> 'o instinct \<Rightarrow> string \<Rightarrow> op_schema list \<Rightarrow> (op_schema \<times> int \<times> bool) list" where
  "stage_schemas U I op_text schemas =
     (let ops = tokens_iter U op_text;
          staged = map (stage_one U ops schemas) schemas;
          query = (if list_ex (\<lambda>(_, _, hit). hit) staged then ic_normalize I op_text (ic_default_config I) else None)
      in map (stage_two U I ops query) staged)"

definition scaled_millis :: "bool \<Rightarrow> int \<Rightarrow> int \<Rightarrow> int" where
  "scaled_millis exact raw peak =
     (if exact then 1000 else if RAW_MIN \<le> peak then NON_EXACT_CAP * raw div peak else raw)"

definition click_veto :: "string list \<Rightarrow> string \<Rightarrow> int \<Rightarrow> int" where
  "click_veto ops name millis =
     (let key_named = list_ex (\<lambda>t. list_ex (eq_ignore_ascii_case t) KEY_NAMES) ops;
          click_verb = (case ops of [] \<Rightarrow> False | v # _ \<Rightarrow> list_ex (eq_ignore_ascii_case v) CLICK_VERBS)
      in if click_verb \<and> key_named then (if name = ''click'' then min millis 500 else millis)
         else if click_verb \<and> name \<noteq> ''click'' then min millis 500 else millis)"

text \<open>\<open>filter_map\<close> over the staged schemas; \<open>None\<close> where the search for a name panics.\<close>

fun resolve_candidates ::
    "'o instinct \<Rightarrow> string list \<Rightarrow> string \<Rightarrow> int \<Rightarrow> (op_schema \<times> int \<times> bool) list \<Rightarrow> (string \<times> int) list option" where
  "resolve_candidates I ops hay peak [] = Some []"
| "resolve_candidates I ops hay peak ((s, raw, hit) # staged) =
     (case name_in_intent_lowered hay (os_name s) of None \<Rightarrow> None
      | Some exact \<Rightarrow>
          map_option (\<lambda>cs. if \<not> exact \<and> raw \<le> 0 then cs
               else (os_name s, ic_saturating I
                      (let m = click_veto ops (os_name s) (scaled_millis exact raw peak)
                       in if - (2 ^ 31) \<le> m \<and> m < 2 ^ 31 then m else 0)) # cs)
            (resolve_candidates I ops hay peak staged))"

definition top_raw_of :: "(op_schema \<times> int \<times> bool) list \<Rightarrow> int" where
  "top_raw_of staged = (if staged = [] then 0 else Max (set (map (\<lambda>(_, raw, _). raw) staged)))"

definition show_int :: "int \<Rightarrow> string" where
  "show_int i = (if i < 0 then ''-'' @ dec (nat (- i)) else dec (nat i))"

fun arbitration_error_text :: "arbitration_error \<Rightarrow> string" where
  "arbitration_error_text (ArbCandidates e) = ''candidate ids must be unique and non-empty: '' @ e"
| "arbitration_error_text (ArbInstinct e) = ''instinct arbitration failed: '' @ e"

definition ranked_suffix :: "ranked_candidate list \<Rightarrow> string" where
  "ranked_suffix rs = join '', '' (map (\<lambda>r. rc_id r @ ''='' @ show_int (rc_millis r)) (take 5 rs))"

definition instinct_result ::
    "string \<Rightarrow> registry \<Rightarrow> arbitration_error + choice \<Rightarrow> resolve_result result" where
  "instinct_result intent reg verdict =
     (case verdict of
        Inr (Chosen ident ranked) \<Rightarrow>
          rbind (ok_or (''arbitration chose unknown schema `'' @ ident @ ''`'') (registry_get reg ident)) (\<lambda>s.
          rbind (materialize intent s) (\<lambda>(op, fills).
            let millis = (case List.find (\<lambda>r. rc_id r = ident) ranked of None \<Rightarrow> 0 | Some r \<Rightarrow> nat (rc_millis r)) in
            Inr \<lparr>rr_schema = os_name s, rr_op = op, rr_effects = os_effects s,
                 rr_confidence = f32_div (f32_of_int (int millis)) (F32 1000), rr_millis = Some millis,
                 rr_fills = fills, rr_idempotent = os_idempotent s\<rparr>))
      | Inr (Abstained why ranked) \<Rightarrow>
          Inl (unknown_intent (''`'' @ intent @ ''` ranked: ['' @ ranked_suffix ranked @ '']''))
      | Inl e \<Rightarrow> Inl (unknown_intent (''`'' @ intent @ ''`: '' @ arbitration_error_text e)))"

definition resolve_instinct :: "unicode \<Rightarrow> 'o instinct \<Rightarrow> string \<Rightarrow> registry \<Rightarrow> resolve_result result option" where
  "resolve_instinct U I intent reg =
     (let trimmed = trim intent in
      if trimmed = [] then Some (Inl ''empty intent'')
      else
        (let op_text = operation_text trimmed;
             schemas = filter (\<lambda>s. os_kind s \<noteq> KindId) (registry_iter reg);
             staged = stage_schemas U I op_text schemas
         in map_option (\<lambda>cands. instinct_result trimmed reg (choose_candidate I cands None))
              (resolve_candidates I (tokens_iter U op_text) (to_ascii_lowercase trimmed) (top_raw_of staged) staged)))"

end
