(* ===== verification/Resolve_Laws.thy ===== *)
theory Resolve_Laws
  imports Resolve Plan Evidence_Laws Policy_Laws
begin

text \<open>
  Laws of the resolver: the operation agrees with the schema it reports, the keyword scorer picks the
  only best schema, the slices behind a match stay on character boundaries, and nothing panics.
\<close>

section \<open>Operations and their schemas\<close>

definition fits_schema :: "registry \<Rightarrow> resolve_result \<Rightarrow> op_schema \<Rightarrow> bool" where
  "fits_schema reg r s \<longleftrightarrow> rr_schema r = os_name s \<and> rr_effects r = os_effects s \<and> rr_idempotent r = os_idempotent s
     \<and> (if os_kind s = KindId then rr_op r = op_click (os_name s) else annotate (rr_op r) reg = lookup (os_name s) reg)"

lemma materialize_annotate:
  assumes "registry_get reg (os_name s) = Some s" "materialize intent s = Inr (op, fills)"
  shows "if os_kind s = KindId then op = op_click (os_name s) else annotate op reg = lookup (os_name s) reg"
  using assms
  by (cases "os_kind s")
    (auto simp: materialize_def op_snapshot_def op_click_def rbind_Inr_iff lookup_def split: if_splits prod.splits)

lemma keyword_result_fits:
  assumes "registry_ok reg" "keyword_result intent reg name best = Some (Inr r)"
  shows "rr_schema r = name \<and> (\<exists>s. registry_get reg name = Some s \<and> fits_schema reg r s)"
proof -
  obtain s op fills where s: "registry_get reg name = Some s" "materialize intent s = Inr (op, fills)"
      and r: "rr_schema r = os_name s" "rr_op r = op" "rr_effects r = os_effects s" "rr_idempotent r = os_idempotent s"
    using assms(2) by (auto simp: keyword_result_def rbind_Inr_iff split: prod.splits)
  have n: "os_name s = name" using registry_ok_get [OF assms(1) s(1)] by simp
  then show ?thesis using s(1) r materialize_annotate [of reg s, OF _ s(2)] by (auto simp: fits_schema_def)
qed

lemma instinct_result_fits:
  assumes "registry_ok reg" "instinct_result intent reg verdict = Inr r"
  shows "\<exists>s. registry_get reg (rr_schema r) = Some s \<and> fits_schema reg r s"
proof -
  obtain ident ranked s op fills where s: "registry_get reg ident = Some s" "materialize intent s = Inr (op, fills)"
      and r: "rr_schema r = os_name s" "rr_op r = op" "rr_effects r = os_effects s" "rr_idempotent r = os_idempotent s"
    using assms(2)
    by (auto simp: instinct_result_def rbind_Inr_iff ok_or_def Let_def split: sum.splits choice.splits option.splits prod.splits)
  have "os_name s = ident" using registry_ok_get [OF assms(1) s(1)] by simp
  then show ?thesis using s(1) r materialize_annotate [of reg s, OF _ s(2)] by (auto simp: fits_schema_def)
qed

lemma resolved_fits:
  assumes "registry_ok reg"
    "resolve_intent_keywords intent reg = Some (Inr r) \<or> resolve_instinct U I intent reg = Some (Inr r)"
  shows "\<exists>s. registry_get reg (rr_schema r) = Some s \<and> fits_schema reg r s"
  using assms(2)
proof
  assume "resolve_intent_keywords intent reg = Some (Inr r)"
  then obtain name best where "keyword_result (trim intent) reg name best = Some (Inr r)"
    by (auto simp: resolve_intent_keywords_def Let_def split: if_splits list.splits)
  then show ?thesis using keyword_result_fits [OF assms(1)] by blast
next
  assume "resolve_instinct U I intent reg = Some (Inr r)"
  then show ?thesis using instinct_result_fits [OF assms(1)]
    by (auto simp: resolve_instinct_def Let_def split: if_splits)
qed

section \<open>Arguments\<close>

lemma title_arg_keys:
  "title_arg intent s = Inr (args, fs) \<Longrightarrow> map_of args k \<noteq> None \<longleftrightarrow> k = ''title'' \<and> ''title'' \<in> set (os_required s)"
  by (auto simp: title_arg_def rbind_Inr_iff split: if_splits)

lemma title_arg_ok: "title_arg intent s = Inr (args, fs) \<Longrightarrow> bt_ok args"
  by (auto simp: title_arg_def rbind_Inr_iff bt_ok_def split: if_splits)

lemma id_arg_keys:
  assumes "id_arg intent s acc = Inr (args, fs)" "bt_ok (fst acc)"
  shows "map_of args k \<noteq> None \<longleftrightarrow> k = ''id'' \<and> ''id'' \<in> set (os_required s) \<or> map_of (fst acc) k \<noteq> None"
  using assms by (auto simp: id_arg_def rbind_Inr_iff bt_lookup_insert split: if_splits)

lemma invoke_args_keys:
  assumes "invoke_args_from_intent intent s = Inr (args, fs)"
  shows "map_of args k \<noteq> None \<longleftrightarrow> k \<in> {''title'', ''id''} \<and> k \<in> set (os_required s)"
proof -
  obtain a where a: "title_arg intent s = Inr a" "id_arg intent s a = Inr (args, fs)"
    using assms by (auto simp: invoke_args_from_intent_def rbind_Inr_iff)
  obtain as fs' where x: "a = (as, fs')" by (cases a)
  show ?thesis
    using id_arg_keys [OF a(2)] title_arg_keys [of intent s as fs'] title_arg_ok [of intent s as fs'] a(1) x by auto
qed

section \<open>The ranking of the keyword scorer\<close>

abbreviation kw_score :: "string \<Rightarrow> op_schema \<Rightarrow> int" where
  "kw_score intent s \<equiv> keyword_score intent (words_of intent) s"

lemma ranking_set:
  "set (keyword_ranking intent reg) = {(os_name s, kw_score intent s) | s. s \<in> set (registry_iter reg) \<and> 0 < kw_score intent s}"
  by (auto simp: keyword_ranking_def)

lemma registry_iter_iff: "registry_ok reg \<Longrightarrow> s \<in> set (registry_iter reg) \<longleftrightarrow> registry_get reg (os_name s) = Some s"
  by (force simp: registry_ok_def registry_iter_def registry_get_def bt_ok_def image_iff dest: map_of_SomeD)

lemma ranking_names: "registry_ok reg \<Longrightarrow> distinct (map fst (keyword_ranking intent reg))"
proof -
  assume ok: "registry_ok reg"
  let ?xs = "filter (\<lambda>(n, s). 0 < s) (map (\<lambda>s. (os_name s, kw_score intent s)) (registry_iter reg))"
  have "map os_name (registry_iter reg) = map fst reg"
    using ok by (auto simp: registry_iter_def registry_ok_def)
  then have "distinct (map fst (map (\<lambda>s. (os_name s, kw_score intent s)) (registry_iter reg)))"
    using ok by (simp add: comp_def registry_ok_def bt_ok_def)
  then have "distinct (map fst ?xs)" by (rule distinct_map_filter)
  then show ?thesis unfolding distinct_map by (simp add: keyword_ranking_def)
qed

lemma ranking_sorted: "keyword_ranking intent reg = x # rest \<Longrightarrow> y \<in> set rest \<Longrightarrow> snd y \<le> snd x"
proof -
  assume k: "keyword_ranking intent reg = x # rest" and y: "y \<in> set rest"
  have "sorted (map (\<lambda>(n, s :: int). (- s, n)) (keyword_ranking intent reg))" by (simp add: keyword_ranking_def)
  then have "(- snd x, fst x) \<le> (- snd y, fst y)" using k y by (auto simp: case_prod_unfold)
  then show "snd y \<le> snd x" by auto
qed


lemma sole_best:
  assumes ok: "registry_ok reg" and k: "keyword_ranking intent reg = (n, b) # rest"
  shows "\<exists>s. registry_get reg n = Some s \<and> kw_score intent s = b \<and> 0 < b
    \<and> ((\<forall>y \<in> set rest. snd y < b) \<longleftrightarrow> (\<forall>s' \<in> set (registry_iter reg). s' \<noteq> s \<longrightarrow> kw_score intent s' < kw_score intent s))"
proof -
  have "(n, b) \<in> set (keyword_ranking intent reg)" using k by simp
  then obtain s where s: "s \<in> set (registry_iter reg)" "os_name s = n" "kw_score intent s = b" "0 < b"
    unfolding ranking_set by auto
  have get: "registry_get reg n = Some s" using s(1,2) registry_iter_iff [OF ok] by simp
  have d: "n \<notin> fst ` set rest" using ranking_names [OF ok, of intent] k by simp
  have others: "set rest = {(os_name s', kw_score intent s') | s'. s' \<in> set (registry_iter reg) \<and> s' \<noteq> s \<and> 0 < kw_score intent s'}"
    (is "_ = ?R")
  proof (intro set_eqI iffI)
    fix y assume y: "y \<in> set rest"
    then have "y \<in> set (keyword_ranking intent reg)" using k by simp
    then obtain s' where s': "s' \<in> set (registry_iter reg)" "0 < kw_score intent s'" "y = (os_name s', kw_score intent s')"
      unfolding ranking_set by auto
    moreover have "s' \<noteq> s" using d y s' s(2) by force
    ultimately show "y \<in> ?R" by blast
  next
    fix y assume "y \<in> ?R"
    then obtain s' where s': "s' \<in> set (registry_iter reg)" "s' \<noteq> s" "0 < kw_score intent s'" "y = (os_name s', kw_score intent s')"
      by blast
    then have "y \<in> set (keyword_ranking intent reg)" unfolding ranking_set by blast
    moreover have "os_name s' \<noteq> n"
      using s'(1,2) s(1,2) registry_iter_iff [OF ok] by (metis option.inject)
    ultimately show "y \<in> set rest" using k s'(4) by auto
  qed
  have "(\<forall>y \<in> set rest. snd y < b) \<longleftrightarrow> (\<forall>s' \<in> set (registry_iter reg). s' \<noteq> s \<longrightarrow> kw_score intent s' < kw_score intent s)"
    unfolding others using s(3,4) by force
  then show ?thesis using get s(3,4) by blast
qed

lemma best_wins:
  assumes "registry_ok reg" "keyword_ranking intent reg = (n, b) # rest"
  shows "(case rest of (m, second) # _ \<Rightarrow> b \<le> second | [] \<Rightarrow> False) \<longleftrightarrow> \<not> (\<forall>y \<in> set rest. snd y < b)"
proof (cases rest)
  case (Cons z zs)
  have "snd y \<le> snd z" if "y \<in> set zs" for y
  proof -
    have "sorted (map (\<lambda>(n, s :: int). (- s, n)) (keyword_ranking intent reg))" by (simp add: keyword_ranking_def)
    then have "(- snd z, fst z) \<le> (- snd y, fst y)" using assms(2) Cons that by (auto simp: case_prod_unfold)
    then show ?thesis by auto
  qed
  then show ?thesis using Cons by (cases z) force
qed simp


section \<open>No panic\<close>

lemma ascii_follow_drop: "ascii_follow s \<Longrightarrow> ascii_follow (drop k s)"
  by (auto simp: ascii_follow_def)

lemma ascii_follow_take: "ascii_follow s \<Longrightarrow> ascii_follow (take k s)"
  by (auto simp: ascii_follow_def)

lemma ascii_follow_trim: "ascii_follow s \<Longrightarrow> ascii_follow (trim s)"
proof -
  have start: "ascii_follow s \<Longrightarrow> ascii_follow (trim_start s)" for s
    by (induction s rule: trim_start.induct) (subst trim_start.simps, auto intro: ascii_follow_drop)
  have stop: "ascii_follow s \<Longrightarrow> ascii_follow (trim_end s)" for s
    by (induction s rule: trim_end.induct) (subst trim_end.simps, auto intro: ascii_follow_take)
  show "ascii_follow s \<Longrightarrow> ascii_follow (trim s)" unfolding trim_def by (intro stop start)
qed

text \<open>Behind an ASCII match in the lower case of a text, the text has a character boundary.\<close>

lemma match_boundary:
  assumes "ascii_follow s" "str_find (to_ascii_lowercase s) m = Some i" "m \<noteq> []" "is_ascii (last m)"
  shows "is_char_boundary s (i + length m)"
proof (cases "i + length m < length s")
  case True
  let ?j = "i + length m - 1"
  obtain t where t: "drop i (to_ascii_lowercase s) = m @ t"
    using str_find_Some [OF assms(2)] by (auto simp: starts_with_iff)
  have "to_ascii_lowercase s ! ?j = last m"
  proof -
    have "to_ascii_lowercase s ! ?j = drop i (to_ascii_lowercase s) ! (length m - 1)"
      using True assms(3) by (subst nth_drop) (auto simp: to_ascii_lowercase_def Suc_le_eq)
    also have "\<dots> = last m" using assms(3) unfolding t by (simp add: nth_append last_conv_nth)
    finally show ?thesis .
  qed
  then have low: "lower_byte (s ! ?j) = last m" using True by (simp add: to_ascii_lowercase_def)
  have "is_ascii (lower_byte c) \<Longrightarrow> is_ascii c" for c by (auto simp: lower_byte_def Let_def of_char_of split: if_splits)
  then have "is_ascii (s ! ?j)" using low assms(4) by simp
  moreover have "Suc ?j = i + length m" using assms(3) by (cases m) auto
  ultimately have "\<not> is_cont (s ! (i + length m))" using assms(1) True unfolding ascii_follow_def by metis
  then show ?thesis using True by (simp add: is_char_boundary_def)
next
  case False
  have "i + length m \<le> length s"
    using str_find_Some [OF assms(2)] by (auto simp: starts_with_iff to_ascii_lowercase_def dest!: arg_cong [of _ _ length])
  then show ?thesis using False by (simp add: is_char_boundary_def)
qed

lemma marker_boundary:
  "ascii_follow s \<Longrightarrow> marker \<in> set title_markers \<Longrightarrow> str_find (to_ascii_lowercase s) marker = Some i
   \<Longrightarrow> is_char_boundary s (i + length marker)"
  by (rule match_boundary) (auto simp: title_markers_def)

lemma id_boundary: "ascii_follow s \<Longrightarrow> str_find (to_ascii_lowercase s) ''id'' = Some i \<Longrightarrow> is_char_boundary s (i + 2)"
  using match_boundary [of s "''id''" i] by simp

lemma schema_name_ascii: "schema_validate s = Inr () \<Longrightarrow> os_name s \<noteq> [] \<and> is_ascii (hd (os_name s))"
proof -
  assume v: "schema_validate s = Inr ()"
  have "trim [] = []" by (rule trim_graph) simp
  then have ne: "os_name s \<noteq> []" and all: "list_all schema_char (os_name s)"
    using v by (auto simp: schema_validate_def split: if_splits)
  then have "schema_char (hd (os_name s))" by (cases "os_name s") auto
  then show ?thesis using ne
    by (auto simp: schema_char_def is_ascii_alnum_def is_ascii_digit_def is_ascii_alpha_def Let_def)
qed

lemma name_lowered_total:
  assumes "ascii_follow hay" "name \<noteq> []" "is_ascii (hd name)"
  shows "name_in_intent_lowered hay name \<noteq> None"
proof -
  let ?n = "if list_ex is_ascii_upper name then to_ascii_lowercase name else name"
  have "?n \<noteq> []" "is_ascii (hd ?n)"
    using assms(2,3) by (cases name; auto simp: to_ascii_lowercase_def lower_byte_def Let_def of_char_of)+
  then show ?thesis
    using name_scan_spec [OF assms(1), of ?n 0] by (simp add: name_in_intent_lowered_def is_char_boundary_def)
qed

lemma candidates_total:
  "ascii_follow hay \<Longrightarrow> (\<forall>(s, _) \<in> set staged. os_name s \<noteq> [] \<and> is_ascii (hd (os_name s)))
   \<Longrightarrow> resolve_candidates I ops hay peak staged \<noteq> None"
proof (induction I ops hay peak staged rule: resolve_candidates.induct)
  case (2 I ops hay peak s raw hit staged)
  then have "name_in_intent_lowered hay (os_name s) \<noteq> None" using name_lowered_total by auto
  then show ?case using 2 by auto
qed simp

lemma staged_schemas: "(s, x) \<in> set (stage_schemas U I text schemas) \<Longrightarrow> s \<in> set schemas"
  by (auto simp: stage_schemas_def stage_one_def stage_two_def Let_def split: prod.splits if_splits)

section \<open>Properties\<close>

text \<open>A registry of two schemas, for the witnesses.\<close>

definition prose_schema :: "string \<Rightarrow> schema_kind \<Rightarrow> string list \<Rightarrow> string list \<Rightarrow> op_schema" where
  "prose_schema n k required keywords = \<lparr>os_name = n, os_kind = k, os_description = [], os_effects = [Write],
     os_idempotent = False, os_verified = True, os_required = required,
     os_args = map (\<lambda>r. (r, arg ''string'' True)) required, os_result = None, os_keywords = keywords\<rparr>"

definition prose_registry :: registry where
  "prose_registry = [(''hello'', prose_schema ''hello'' KindProtocol [] [''greet'']),
     (''note.add'', prose_schema ''note.add'' KindInvoke [''title'', ''color''] [''note''])]"

lemma prose_registry_ok: "registry_ok prose_registry"
  unfolding registry_ok_def by code_simp

lemma prose_hello:
  "trim ''greet'' \<noteq> [] \<and> registry_get prose_registry ''hello'' = Some (prose_schema ''hello'' KindProtocol [] [''greet''])
   \<and> (\<forall>s \<in> set (registry_iter prose_registry). kw_score (trim ''greet'') s = (if os_name s = ''hello'' then 2 else 0))
   \<and> is_ok (materialize (trim ''greet'') (prose_schema ''hello'' KindProtocol [] [''greet'']))"
  by code_simp

text \<open>
  C20. What the resolver answers is what the planner will say of its operation: in both builds the
  schema is one of the registry, and unless it is an id shortcut, whose operation is a click on the id,
  \<open>compile_plan\<close> annotates the operation with the schema, effects and idempotence of the answer.
\<close>

theorem resolve_agrees_with_plan:
  assumes "registry_ok reg"
    "resolve_intent_keywords intent reg = Some (Inr r) \<or> resolve_instinct U I intent reg = Some (Inr r)"
  shows "\<exists>s. registry_get reg (rr_schema r) = Some s
     \<and> (if os_kind s = KindId then rr_op r = op_click (rr_schema r) \<and> rr_effects r = os_effects s
        else annotate (rr_op r) reg = (Some (rr_schema r), rr_effects r, rr_idempotent r))"
  using resolved_fits [OF assms] by (auto simp: fits_schema_def lookup_def)

text \<open>
  C21. The keyword resolver fails closed: it answers with a schema exactly when that schema scores at
  least two and strictly more than every other one, and its operation can be made from the sentence.
\<close>

theorem keyword_verdict:
  assumes "registry_ok reg"
  shows "(\<exists>r. resolve_intent_keywords intent reg = Some (Inr r) \<and> rr_schema r = n)
    \<longleftrightarrow> trim intent \<noteq> [] \<and> (\<exists>s. registry_get reg n = Some s \<and> 2 \<le> kw_score (trim intent) s
          \<and> (\<forall>s' \<in> set (registry_iter reg). s' \<noteq> s \<longrightarrow> kw_score (trim intent) s' < kw_score (trim intent) s)
          \<and> is_ok (materialize (trim intent) s))"
proof (cases "keyword_ranking (trim intent) reg")
  case Nil
  have "kw_score (trim intent) s \<le> 0" if "registry_get reg n = Some s" for s
    using that Nil ranking_set [of "trim intent" reg] registry_iter_iff [OF assms, of s] registry_ok_get [OF assms that]
    by (auto simp: not_le [symmetric])
  then show ?thesis using Nil by (auto simp: resolve_intent_keywords_def Let_def)
next
  case (Cons x rest)
  obtain m b where x: "x = (m, b)" by (cases x)
  let ?t = "trim intent"
  obtain s where s: "registry_get reg m = Some s" "kw_score ?t s = b" "0 < b"
      and best: "(\<forall>y \<in> set rest. snd y < b) \<longleftrightarrow> (\<forall>s' \<in> set (registry_iter reg). s' \<noteq> s \<longrightarrow> kw_score ?t s' < kw_score ?t s)"
    using sole_best [OF assms, of ?t m b rest] Cons x by auto
  have top: "kw_score ?t s' \<le> b" if "s' \<in> set (registry_iter reg)" for s'
  proof (cases "0 < kw_score ?t s'")
    case True
    then have "(os_name s', kw_score ?t s') \<in> set (keyword_ranking ?t reg)" using that unfolding ranking_set by blast
    then show ?thesis using Cons x ranking_sorted [of ?t reg x rest "(os_name s', kw_score ?t s')"] by auto
  qed (use s(3) in simp)
  have run: "resolve_intent_keywords intent reg =
      (if ?t = [] then Some (Inl ''empty intent'')
       else if b < 2 then Some (Inl (unknown_intent ?t))
       else if (\<forall>y \<in> set rest. snd y < b) then keyword_result ?t reg m b
       else Some (Inl (ambiguous_intent ?t m (fst (hd rest)))))"
    using best_wins [OF assms Cons [unfolded x]] Cons x
    by (cases rest) (auto simp: resolve_intent_keywords_def Let_def split: prod.splits if_splits)
  have name: "os_name s = m" using registry_ok_get [OF assms s(1)] by simp
  have mem: "s \<in> set (registry_iter reg)" using registry_iter_iff [OF assms, of s] s(1) name by simp
  show ?thesis
  proof (cases "n = m")
    case True
    have "(\<exists>r. keyword_result ?t reg m b = Some (Inr r) \<and> rr_schema r = m) \<longleftrightarrow> is_ok (materialize ?t s)"
      using s(1) name by (auto simp: keyword_result_def is_ok_iff rbind_Inr_iff split: prod.splits)
    then show ?thesis unfolding run using True s(1,2) best by auto
  next
    case False
    have "\<not> (\<exists>s'. registry_get reg n = Some s' \<and> (\<forall>s'' \<in> set (registry_iter reg). s'' \<noteq> s' \<longrightarrow> kw_score ?t s'' < kw_score ?t s'))"
    proof clarify
      fix s' assume n: "registry_get reg n = Some s'"
        and all: "\<forall>s'' \<in> set (registry_iter reg). s'' \<noteq> s' \<longrightarrow> kw_score ?t s'' < kw_score ?t s'"
      have n': "os_name s' = n" using registry_ok_get [OF assms n] by simp
      then have "s' \<in> set (registry_iter reg)" "s \<noteq> s'" using registry_iter_iff [OF assms, of s'] n name False by auto
      then show False using all mem top s(2) by fastforce
    qed
    moreover have "keyword_result ?t reg m b = Some (Inr r) \<Longrightarrow> rr_schema r = m" for r
      using keyword_result_fits [OF assms] by blast
    ultimately show ?thesis unfolding run using False by auto
  qed
qed

text \<open>
  C33. An invoke gets its arguments out of a sentence exactly when the schema is an invoke and the sentence
  has a title, where the schema requires \<open>title\<close>, and a number, where it requires \<open>id\<close>; otherwise it is an error.
  The arguments are then this title and this number and no others: a requirement with another name is
  not an error and stays unfilled.
\<close>

theorem invoke_args_filled:
  "if os_kind s = KindInvoke \<and>
      (if ''title'' \<in> set (os_required s) then extract_title intent \<noteq> None else True) \<and>
      (if ''id'' \<in> set (os_required s) then extract_id intent \<noteq> None else True)
   then \<exists>args. invoke_args_of s intent = Inr (JObj args) \<and>
      map_of args = (\<lambda>k. if k \<notin> set (os_required s) then None
         else if k = ''title'' then map_option JStr (extract_title intent)
         else if k = ''id'' then map_option json_of_u64 (extract_id intent) else None)
   else \<exists>e. invoke_args_of s intent = Inl e"
  by (cases "''title'' \<in> set (os_required s)"; cases "''id'' \<in> set (os_required s)"; cases "extract_title intent"; cases "extract_id intent")
    (auto simp: invoke_args_of_def rmap_def rbind_def ok_or_def invoke_args_from_intent_def title_arg_def id_arg_def
      bt_lookup_insert fun_eq_iff)

text \<open>
  Neither resolver panics on well-formed text: every schema name is ASCII, so the search for a name
  keeps to character boundaries, and the name that wins is in the registry.
\<close>

theorem resolve_never_panics:
  assumes "registry_ok reg" "utf8_ok intent"
  shows "resolve_intent_keywords intent reg \<noteq> None \<and> resolve_instinct U I intent reg \<noteq> None"
proof
  have "keyword_result (trim intent) reg m b \<noteq> None" if "keyword_ranking (trim intent) reg = (m, b) # rest" for m b rest
    using sole_best [OF assms(1) that] by (auto simp: keyword_result_def)
  then show "resolve_intent_keywords intent reg \<noteq> None"
    by (auto simp: resolve_intent_keywords_def Let_def split: list.splits)
  have "ascii_follow (to_ascii_lowercase (trim intent))"
    using utf8_follow [OF assms(2)] by (intro ascii_follow_lower ascii_follow_trim)
  moreover have "os_name s \<noteq> [] \<and> is_ascii (hd (os_name s))" if "s \<in> set (registry_iter reg)" for s
    using that registry_iter_iff [OF assms(1)] registry_ok_get [OF assms(1)] schema_name_ascii by blast
  ultimately have "resolve_candidates I ops (to_ascii_lowercase (trim intent)) peak
      (stage_schemas U I t (filter (\<lambda>s. os_kind s \<noteq> KindId) (registry_iter reg))) \<noteq> None" for ops peak t
    using staged_schemas by (intro candidates_total) fastforce+
  then show "resolve_instinct U I intent reg \<noteq> None" by (simp add: resolve_instinct_def Let_def)
qed


theorem keyword_verdict_witness:
  "\<exists>r. resolve_intent_keywords ''greet'' prose_registry = Some (Inr r) \<and> rr_schema r = ''hello''"
  unfolding keyword_verdict [OF prose_registry_ok]
  using prose_hello by (auto simp: prose_registry_def registry_iter_def prose_schema_def)

theorem resolve_agrees_with_plan_witness:
  "\<exists>r s. resolve_intent_keywords ''greet'' prose_registry = Some (Inr r) \<and> registry_get prose_registry (rr_schema r) = Some s
     \<and> annotate (rr_op r) prose_registry = (Some (rr_schema r), rr_effects r, rr_idempotent r)"
proof -
  have "trim ''greet'' = ''greet''" "keyword_ranking ''greet'' prose_registry = [(''hello'', 2)]" by code_simp+
  then obtain r where r: "resolve_intent_keywords ''greet'' prose_registry = Some (Inr r)"
    by (simp add: resolve_intent_keywords_def keyword_result_def prose_registry_def registry_get_def prose_schema_def
        materialize_def)
  obtain s where s: "registry_get prose_registry (rr_schema r) = Some s"
      "if os_kind s = KindId then rr_op r = op_click (rr_schema r) \<and> rr_effects r = os_effects s
        else annotate (rr_op r) prose_registry = (Some (rr_schema r), rr_effects r, rr_idempotent r)"
    using resolve_agrees_with_plan [OF prose_registry_ok, of "''greet''" r plain_unicode sample_instinct] r by blast
  have "os_kind s \<noteq> KindId"
    using s(1) by (auto simp: registry_get_def prose_registry_def prose_schema_def split: if_splits)
  then show ?thesis using r s by auto
qed

theorem resolve_never_panics_witness:
  "resolve_intent_keywords ''greet'' prose_registry \<noteq> None
   \<and> resolve_instinct plain_unicode sample_instinct ''greet'' prose_registry \<noteq> None"
proof -
  have "utf8_ok ''greet''" by code_simp
  then show ?thesis using resolve_never_panics [OF prose_registry_ok] by blast
qed

text \<open>A dash between two words is taken for a stable id.\<close>

lemma dash_is_a_target: "extract_id_token ''click the save - now'' = Some ''-''"
  by code_simp

end
