(* ===== verification/Mcp_Tools.thy ===== *)
theory Mcp_Tools
  imports Json
begin

text \<open>
  The tools that \<open>crates/gpui-agent-cli/src/mcp.rs\<close> announces: \<open>tools()\<close> with its names, descriptions
  and input schemas, byte for byte.
\<close>

definition schema_arg_json :: json where
  "schema_arg_json = json_obj [
     (''description'', JStr ''App invoke/id schema JSON path(s). Same as CLI `--schema` / `GPUI_AGENT_SCHEMA`.''),
     (''oneOf'', JArr [json_obj [(''type'', JStr ''string'')],
        json_obj [(''type'', JStr ''array''), (''items'', json_obj [(''type'', JStr ''string'')])]])]"

definition tool_json :: "string \<Rightarrow> string \<Rightarrow> json \<Rightarrow> json" where
  "tool_json name description input_schema = json_obj [(''name'', JStr name), (''description'', JStr description),
     (''inputSchema'', input_schema)]"

definition object_properties :: "string list \<Rightarrow> (string \<times> json) list" where
  "object_properties required = fold (\<lambda>key. bt_insert key (json_obj [(''type'', JStr ''string'')])) required []"

definition schema_with :: "(string \<times> json) list \<Rightarrow> string list \<Rightarrow> json" where
  "schema_with properties required = json_obj [(''type'', JStr ''object''), (''properties'', JObj properties),
     (''required'', JArr (map JStr required))]"

definition object_schema :: "string list \<Rightarrow> json" where
  "object_schema required = schema_with (object_properties required) required"

definition delivery_schema :: json where
  "delivery_schema = json_obj [(''type'', JStr ''string''), (''enum'', JArr [JStr ''semantic'', JStr ''virtual'']),
     (''description'', JStr ''semantic (default) calls the widget handler. virtual synthesizes GPUI pointer/key events in-process; never warps the OS cursor.'')]"

definition input_schema_with_delivery :: "string list \<Rightarrow> json" where
  "input_schema_with_delivery required =
     schema_with (bt_insert ''delivery'' delivery_schema (object_properties required)) required"

definition tool_wait :: json where
  "tool_wait = tool_json ''wait''
     ''Block until the host answers hello/ready.''
     (json_obj [(''type'', JStr ''object''),
       (''properties'', json_obj [(''timeout_ms'', json_obj [(''type'', JStr ''integer''),
           (''description'', JStr ''Client connect retry budget in milliseconds.'')])])])"

definition tool_wait_until :: json where
  "tool_wait_until = tool_json ''wait_until''
     ''Poll assert fields on a snapshot until they match or timeout_ms elapses. Distinct from wait (ready/paint only). in_viewport fails closed (in_viewport_unavailable) when bounds are zero or the host is headless.''
     (json_obj [(''type'', JStr ''object''),
       (''properties'', json_obj [(''timeout_ms'', json_obj [(''type'', JStr ''integer''),
           (''description'', JStr ''Host poll budget in milliseconds.'')]),
         (''target'', json_obj [(''type'', JStr ''string''),
           (''description'', JStr ''Stable node id (alias: id).'')]),
         (''id'', json_obj [(''type'', JStr ''string''),
           (''description'', JStr ''Alias for target.'')]),
         (''name'', json_obj [(''type'', JStr ''string'')]),
         (''value'', json_obj [(''type'', JStr ''string'')]),
         (''role'', json_obj [(''type'', JStr ''string'')]),
         (''checked'', json_obj [(''type'', JStr ''boolean'')]),
         (''exists'', json_obj [(''type'', JStr ''boolean'')]),
         (''visible'', json_obj [(''type'', JStr ''boolean''),
           (''description'', JStr ''Host-declared visibility (not exists, not in_viewport).'')]),
         (''in_viewport'', json_obj [(''type'', JStr ''boolean''),
           (''description'', JStr ''Non-empty intersection with the painted window clip.'')])]),
       (''required'', JArr [JStr ''timeout_ms''])])"

definition tool_hello :: json where
  "tool_hello = tool_json ''hello''
     ''Handshake: protocol version, app name, platform, ready.''
     (json_obj [(''type'', JStr ''object''),
       (''properties'', json_obj [])])"

definition tool_snapshot :: json where
  "tool_snapshot = tool_json ''snapshot''
     ''Read the semantic UI tree (stable ids, roles, names, state). Pass since=<rev> for a diff against a revision you already hold, format=compact for one line per visible node.''
     (json_obj [(''type'', JStr ''object''),
       (''properties'', json_obj [(''since'', json_obj [(''type'', JStr ''integer''),
           (''description'', JStr ''Return only what changed since this snapshot revision.'')]),
         (''format'', json_obj [(''type'', JStr ''string''),
           (''enum'', JArr [JStr ''json'', JStr ''compact'']),
           (''description'', JStr ''json (default) is the full UiTree; compact is one line per visible node.'')]),
         (''fingerprints'', json_obj [(''type'', JStr ''boolean''),
           (''description'', JStr (''true adds an id'' @ [CHR 0xE2, CHR 0x86, CHR 0x92] @ ''fingerprint map so callers can gate mutating ops with expect_fingerprint.''))])])])"

definition tool_screenshot :: json where
  "tool_screenshot = tool_json ''screenshot''
     ''Observe-only PNG of the app surface (not the full desktop). The host writes `path` on the same machine so the image does not ride NDJSON. Headless / Linux / Windows return screenshot_unavailable. macOS desktop writes this window via screencapture -l (Screen Recording permission). mode=scrolled requires target (named scroller) and stitches tiles; default mode is viewport.''
     (json_obj [(''type'', JStr ''object''),
       (''properties'', json_obj [(''path'', json_obj [(''type'', JStr ''string''),
           (''description'', JStr ''Destination PNG path on the host machine.'')]),
         (''mode'', json_obj [(''type'', JStr ''string''),
           (''enum'', JArr [JStr ''viewport'', JStr ''scrolled'']),
           (''description'', JStr ''viewport (default) captures the window. scrolled scrolls target and stitches tiles.'')]),
         (''target'', json_obj [(''type'', JStr ''string''),
           (''description'', JStr ''Stable scroll-view id. Required when mode=scrolled.'')]),
         (''max_height_px'', json_obj [(''type'', JStr ''integer''),
           (''description'', JStr ''Safety cap for scrolled capture (max 16384).'')])]),
       (''required'', JArr [JStr ''path''])])"

definition tool_click :: json where
  "tool_click = tool_json ''click''
     ''Activate a widget by stable id. delivery=semantic (default) calls the handler; delivery=virtual synthesizes in-window GPUI pointer events (never OS HID).''
     (input_schema_with_delivery [''target''])"

definition tool_type :: json where
  "tool_type = tool_json ''type''
     ''Append text to an editable widget. Optional delivery=virtual types through GPUI keystrokes after focusing the target.''
     (input_schema_with_delivery [''target'', ''text''])"

definition tool_set_value :: json where
  "tool_set_value = tool_json ''set_value''
     ''Replace the value of an editable widget.''
     (object_schema [''target'', ''value''])"

definition tool_key :: json where
  "tool_key = tool_json ''key''
     (''Send a key (Enter, Backspace, '' @ [CHR 0xE2, CHR 0x80, CHR 0xA6] @ '') to a widget. No modifiers. Optional delivery=virtual uses GPUI dispatch_keystroke. Modifier chords use the keybinding tool.'')
     (input_schema_with_delivery [''target'', ''key''])"

definition tool_keybinding :: json where
  "tool_keybinding = tool_json ''keybinding''
     (''Fire a GPUI Action by stable id (the same handler the keymap uses). Never OS HID. scope=focused requires the app window to be focused unless activate=true. scope=global is this app'' @ [CHR 0xE2, CHR 0x80, CHR 0x99] @ ''s global map only. Destructive ids (app.quit) require confirm=true.'')
     (json_obj [(''type'', JStr ''object''),
       (''properties'', json_obj [(''id'', json_obj [(''type'', JStr ''string''),
           (''description'', JStr ''Action id (protocol field: binding). Alias: binding.'')]),
         (''binding'', json_obj [(''type'', JStr ''string''),
           (''description'', JStr ''Alias for id.'')]),
         (''scope'', json_obj [(''type'', JStr ''string''),
           (''enum'', JArr [JStr ''focused'', JStr ''global''])]),
         (''chord'', json_obj [(''type'', JStr ''string''),
           (''description'', JStr ''Optional chord metadata / resolve aid.'')]),
         (''confirm'', json_obj [(''type'', JStr ''boolean''),
           (''description'', JStr ''Required for dangerous Actions such as app.quit.'')]),
         (''activate'', json_obj [(''type'', JStr ''boolean''),
           (''description'', JStr ''scope=focused only: host-activate this window first.'')])]),
       (''required'', JArr [JStr ''scope''])])"

definition tool_keybindings :: json where
  "tool_keybindings = tool_json ''keybindings''
     ''List registered Action-id keybindings: { id, chord, scope, dangerous }.''
     (json_obj [(''type'', JStr ''object''),
       (''properties'', json_obj [])])"

definition tool_events :: json where
  "tool_events = tool_json ''events''
     ''Poll the host's bounded event stream: {events:[{seq,level,target,message}], latest, lagged}. `latest` is the cursor for the next `since`; `lagged` means events were dropped to capacity. Hosts without an event ring answer an error.''
     (json_obj [(''type'', JStr ''object''),
       (''properties'', json_obj [(''since'', json_obj [(''type'', JStr ''integer''),
           (''description'', JStr ''Only events with seq > this (default: all retained).'')]),
         (''limit'', json_obj [(''type'', JStr ''integer''),
           (''description'', JStr ''Max events (default 256, cap 1024).'')])])])"

definition tool_assert :: json where
  "tool_assert = tool_json ''assert''
     ''Assert name/value/role/checked/exists/visible/in_viewport on a node from the current snapshot. visible is host-declared; in_viewport is geometry and fails closed when bounds are dishonest.''
     (json_obj [(''type'', JStr ''object''),
       (''properties'', json_obj [(''target'', json_obj [(''type'', JStr ''string''),
           (''description'', JStr ''Stable node id (alias: id).'')]),
         (''id'', json_obj [(''type'', JStr ''string''),
           (''description'', JStr ''Alias for target.'')]),
         (''name'', json_obj [(''type'', JStr ''string'')]),
         (''value'', json_obj [(''type'', JStr ''string'')]),
         (''role'', json_obj [(''type'', JStr ''string'')]),
         (''checked'', json_obj [(''type'', JStr ''boolean'')]),
         (''exists'', json_obj [(''type'', JStr ''boolean'')]),
         (''visible'', json_obj [(''type'', JStr ''boolean''),
           (''description'', JStr ''Host-declared visibility.'')]),
         (''in_viewport'', json_obj [(''type'', JStr ''boolean''),
           (''description'', JStr ''Non-empty intersection with the painted window clip.'')])]),
       (''required'', JArr [])])"

definition tool_invoke :: json where
  "tool_invoke = tool_json ''invoke''
     ''Call a named host command the app registered (app-specific verbs belong here, not as extra tools).''
     (json_obj [(''type'', JStr ''object''),
       (''properties'', json_obj [(''name'', json_obj [(''type'', JStr ''string''),
           (''description'', JStr ''Host command, e.g. demo.reset'')]),
         (''args'', json_obj [(''type'', JStr ''object''),
           (''description'', JStr ''JSON object of arguments.'')])]),
       (''required'', JArr [JStr ''name''])])"

definition tool_shutdown :: json where
  "tool_shutdown = tool_json ''shutdown''
     ''Ask the host to exit.''
     (json_obj [(''type'', JStr ''object''),
       (''properties'', json_obj [])])"

definition tool_recipe_validate :: json where
  "tool_recipe_validate = tool_json ''recipe_validate''
     ''[experimental] Lint a JSON recipe of protocol ops (`.wants` text also accepted). Does not contact the host.''
     (json_obj [(''type'', JStr ''object''),
       (''properties'', json_obj [(''recipe'', json_obj [(''description'', JStr ''JSON recipe object (canonical) or wants text.'')]),
         (''schema'', schema_arg_json)]),
       (''required'', JArr [JStr ''recipe''])])"

definition tool_recipe_plan :: json where
  "tool_recipe_plan = tool_json ''recipe_plan''
     ''[experimental] Compile a JSON recipe to a wave plan (effects, fingerprint). Does not run it. `.wants` text also accepted.''
     (json_obj [(''type'', JStr ''object''),
       (''properties'', json_obj [(''recipe'', json_obj [(''description'', JStr ''JSON recipe object (canonical) or wants text.'')]),
         (''set'', json_obj [(''type'', JStr ''object''),
           (''description'', JStr ''Parameter bindings.'')]),
         (''schema'', schema_arg_json)]),
       (''required'', JArr [JStr ''recipe''])])"

definition tool_recipe_run :: json where
  "tool_recipe_run = tool_json ''recipe_run''
     ''[experimental] Validate, plan, and execute a JSON recipe sequentially on one reused TCP session. `.wants` also accepted. This MCP process already required a token; each step still carries it. Pass yes=true if the plan includes shutdown.''
     (json_obj [(''type'', JStr ''object''),
       (''properties'', json_obj [(''recipe'', json_obj [(''description'', JStr ''JSON recipe object (canonical) or wants text.'')]),
         (''set'', json_obj [(''type'', JStr ''object''),
           (''description'', JStr ''Parameter bindings.'')]),
         (''yes'', json_obj [(''type'', JStr ''boolean'')]),
         (''screenshot_dir'', json_obj [(''type'', JStr ''string''),
           (''description'', JStr ''After each step (or flagged steps), write an app-surface PNG. Receipt lists paths; headless/Linux/Windows are screenshot_unavailable; macOS desktop uses screencapture -l of this window.'')]),
         (''screenshot_flagged'', json_obj [(''type'', JStr ''boolean''),
           (''description'', JStr ''Only steps with screenshot: true.'')]),
         (''schema'', schema_arg_json)]),
       (''required'', JArr [JStr ''recipe''])])"

definition tool_recipe_resolve :: json where
  "tool_recipe_resolve = tool_json ''recipe_resolve''
     ''[experimental] Map a natural-language intent through the local schema registry (fail closed).''
     (json_obj [(''type'', JStr ''object''),
       (''properties'', json_obj [(''intent'', json_obj [(''type'', JStr ''string'')]),
         (''schema'', schema_arg_json)]),
       (''required'', JArr [JStr ''intent''])])"

definition tool_locate :: json where
  "tool_locate = tool_json ''locate''
     ''[experimental, instinct] Read-only: decide which finite action best matches a natural-language query. Prefer `act` with a plain instruction; use `snapshot format=compact since=<rev>` to look.''
     (json_obj [(''type'', JStr ''object''),
       (''properties'', json_obj [(''query'', json_obj [(''type'', JStr ''string'')]),
         (''k'', json_obj [(''type'', JStr ''integer''),
           (''description'', JStr ''Max candidates to return (default 5).'')]),
         (''schema'', schema_arg_json)]),
       (''required'', JArr [JStr ''query''])])"

definition tool_act :: json where
  "tool_act = tool_json ''act''
     ''[experimental, instinct] Execute ONE clause of a natural-language instruction against the observed UI. Abstains (never dispatches) when evidence is insufficient or the action is destructive. Replies {done:{op,id,text?},rev,diff} or {abstain:{reason,candidates},rev}. Prefer this over manual snapshot+click; use `snapshot format=compact since=<rev>` to look.''
     (json_obj [(''type'', JStr ''object''),
       (''properties'', json_obj [(''instruction'', json_obj [(''type'', JStr ''string''),
           (''description'', JStr (''One clause, e.g. `click Add` or `type '' @ [CHR 0x22] @ ''milk'' @ [CHR 0x22] @ '' into What needs doing?`. `then`/`and then` chains run the first clause only.''))]),
         (''k'', json_obj [(''type'', JStr ''integer''),
           (''description'', JStr ''Max candidates in an abstain reply (default 5).'')]),
         (''delivery'', json_obj [(''type'', JStr ''string''),
           (''enum'', JArr [JStr ''semantic'', JStr ''virtual''])]),
         (''schema'', schema_arg_json)]),
       (''required'', JArr [JStr ''instruction''])])"

definition mcp_tools :: "bool \<Rightarrow> json list" where
  "mcp_tools instinct_on = [tool_wait, tool_wait_until, tool_hello, tool_snapshot, tool_screenshot, tool_click, tool_type, tool_set_value, tool_key, tool_keybinding, tool_keybindings, tool_events, tool_assert, tool_invoke, tool_shutdown, tool_recipe_validate, tool_recipe_plan, tool_recipe_run, tool_recipe_resolve]
     @ (if instinct_on then [tool_locate, tool_act] else [])"

end
