(* ===== verification/Mcp.thy ===== *)
theory Mcp
  imports Mcp_Tools Runner Resolve Run Server Wants
begin

text \<open>
  \<open>crates/gpui-agent-cli/src/mcp.rs\<close> and \<open>instinct_wiring.rs\<close>: the MCP server on the standard streams.
  One client lives for the whole process, so the state of every tool is the client and the world.
  \<open>serde_json\<close>, the files of schemas and the arbitration library are fields of the environment, and so
  is whether the feature \<open>instinct\<close> is compiled in.
\<close>

section \<open>Environment and state\<close>

record ('c, 'w, 'o) mcp_env =
  me_tp :: "('c, 'w) transport"
  me_instinct_on :: bool
  me_unicode :: unicode
  me_instinct :: "'o instinct"
  me_parse :: "string \<Rightarrow> json result"
  me_print :: "json \<Rightarrow> string"
  me_pretty :: "json \<Rightarrow> string"
  me_response :: "response \<Rightarrow> json"
  me_plan :: "plan \<Rightarrow> json"
  me_receipt :: "receipt \<Rightarrow> (string \<times> json) list"  \<comment> \<open>the entries of the object\<close>
  me_resolved :: "resolve_result \<Rightarrow> json"
  me_poll_of :: "json \<Rightarrow> event_poll result"
  me_serde_error :: "json \<Rightarrow> string"
  me_recipe_of :: "string \<Rightarrow> recipe result"
  me_wants_json :: "string \<Rightarrow> json option"
  me_load :: "string \<Rightarrow> registry result"
  me_env_paths :: "string list"
  me_hash :: "plan_payload \<Rightarrow> u64"
  me_mkdir :: "string \<Rightarrow> 'w \<Rightarrow> 'w"

type_synonym ('c, 'w) mcp_state = "'c agent_client \<times> 'w"

type_synonym ('c, 'w, 'a) mcp_act = "('c, 'w) mcp_state \<Rightarrow> ('a result \<times> ('c, 'w) mcp_state) option"

definition mcp_pure :: "'a result \<Rightarrow> ('c, 'w, 'a) mcp_act" where
  "mcp_pure r st = Some (r, st)"

definition mcp_call :: "('c, 'w, 'o) mcp_env \<Rightarrow> op \<Rightarrow> ('c, 'w, response) mcp_act" where
  "mcp_call E op st = expect_ok (me_tp E) op (fst st) (snd st)"

section \<open>Arguments\<close>

definition json_str :: "json \<Rightarrow> string \<Rightarrow> string option" where
  "json_str v key = Option.bind (json_get v key) as_str"

definition need_str :: "json \<Rightarrow> string \<Rightarrow> string result" where
  "need_str v key = ok_or (''missing string `'' @ key @ ''`'') (json_str v key)"

definition json_u64 :: "json \<Rightarrow> string \<Rightarrow> u64 option" where
  "json_u64 v key = Option.bind (json_get v key) as_u64"

definition json_flag :: "json \<Rightarrow> string \<Rightarrow> bool option" where
  "json_flag v key = Option.bind (json_get v key) as_bool"

definition json_true :: "json \<Rightarrow> string \<Rightarrow> bool" where
  "json_true v key = (json_flag v key = Some True)"

definition parse_delivery :: "json \<Rightarrow> delivery_mode result" where
  "parse_delivery args =
     (case json_get args ''delivery'' of
        None \<Rightarrow> Inr Semantic
      | Some (JStr s) \<Rightarrow> delivery_from_str s
      | Some _ \<Rightarrow> Inl ''delivery must be a string (`semantic` or `virtual`)'')"

definition parse_screenshot_mode :: "json \<Rightarrow> screenshot_mode result" where
  "parse_screenshot_mode args =
     (case json_get args ''mode'' of
        None \<Rightarrow> Inr Viewport
      | Some (JStr s) \<Rightarrow> mode_from_str s
      | Some _ \<Rightarrow> Inl ''mode must be a string (`viewport` or `scrolled`)'')"

definition or_else :: "'a option \<Rightarrow> 'a option \<Rightarrow> 'a option" where
  "or_else a b = (case a of None \<Rightarrow> b | Some x \<Rightarrow> Some x)"

definition mcp_assert_spec :: "json \<Rightarrow> assert_spec result" where
  "mcp_assert_spec args =
     rbind (ok_or ''missing string `target`'' (or_else (json_str args ''target'') (json_str args ''id''))) (\<lambda>t.
       Inr \<lparr>spec_target = t, spec_name = json_str args ''name'', spec_value = json_str args ''value'',
            spec_role = json_str args ''role'', spec_checked = json_flag args ''checked'',
            spec_exists = json_flag args ''exists'', spec_visible = json_flag args ''visible'',
            spec_in_viewport = json_flag args ''in_viewport''\<rparr>)"

section \<open>Recipes\<close>

definition recipe_text :: "('c, 'w, 'o) mcp_env \<Rightarrow> json \<Rightarrow> string result" where
  "recipe_text E args =
     (case json_get args ''recipe'' of
        Some (JStr s) \<Rightarrow> Inr s
      | Some other \<Rightarrow> Inr (me_print E other)
      | None \<Rightarrow> Inl ''missing `recipe`'')"

definition recipe_set :: "('c, 'w, 'o) mcp_env \<Rightarrow> json \<Rightarrow> string \<Rightarrow> string option" where
  "recipe_set E args k =
     (case json_get args ''set'' of
        Some (JObj obj) \<Rightarrow> map_option (\<lambda>v. case v of JStr s \<Rightarrow> s | other \<Rightarrow> me_print E other) (map_of obj k)
      | _ \<Rightarrow> None)"

definition recipe_schema_paths :: "string list \<Rightarrow> json \<Rightarrow> string list" where
  "recipe_schema_paths cli args =
     cli @ (case json_get args ''schema'' of
        Some (JArr arr) \<Rightarrow> List.map_filter as_str arr
      | Some (JStr s) \<Rightarrow> [s]
      | _ \<Rightarrow> [])"

definition mcp_registry :: "('c, 'w, 'o) mcp_env \<Rightarrow> string list \<Rightarrow> json \<Rightarrow> registry result" where
  "mcp_registry E paths args = registry_from_schema_paths (me_load E) (me_env_paths E) (recipe_schema_paths paths args)"

definition inline_recipe :: "('c, 'w, 'o) mcp_env \<Rightarrow> json \<Rightarrow> recipe result" where
  "inline_recipe E args =
     rbind (recipe_text E args) (\<lambda>txt. parse_recipe_source (me_recipe_of E) (me_wants_json E) txt ''inline'' False)"

definition mcp_recipe_validate :: "('c, 'w, 'o) mcp_env \<Rightarrow> string list \<Rightarrow> json \<Rightarrow> json result" where
  "mcp_recipe_validate E paths args =
     rbind (inline_recipe E args) (\<lambda>r.
     rbind (mcp_registry E paths args) (\<lambda>reg.
     rbind (validate_recipe r reg) (\<lambda>_.
       Inr (json_obj [(''ok'', JBool True), (''name'', JStr (rc_name r)), (''steps'', JInt (int (length (rc_steps r))))]))))"

text \<open>\<open>None\<close> where the planner panics.\<close>

definition mcp_compile :: "('c, 'w, 'o) mcp_env \<Rightarrow> string list \<Rightarrow> json \<Rightarrow> plan result option" where
  "mcp_compile E paths args =
     (case rbind (inline_recipe E args) (\<lambda>r. rmap (Pair r) (mcp_registry E paths args)) of
        Inl e \<Rightarrow> Some (Inl e)
      | Inr (r, reg) \<Rightarrow> compile_plan (me_hash E) r (recipe_set E args) reg)"

definition mcp_recipe_plan :: "('c, 'w, 'o) mcp_env \<Rightarrow> string list \<Rightarrow> json \<Rightarrow> json result option" where
  "mcp_recipe_plan E paths args = map_option (rmap (me_plan E)) (mcp_compile E paths args)"

fun run_error_json :: "('c, 'w, 'o) mcp_env \<Rightarrow> run_error \<Rightarrow> string" where
  "run_error_json E NeedsYes = ''recipe has shutdown/exit effects; pass --yes to run it''"
| "run_error_json E (StepFailed ident error rt) =
     me_print E (JObj (bt_insert ''error'' (JStr error) (me_receipt E rt)))"

definition mcp_recipe_run :: "('c, 'w, 'o) mcp_env \<Rightarrow> string list \<Rightarrow> json \<Rightarrow> ('c, 'w, json) mcp_act" where
  "mcp_recipe_run E paths args st =
     (case mcp_compile E paths args of
        None \<Rightarrow> None
      | Some (Inl e) \<Rightarrow> Some (Inl e, st)
      | Some (Inr plan) \<Rightarrow>
          (let flagged = json_true args ''screenshot_flagged''; dir = json_str args ''screenshot_dir'' in
           if flagged \<and> dir = None then Some (Inl ''screenshot_flagged requires screenshot_dir'', st)
           else map_option (\<lambda>(r, st). (case r of Inr rt \<Rightarrow> Inr (JObj (me_receipt E rt)) | Inl e \<Rightarrow> Inl (run_error_json E e), st))
             (run_plan_with_screenshots (me_tp E) (me_mkdir E) plan (json_true args ''yes'')
               (map_option (\<lambda>d. \<lparr>cap_dir = d, cap_flagged_only = flagged\<rparr>) dir) (fst st) (snd st))))"

definition mcp_resolve_intent :: "('c, 'w, 'o) mcp_env \<Rightarrow> string \<Rightarrow> registry \<Rightarrow> resolve_result result option" where
  "mcp_resolve_intent E intent reg =
     (if me_instinct_on E then resolve_instinct (me_unicode E) (me_instinct E) intent reg
      else resolve_intent_keywords intent reg)"

definition mcp_recipe_resolve :: "('c, 'w, 'o) mcp_env \<Rightarrow> string list \<Rightarrow> json \<Rightarrow> json result option" where
  "mcp_recipe_resolve E paths args =
     (case rbind (ok_or ''missing string `intent`'' (json_str args ''intent'')) (\<lambda>i. rmap (Pair i) (mcp_registry E paths args)) of
        Inl e \<Rightarrow> Some (Inl e)
      | Inr (intent, reg) \<Rightarrow> map_option (rmap (me_resolved E)) (mcp_resolve_intent E intent reg))"

section \<open>Locate and act\<close>

record observed =
  ob_rev :: "u64 option"
  ob_keybindings :: "keybinding_info list"
  ob_space :: action_space

definition registry_invokes :: "registry \<Rightarrow> offered_invoke list" where
  "registry_invokes reg = map (\<lambda>s.
       \<lparr>oi_name = os_name s, oi_description = os_description s @ '' '' @ join '' '' (os_keywords s),
        oi_dangerous = Exit \<in> set (os_effects s)\<rparr>)
     (filter (\<lambda>s. os_kind s = KindInvoke) (registry_iter reg))"

definition mcp_invokes :: "('c, 'w, 'o) mcp_env \<Rightarrow> string list \<Rightarrow> json \<Rightarrow> offered_invoke list result" where
  "mcp_invokes E paths args =
     (if recipe_schema_paths paths args = [] then Inr [] else rmap registry_invokes (mcp_registry E paths args))"

definition mcp_observe :: "('c, 'w, 'o) mcp_env \<Rightarrow> string list \<Rightarrow> json \<Rightarrow> ('c, 'w, observed) mcp_act" where
  "mcp_observe E paths args st =
     then_do (mcp_call E op_snapshot st) (\<lambda>snap st.
     case rs_tree snap of
       None \<Rightarrow> Some (Inl ''host returned no ui tree'', st)
     | Some t \<Rightarrow>
         then_do (client_keybinding_catalog (me_serde_error E) (me_tp E) (fst st) (snd st)) (\<lambda>kbs st.
         case mcp_invokes E paths args of
           Inl e \<Rightarrow> Some (Inl e, st)
         | Inr invokes \<Rightarrow>
             Some (Inr \<lparr>ob_rev = or_else (rs_rev snap) (tree_rev t), ob_keybindings = kbs,
                        ob_space = from_tree (me_unicode E) t kbs invokes\<rparr>, st)))"

definition mcp_decide :: "('c, 'w, 'o) mcp_env \<Rightarrow> observed \<Rightarrow> string \<Rightarrow> policy_outcome result" where
  "mcp_decide E obs clause =
     map_err policy_error_text
       (decide_instinct (me_unicode E) (me_instinct E) (ic_standard_profile (me_instinct E)) (ob_space obs) (goal_new clause) [])"

definition opt_json :: "('a \<Rightarrow> json) \<Rightarrow> 'a option \<Rightarrow> json" where
  "opt_json f v = (case v of None \<Rightarrow> JNull | Some x \<Rightarrow> f x)"

definition candidates_json :: "observed \<Rightarrow> ranked_action list \<Rightarrow> nat \<Rightarrow> json" where
  "candidates_json obs ranked k = JArr (map (\<lambda>c. json_obj [(''id'', JStr (cd_id c)), (''op'', JStr (cd_op c)),
       (''role'', JStr (cd_role c)), (''name'', JStr (cd_name c)), (''confidence'', JInt (cd_millis c))])
     (top_candidates (ob_space obs) ranked k))"

definition reply_limit :: "json \<Rightarrow> nat" where
  "reply_limit args = unat (min (case json_u64 args ''k'' of None \<Rightarrow> 5 | Some k \<Rightarrow> k) 64)"

definition rev_entry :: "observed \<Rightarrow> string \<times> json" where
  "rev_entry obs = (''rev'', opt_json json_of_u64 (ob_rev obs))"

definition locate_reply :: "observed \<Rightarrow> nat \<Rightarrow> policy_outcome \<Rightarrow> json result" where
  "locate_reply obs k out =
     (case out of
        PoChoice d \<Rightarrow>
          rbind (ok_or ''chosen action left the space'' (space_get (ob_space obs) (pd_id d))) (\<lambda>a.
            Inr (json_obj [(''answer'', JStr ''choice''),
              (''chosen'', json_obj [(''id'', JStr (pd_id d)), (''op'', JStr (kind_as_str (pd_kind d))),
                 (''role'', opt_json JStr (oa_role a)), (''name'', JStr (pd_label d)), (''confidence'', JInt (pd_millis d))]),
              (''candidates'', candidates_json obs (pd_target_ranked d) k), rev_entry obs]))
      | PoAbstain reason ops targets \<Rightarrow>
          Inr (json_obj [(''answer'', JStr ''abstain''), (''reason'', JStr reason),
            (''candidates'', candidates_json obs (if targets = [] then ops else targets) k), rev_entry obs]))"

definition locate_tool :: "('c, 'w, 'o) mcp_env \<Rightarrow> string list \<Rightarrow> json \<Rightarrow> ('c, 'w, json) mcp_act" where
  "locate_tool E paths args st =
     (case need_str args ''query'' of
        Inl e \<Rightarrow> Some (Inl e, st)
      | Inr query \<Rightarrow>
          then_do (mcp_observe E paths args st) (\<lambda>obs st.
            Some (rbind (mcp_decide E obs query) (locate_reply obs (reply_limit args)), st)))"

datatype act_step = ActDone json | ActStale

definition abstain_reply :: "observed \<Rightarrow> string \<Rightarrow> json \<Rightarrow> json" where
  "abstain_reply obs reason candidates =
     json_obj [(''abstain'', json_obj [(''reason'', JStr reason), (''candidates'', candidates)]), rev_entry obs]"

text \<open>\<open>text_abstain\<close>, and the payload of a decision: no text, no dispatch.\<close>

definition act_payload :: "observed \<Rightarrow> string \<Rightarrow> policy_decision \<Rightarrow> offered_action \<Rightarrow> string + string option" where
  "act_payload obs clause d a =
     (if pd_kind d \<in> {AkType, AkSetValue} then
        (let ctx = \<lparr>tc_goal = goal_new clause, tc_field_label = oa_label a,
                    tc_field_role = (case oa_role a of None \<Rightarrow> [] | Some r \<Rightarrow> r), tc_typed = [],
                    tc_fingerprint = (case ob_rev obs of None \<Rightarrow> 0 | Some r \<Rightarrow> r)\<rparr>
         in case resolve_text_det ctx of Inr res \<Rightarrow> Inr (Some (tr_text res)) | Inl e \<Rightarrow> Inl (text_reason e))
      else Inr None)"

definition invoke_args_for :: "('c, 'w, 'o) mcp_env \<Rightarrow> string list \<Rightarrow> json \<Rightarrow> string \<Rightarrow> string \<Rightarrow> json result" where
  "invoke_args_for E paths args name clause =
     rbind (mcp_registry E paths args) (\<lambda>reg.
     rbind (ok_or (''invoke schema `'' @ name @ ''` not in registry'') (registry_get reg name)) (\<lambda>s.
       invoke_args_of s clause))"

text \<open>The reply after a dispatch, with the effect of the second snapshot.\<close>

definition done_entries :: "policy_decision \<Rightarrow> string option \<Rightarrow> json" where
  "done_entries d payload =
     json_obj ([(''op'', JStr (kind_as_str (pd_kind d))), (''id'', JStr (pd_id d)), (''confidence'', JInt (pd_millis d))]
       @ (case payload of None \<Rightarrow> [] | Some t \<Rightarrow> [(''text'', JStr t)]))"

definition effect_entries :: "observed \<Rightarrow> response result \<Rightarrow> (string \<times> json) list" where
  "effect_entries obs post =
     (case post of
        Inr resp \<Rightarrow> (''rev'', opt_json json_of_u64 (rs_rev resp))
          # (case rs_result resp of Some (JObj effect) \<Rightarrow> effect | _ \<Rightarrow> [])
      | Inl err \<Rightarrow> [rev_entry obs, (''diff'', JNull), (''diff_error'', JStr err)])"

definition act_dispatch ::
    "('c, 'w, 'o) mcp_env \<Rightarrow> observed \<Rightarrow> policy_decision \<Rightarrow> string option \<Rightarrow> op \<Rightarrow> ('c, 'w, act_step) mcp_act" where
  "act_dispatch E obs d payload op st =
     (case mcp_call E op st of
        None \<Rightarrow> None
      | Some (Inl err, st) \<Rightarrow> Some (if is_stale_dispatch_error err then Inr ActStale else Inl err, st)
      | Some (Inr resp, st) \<Rightarrow>
          (case mcp_call E (OpSnapshot (ob_rev obs) None None) st of
             None \<Rightarrow> None
           | Some (post, st) \<Rightarrow>
               Some (Inr (ActDone (json_obj ((''done'', done_entries d payload) # effect_entries obs post))), st)))"

definition act_decision ::
    "('c, 'w, 'o) mcp_env \<Rightarrow> string list \<Rightarrow> json \<Rightarrow> string \<Rightarrow> delivery_mode \<Rightarrow> nat \<Rightarrow> observed \<Rightarrow> policy_decision \<Rightarrow>
       ('c, 'w, act_step) mcp_act" where
  "act_decision E paths args clause deliv k obs d st =
     (case space_get (ob_space obs) (pd_id d) of
        None \<Rightarrow> Some (Inl ''chosen action left the space'', st)
      | Some a \<Rightarrow>
          if pd_kind d = AkDone then
            Some (Inr (ActDone (json_obj [(''done'', json_obj [(''op'', JStr ''done''), (''id'', JStr ''DONE'')]), rev_entry obs])), st)
          else if pd_kind d \<in> {AkBlocked, AkWait} then
            Some (Inr (ActDone (abstain_reply obs (to_ascii_lowercase (kind_as_str (pd_kind d))) (JArr []))), st)
          else (case act_payload obs clause d a of
            Inl reason \<Rightarrow> Some (Inr (ActDone (abstain_reply obs reason (candidates_json obs (pd_target_ranked d) k))), st)
          | Inr payload \<Rightarrow>
              (case op_for_decision d a payload deliv clause (ob_keybindings obs)
                      (\<lambda>name clause u. (invoke_args_for E paths args name clause, u)) () of
                 (Inl e, _) \<Rightarrow> Some (Inl e, st)
               | (Inr op, _) \<Rightarrow> act_dispatch E obs d payload op st)))"

definition act_attempt ::
    "('c, 'w, 'o) mcp_env \<Rightarrow> string list \<Rightarrow> json \<Rightarrow> string \<Rightarrow> ('c, 'w, act_step) mcp_act" where
  "act_attempt E paths args clause st =
     (case parse_delivery args of
        Inl e \<Rightarrow> Some (Inl e, st)
      | Inr deliv \<Rightarrow>
          then_do (mcp_observe E paths args st) (\<lambda>obs st.
          case mcp_decide E obs clause of
            Inl e \<Rightarrow> Some (Inl e, st)
          | Inr (PoAbstain reason ops targets) \<Rightarrow>
              Some (Inr (ActDone (abstain_reply obs reason
                (candidates_json obs (if targets = [] then ops else targets) (reply_limit args)))), st)
          | Inr (PoChoice d) \<Rightarrow> act_decision E paths args clause deliv (reply_limit args) obs d st))"

definition stale_reply :: json where
  "stale_reply = json_obj [(''abstain'', json_obj
     [(''reason'', JStr ''stale_target: target kept changing between decide and dispatch''), (''candidates'', JArr [])])]"

text \<open>\<open>MAX_STALE_RETRIES\<close> further attempts after a stale one.\<close>

definition MAX_STALE_RETRIES :: nat where "MAX_STALE_RETRIES = 2"

fun act_loop :: "('c, 'w, 'o) mcp_env \<Rightarrow> string list \<Rightarrow> json \<Rightarrow> string \<Rightarrow> nat \<Rightarrow> ('c, 'w, json) mcp_act" where
  "act_loop E paths args clause retries st =
     then_do (act_attempt E paths args clause st) (\<lambda>step st.
       case step of
         ActDone v \<Rightarrow> Some (Inr v, st)
       | ActStale \<Rightarrow>
           (case retries of 0 \<Rightarrow> Some (Inr stale_reply, st)
            | Suc n \<Rightarrow> act_loop E paths args clause n st))"

definition act_tool :: "('c, 'w, 'o) mcp_env \<Rightarrow> string list \<Rightarrow> json \<Rightarrow> ('c, 'w, json) mcp_act" where
  "act_tool E paths args st =
     (case need_str args ''instruction'' of
        Inl e \<Rightarrow> Some (Inl e, st)
      | Inr instruction \<Rightarrow>
          (case split_sequential_clauses instruction of
             [] \<Rightarrow> Some (Inl ''instruction has no clause'', st)
           | clause # _ \<Rightarrow> act_loop E paths args clause MAX_STALE_RETRIES st))"

section \<open>Tools\<close>

text \<open>The client call of a tool that maps to one operation.\<close>

definition mcp_snapshot_format :: "json \<Rightarrow> snapshot_format option result" where
  "mcp_snapshot_format args =
     (case json_str args ''format'' of
        None \<Rightarrow> Inr None
      | Some f \<Rightarrow> if f = ''json'' then Inr (Some FmtJson) else if f = ''compact'' then Inr (Some FmtCompact)
                  else Inl (''unknown snapshot format '' @ f))"

definition snapshot_op :: "json \<Rightarrow> op result" where
  "snapshot_op args =
     rbind (mcp_snapshot_format args) (\<lambda>fmt.
       Inr (OpSnapshot (json_u64 args ''since'') fmt (if json_true args ''fingerprints'' then Some True else None)))"

definition screenshot_op :: "json \<Rightarrow> op result" where
  "screenshot_op args =
     rbind (need_str args ''path'') (\<lambda>path.
     rbind (parse_screenshot_mode args) (\<lambda>mode.
       let target = json_str args ''target'' in
       if is_scrolled mode \<and> trim (case target of None \<Rightarrow> [] | Some t \<Rightarrow> t) = []
       then Inl ''screenshot mode=scrolled requires target''
       else Inr (OpScreenshot (Some path) mode target (map_option ucast (json_u64 args ''max_height_px'')))))"

definition keybinding_op :: "json \<Rightarrow> op result" where
  "keybinding_op args =
     rbind (ok_or ''missing string `id`'' (or_else (json_str args ''id'') (json_str args ''binding''))) (\<lambda>binding.
     rbind (need_str args ''scope'') (\<lambda>s.
     rbind (scope_from_str s) (\<lambda>scope.
       Inr (OpKeybinding binding (json_str args ''chord'') scope (json_true args ''confirm'') (json_true args ''activate'')))))"

definition wait_until_op :: "json \<Rightarrow> op result" where
  "wait_until_op args =
     rbind (ok_or ''missing integer `timeout_ms`'' (json_u64 args ''timeout_ms'')) (\<lambda>ms.
     rbind (mcp_assert_spec args) (\<lambda>spec. Inr (OpWaitUntil ms spec)))"

definition type_op :: "json \<Rightarrow> op result" where
  "type_op args = rbind (need_str args ''target'') (\<lambda>t. rbind (need_str args ''text'') (\<lambda>x.
     rbind (parse_delivery args) (\<lambda>d. Inr (OpType t x d None))))"

definition key_op :: "json \<Rightarrow> op result" where
  "key_op args = rbind (need_str args ''target'') (\<lambda>t. rbind (need_str args ''key'') (\<lambda>k.
     rbind (parse_delivery args) (\<lambda>d. Inr (OpKey t k d None))))"

text \<open>\<open>None\<close>: the tool is not one of these.\<close>

definition tool_op :: "string \<Rightarrow> json \<Rightarrow> op result option" where
  "tool_op name args =
     (if name = ''wait'' then Some (Inr (OpWait None))
      else if name = ''wait_until'' then Some (wait_until_op args)
      else if name = ''hello'' then Some (Inr OpHello)
      else if name = ''snapshot'' then Some (snapshot_op args)
      else if name = ''screenshot'' then Some (screenshot_op args)
      else if name = ''click'' then
        Some (rbind (need_str args ''target'') (\<lambda>t. rbind (parse_delivery args) (\<lambda>d. Inr (OpClick t d None))))
      else if name = ''type'' then Some (type_op args)
      else if name = ''set_value'' then
        Some (rbind (need_str args ''target'') (\<lambda>t. rbind (need_str args ''value'') (\<lambda>v. Inr (OpSetValue t v None))))
      else if name = ''key'' then Some (key_op args)
      else if name = ''keybinding'' then Some (keybinding_op args)
      else if name = ''keybindings'' \<or> name = ''keybinding.list'' then Some (Inr OpKeybindings)
      else if name = ''assert'' then Some (rmap OpAssert (mcp_assert_spec args))
      else if name = ''invoke'' then
        Some (rmap (\<lambda>n. OpInvoke n (case json_get args ''args'' of None \<Rightarrow> json_obj [] | Some v \<Rightarrow> v)) (need_str args ''name''))
      else if name = ''shutdown'' then Some (Inr OpShutdown)
      else None)"

definition events_tool :: "('c, 'w, 'o) mcp_env \<Rightarrow> json \<Rightarrow> ('c, 'w, json) mcp_act" where
  "events_tool E args st =
     map_option (\<lambda>(r, st). (rmap json_of_poll r, st))
       (client_events (me_poll_of E) (me_tp E) (json_u64 args ''since'')
         (map_option (\<lambda>v. ucast (min v (2 ^ 32 - 1))) (json_u64 args ''limit'')) (fst st) (snd st))"

text \<open>\<open>wait\<close> sets the time limit of the client before it calls.\<close>

definition set_wait_timeout :: "string \<Rightarrow> json \<Rightarrow> ('c, 'w) mcp_state \<Rightarrow> ('c, 'w) mcp_state" where
  "set_wait_timeout name args st =
     (case (if name = ''wait'' then json_u64 args ''timeout_ms'' else None) of
        None \<Rightarrow> st
      | Some ms \<Rightarrow> (client_with_timeout (unat ms) (fst st), snd st))"

definition lift_pure :: "json result option \<Rightarrow> ('c, 'w, json) mcp_act" where
  "lift_pure r st = map_option (\<lambda>r. (r, st)) r"

definition call_named_tool :: "('c, 'w, 'o) mcp_env \<Rightarrow> string list \<Rightarrow> string \<Rightarrow> json \<Rightarrow> ('c, 'w, json) mcp_act" where
  "call_named_tool E paths name args st =
     (case tool_op name args of
        Some (Inl e) \<Rightarrow> Some (Inl e, st)
      | Some (Inr op) \<Rightarrow>
          map_option (\<lambda>(r, st). (rmap (me_response E) r, st)) (mcp_call E op (set_wait_timeout name args st))
      | None \<Rightarrow>
          if name = ''events'' then events_tool E args st
          else if name = ''recipe_validate'' then Some (mcp_recipe_validate E paths args, st)
          else if name = ''recipe_plan'' then lift_pure (mcp_recipe_plan E paths args) st
          else if name = ''recipe_run'' then mcp_recipe_run E paths args st
          else if name = ''recipe_resolve'' then lift_pure (mcp_recipe_resolve E paths args) st
          else if me_instinct_on E \<and> name = ''locate'' then locate_tool E paths args st
          else if me_instinct_on E \<and> name = ''act'' then act_tool E paths args st
          else Some (Inl (''unknown tool '' @ name), st))"

definition call_tool :: "('c, 'w, 'o) mcp_env \<Rightarrow> string list \<Rightarrow> json \<Rightarrow> ('c, 'w, json) mcp_act" where
  "call_tool E paths params st =
     (case json_str params ''name'' of
        None \<Rightarrow> Some (Inl ''missing tool name'', st)
      | Some name \<Rightarrow>
          call_named_tool E paths name (case json_get params ''arguments'' of None \<Rightarrow> json_obj [] | Some v \<Rightarrow> v) st)"

definition text_content :: "string \<Rightarrow> json" where
  "text_content t = JArr [json_obj [(''type'', JStr ''text''), (''text'', JStr t)]]"

definition tools_call_result :: "('c, 'w, 'o) mcp_env \<Rightarrow> json result \<Rightarrow> json" where
  "tools_call_result E r =
     (case r of Inr v \<Rightarrow> json_obj [(''content'', text_content (me_pretty E v))]
      | Inl err \<Rightarrow> json_obj [(''isError'', JBool True), (''content'', text_content err)])"

section \<open>The server loop\<close>

definition rpc_error :: "json \<Rightarrow> int \<Rightarrow> string \<Rightarrow> json" where
  "rpc_error ident code message = json_obj [(''jsonrpc'', JStr ''2.0''), (''id'', ident),
     (''error'', json_obj [(''code'', JInt code), (''message'', JStr message)])]"

definition rpc_result :: "json \<Rightarrow> json \<Rightarrow> json" where
  "rpc_result ident v = json_obj [(''jsonrpc'', JStr ''2.0''), (''id'', ident), (''result'', v)]"

definition initialize_result :: json where
  "initialize_result = json_obj [(''protocolVersion'', JStr ''2024-11-05''),
     (''capabilities'', json_obj [(''tools'', json_obj [])]),
     (''serverInfo'', json_obj [(''name'', JStr ''gpui-agent''), (''version'', JStr ''0.1.0'')])]"

text \<open>The answer to one message, if it gets one.\<close>

definition mcp_answer :: "('c, 'w, 'o) mcp_env \<Rightarrow> string list \<Rightarrow> json \<Rightarrow> ('c, 'w) mcp_state \<Rightarrow> (json option \<times> ('c, 'w) mcp_state) option" where
  "mcp_answer E paths msg st =
     (let ident = (case json_get msg ''id'' of None \<Rightarrow> JNull | Some v \<Rightarrow> v);
          method = (case json_str msg ''method'' of None \<Rightarrow> [] | Some m \<Rightarrow> m);
          params = (case json_get msg ''params'' of None \<Rightarrow> JNull | Some v \<Rightarrow> v)
      in if method = ''initialize'' then Some (Some (rpc_result ident initialize_result), st)
         else if method = ''notifications/initialized'' then Some (None, st)
         else if method = ''tools/list'' then
           Some (Some (rpc_result ident (json_obj [(''tools'', JArr (mcp_tools (me_instinct_on E)))])), st)
         else if method = ''tools/call'' then
           map_option (\<lambda>(r, st). (Some (rpc_result ident (tools_call_result E r)), st)) (call_tool E paths params st)
         else if method = ''ping'' then Some (Some (rpc_result ident (json_obj [])), st)
         else Some (Some (rpc_error ident (-32601) (''unknown method '' @ method)), st))"

definition mcp_line :: "('c, 'w, 'o) mcp_env \<Rightarrow> string list \<Rightarrow> string \<Rightarrow> ('c, 'w) mcp_state \<Rightarrow> (json option \<times> ('c, 'w) mcp_state) option" where
  "mcp_line E paths line st =
     (if line_is_blank line then Some (None, st)
      else case me_parse E line of
        Inl err \<Rightarrow> Some (Some (rpc_error JNull (-32700) err), st)
      | Inr msg \<Rightarrow> mcp_answer E paths msg st)"

text \<open>The reads of the standard input up to its end or a broken line, and the messages written.\<close>

fun mcp_loop :: "('c, 'w, 'o) mcp_env \<Rightarrow> string list \<Rightarrow> read_result list \<Rightarrow> ('c, 'w) mcp_state \<Rightarrow>
    (json list \<times> bool \<times> ('c, 'w) mcp_state) option" where
  "mcp_loop E paths (ReadLine line # reads) st =
     (case mcp_line E paths line st of
        None \<Rightarrow> None
      | Some (out, st) \<Rightarrow>
          map_option (\<lambda>(outs, fine, st). ((case out of None \<Rightarrow> outs | Some j \<Rightarrow> j # outs), fine, st))
            (mcp_loop E paths reads st))"
| "mcp_loop E paths (ReadEof # reads) st = Some ([], True, st)"
| "mcp_loop E paths (r # reads) st = Some ([], False, st)"
| "mcp_loop E paths [] st = Some ([], True, st)"

definition mcp_run :: "('c, 'w, 'o) mcp_env \<Rightarrow> string \<Rightarrow> string \<Rightarrow> string list \<Rightarrow> read_result list \<Rightarrow> 'w \<Rightarrow>
    (json list \<times> bool \<times> ('c, 'w) mcp_state) option" where
  "mcp_run E addr token paths reads w =
     mcp_loop E paths reads (client_with_token token (client_connect addr), w)"

end
