(* ===== verification/Mcp_Laws.thy ===== *)
theory Mcp_Laws
  imports Mcp Runner_Laws Run_Laws Resolve_Laws
begin

text \<open>
  Laws of the MCP server: which operations \<open>locate\<close> and \<open>act\<close> send, that \<open>act\<close> returns, what
  a tool leaves of the client's time limit, and which messages are answered.
\<close>

section \<open>The calls that a tool makes\<close>

inductive client_trace :: "('c, 'w) transport \<Rightarrow> op list \<Rightarrow> ('c, 'w) mcp_state \<Rightarrow> ('c, 'w) mcp_state \<Rightarrow> bool" for tp where
  trace_nil: "client_trace tp [] st st"
| trace_call: "expect_ok tp op (fst st) (snd st) = Some (r, st') \<Longrightarrow> client_trace tp ops st' st''
    \<Longrightarrow> client_trace tp (op # ops) st st''"

inductive_simps trace_nil_iff [simp]: "client_trace tp [] st st'"
inductive_simps trace_Cons_iff: "client_trace tp (op # ops) st st'"

lemma call_trace: "mcp_call E op st = Some (r, st') \<Longrightarrow> client_trace (me_tp E) ops st' st'' \<Longrightarrow> client_trace (me_tp E) (op # ops) st st''"
  unfolding mcp_call_def by (rule trace_call)

text \<open>An observation: a snapshot, and the catalog unless the snapshot had no tree.\<close>

definition observes ::
    "('c, 'w, 'o) mcp_env \<Rightarrow> string list \<Rightarrow> json \<Rightarrow> ('c, 'w) mcp_state \<Rightarrow> observed \<Rightarrow> ui_tree \<Rightarrow> offered_invoke list \<Rightarrow> ('c, 'w) mcp_state \<Rightarrow> bool" where
  "observes E paths args st obs t invokes st' \<longleftrightarrow>
     (\<exists>snap st1 cat. mcp_call E op_snapshot st = Some (Inr snap, st1) \<and> rs_tree snap = Some t
        \<and> mcp_call E OpKeybindings st1 = Some (Inr cat, st')
        \<and> catalog_from (me_serde_error E) (rs_result cat) = Inr (ob_keybindings obs)
        \<and> mcp_invokes E paths args = Inr invokes
        \<and> ob_space obs = from_tree (me_unicode E) t (ob_keybindings obs) invokes)"

lemma catalog_step:
  "client_keybinding_catalog bad (me_tp E) (fst st) (snd st) = Some (r, st')
   \<Longrightarrow> \<exists>x. mcp_call E OpKeybindings st = Some (x, st') \<and> r = rbind x (\<lambda>resp. catalog_from bad (rs_result resp))"
  by (auto simp: client_keybinding_catalog_def mcp_call_def)

lemma observe_ok:
  assumes "mcp_observe E paths args st = Some (Inr obs, st')"
  shows "\<exists>t invokes. observes E paths args st obs t invokes st'"
proof -
  obtain snap st1 t kbs st2 where c: "mcp_call E op_snapshot st = Some (Inr snap, st1)" "rs_tree snap = Some t"
      and k: "client_keybinding_catalog (me_serde_error E) (me_tp E) (fst st1) (snd st1) = Some (Inr kbs, st2)"
      and i: "(case mcp_invokes E paths args of Inl e \<Rightarrow> Some (Inl e, st2)
        | Inr invokes \<Rightarrow> Some (Inr \<lparr>ob_rev = or_else (rs_rev snap) (tree_rev t), ob_keybindings = kbs,
            ob_space = from_tree (me_unicode E) t kbs invokes\<rparr>, st2)) = Some (Inr obs, st')"
    using assms by (auto simp: mcp_observe_def then_do_Some_iff split: option.splits)
  then obtain invokes where i: "mcp_invokes E paths args = Inr invokes" "st2 = st'" "ob_keybindings obs = kbs"
      "ob_space obs = from_tree (me_unicode E) t kbs invokes"
    by (auto split: sum.splits)
  obtain x where x: "mcp_call E OpKeybindings st1 = Some (x, st')" "rbind x (\<lambda>resp. catalog_from (me_serde_error E) (rs_result resp)) = Inr kbs"
    using catalog_step [OF k] i(2) by auto
  then show ?thesis using c i unfolding observes_def rbind_Inr_iff by blast
qed

lemma observe_trace:
  assumes "mcp_observe E paths args st = Some (r, st')"
  shows "\<exists>ops. client_trace (me_tp E) ops st st' \<and> set ops \<subseteq> {op_snapshot, OpKeybindings} \<and> length ops \<le> 2"
proof -
  have one: "\<exists>ops. client_trace (me_tp E) ops st st' \<and> set ops \<subseteq> {op_snapshot, OpKeybindings} \<and> length ops \<le> 2"
    if "mcp_call E op_snapshot st = Some (x, st')" for x
    using call_trace [OF that trace_nil] by (intro exI [of _ "[op_snapshot]"]) auto
  from assms show ?thesis
    unfolding mcp_observe_def then_do_Some_iff
  proof (elim disjE exE conjE)
    fix e assume "mcp_call E op_snapshot st = Some (Inl e, st')"
    then show ?thesis by (rule one)
  next
    fix snap st1
    assume c: "mcp_call E op_snapshot st = Some (Inr snap, st1)"
      and k: "(case rs_tree snap of None \<Rightarrow> Some (Inl ''host returned no ui tree'', st1)
        | Some t \<Rightarrow> then_do (client_keybinding_catalog (me_serde_error E) (me_tp E) (fst st1) (snd st1)) (\<lambda>kbs st.
            case mcp_invokes E paths args of Inl e \<Rightarrow> Some (Inl e, st)
            | Inr invokes \<Rightarrow> Some (Inr \<lparr>ob_rev = or_else (rs_rev snap) (tree_rev t), ob_keybindings = kbs,
                ob_space = from_tree (me_unicode E) t kbs invokes\<rparr>, st))) = Some (r, st')"
    show ?thesis
    proof (cases "rs_tree snap")
      case None
      then show ?thesis using one c k by simp
    next
      case (Some t)
      then obtain y where "client_keybinding_catalog (me_serde_error E) (me_tp E) (fst st1) (snd st1) = Some (y, st')"
        using k by (cases "mcp_invokes E paths args") (auto simp: then_do_Some_iff)
      then obtain x where "mcp_call E OpKeybindings st1 = Some (x, st')" using catalog_step by blast
      then have "client_trace (me_tp E) [op_snapshot, OpKeybindings] st st'"
        using call_trace [OF c] call_trace trace_nil by metis
      then show ?thesis by (intro exI [of _ "[op_snapshot, OpKeybindings]"]) simp
    qed
  qed
qed

text \<open>An attempt of \<open>act\<close>: it only looks, or it dispatches one operation grounded in the tree it saw.\<close>

definition act_dispatches ::
    "('c, 'w, 'o) mcp_env \<Rightarrow> string list \<Rightarrow> json \<Rightarrow> op list \<Rightarrow> ('c, 'w) mcp_state \<Rightarrow> bool" where
  "act_dispatches E paths args ops st \<longleftrightarrow>
     (\<exists>obs t invokes st1 op rest. observes E paths args st obs t invokes st1 \<and> grounded_op t (ob_keybindings obs) invokes op
        \<and> ops = op_snapshot # OpKeybindings # op # rest \<and> rest \<in> {[], [OpSnapshot (ob_rev obs) None None]})"

definition safe_attempt ::
    "('c, 'w, 'o) mcp_env \<Rightarrow> string list \<Rightarrow> json \<Rightarrow> op list \<Rightarrow> ('c, 'w) mcp_state \<Rightarrow> ('c, 'w) mcp_state \<Rightarrow> bool" where
  "safe_attempt E paths args ops st st' \<longleftrightarrow> client_trace (me_tp E) ops st st'
     \<and> (set ops \<subseteq> {op_snapshot, OpKeybindings} \<and> length ops \<le> 2 \<or> act_dispatches E paths args ops st)"

lemma local_choice_safe:
  assumes "mcp_decide E obs clause = Inr (PoChoice d)" "ob_space obs = from_tree U t kbs invokes"
  shows "offered_safe (from_tree U t kbs invokes) d"
proof -
  have "decide_instinct (me_unicode E) (me_instinct E) (ic_standard_profile (me_instinct E)) (ob_space obs) (goal_new clause) []
      = Inr (PoChoice d)"
    using assms(1) by (auto simp: mcp_decide_def map_err_def split: sum.splits)
  then have "instinct_decider (me_unicode E) (me_instinct E) (ic_standard_profile (me_instinct E)) (from_tree U t kbs invokes)
      (goal_new clause) [] () = (Inr (PoChoice d), ())"
    by (simp add: instinct_decider_def assms(2))
  then show ?thesis by (rule local.choice_safe [OF from_tree_ok])
qed

lemma dispatch_trace:
  assumes "act_dispatch E obs d payload op st = Some (r, st')"
  shows "\<exists>rest. client_trace (me_tp E) (op # rest) st st' \<and> rest \<in> {[], [OpSnapshot (ob_rev obs) None None]}"
proof (cases "mcp_call E op st")
  case None
  then show ?thesis using assms by (simp add: act_dispatch_def)
next
  case (Some x)
  obtain y st1 where x: "x = (y, st1)" by (cases x)
  show ?thesis
  proof (cases y)
    case (Inl e)
    then have "st' = st1" using assms Some x by (simp add: act_dispatch_def)
    then show ?thesis using call_trace [OF Some [unfolded x] trace_nil] by blast
  next
    case (Inr resp)
    then obtain z where "mcp_call E (OpSnapshot (ob_rev obs) None None) st1 = Some (z, st')"
      using assms Some x by (auto simp: act_dispatch_def split: option.splits)
    then have "client_trace (me_tp E) [op, OpSnapshot (ob_rev obs) None None] st st'"
      using call_trace [OF Some [unfolded x]] call_trace trace_nil by metis
    then show ?thesis by blast
  qed
qed

lemma decision_cases:
  assumes "act_decision E paths args clause deliv k obs d st = Some (r, st')"
  shows "st' = st \<or> (\<exists>a payload op. space_get (ob_space obs) (pd_id d) = Some a
     \<and> op_for_decision d a payload deliv clause (ob_keybindings obs) (\<lambda>name clause u. (invoke_args_for E paths args name clause, u)) ()
         = (Inr op, ()) \<and> act_dispatch E obs d payload op st = Some (r, st'))"
  using assms by (auto simp: act_decision_def split: option.splits if_splits sum.splits prod.splits)

lemma attempt_safe:
  assumes "act_attempt E paths args clause st = Some (r, st')"
  shows "st' = st \<or> (\<exists>ops. safe_attempt E paths args ops st st')"
proof (cases "parse_delivery args")
  case (Inl e)
  then show ?thesis using assms by (simp add: act_attempt_def)
next
  case (Inr deliv)
  let ?k = "\<lambda>obs st. case mcp_decide E obs clause of Inl e \<Rightarrow> Some (Inl e, st)
    | Inr (PoAbstain reason ops targets) \<Rightarrow> Some (Inr (ActDone (abstain_reply obs reason
        (candidates_json obs (if targets = [] then ops else targets) (reply_limit args)))), st)
    | Inr (PoChoice d) \<Rightarrow> act_decision E paths args clause deliv (reply_limit args) obs d st"
  have run: "then_do (mcp_observe E paths args st) ?k = Some (r, st')" using assms Inr by (simp add: act_attempt_def)
  then obtain x st1 where o: "mcp_observe E paths args st = Some (x, st1)"
    by (cases "mcp_observe E paths args st") auto
  obtain ops where look: "client_trace (me_tp E) ops st st1" "set ops \<subseteq> {op_snapshot, OpKeybindings}" "length ops \<le> 2"
    using observe_trace [OF o] by blast
  then have same: "st' = st1 \<Longrightarrow> \<exists>ops. safe_attempt E paths args ops st st'"
    unfolding safe_attempt_def by blast
  show ?thesis
  proof (cases x)
    case (Inl e)
    then show ?thesis using run o same by simp
  next
    case x: (Inr obs)
    show ?thesis
    proof (cases "\<exists>d. mcp_decide E obs clause = Inr (PoChoice d)")
      case False
      then have "st' = st1" using run o x by (auto split: sum.splits policy_outcome.splits)
      then show ?thesis using same by blast
    next
      case True
      then obtain d where d: "mcp_decide E obs clause = Inr (PoChoice d)" by blast
      then have "act_decision E paths args clause deliv (reply_limit args) obs d st1 = Some (r, st')" using run o x by simp
      from decision_cases [OF this] show ?thesis
      proof
        assume "st' = st1" then show ?thesis using same by blast
      next
        assume "\<exists>a payload op. space_get (ob_space obs) (pd_id d) = Some a
          \<and> op_for_decision d a payload deliv clause (ob_keybindings obs)
              (\<lambda>name clause u. (invoke_args_for E paths args name clause, u)) () = (Inr op, ())
          \<and> act_dispatch E obs d payload op st1 = Some (r, st')"
        then obtain a payload op where sp: "space_get (ob_space obs) (pd_id d) = Some a"
          and op: "op_for_decision d a payload deliv clause (ob_keybindings obs)
              (\<lambda>name clause u. (invoke_args_for E paths args name clause, u)) () = (Inr op, ())"
          and run: "act_dispatch E obs d payload op st1 = Some (r, st')" by blast
        obtain t invokes where ob: "observes E paths args st obs t invokes st1"
          using observe_ok [OF o [unfolded x]] by blast
        then have space: "ob_space obs = from_tree (me_unicode E) t (ob_keybindings obs) invokes"
          by (auto simp: observes_def)
        have g: "grounded_op t (ob_keybindings obs) invokes op"
          by (rule op_grounded [OF local_choice_safe [OF d space] sp [unfolded space] op])
        obtain rest where rest: "client_trace (me_tp E) (op # rest) st1 st'" "rest \<in> {[], [OpSnapshot (ob_rev obs) None None]}"
          using dispatch_trace [OF run] by blast
        have "client_trace (me_tp E) (op_snapshot # OpKeybindings # op # rest) st st'"
          using ob call_trace call_trace rest(1) unfolding observes_def by metis
        then show ?thesis using ob g rest(2) unfolding safe_attempt_def act_dispatches_def by blast
      qed
    qed
  qed
qed


inductive safe_attempts ::
    "('c, 'w, 'o) mcp_env \<Rightarrow> string list \<Rightarrow> json \<Rightarrow> nat \<Rightarrow> ('c, 'w) mcp_state \<Rightarrow> ('c, 'w) mcp_state \<Rightarrow> bool" for E paths args where
  no_attempt: "safe_attempts E paths args 0 st st"
| an_attempt: "safe_attempt E paths args ops st st' \<Longrightarrow> safe_attempts E paths args n st' st''
    \<Longrightarrow> safe_attempts E paths args (Suc n) st st''"

lemma attempts_safe:
  assumes "act_attempt E paths args clause st = Some (r, st')" "n \<le> m" "safe_attempts E paths args n st' st''"
  shows "\<exists>k \<le> Suc m. safe_attempts E paths args k st st''"
  using attempt_safe [OF assms(1)]
proof
  assume "st' = st" then show ?thesis using assms(2,3) le_Suc_eq by blast
next
  assume "\<exists>ops. safe_attempt E paths args ops st st'"
  then show ?thesis using an_attempt [OF _ assms(3)] assms(2) by blast
qed

text \<open>One round of the loop: its attempt ends it, or it was stale and another round follows.\<close>

lemma act_loop_step:
  "act_loop E paths args clause m st =
     (case act_attempt E paths args clause st of
        None \<Rightarrow> None
      | Some (Inl e, st') \<Rightarrow> Some (Inl e, st')
      | Some (Inr (ActDone v), st') \<Rightarrow> Some (Inr v, st')
      | Some (Inr ActStale, st') \<Rightarrow>
          (case m of 0 \<Rightarrow> Some (Inr stale_reply, st') | Suc n \<Rightarrow> act_loop E paths args clause n st'))"
  by (subst act_loop.simps) (simp add: then_do_def split: option.split sum.split act_step.split)

declare act_loop.simps [simp del]

lemma act_loop_cases:
  assumes "act_loop E paths args clause m st = Some (r, st')"
  obtains x st1 where "act_attempt E paths args clause st = Some (x, st1)"
    and "st1 = st' \<or> (\<exists>n. m = Suc n \<and> act_loop E paths args clause n st1 = Some (r, st'))"
proof (cases "act_attempt E paths args clause st")
  case None
  then show ?thesis using assms by (simp add: act_loop_step)
next
  case (Some y)
  obtain x st1 where y: "y = (x, st1)" by (cases y)
  have "st1 = st' \<or> (\<exists>n. m = Suc n \<and> act_loop E paths args clause n st1 = Some (r, st'))"
    using assms Some y
    by (subst (asm) act_loop_step) (simp split: sum.splits act_step.splits nat.splits)
  then show ?thesis using that Some y by blast
qed

lemma act_loop_safe:
  "act_loop E paths args clause m st = Some (r, st') \<Longrightarrow> \<exists>n \<le> Suc m. safe_attempts E paths args n st st'"
proof (induction m arbitrary: st rule: less_induct)
  case (less m)
  from less.prems obtain x st1 where a: "act_attempt E paths args clause st = Some (x, st1)"
      "st1 = st' \<or> (\<exists>n. m = Suc n \<and> act_loop E paths args clause n st1 = Some (r, st'))"
    by (rule act_loop_cases)
  from a(2) show ?case
  proof (elim disjE exE conjE)
    assume "st1 = st'"
    then show ?thesis using attempts_safe [OF a(1) _ no_attempt, of m] by auto
  next
    fix n assume m: "m = Suc n" and rest: "act_loop E paths args clause n st1 = Some (r, st')"
    from less.IH [OF _ rest] obtain k where k: "k \<le> Suc n" "safe_attempts E paths args k st1 st'" using m by auto
    show ?thesis using attempts_safe [OF a(1) k] m by simp
  qed
qed

section \<open>Act returns\<close>

lemma mcp_call_returns: "clock_ok (me_tp E) \<Longrightarrow> \<exists>r st'. mcp_call E op st = Some (r, st')"
  using rpc_op_returns [of "me_tp E" op "fst st" "snd st"] by (auto simp: mcp_call_def expect_ok_def)

lemma catalog_returns: "clock_ok tp \<Longrightarrow> \<exists>r st'. client_keybinding_catalog bad tp c w = Some (r, st')"
  using rpc_op_returns [of tp OpKeybindings c w] by (auto simp: client_keybinding_catalog_def expect_ok_def)

lemma then_do_returns: "\<exists>r s. m = Some (r, s) \<Longrightarrow> (\<And>a s. \<exists>r s'. f a s = Some (r, s')) \<Longrightarrow> \<exists>r s'. then_do m f = Some (r, s')"
  by (auto simp: then_do_def split: sum.split)

lemma observe_returns:
  assumes "clock_ok (me_tp E)"
  shows "\<exists>r st'. mcp_observe E paths args st = Some (r, st')"
  unfolding mcp_observe_def
proof (intro then_do_returns)
  show "\<exists>r s. mcp_call E op_snapshot st = Some (r, s)" by (rule mcp_call_returns [OF assms])
next
  fix snap st1
  have "\<exists>r s'. then_do (client_keybinding_catalog (me_serde_error E) (me_tp E) (fst st1) (snd st1)) (\<lambda>kbs st.
         case mcp_invokes E paths args of
           Inl e \<Rightarrow> Some (Inl e, st)
         | Inr invokes \<Rightarrow>
             Some (Inr \<lparr>ob_rev = or_else (rs_rev snap) (tree_rev t), ob_keybindings = kbs,
                        ob_space = from_tree (me_unicode E) t kbs invokes\<rparr>, st)) = Some (r, s')" for t
    by (rule then_do_returns [OF catalog_returns [OF assms]]) (simp split: sum.split)
  then show "\<exists>r s'. (case rs_tree snap of
       None \<Rightarrow> Some (Inl ''host returned no ui tree'', st1)
     | Some t \<Rightarrow>
         then_do (client_keybinding_catalog (me_serde_error E) (me_tp E) (fst st1) (snd st1)) (\<lambda>kbs st.
         case mcp_invokes E paths args of
           Inl e \<Rightarrow> Some (Inl e, st)
         | Inr invokes \<Rightarrow>
             Some (Inr \<lparr>ob_rev = or_else (rs_rev snap) (tree_rev t), ob_keybindings = kbs,
                        ob_space = from_tree (me_unicode E) t kbs invokes\<rparr>, st))) = Some (r, s')"
    by (cases "rs_tree snap") simp_all
qed

lemma dispatch_returns:
  assumes "clock_ok (me_tp E)"
  shows "\<exists>r st'. act_dispatch E obs d payload op st = Some (r, st')"
proof -
  obtain x st1 where x: "mcp_call E op st = Some (x, st1)" using mcp_call_returns [OF assms] by blast
  obtain y st2 where "mcp_call E (OpSnapshot (ob_rev obs) None None) st1 = Some (y, st2)"
    using mcp_call_returns [OF assms] by blast
  then show ?thesis using x by (cases x) (simp_all add: act_dispatch_def)
qed

lemma decision_returns:
  assumes "clock_ok (me_tp E)"
  shows "\<exists>r st'. act_decision E paths args clause deliv k obs d st = Some (r, st')"
  using dispatch_returns [OF assms]
  by (auto simp: act_decision_def split: option.split sum.split prod.split)

lemma attempt_returns:
  assumes "clock_ok (me_tp E)"
  shows "\<exists>r st'. act_attempt E paths args clause st = Some (r, st')"
proof (cases "parse_delivery args")
  case (Inl e)
  then show ?thesis by (simp add: act_attempt_def)
next
  case (Inr deliv)
  show ?thesis unfolding act_attempt_def Inr sum.case
  proof (rule then_do_returns [OF observe_returns [OF assms]])
    fix obs st1
    show "\<exists>r s'. (case mcp_decide E obs clause of
            Inl e \<Rightarrow> Some (Inl e, st1)
          | Inr (PoAbstain reason ops targets) \<Rightarrow>
              Some (Inr (ActDone (abstain_reply obs reason
                (candidates_json obs (if targets = [] then ops else targets) (reply_limit args)))), st1)
          | Inr (PoChoice d) \<Rightarrow> act_decision E paths args clause deliv (reply_limit args) obs d st1) = Some (r, s')"
      using decision_returns [OF assms] by (simp split: sum.split policy_outcome.split)
  qed
qed

lemma act_loop_returns: "clock_ok (me_tp E) \<Longrightarrow> \<exists>r st'. act_loop E paths args clause n st = Some (r, st')"
proof (induction n arbitrary: st rule: less_induct)
  case (less n)
  obtain x st1 where x: "act_attempt E paths args clause st = Some (x, st1)"
    using attempt_returns [OF less.prems] by blast
  have "\<exists>r st'. (case n of 0 \<Rightarrow> Some (Inr stale_reply, st1) | Suc n \<Rightarrow> act_loop E paths args clause n st1) = Some (r, st')"
    using less.IH [OF _ less.prems] by (cases n) auto
  then show ?case using x by (simp add: act_loop_step split: sum.split act_step.split)
qed

section \<open>The time limit of the client\<close>

lemma session_timeout [simp]: "ac_timeout (c\<lparr>ac_session := s\<rparr>) = ac_timeout c"
  by (simp add: agent_client.defs)

lemma wire_keeps: "roundtrip_wire tp ident op t c w = (r, c', w') \<Longrightarrow> ac_timeout c' = ac_timeout c"
  by (auto simp: roundtrip_wire_def split: prod.splits sum.splits)

lemma rpc_keeps:
  assumes "rpc_op tp op c w = Some (r, c', w')"
  shows "ac_timeout c' = ac_timeout c"
proof -
  obtain deadline e c1 where loop: "roundtrip_loop tp (fmt_u64 (ac_next_id c)) op (timeout_for c op) deadline e c1 w = Some (r, c', w')"
      and c1: "ac_timeout c1 = ac_timeout c"
    using assms by (fastforce simp: rpc_op_def roundtrip_retry_def Let_def)
  have "\<exists>c0 w0. ac_timeout c0 = ac_timeout c \<and>
      ((\<exists>q c2 w2. (r, c', w') = (Inr q, c2, w2) \<and> roundtrip_wire tp (fmt_u64 (ac_next_id c)) op (timeout_for c op) c0 w0 = (Inr q, c2, w2))
       \<or> (\<exists>err. (r, c', w') = (Inl err, c0, w0)))"
    by (rule roundtrip_loop_inv [OF loop, of "\<lambda>c0 _. ac_timeout c0 = ac_timeout c"]) (auto simp: c1 dest: wire_keeps)
  then show ?thesis using wire_keeps by fastforce
qed

lemma expect_keeps: "expect_ok tp op c w = Some (r, c', w') \<Longrightarrow> ac_timeout c' = ac_timeout c"
  using rpc_keeps by (fastforce simp: expect_ok_def)

lemma pipeline_once_keeps: "pipeline_once tp start ops c w = (r, c', w') \<Longrightarrow> ac_timeout c' = ac_timeout c"
  by (auto simp: pipeline_once_def split: prod.splits sum.splits)

lemma pipeline_keeps:
  assumes "pipeline_retry tp ops c w = Some (r, c', w')"
  shows "ac_timeout c' = ac_timeout c"
proof -
  obtain start deadline e c1 where loop: "pipeline_loop tp start ops deadline e c1 w = Some (r, c', w')"
      and c1: "ac_timeout c1 = ac_timeout c"
    using assms by (fastforce simp: pipeline_retry_def)
  have "\<exists>c0 w0. ac_timeout c0 = ac_timeout c \<and>
      ((\<exists>rs c2 w2. (r, c', w') = (Inr rs, c2, w2) \<and> pipeline_once tp start ops c0 w0 = (Inr rs, c2, w2))
     \<or> (\<exists>err c2 w2. (r, c', w') = (Inl err, c2\<lparr>ac_session := None\<rparr>, w2) \<and> pipeline_once tp start ops c0 w0 = (Inl (Fatal err), c2, w2))
     \<or> (\<exists>err. (r, c', w') = (Inl err, c0, w0)))"
    by (rule pipeline_loop_inv [OF loop, of "\<lambda>c0 _. ac_timeout c0 = ac_timeout c"]) (auto simp: c1 dest: pipeline_once_keeps)
  then show ?thesis using pipeline_once_keeps by fastforce
qed

lemma chunk_keeps: "rpc_chunk tp ops c w = Some (r, c', w') \<Longrightarrow> ac_timeout c' = ac_timeout c"
  using rpc_keeps pipeline_keeps by (fastforce simp: rpc_chunk_def split: list.splits)

lemma chunks_keep: "rpc_chunks tp chs out c w = Some (r, c', w') \<Longrightarrow> ac_timeout c' = ac_timeout c"
proof (induction chs arbitrary: out c w)
  case (Cons ch chs)
  then obtain q c1 w1 where "rpc_chunk tp ch c w = Some (q, c1, w1)"
      "(c1 = c' \<or> (\<exists>out. rpc_chunks tp chs out c1 w1 = Some (r, c', w')))"
    by (auto split: option.splits prod.splits sum.splits)
  then show ?case using chunk_keeps Cons.IH by metis
qed simp

lemma rpc_pipeline_keeps: "rpc_pipeline tp ops c w = Some (r, c', w') \<Longrightarrow> ac_timeout c' = ac_timeout c"
  using chunk_keeps chunks_keep by (fastforce simp: rpc_pipeline_def split: if_splits)

lemma pipelined_keeps: "run_pipelined tp started steps rt c w = Some (r, c', w') \<Longrightarrow> ac_timeout c' = ac_timeout c"
  by (auto simp: run_pipelined_def Let_def split: option.splits prod.splits sum.splits dest!: rpc_pipeline_keeps)

lemma capture_keeps: "capture_screenshot tp shots n step c w = Some (r, c', w') \<Longrightarrow> ac_timeout c' = ac_timeout c"
  by (auto simp: capture_screenshot_def Let_def split: option.splits if_splits dest!: rpc_keeps)

lemma steps_keep: "run_steps tp started shots steps n rt c w = Some (r, c', w') \<Longrightarrow> ac_timeout c' = ac_timeout c"
proof (induction steps arbitrary: n rt c w)
  case (Cons step steps)
  obtain q c1 w1 where q: "rpc_op tp (ps_op step) c w = Some (q, c1, w1)"
    using Cons.prems by (auto simp: Let_def split: option.splits)
  obtain shot c2 w2 where shot: "capture_screenshot tp shots (n + 1) step c1 w1 = Some (shot, c2, w2)"
    using Cons.prems q by (auto simp: Let_def split: option.splits)
  have "c2 = c' \<or> (\<exists>n rt. run_steps tp started shots steps n rt c2 w2 = Some (r, c', w'))"
    using Cons.prems q shot by (auto simp: Let_def split: if_splits)
  then show ?case using rpc_keeps [OF q] capture_keeps [OF shot] Cons.IH by metis
qed simp

lemma waves_keep: "run_waves tp started p shots waves n rt c w = Some (r, c', w') \<Longrightarrow> ac_timeout c' = ac_timeout c"
proof (induction waves arbitrary: n rt c w)
  case (Cons wave waves)
  obtain steps where s: "wave_steps p wave = Some steps" using Cons.prems by (auto split: option.splits)
  have "\<exists>q c1 w1. ac_timeout c1 = ac_timeout c \<and> (c1 = c' \<or> (\<exists>n rt. run_waves tp started p shots waves n rt c1 w1 = Some (r, c', w')))"
  proof (cases "wave_can_pipeline steps shots")
    case True
    then show ?thesis using Cons.prems s by (fastforce split: option.splits sum.splits dest: pipelined_keeps)
  next
    case False
    then show ?thesis using Cons.prems s by (fastforce split: option.splits sum.splits dest: steps_keep)
  qed
  then show ?case using Cons.IH by metis
qed simp

lemma plan_keeps: "run_plan_with_screenshots tp mkdir p yes shots c w = Some (r, c', w') \<Longrightarrow> ac_timeout c' = ac_timeout c"
  by (auto simp: run_plan_with_screenshots_def Let_def split: if_splits option.splits prod.splits sum.splits dest: waves_keep)

lemma trace_keeps: "client_trace tp ops st st' \<Longrightarrow> ac_timeout (fst st') = ac_timeout (fst st)"
proof (induction rule: client_trace.induct)
  case (trace_call op st r st' ops st'')
  then show ?case using expect_keeps [of tp op "fst st" "snd st" r "fst st'" "snd st'"] by simp
qed simp

lemma attempts_keep: "safe_attempts E paths args n st st' \<Longrightarrow> ac_timeout (fst st') = ac_timeout (fst st)"
  by (induction rule: safe_attempts.induct) (auto simp: safe_attempt_def dest: trace_keeps)

lemma act_tool_cases:
  assumes "act_tool E paths args st = Some (r, st')"
  shows "st' = st \<or> (\<exists>clause. act_loop E paths args clause MAX_STALE_RETRIES st = Some (r, st'))"
  using assms by (auto simp: act_tool_def split: sum.splits list.splits)

lemma act_keeps: "act_tool E paths args st = Some (r, st') \<Longrightarrow> ac_timeout (fst st') = ac_timeout (fst st)"
  by (drule act_tool_cases) (elim disjE exE, simp, drule act_loop_safe, elim exE conjE, rule attempts_keep)

lemma locate_cases:
  assumes "locate_tool E paths args st = Some (r, st')"
  shows "st' = st \<or> (\<exists>x. mcp_observe E paths args st = Some (x, st'))"
  using assms by (cases "need_str args ''query''") (auto simp: locate_tool_def then_do_Some_iff)

lemma locate_keeps: "locate_tool E paths args st = Some (r, st') \<Longrightarrow> ac_timeout (fst st') = ac_timeout (fst st)"
  by (drule locate_cases) (elim disjE exE, simp, drule observe_trace, elim exE conjE, rule trace_keeps)

lemma events_keeps: "events_tool E args st = Some (r, st') \<Longrightarrow> ac_timeout (fst st') = ac_timeout (fst st)"
  by (cases st') (auto simp: events_tool_def client_events_def dest!: expect_keeps)

lemma recipe_run_keeps:
  assumes "mcp_recipe_run E paths args st = Some (r, st')"
  shows "ac_timeout (fst st') = ac_timeout (fst st)"
proof (cases "mcp_compile E paths args")
  case None
  then show ?thesis using assms by (simp add: mcp_recipe_run_def)
next
  case (Some y)
  show ?thesis
  proof (cases y)
    case (Inl e)
    then show ?thesis using assms Some by (simp add: mcp_recipe_run_def)
  next
    case (Inr p)
    then have "st' = st \<or> (\<exists>yes shots q. run_plan_with_screenshots (me_tp E) (me_mkdir E) p yes shots (fst st) (snd st) = Some (q, fst st', snd st'))"
      using assms Some by (auto simp: mcp_recipe_run_def Let_def split: if_splits)
    then show ?thesis by (elim disjE exE) (simp, rule plan_keeps)
  qed
qed

section \<open>The tools that are listed\<close>

definition tool_name :: "json \<Rightarrow> string option" where
  "tool_name tool = json_str tool ''name''"

definition tool_required :: "json \<Rightarrow> json list" where
  "tool_required tool =
     (case Option.bind (json_get tool ''inputSchema'') (\<lambda>sch. Option.bind (json_get sch ''required'') as_array) of
        None \<Rightarrow> [] | Some ks \<Rightarrow> ks)"

lemma tool_table:
  "map (\<lambda>t. (tool_name t, tool_required t)) (mcp_tools True) =
    map (\<lambda>(n, ks). (Some n, map JStr ks))
     [(''wait'', []), (''wait_until'', [''timeout_ms'']), (''hello'', []), (''snapshot'', []), (''screenshot'', [''path'']),
      (''click'', [''target'']), (''type'', [''target'', ''text'']), (''set_value'', [''target'', ''value'']),
      (''key'', [''target'', ''key'']), (''keybinding'', [''scope'']), (''keybindings'', []), (''events'', []), (''assert'', []),
      (''invoke'', [''name'']), (''shutdown'', []), (''recipe_validate'', [''recipe'']), (''recipe_plan'', [''recipe'']),
      (''recipe_run'', [''recipe'']), (''recipe_resolve'', [''intent'']), (''locate'', [''query'']), (''act'', [''instruction''])]"
  by code_simp

lemma listed_names:
  "tool_name ` set (mcp_tools True) = Some ` set [''wait'', ''wait_until'', ''hello'', ''snapshot'', ''screenshot'',
      ''click'', ''type'', ''set_value'', ''key'', ''keybinding'', ''keybindings'', ''events'', ''assert'',
      ''invoke'', ''shutdown'', ''recipe_validate'', ''recipe_plan'', ''recipe_run'', ''recipe_resolve'', ''locate'', ''act'']"
proof -
  have "map tool_name (mcp_tools True) = map fst (map (\<lambda>t. (tool_name t, tool_required t)) (mcp_tools True))"
    by (simp add: comp_def)
  then have "set (map tool_name (mcp_tools True)) = set (map fst (map (\<lambda>t. (tool_name t, tool_required t)) (mcp_tools True)))"
    by simp
  then show ?thesis unfolding tool_table by simp
qed

lemma tools_split: "mcp_tools on = mcp_tools False @ (if on then [tool_locate, tool_act] else [])"
  by (simp add: mcp_tools_def)

lemma plain_names:
  "tool_name ` set (mcp_tools False) = Some ` set [''wait'', ''wait_until'', ''hello'', ''snapshot'', ''screenshot'',
      ''click'', ''type'', ''set_value'', ''key'', ''keybinding'', ''keybindings'', ''events'', ''assert'',
      ''invoke'', ''shutdown'', ''recipe_validate'', ''recipe_plan'', ''recipe_run'', ''recipe_resolve'']"
proof -
  have "map tool_name (mcp_tools False) = take 19 (map fst (map (\<lambda>t. (tool_name t, tool_required t)) (mcp_tools True)))"
    by (simp add: mcp_tools_def)
  then have "set (map tool_name (mcp_tools False)) = set (take 19 (map fst (map (\<lambda>t. (tool_name t, tool_required t)) (mcp_tools True))))"
    by simp
  then show ?thesis unfolding tool_table by simp
qed

text \<open>A required argument of the table that is missing.\<close>

lemma missing_str: "json_get args k = None \<Longrightarrow> json_str args k = None" "json_get args k = None \<Longrightarrow> json_u64 args k = None"
  by (simp_all add: json_str_def json_u64_def)

lemma named_ops:
  "tool_op ''wait_until'' args = Some (wait_until_op args)" "tool_op ''screenshot'' args = Some (screenshot_op args)"
  "tool_op ''click'' args = Some (rbind (need_str args ''target'') (\<lambda>t. rbind (parse_delivery args) (\<lambda>d. Inr (OpClick t d None))))"
  "tool_op ''type'' args = Some (type_op args)" "tool_op ''key'' args = Some (key_op args)"
  "tool_op ''set_value'' args = Some (rbind (need_str args ''target'') (\<lambda>t. rbind (need_str args ''value'') (\<lambda>v. Inr (OpSetValue t v None))))"
  "tool_op ''keybinding'' args = Some (keybinding_op args)"
  "tool_op ''invoke'' args = Some (rmap (\<lambda>n. OpInvoke n (case json_get args ''args'' of None \<Rightarrow> json_obj [] | Some v \<Rightarrow> v)) (need_str args ''name''))"
  by (simp_all add: tool_op_def)

lemma missing_arg: "json_get args k = None \<Longrightarrow> need_str args k = Inl (''missing string `'' @ k @ ''`'')"
  by (simp add: need_str_def json_str_def ok_or_def)

lemma not_ok_rbind: "is_ok (rbind m f) \<longleftrightarrow> (\<exists>x. m = Inr x \<and> is_ok (f x))"
  by (cases m) simp_all

lemma missing_ops:
  "json_get args ''timeout_ms'' = None \<Longrightarrow> \<not> is_ok (wait_until_op args)"
  "json_get args ''path'' = None \<Longrightarrow> \<not> is_ok (screenshot_op args)"
  "json_get args ''target'' = None \<Longrightarrow> \<not> is_ok (type_op args)"
  "json_get args ''text'' = None \<Longrightarrow> \<not> is_ok (type_op args)"
  "json_get args ''target'' = None \<Longrightarrow> \<not> is_ok (key_op args)"
  "json_get args ''key'' = None \<Longrightarrow> \<not> is_ok (key_op args)"
  "json_get args ''scope'' = None \<Longrightarrow> \<not> is_ok (keybinding_op args)"
  by (simp_all add: wait_until_op_def screenshot_op_def type_op_def key_op_def keybinding_op_def missing_arg
      json_u64_def ok_or_def not_ok_rbind)

lemma missing_recipe:
  assumes "json_get args ''recipe'' = None"
  shows "inline_recipe E args = Inl ''missing `recipe`''"
  using assms by (simp add: inline_recipe_def recipe_text_def)

lemma missing_recipe_tools:
  assumes "json_get args ''recipe'' = None"
  shows "mcp_recipe_validate E paths args = Inl ''missing `recipe`''"
    and "lift_pure (mcp_recipe_plan E paths args) st = Some (Inl ''missing `recipe`'', st)"
    and "mcp_recipe_run E paths args st = Some (Inl ''missing `recipe`'', st)"
  by (simp_all add: mcp_recipe_validate_def mcp_recipe_plan_def mcp_recipe_run_def mcp_compile_def missing_recipe [OF assms]
      lift_pure_def rmap_def)

lemma missing_query:
  "json_get args ''intent'' = None \<Longrightarrow> lift_pure (mcp_recipe_resolve E paths args) st = Some (Inl ''missing string `intent`'', st)"
  "json_get args ''query'' = None \<Longrightarrow> locate_tool E paths args st = Some (Inl ''missing string `query`'', st)"
  "json_get args ''instruction'' = None \<Longrightarrow> act_tool E paths args st = Some (Inl ''missing string `instruction`'', st)"
  by (simp_all add: mcp_recipe_resolve_def lift_pure_def locate_tool_def act_tool_def missing_arg json_str_def ok_or_def)

lemma call_op_error:
  "tool_op name args = Some r \<Longrightarrow> \<not> is_ok r \<Longrightarrow> \<exists>e. call_named_tool E paths name args st = Some (Inl e, st)"
  by (cases r) (simp_all add: call_named_tool_def)

lemma call_others:
  "call_named_tool E paths ''recipe_validate'' args st = Some (mcp_recipe_validate E paths args, st)"
  "call_named_tool E paths ''recipe_plan'' args st = lift_pure (mcp_recipe_plan E paths args) st"
  "call_named_tool E paths ''recipe_run'' args st = mcp_recipe_run E paths args st"
  "call_named_tool E paths ''recipe_resolve'' args st = lift_pure (mcp_recipe_resolve E paths args) st"
  "me_instinct_on E \<Longrightarrow> call_named_tool E paths ''locate'' args st = locate_tool E paths args st"
  "me_instinct_on E \<Longrightarrow> call_named_tool E paths ''act'' args st = act_tool E paths args st"
  by (simp_all add: call_named_tool_def tool_op_def)

lemma missing_op_calls:
  "json_get args ''timeout_ms'' = None \<Longrightarrow> \<exists>e. call_named_tool E paths ''wait_until'' args st = Some (Inl e, st)"
  "json_get args ''path'' = None \<Longrightarrow> \<exists>e. call_named_tool E paths ''screenshot'' args st = Some (Inl e, st)"
  "json_get args ''target'' = None \<Longrightarrow> \<exists>e. call_named_tool E paths ''click'' args st = Some (Inl e, st)"
  "json_get args ''target'' = None \<Longrightarrow> \<exists>e. call_named_tool E paths ''type'' args st = Some (Inl e, st)"
  "json_get args ''text'' = None \<Longrightarrow> \<exists>e. call_named_tool E paths ''type'' args st = Some (Inl e, st)"
  "json_get args ''target'' = None \<Longrightarrow> \<exists>e. call_named_tool E paths ''set_value'' args st = Some (Inl e, st)"
  "json_get args ''value'' = None \<Longrightarrow> \<exists>e. call_named_tool E paths ''set_value'' args st = Some (Inl e, st)"
  "json_get args ''target'' = None \<Longrightarrow> \<exists>e. call_named_tool E paths ''key'' args st = Some (Inl e, st)"
  "json_get args ''key'' = None \<Longrightarrow> \<exists>e. call_named_tool E paths ''key'' args st = Some (Inl e, st)"
  "json_get args ''scope'' = None \<Longrightarrow> \<exists>e. call_named_tool E paths ''keybinding'' args st = Some (Inl e, st)"
  "json_get args ''name'' = None \<Longrightarrow> \<exists>e. call_named_tool E paths ''invoke'' args st = Some (Inl e, st)"
  by (rule call_op_error [OF named_ops(1)] call_op_error [OF named_ops(2)] call_op_error [OF named_ops(3)]
      call_op_error [OF named_ops(4)] call_op_error [OF named_ops(5)] call_op_error [OF named_ops(6)]
      call_op_error [OF named_ops(7)] call_op_error [OF named_ops(8)];
    simp add: missing_ops missing_arg not_ok_rbind rmap_def)+

text \<open>The names of the tools with the arguments that their schemas require.\<close>

definition required_args :: "(string \<times> string) list" where
  "required_args = [(''wait_until'', ''timeout_ms''), (''screenshot'', ''path''), (''click'', ''target''),
     (''type'', ''target''), (''type'', ''text''), (''set_value'', ''target''), (''set_value'', ''value''), (''key'', ''target''),
     (''key'', ''key''), (''keybinding'', ''scope''), (''invoke'', ''name''), (''recipe_validate'', ''recipe''),
     (''recipe_plan'', ''recipe''), (''recipe_run'', ''recipe''), (''recipe_resolve'', ''intent''), (''locate'', ''query''),
     (''act'', ''instruction'')]"

lemma required_table:
  "concat (map (\<lambda>t. map (\<lambda>k. (tool_name t, k)) (tool_required t)) (mcp_tools True)) = map (\<lambda>(n, k). (Some n, JStr k)) required_args"
  by code_simp

lemma missing_call:
  assumes "(name, k) \<in> set required_args" "json_get args k = None" "name \<in> {''locate'', ''act''} \<Longrightarrow> me_instinct_on E"
  shows "\<exists>e. call_named_tool E paths name args st = Some (Inl e, st)"
proof -
  have "list_all (\<lambda>(n, k). json_get args k = None \<longrightarrow> (n = ''locate'' \<or> n = ''act'' \<longrightarrow> me_instinct_on E)
      \<longrightarrow> (\<exists>e. call_named_tool E paths n args st = Some (Inl e, st))) required_args"
    unfolding required_args_def list.pred_inject prod.case
    by (simp add: missing_op_calls call_others missing_recipe_tools missing_query)
  then show ?thesis using assms by (auto simp: list_all_iff)
qed

section \<open>The server returns\<close>

lemma mcp_registry_ok:
  assumes "mcp_registry E paths args = Inr reg"
  shows "registry_ok reg"
proof -
  obtain reg0 where "protocol_registry = Inr reg0" "merge_files (me_load E) (me_env_paths E @ recipe_schema_paths paths args) reg0 = Inr reg"
    using assms by (auto simp: mcp_registry_def registry_from_schema_paths_def rbind_Inr_iff)
  then have "merge_files (me_load E) (me_env_paths E @ recipe_schema_paths paths args) sample_registry = Inr reg"
    by (simp add: protocol_registry_sample)
  then show ?thesis using merge_files_keeps [OF sample_registry_ok] by blast
qed

text \<open>Every string of a JSON text that the parser accepts is UTF-8.\<close>

fun json_texts :: "json \<Rightarrow> string list" where
  "json_texts (JStr s) = [s]"
| "json_texts (JArr xs) = concat (map json_texts xs)"
| "json_texts (JObj m) = concat (map (\<lambda>(k, v). k # json_texts v) m)"
| "json_texts _ = []"

definition utf8_json :: "json \<Rightarrow> bool" where
  "utf8_json v = list_all utf8_ok (json_texts v)"

lemma utf8_get: "utf8_json v \<Longrightarrow> json_get v k = Some w \<Longrightarrow> utf8_json w"
  by (cases v) (auto simp: utf8_json_def list_all_iff dest!: map_of_SomeD)

lemma utf8_str: "utf8_json v \<Longrightarrow> json_str v k = Some s \<Longrightarrow> utf8_ok s"
proof -
  assume v: "utf8_json v" and s: "json_str v k = Some s"
  then obtain w where w: "json_get v k = Some w" "as_str w = Some s" by (auto simp: json_str_def bind_eq_Some_conv)
  then have "w = JStr s" by (cases w) simp_all
  then show ?thesis using utf8_get [OF v w(1)] by (simp add: utf8_json_def)
qed

lemma recipe_run_returns:
  assumes "clock_ok (me_tp E)"
  shows "mcp_recipe_run E paths args st \<noteq> None"
proof (cases "rbind (inline_recipe E args) (\<lambda>r. rmap (Pair r) (mcp_registry E paths args))")
  case (Inl e)
  then show ?thesis by (simp add: mcp_recipe_run_def mcp_compile_def)
next
  case (Inr x)
  obtain r reg where x: "x = (r, reg)" by (cases x)
  obtain y where y: "compile_plan (me_hash E) r (recipe_set E args) reg = Some y" using compile_never_panics by blast
  have c: "mcp_compile E paths args = Some y" using Inr x y by (simp add: mcp_compile_def)
  show ?thesis
  proof (cases y)
    case (Inl e)
    then show ?thesis using c by (simp add: mcp_recipe_run_def)
  next
    case p: (Inr p)
    note w = waves_in_plan [OF y [unfolded p]]
    have "run_waves (me_tp E) t p shots (pl_waves p) n rt c w \<noteq> None" for t shots n rt c w
      using run_waves_returns [OF assms conjunct1 [OF w]] w by simp
    then have "run_plan_with_screenshots (me_tp E) mkdir p yes shots c w \<noteq> None" for mkdir yes shots c w
      by (simp add: run_plan_with_screenshots_def Let_def del: not_None_eq split: option.split sum.split)
    then show ?thesis using c p by (simp add: mcp_recipe_run_def Let_def del: not_None_eq)
  qed
qed

lemma recipe_resolve_returns:
  assumes "utf8_json args"
  shows "mcp_recipe_resolve E paths args \<noteq> None"
proof (cases "rbind (ok_or ''missing string `intent`'' (json_str args ''intent'')) (\<lambda>i. rmap (Pair i) (mcp_registry E paths args))")
  case (Inl e)
  then show ?thesis by (simp add: mcp_recipe_resolve_def)
next
  case (Inr x)
  then obtain intent reg where x: "x = (intent, reg)" "json_str args ''intent'' = Some intent" "mcp_registry E paths args = Inr reg"
    by (auto simp: rbind_Inr_iff rmap_Inr_iff ok_or_def split: option.splits)
  then show ?thesis
    using Inr resolve_never_panics [OF mcp_registry_ok [OF x(3)] utf8_str [OF assms x(2)], of "me_unicode E" "me_instinct E"]
    by (simp add: mcp_recipe_resolve_def mcp_resolve_intent_def)
qed

lemma locate_returns: "clock_ok (me_tp E) \<Longrightarrow> locate_tool E paths args st \<noteq> None"
  using observe_returns [of E paths args st]
  by (auto simp: locate_tool_def then_do_def split: sum.split)

lemma act_tool_returns: "clock_ok (me_tp E) \<Longrightarrow> act_tool E paths args st \<noteq> None"
  using act_loop_returns [of E paths args _ MAX_STALE_RETRIES st]
  by (auto simp: act_tool_def split: sum.split list.split)

lemma events_returns: "clock_ok (me_tp E) \<Longrightarrow> events_tool E args st \<noteq> None"
  using rpc_op_returns [of "me_tp E"] by (simp add: events_tool_def client_events_def expect_ok_def)

lemma call_named_returns:
  assumes "clock_ok (me_tp E)" "utf8_json args"
  shows "call_named_tool E paths name args st \<noteq> None"
proof (cases "tool_op name args")
  case None
  have "mcp_recipe_plan E paths args \<noteq> None"
    using compile_never_panics by (auto simp: mcp_recipe_plan_def mcp_compile_def split: sum.split)
  then show ?thesis
    using None events_returns [OF assms(1)] recipe_run_returns [OF assms(1)] recipe_resolve_returns [OF assms(2), of E paths]
      locate_returns [OF assms(1)] act_tool_returns [OF assms(1)]
    by (simp add: call_named_tool_def lift_pure_def del: not_None_eq)
next
  case (Some r)
  then show ?thesis using mcp_call_returns [OF assms(1)] by (cases r) (auto simp: call_named_tool_def)
qed

text \<open>What a message is answered with: its id, or nothing for a blank line or the notification.\<close>

definition answer_ids :: "('c, 'w, 'o) mcp_env \<Rightarrow> string \<Rightarrow> json list" where
  "answer_ids E line =
     (if line_is_blank line then []
      else case me_parse E line of
        Inl _ \<Rightarrow> [JNull]
      | Inr msg \<Rightarrow> if json_str msg ''method'' = Some ''notifications/initialized'' then []
          else [case json_get msg ''id'' of None \<Rightarrow> JNull | Some v \<Rightarrow> v])"

fun lines_of :: "read_result list \<Rightarrow> string list" where
  "lines_of (ReadLine line # reads) = line # lines_of reads"
| "lines_of _ = []"

text \<open>The input ends before a read fails.\<close>

fun ends_well :: "read_result list \<Rightarrow> bool" where
  "ends_well (ReadLine line # reads) = ends_well reads"
| "ends_well (ReadEof # reads) = True"
| "ends_well [] = True"
| "ends_well _ = False"

lemma rpc_ids: "json_get (rpc_result i v) ''id'' = Some i" "json_get (rpc_error i c m) ''id'' = Some i"
  by (simp_all add: rpc_result_def rpc_error_def json_obj_def)

lemma call_tool_returns:
  assumes "clock_ok (me_tp E)" "utf8_json params"
  shows "\<exists>r st'. call_tool E paths params st = Some (r, st')"
proof -
  have "utf8_json (case json_get params ''arguments'' of None \<Rightarrow> json_obj [] | Some v \<Rightarrow> v)"
    using utf8_get [OF assms(2)] by (auto simp: utf8_json_def json_obj_def split: option.split)
  then show ?thesis using call_named_returns [OF assms(1)] by (auto simp: call_tool_def split: option.split)
qed

lemma line_answer:
  assumes "clock_ok (me_tp E)" "\<And>msg. me_parse E line = Inr msg \<Longrightarrow> utf8_json msg"
  shows "\<exists>out st'. mcp_line E paths line st = Some (out, st')
     \<and> (case out of None \<Rightarrow> [] | Some j \<Rightarrow> [json_get j ''id'']) = map Some (answer_ids E line)"
proof (cases "line_is_blank line")
  case False
  show ?thesis
  proof (cases "me_parse E line")
    case (Inl e)
    then show ?thesis using False by (simp add: mcp_line_def answer_ids_def rpc_ids)
  next
    case (Inr msg)
    let ?params = "case json_get msg ''params'' of None \<Rightarrow> JNull | Some v \<Rightarrow> v"
    have "utf8_json ?params" using utf8_get [OF assms(2) [OF Inr]] by (auto simp: utf8_json_def split: option.split)
    then obtain r st' where "call_tool E paths ?params st = Some (r, st')" using call_tool_returns [OF assms(1)] by blast
    then show ?thesis using False Inr
      by (auto simp: mcp_line_def mcp_answer_def Let_def answer_ids_def rpc_ids split: option.split)
  qed
qed (simp add: mcp_line_def answer_ids_def)

section \<open>Properties\<close>

text \<open>A host with one button, for the witnesses.\<close>

definition go_env :: "bool \<Rightarrow> (unit, sample_world, sample_obj) mcp_env" where
  "go_env on = \<lparr>me_tp = sample_tp\<lparr>tp_decode := (\<lambda>l. Inr ((response_ok l)\<lparr>rs_tree := Some go_tree, rs_result := Some (JArr [])\<rparr>))\<rparr>,
     me_instinct_on = on, me_unicode = plain_unicode, me_instinct = sample_instinct,
     me_parse = (\<lambda>l. if l = ''p'' then Inr (JObj [(''id'', JInt 1), (''method'', JStr ''ping'')]) else Inl ''bad''),
     me_print = (\<lambda>_. []), me_pretty = (\<lambda>_. []), me_response = (\<lambda>r. JStr (rs_id r)), me_plan = (\<lambda>_. JNull), me_receipt = (\<lambda>_. []),
     me_resolved = (\<lambda>_. JNull), me_poll_of = (\<lambda>_. Inl []), me_serde_error = (\<lambda>_. ''serde''), me_recipe_of = Inl, me_wants_json = (\<lambda>_. None),
     me_load = (\<lambda>_. Inl ''no file''), me_env_paths = [], me_hash = (\<lambda>_. 0), me_mkdir = (\<lambda>_ w. w)\<rparr>"

definition go_args :: json where "go_args = JObj [(''instruction'', JStr ''Go'')]"

definition go_start :: "(unit, sample_world) mcp_state" where
  "go_start = (client_connect ''a'', 0, [], replicate 9 (Inr (Some ''l'')))"

lemma go_clock: "clock_ok (me_tp (go_env on))"
  using sample_clock by (simp add: go_env_def clock_ok_def)

declare roundtrip_loop.simps [code]

text \<open>
  C2. The tool \<open>act\<close> is guarded.  It makes at most three attempts (\<open>MAX_STALE_RETRIES\<close> and one).  An attempt sends a
  snapshot and the request of the catalog, and after them nothing, or one operation that the tree of this
  very snapshot offers (on a node enabled and visible with all its ancestors, or a binding or an invoke that is
  not dangerous) and one snapshot that reads the effect, whatever the instruction and the scores are.
\<close>

theorem act_is_guarded:
  assumes "act_tool E paths args st = Some (r, st')"
  shows "\<exists>n \<le> 3. safe_attempts E paths args n st st'"
  using act_tool_cases [OF assms]
proof (elim disjE exE)
  assume "st' = st"
  then show ?thesis by (intro exI [of _ 0]) (simp add: no_attempt)
next
  fix clause assume "act_loop E paths args clause MAX_STALE_RETRIES st = Some (r, st')"
  from act_loop_safe [OF this] show ?thesis by (simp add: MAX_STALE_RETRIES_def)
qed

theorem act_is_guarded_witness:
  "\<exists>r st' n. act_tool (go_env True) [] go_args go_start = Some (r, st') \<and> n \<le> 3 \<and> safe_attempts (go_env True) [] go_args n go_start st'"
proof -
  obtain r st' where run: "act_tool (go_env True) [] go_args go_start = Some (r, st')"
    using act_tool_returns [OF go_clock] by (metis not_None_eq surj_pair)
  then show ?thesis using act_is_guarded by blast
qed

text \<open>
  The tool \<open>locate\<close> only looks: it sends nothing but the snapshot and the request of the catalog.
\<close>

theorem locate_reads_only:
  assumes "locate_tool E paths args st = Some (r, st')"
  shows "\<exists>ops. client_trace (me_tp E) ops st st' \<and> set ops \<subseteq> {op_snapshot, OpKeybindings} \<and> length ops \<le> 2"
  using locate_cases [OF assms]
proof (elim disjE exE)
  assume "st' = st"
  then show ?thesis by (intro exI [of _ "[]"]) simp
next
  fix x assume "mcp_observe E paths args st = Some (x, st')"
  then show ?thesis by (rule observe_trace)
qed

theorem locate_reads_only_witness:
  "\<exists>r st' ops. locate_tool (go_env True) [] (JObj [(''query'', JStr ''Go'')]) go_start = Some (r, st')
     \<and> client_trace (me_tp (go_env True)) ops go_start st' \<and> set ops \<subseteq> {op_snapshot, OpKeybindings}"
proof -
  obtain r st' where "locate_tool (go_env True) [] (JObj [(''query'', JStr ''Go'')]) go_start = Some (r, st')"
    using locate_returns [OF go_clock] by (metis not_None_eq surj_pair)
  then show ?thesis using locate_reads_only by blast
qed

text \<open>
  C7. The server answers every line that it can read: its loop never hangs and never panics, whatever the host, the
  recipes and the schema files are, and the answers carry the ids of the messages, each once and in their order.
  Of these lines only a blank one and the notification \<open>notifications/initialized\<close> get no answer; a line that is not
  JSON and a message without an id are answered with the id null.  A read that fails, on a line that is too long or is
  not UTF-8 or on an I/O error, is not answered and ends the server with an error, after the answers to the lines before it;
  the end of the input ends it without one.  The clock of the client does not stand still, and a parsed message is Unicode text.
\<close>

theorem mcp_serves:
  assumes "clock_ok (me_tp E)" "\<And>line msg. me_parse E line = Inr msg \<Longrightarrow> utf8_json msg"
  shows "\<exists>outs st'. mcp_loop E paths reads st = Some (outs, ends_well reads, st')
     \<and> map (\<lambda>j. json_get j ''id'') outs = map Some (concat (map (answer_ids E) (lines_of reads)))"
proof (induction reads arbitrary: st)
  case (Cons x reads)
  show ?case
  proof (cases x)
    case (ReadLine line)
    obtain out st1 where l: "mcp_line E paths line st = Some (out, st1)"
        "(case out of None \<Rightarrow> [] | Some j \<Rightarrow> [json_get j ''id'']) = map Some (answer_ids E line)"
      using line_answer [OF assms(1), of line paths st] assms(2) by blast
    obtain outs st' where "mcp_loop E paths reads st1 = Some (outs, ends_well reads, st')"
        "map (\<lambda>j. json_get j ''id'') outs = map Some (concat (map (answer_ids E) (lines_of reads)))"
      using Cons.IH by blast
    then show ?thesis using l ReadLine by (auto split: option.splits)
  qed simp_all
qed simp

theorem mcp_serves_witness:
  "\<exists>outs st'. mcp_loop (go_env True) [] [ReadLine ''p'', ReadLine ''?'', ReadInvalid ''line too long'', ReadLine ''p''] go_start
       = Some (outs, False, st')
     \<and> map (\<lambda>j. json_get j ''id'') outs = [Some (JInt 1), Some JNull]"
proof -
  have "utf8_json (JObj [(''id'', JInt 1), (''method'', JStr ''ping'')])" unfolding utf8_json_def by code_simp
  then have "me_parse (go_env True) line = Inr msg \<Longrightarrow> utf8_json msg" for line msg
    by (auto simp: go_env_def split: if_splits)
  moreover have "answer_ids (go_env True) ''p'' = [JInt 1]" "answer_ids (go_env True) ''?'' = [JNull]"
    by (simp_all add: answer_ids_def go_env_def line_is_blank_def is_ascii_whitespace_def json_str_def)
  ultimately show ?thesis
    using mcp_serves [OF go_clock, of True "[]" "[ReadLine ''p'', ReadLine ''?'', ReadInvalid ''line too long'', ReadLine ''p'']" go_start]
    by simp
qed

text \<open>
  C36. A call of a tool that the server does not list is refused and sends nothing, the two tools of the feature
  \<open>instinct\<close> among them when it is not compiled in; \<open>keybinding.list\<close> is the one alias.
\<close>

theorem unlisted_tool_refused:
  assumes "Some name \<notin> tool_name ` set (mcp_tools (me_instinct_on E))" "name \<noteq> ''keybinding.list''"
  shows "call_named_tool E paths name args st = Some (Inl (''unknown tool '' @ name), st)"
proof (cases "me_instinct_on E")
  case True
  then have n: "Some name \<notin> tool_name ` set (mcp_tools True)" using assms(1) by simp
  then have "tool_op name args = None" using assms(2) unfolding listed_names by (simp add: tool_op_def image_iff)
  then show ?thesis using n True unfolding listed_names by (simp add: call_named_tool_def image_iff)
next
  case False
  then have n: "Some name \<notin> tool_name ` set (mcp_tools False)" using assms(1) by simp
  then have "tool_op name args = None" using assms(2) unfolding plain_names by (simp add: tool_op_def image_iff)
  then show ?thesis using n False unfolding plain_names by (simp add: call_named_tool_def image_iff)
qed

theorem unlisted_tool_refused_witness:
  "call_named_tool (go_env False) [] ''act'' go_args go_start = Some (Inl ''unknown tool act'', go_start)"
proof -
  have "Some ''act'' \<notin> tool_name ` set (mcp_tools False)" unfolding plain_names by (simp add: image_iff)
  then show ?thesis using unlisted_tool_refused [of "''act''" "go_env False"] by (simp add: go_env_def)
qed

text \<open>
  C34. The input schemas that the server announces are enforced: a call that lacks an argument its schema
  requires fails before anything is sent.
\<close>

theorem schemas_enforced:
  assumes "tool \<in> set (mcp_tools (me_instinct_on E))" "tool_name tool = Some name"
    "JStr k \<in> set (tool_required tool)" "json_get args k = None"
  shows "\<exists>e. call_named_tool E paths name args st = Some (Inl e, st)"
proof -
  have on: "me_instinct_on E" if "name \<in> {''locate'', ''act''}"
  proof (rule ccontr)
    assume "\<not> me_instinct_on E"
    then have "Some name \<in> tool_name ` set (mcp_tools False)" using assms(1,2) by force
    then show False using that unfolding plain_names by auto
  qed
  have "tool \<in> set (mcp_tools True)" using assms(1) by (auto simp: mcp_tools_def split: if_splits)
  then have "(Some name, JStr k) \<in> set (concat (map (\<lambda>t. map (\<lambda>k. (tool_name t, k)) (tool_required t)) (mcp_tools True)))"
    using assms(2,3) by force
  then have "(name, k) \<in> set required_args" unfolding required_table by auto
  then show ?thesis using assms(4) on by (rule missing_call)
qed

theorem schemas_enforced_witness:
  "\<exists>e. call_named_tool (go_env False) [] ''type'' (JObj [(''target'', JStr ''x'')]) go_start = Some (Inl e, go_start)"
proof -
  have "tool_name tool_type = Some ''type''" "JStr ''text'' \<in> set (tool_required tool_type)" by code_simp+
  moreover have "tool_type \<in> set (mcp_tools (me_instinct_on (go_env False)))" by (simp add: mcp_tools_def)
  ultimately show ?thesis by (intro schemas_enforced [of tool_type _ _ "''text''"]) simp_all
qed

text \<open>
  C35. The time limit that \<open>wait\<close> is given stays on the client: it is the limit of every later call until another
  \<open>wait\<close> changes it, and no other tool does.
\<close>

theorem wait_timeout_sticks:
  assumes "call_named_tool E paths name args st = Some (r, st')"
  shows "ac_timeout (fst st') =
    (case (if name = ''wait'' then json_u64 args ''timeout_ms'' else None) of None \<Rightarrow> ac_timeout (fst st) | Some ms \<Rightarrow> unat ms)"
proof -
  have w: "tool_op ''wait'' args = Some (Inr (OpWait None))" by (simp add: tool_op_def)
  show ?thesis
  proof (cases "tool_op name args")
    case (Some x)
    then show ?thesis
    proof (cases x)
      case (Inl e)
      then show ?thesis using assms Some w by (auto simp: call_named_tool_def)
    next
      case (Inr op)
      then obtain q where "mcp_call E op (set_wait_timeout name args st) = Some (q, st')"
        using assms Some by (auto simp: call_named_tool_def)
      then have "ac_timeout (fst st') = ac_timeout (fst (set_wait_timeout name args st))"
        using expect_keeps [of "me_tp E" op _ _ q "fst st'" "snd st'"] by (simp add: mcp_call_def)
      then show ?thesis by (simp add: set_wait_timeout_def client_with_timeout_def split: option.split)
    qed
  next
    case None
    then have n: "name \<noteq> ''wait''" using w by auto
    have "ac_timeout (fst st') = ac_timeout (fst st)"
      using assms None events_keeps [of E args st r st'] recipe_run_keeps [of E paths args st r st']
        locate_keeps [of E paths args st r st'] act_keeps [of E paths args st r st']
      by (auto simp: call_named_tool_def lift_pure_def split: if_splits)
    then show ?thesis using n by simp
  qed
qed

theorem wait_timeout_sticks_witness:
  "\<exists>r st'. call_named_tool (go_env False) [] ''wait'' (JObj [(''timeout_ms'', JInt 0)]) go_start = Some (r, st') \<and> ac_timeout (fst st') = 0"
proof -
  have "utf8_json (JObj [(''timeout_ms'', JInt 0)])" unfolding utf8_json_def by code_simp
  then obtain r st' where "call_named_tool (go_env False) [] ''wait'' (JObj [(''timeout_ms'', JInt 0)]) go_start = Some (r, st')"
    using call_named_returns [OF go_clock] by (metis not_None_eq surj_pair)
  then show ?thesis using wait_timeout_sticks by (fastforce simp: json_u64_def)
qed

text \<open>With the limit zero every operation but a wait and a scrolled capture fails before it is sent.\<close>

lemma zero_limit_fails:
  "ac_timeout c = 0 \<Longrightarrow> expect_ok tp OpHello c w = Some (Inl (gave_up c []), c\<lparr>ac_next_id := ac_next_id c + 1\<rparr>, w)"
  by (simp add: expect_ok_def rpc_op_def roundtrip_retry_def Let_def roundtrip_loop.simps [of _ _ _ _ _ _ _ w] gave_up_def)

end
