(* ===== verification/Spec2Isabelle.thy ===== *)
theory Spec2Isabelle
  imports Service Wants_Laws Run_Laws Clause_Laws Runner_Laws Resolve_Laws Mcp_Laws
begin

text \<open>
  \<^bold>\<open>gpui-agent, verified.\<close>

  gpui-agent lets an agent drive a GPUI application by its semantic UI tree.  The application runs a
  \<^emph>\<open>host\<close>: it answers one JSON request per line (take a snapshot of the tree, click a node,
  assert something, invoke a verb) over a socket.  The \<^emph>\<open>client\<close> keeps a session with a host;
  \<^emph>\<open>recipes\<close> are small programs of operations that are checked, ordered and run over the client; the
  \<^emph>\<open>policy\<close> decides from a goal in prose and the tree of the moment which operation comes next, and the
  \<^emph>\<open>runner\<close> turns these decisions into requests; the \<^emph>\<open>MCP server\<close> offers all of it as tools.
  This development models these parts as functions and step relations and proves what makes them
  correct.  This theory only imports the others; each property stands in the theory of
  its component, behind a text with its number \<open>C1\<close> to \<open>C40\<close>.

  \<^bold>\<open>Conventions.\<close>
  A Rust \<open>String\<close> is the list of its UTF-8 bytes (\<open>string\<close>); slicing that could panic off a character
  boundary is written with the check.  A \<open>Result\<close> with an error text is \<open>'a result\<close>, a sum with the very
  text of the error; a panic or a call that never returns is \<open>None\<close> of an option (the
  \<open>partial_function\<close>s) or the outcome \<open>Panics\<close>.  \<open>u64\<close>, \<open>u32\<close> and \<open>i16\<close> are words,
  \<open>f32\<close> is a type of its own with the rounding of IEEE 754 (theory \<open>Float32\<close>), a \<open>BTreeMap\<close> an association
  list kept in order (theory \<open>Prelude\<close>), \<open>serde_json::Value\<close> the type \<open>json\<close> (theory \<open>Json\<close>).  Structs are
  records, with a prefix of two letters for their fields, enums are datatypes with the constructors of the source.

  \<^bold>\<open>The host side.\<close>  (crate \<open>crates/gpui-agent\<close>)
    \<^item> \<open>Protocol\<close>, \<open>Wire\<close> (\<open>protocol.rs\<close>): the operations \<open>op\<close>, requests, answers and the texts of the
      enumerations; \<open>Ui_Tree\<close> (\<open>tree.rs\<close>): nodes, searches and the FNV-1a fingerprint; \<open>Tree_Diff\<close>
      (\<open>diff.rs\<close>): \<open>diff_trees\<close>, \<open>apply_diff\<close> and the compact form; \<open>Event_Ring\<close> (\<open>event.rs\<close>).
    \<^item> \<open>Keybinding\<close> (\<open>keybinding.rs\<close>), \<open>Security\<close> (\<open>security.rs\<close>, \<open>hmac_auth.rs\<close>), \<open>Virtual_Input\<close>
      (\<open>virtual_input.rs\<close>, \<open>screenshot.rs\<close>), \<open>Scroll_Capture\<close> (\<open>scroll_capture.rs\<close>): the tile plan, the bitmaps
      and the capture loop over a device that is an argument.
    \<^item> \<open>Host\<close> (\<open>host.rs\<close> and the \<open>TreeCache\<close> of \<open>dispatch.rs\<close>): the trait \<open>AgentHost\<close> is a record of functions
      on the state \<open>'h\<close> of a host; \<open>revision_contract\<close> is what a host owes the cache.
      \<open>Dispatch\<close> (\<open>dispatch.rs\<close>): the gate \<open>authorize_request\<close>, the handler \<open>handle_op\<close> with the cache and the
      stale gate, assertions, and the wait loops.  A wait looks at the host again and again; the readings of the clock
      at the end of each look and the state in which the host is found at the next one are the argument \<open>polls\<close>, so
      a host may change under a wait in any way, and a list that runs out is a wait that goes on.
    \<^item> \<open>Server\<close> (\<open>ndjson.rs\<close>, \<open>mailbox.rs\<close>, \<open>server.rs\<close>): the framing of lines, the mailbox, and \<open>server_step\<close>, the
      relation of all interleavings of the connections over the one host, with the counter of connections and the poisoned mutex.
      The server holds the mutex of the host during a turn: its waits look at a \<open>steady\<close> host.
      A host whose \<open>snapshot\<close> reads memory shared with other threads is covered by the laws over \<open>polls\<close>, not by those over \<open>server_step\<close>.
    \<^item> \<open>Todo\<close> (\<open>crates/todo-core/src/lib.rs\<close>): the sample host, all operations and its tree.
    \<^item> Laws: \<open>Diff_Laws\<close> (what a diff inverts), \<open>Dispatch_Laws\<close> (who passes the gate, what an assertion means, what a wait
      sees, why the cache cannot be observed), \<open>Server_Laws\<close> (what a turn can do to the host, the invariant of
      the connections, coherence of all caches), \<open>Todo_Laws\<close> (the invariant of the store and its revision
      contract, which only \<open>nav.go\<close> breaks), and \<open>Service\<close> with the properties of the whole.

  \<^bold>\<open>The client and recipes.\<close>  (\<open>client.rs\<close> and the crate \<open>crates/gpui-agent-recipe\<close>)
    \<^item> \<open>Client\<close>: sessions, exchanges, the retry loops and the pipeline.  Socket, clock and serde_json are the fields of a
      \<open>transport\<close> over a world of its own; \<open>clock_ok\<close> says that the clock does not run backwards and a
      sleep sleeps, \<open>log_ok\<close> that the world keeps the lines that were written.
    \<^item> \<open>Registry\<close> (\<open>schema.rs\<close>, \<open>registry.rs\<close>), \<open>Recipe\<close> and \<open>Wants\<close> (\<open>recipe.rs\<close>), \<open>Plan\<close> (\<open>plan.rs\<close>), \<open>Run\<close> (\<open>run.rs\<close>,
      \<open>receipt.rs\<close>), \<open>Resolve\<close> (\<open>resolve.rs\<close>, with and without the feature \<open>instinct\<close>).
    \<^item> Laws: \<open>Client_Laws\<close> (calls return; what is sent once and what twice), \<open>Plan_Laws\<close> and \<open>Recipe_Laws\<close> (the
      scheduler of the code against the layers of the dependency graph, substitution, compiled plans), \<open>Run_Laws\<close> (what a run does and reports),
      \<open>Wants_Laws\<close> (quoting and the tokenizer), \<open>Resolve_Laws\<close> (which schema wins, and the operation it becomes).

  \<^bold>\<open>The policy and the runner.\<close>  (crate \<open>crates/gpui-agent-policy\<close>)
    \<^item> \<open>Engine\<close>: what is taken from outside the repository, as records of arguments: case folding and the arbitration
      of the instinct crates.  \<open>Goal\<close>, \<open>Text_Resolver\<close>, \<open>Evidence\<close>, \<open>Action_Space\<close>, \<open>Policy\<close> (\<open>arbitration.rs\<close>,
      \<open>policy.rs\<close>), \<open>Escalate\<close> and \<open>Runner\<close> model the files of these names.
    \<^item> Laws: \<open>Space_Laws\<close> (what is offered), \<open>Policy_Laws\<close> (every decision is one of the offers and not a dangerous one, for
      the local policy, the command endpoint and their composition: locale \<open>safe_policy\<close>), \<open>Evidence_Laws\<close>, \<open>Clause_Laws\<close>,
      \<open>Runner_Laws\<close> (a decision is gated by the fingerprint of the node it was made for; a run returns).

  \<^bold>\<open>The MCP server.\<close>  (\<open>crates/gpui-agent-cli/src/mcp.rs\<close>, \<open>instinct_wiring.rs\<close>)
    \<^item> \<open>Mcp_Tools\<close>: the announced tools with their schemas; \<open>Mcp\<close>: the call of every tool, \<open>locate\<close> and \<open>act\<close> with its
      retries, and the loop over the lines of the standard input.  \<open>Mcp_Laws\<close>: what each of them sends and answers.

  \<^bold>\<open>Interfaces.\<close>
  \<open>Interfaces\<close> holds the locales \<open>invariant_ops\<close>, \<open>bounded_buffer\<close> (which extends it) and \<open>codec\<close>; the event ring, the ring
  of the cache and the mailbox are bounded buffers, the hexadecimal code a codec.  \<open>revision_contract\<close> (theory \<open>Host\<close>) is
  interpreted by the todo store for all operations but \<open>nav.go\<close>; \<open>safe_policy\<close> and \<open>safe_escalation\<close> by the policies.

  \<^bold>\<open>Bounds and fuel.\<close>
  No definition takes fuel.  Loops that end are \<open>fun\<close>s with a measure; the loops that wait for a deadline (client) or for
  the world (runner) are \<open>partial_function (option)\<close>, and that they return is proved: \<open>client_returns\<close>,
  \<open>runner_returns\<close> with a bound on the calls that follows from the caps of the run, \<open>run_outcome\<close>, \<open>mcp_serves\<close>,
  \<open>act_is_guarded\<close>.  The properties of counters assume room where the source would wrap: \<open>2 ^ 64\<close> revisions or item ids.

  \<^bold>\<open>Not modelled.\<close>
  The applications on GPUI and their headless twin, the timing programs and the test support (UI framework glue and fixtures);
  the argument parsing and process glue of the command line (\<open>main.rs\<close>, \<open>run_cmd.rs\<close>, \<open>recipe_cmd.rs\<close>); \<open>jev.rs\<close> (an
  optional SDK; its replies pass the validator that \<open>Escalate\<close> models); of \<open>discovery.rs\<close> all but the identity in
  \<open>hello\<close> (runtime directory, file locks, process probes); sockets, threads and their timeouts, the files behind
  screenshots and schemas.  serde_json's parser of requests, HMAC-SHA256, the png codec, the tables of
  Unicode and the instinct crates are arguments of the definitions that use them.
\<close>

end
